(* ===== verification/Prelude.thy ===== *)
theory Prelude
  imports Main "HOL-Library.Word"
begin

text \<open>
  Shared vocabulary of the development: the C integer types as words, the BIT macro of
  the SDK, the fact collections the component proofs use, and generic lemmas on words,
  masks and lists that no single component owns.
\<close>

unbundle bit_operations_syntax

section \<open>C integer types\<close>

type_synonym u8 = "8 word"
type_synonym u16 = "16 word"
type_synonym u32 = "32 word"

section \<open>Fact collections\<close>

named_theorems reg_simps \<open>register addresses and masks of the SDK headers\<close>
named_theorems op_defs \<open>definitions of the driver operations\<close>

section \<open>The BIT macros\<close>

definition BIT :: "nat \<Rightarrow> u32" where
  "BIT nr = push_bit nr 1"

lemma bit_BIT: "bit (BIT n) k \<longleftrightarrow> n = k \<and> n < 32"
  by (auto simp: BIT_def bit_simps)

lemma BIT_and_eq_0_iff:
  assumes n: "n < 32"
  shows "x AND BIT n = 0 \<longleftrightarrow> \<not> bit x n"
proof
  assume *: "x AND BIT n = 0"
  have "bit (x AND BIT n) n = bit (0 :: u32) n" by (simp add: *)
  with n show "\<not> bit x n" by (simp add: bit_simps bit_BIT)
next
  assume "\<not> bit x n"
  then show "x AND BIT n = 0" by (auto intro!: bit_word_eqI simp: bit_simps bit_BIT)
qed

section \<open>Masks\<close>

lemma and_not_or_and:
  fixes x m v :: "'a::len word"
  assumes "v AND m = v"
  shows "((x AND NOT m) OR v) AND m = v"
proof (rule bit_word_eqI)
  fix n
  assume "n < LENGTH('a)"
  have "bit (v AND m) n = bit v n" by (simp add: assms)
  then show "bit (((x AND NOT m) OR v) AND m) n = bit v n"
    by (auto simp: bit_simps)
qed

lemma and_not_or_and_disjoint:
  fixes x m v k :: "'a::len word"
  assumes "v AND m = v" and "m AND k = 0"
  shows "((x AND NOT m) OR v) AND k = x AND k"
proof (rule bit_word_eqI)
  fix n
  assume n: "n < LENGTH('a)"
  have "bit (v AND m) n = bit v n" and "bit (m AND k) n = bit (0::'a word) n"
    by (simp_all add: assms)
  then show "bit (((x AND NOT m) OR v) AND k) n = bit (x AND k) n"
    using n by (auto simp: bit_simps)
qed

lemma bit_u8_imp_less: "bit (v :: u8) n \<Longrightarrow> n < 8"
  using bit_imp_le_length [of v n] by simp

lemma unat_u8_less: "unat (v :: u8) < 256"
  using unsigned_less [of v] by simp

lemma unat_u16_less: "unat (v :: u16) < 65536"
  using unsigned_less [of v] by simp

lemma unat_u32_less: "unat (v :: u32) < 4294967296"
  using unsigned_less [of v] by simp

lemma ucast_u8_u32_eq [simp]: "(ucast (x :: u8) :: u32) = ucast y \<longleftrightarrow> x = y"
proof
  assume e: "(ucast x :: u32) = ucast y"
  show "x = y"
  proof (rule bit_word_eqI)
    fix n
    assume n: "n < LENGTH(8)"
    have "bit (ucast x :: u32) n = bit (ucast y :: u32) n" by (simp add: e)
    with n show "bit x n = bit y n" by (simp add: bit_ucast_iff)
  qed
qed simp

lemma and_FF: "(x :: u32) AND 0xFF = take_bit 8 x"
  using take_bit_eq_mask [of 8 x] by (simp add: mask_eq_exp_minus_1)

lemma ucast_byte: "(ucast (ucast (x :: u32) :: u8) :: u32) = x AND 0xFF"
  unfolding and_FF by (rule bit_word_eqI) (auto simp: bit_simps)

lemma ucast_and_byte: "(ucast (x AND 0xFF :: u32) :: u8) = ucast x"
  unfolding and_FF by (rule bit_word_eqI) (auto simp: bit_simps)

lemma unat_of_nat_small: "k < 2 ^ LENGTH('a::len) \<Longrightarrow> unat (of_nat k :: 'a word) = k"
  by (simp add: unsigned_of_nat take_bit_nat_eq_self)

lemma unat_minus_of_nat:
  fixes w :: "'a::len word"
  assumes "k \<le> unat w"
  shows "unat (w - of_nat k) = unat w - k"
proof -
  have "k < 2 ^ LENGTH('a)" using assms unsigned_less [of w] by (simp add: le_less_trans)
  then have k: "unat (of_nat k :: 'a word) = k" by (rule unat_of_nat_small)
  with assms have "of_nat k \<le> w" by (simp add: word_le_nat_alt)
  then show ?thesis using k by (simp add: unat_sub)
qed

lemma unat_plus_of_nat:
  fixes w :: "'a::len word"
  assumes "unat w + k < 2 ^ LENGTH('a)"
  shows "unat (w + of_nat k) = unat w + k"
proof -
  have k: "unat (of_nat k :: 'a word) = k" using assms by (intro unat_of_nat_small) simp
  with assms show ?thesis by (simp add: unat_word_ariths)
qed

section \<open>Bit fields of registers\<close>

lemma field_insert:
  fixes x v :: "'a::len word"
  assumes "h + w \<le> LENGTH('a)"
  shows "take_bit w (drop_bit h ((x AND NOT (push_bit h (mask w))) OR push_bit h v)) = take_bit w v"
  using assms
  by (intro bit_word_eqI) (auto simp: bit_simps)

lemma field_keep:
  fixes x v :: "'a::len word"
  assumes "take_bit w v = v" and "h' + w' \<le> h \<or> h + w \<le> h'"
  shows "take_bit w' (drop_bit h' ((x AND NOT (push_bit h (mask w))) OR push_bit h v)) = take_bit w' (drop_bit h' x)"
proof (rule bit_word_eqI)
  fix n
  assume "n < LENGTH('a)"
  have "\<not> bit v k" if "w \<le> k" for k
  proof -
    have "bit v k = bit (take_bit w v) k" by (simp add: assms(1))
    with that show ?thesis by (simp add: bit_simps)
  qed
  with assms(2) show "bit (take_bit w' (drop_bit h' ((x AND NOT (push_bit h (mask w))) OR push_bit h v))) n
      = bit (take_bit w' (drop_bit h' x)) n"
    by (auto simp: bit_simps dest: bit_imp_le_length)
qed

lemma take_bit_word_less: "unat v < 2 ^ w \<Longrightarrow> take_bit w (v :: 'a::len word) = v"
  by (metis take_bit_nat_eq_self unsigned_take_bit_eq word_unat_eq_iff)

section \<open>Lists\<close>

lemma last_append_singleton [simp]: "last (xs @ [x]) = x"
  by simp

lemma map_nth_upt_eq: "n = length xs \<Longrightarrow> map ((!) xs) [0..<n] = xs"
  by (simp add: map_nth)

section \<open>Loops over an index range that may fail\<close>

lemma fold_bind_None: "fold (\<lambda>i r. Option.bind r (f i)) is None = None"
  by (induction "is") simp_all

text \<open>
  The loop \<open>for (i = a; i < b; i++)\<close> with an invariant that depends on the index: if the
  body succeeds and advances the invariant, so does the loop.
\<close>

lemma fold_bind_upt:
  assumes "P a s" and "a \<le> b"
    and "\<And>i s. a \<le> i \<Longrightarrow> i < b \<Longrightarrow> P i s \<Longrightarrow> \<exists>t. f i s = Some t \<and> P (Suc i) t"
  shows "\<exists>t. fold (\<lambda>i r. Option.bind r (f i)) [a..<b] (Some s) = Some t \<and> P b t"
  using assms(2,1,3)
proof (induction b rule: dec_induct)
  case base
  then show ?case by simp
next
  case (step n)
  then obtain t where t: "fold (\<lambda>i r. Option.bind r (f i)) [a..<n] (Some s) = Some t" "P n t"
    by (meson less_Suc_eq)
  from step.prems(2) [of n t] step.hyps t show ?case by (auto simp: fold_append)
qed

lemma fold_upt_inv:
  assumes "P a s" and "a \<le> b" and "\<And>i s. a \<le> i \<Longrightarrow> i < b \<Longrightarrow> P i s \<Longrightarrow> P (Suc i) (f i s)"
  shows "P b (fold f [a..<b] s)"
  using assms(2,1,3)
  by (induction b rule: dec_induct) auto

end
