(* ===== verification/Machine.thy ===== *)
theory Machine
  imports Prelude
begin

text \<open>
  The machine the drivers run on (eagle_soc.h, gpio.h, ets_sys.h).

  A C program of this repository talks to the outside through memory mapped registers and
  through functions of the SDK and the boot ROM, whose code is not in the repository. Both
  are sources of values the program does not control and sinks of effects it cannot see.
  The state keeps, for each source, the value it shows now (\<open>cur\<close>) and the finite list of
  values the environment will put there on the next reads (\<open>feed\<close>); once the feed of a
  source is used up the source keeps its value. A store to a register replaces its current
  value. Every effect is recorded in order in \<open>trace\<close>. A register with an empty feed is a
  plain storage cell; a status register or a FIFO is one with a feed. Nothing else about
  the hardware or the SDK is assumed.
\<close>

section \<open>Names of the functions and timers the program registers\<close>

datatype cfun =
    C_uart0_rx_intr_handler | C_uart_recvTask | C_uart1_write_char
  | C_uart0_write_char_no_wait | C_uart0_write_char | C_uart_test_rx
  | C_hw_timer_isr_cb | C_hw_timer_nmi_cb
  | C_key_intr_handler | C_key_5s_cb nat | C_key_50ms_cb nat
  | C_spi_slave_isr_handler | C_hspi_master_readwrite_repeat | C_spi_task | C_hspi_overlap_read_flash_data
  | C_sdio_slave_isr
  | C_GpioUniCbk | C_DhtTimerCbk | C_mainTask | C_initSockets
  | C_heartBeatCbkGpio | C_udpHeartBeat
  | C_task1 | C_task2 | C_hw_test_timer_cb | C_dhtGpioCbk | C_ultraSCbkGpio | C_ultraSTask
  | C_UdpHeartBeatTimerCbk | C_socketStarter | C_heartBeat
  | C_HeartBeatConnCbk | C_HeartBeatReconCbk | C_daemonConnCbk | C_daemonConRecvCbk
  | C_daemonReconnCbk | C_daemonDiscCbk | C_daemonWriteFinishCbk | C_heartBeatConCbk | C_dhtTimerCbk
  | C_user_devicefind_recv | C_user nat

datatype timer =
    T_key_5s nat | T_key_50ms nat | T_buff_timer | T_spi_timer2 | T_DhtTimer | T_blink_timer | T_heartbeatTimer
  | T_dummyTimer | T_task_start_timer | T_blink_timer3 | T_daemonStartTimer
  | T_heartBeatTimer | T_blinkTimer

section \<open>Effects and sources\<close>

datatype GPIO_INT_TYPE =
    GPIO_PIN_INTR_DISABLE | GPIO_PIN_INTR_POSEDGE | GPIO_PIN_INTR_NEGEDGE
  | GPIO_PIN_INTR_ANYEDGE | GPIO_PIN_INTR_LOLEVEL | GPIO_PIN_INTR_HILEVEL

datatype event =
    Wr u32 u32                          \<comment> \<open>store to a peripheral register\<close>
  | GpioOut u32 u32 u32 u32             \<comment> \<open>gpio_output_set(set, clear, enable, disable)\<close>
  | GpioRegSet u32 u32                  \<comment> \<open>gpio_register_set(reg_id, value)\<close>
  | PinIntr u32 GPIO_INT_TYPE                \<comment> \<open>gpio_pin_intr_state_set(pin, type)\<close>
  | IsrAttach nat cfun                  \<comment> \<open>ets_isr_attach\<close>
  | IsrUnmask nat | IsrMask nat         \<comment> \<open>ets_isr_unmask, ets_isr_mask of one line\<close>
  | NmiSet cfun                         \<comment> \<open>NmiTimSetFunc\<close>
  | DelayUs u32                         \<comment> \<open>os_delay_us\<close>
  | TimerDisarm timer | TimerSetfn timer cfun | TimerArm timer u32 bool
  | TaskCreate cfun nat nat             \<comment> \<open>system_os_task(task, prio, queue length)\<close>
  | Post nat u32 u32                    \<comment> \<open>system_os_post(prio, sig, par)\<close>
  | DivModify u8 u32                    \<comment> \<open>uart_div_modify\<close>
  | InstallPutc cfun                    \<comment> \<open>os_install_putc1\<close>
  | FlashReadFunc cfun                  \<comment> \<open>spi_flash_set_read_func\<close>
  | Fired timer                         \<comment> \<open>the environment lets an armed timer expire\<close>
  | Call cfun                           \<comment> \<open>a call through a registered function pointer\<close>
  | CallData cfun u32 u32               \<comment> \<open>the same, with a buffer address and a length\<close>
  | Print string "int list"             \<comment> \<open>os_printf(format, arguments)\<close>
  | PrintStr string string              \<comment> \<open>os_printf(format, one string argument)\<close>
  | EspRegist string cfun               \<comment> \<open>an espconn callback is registered\<close>
  | Net string "int list" string        \<comment> \<open>an espconn or wifi call, its numbers and its bytes\<close>

datatype source =
    Reg u32 | GpioInput | SysTime | FreeHeap | HeapPtr | FlashMap | EspStatus | ConnInfo nat
  | Sdk string                          \<comment> \<open>what the SDK function of this name returns\<close>

record mach =
  cur :: "source \<Rightarrow> u32"
  feed :: "source \<Rightarrow> u32 list"
  trace :: "event list"

section \<open>Primitive steps\<close>

definition emit :: "event \<Rightarrow> mach \<Rightarrow> mach" where
  "emit e s = s\<lparr>trace := trace s @ [e]\<rparr>"

definition sample :: "source \<Rightarrow> mach \<Rightarrow> u32 \<times> mach" where
  "sample p s =
     (case feed s p of
        [] \<Rightarrow> (cur s p, s)
      | v # vs \<Rightarrow> (v, s\<lparr>cur := (cur s)(p := v), feed := (feed s)(p := vs)\<rparr>))"

abbreviation peri :: "mach \<Rightarrow> u32 \<Rightarrow> u32" where
  "peri s a \<equiv> cur s (Reg a)"

definition still :: "source \<Rightarrow> mach \<Rightarrow> bool" where
  "still p s \<longleftrightarrow> feed s p = []"

definition quiet :: "mach \<Rightarrow> bool" where
  "quiet s \<longleftrightarrow> (\<forall>a. feed s (Reg a) = [])"

text \<open>A machine whose sources all rest at 0 and that has done nothing yet.\<close>

definition mach0 :: mach where
  "mach0 = \<lparr>cur = (\<lambda>_. 0), feed = (\<lambda>_. []), trace = []\<rparr>"

lemma mach0_simps [simp]: "cur mach0 p = 0" "feed mach0 p = []" "trace mach0 = []"
  by (simp_all add: mach0_def)

section \<open>Register operations (eagle_soc.h)\<close>

definition READ_PERI_REG :: "u32 \<Rightarrow> mach \<Rightarrow> u32 \<times> mach" where
  "READ_PERI_REG addr s = sample (Reg addr) s"

definition WRITE_PERI_REG :: "u32 \<Rightarrow> u32 \<Rightarrow> mach \<Rightarrow> mach" where
  "WRITE_PERI_REG addr val s = emit (Wr addr val) (s\<lparr>cur := (cur s)(Reg addr := val)\<rparr>)"

definition modify_reg :: "u32 \<Rightarrow> (u32 \<Rightarrow> u32) \<Rightarrow> mach \<Rightarrow> mach" where
  "modify_reg addr f s = (case READ_PERI_REG addr s of (v, s') \<Rightarrow> WRITE_PERI_REG addr (f v) s')"

definition CLEAR_PERI_REG_MASK :: "u32 \<Rightarrow> u32 \<Rightarrow> mach \<Rightarrow> mach" where
  "CLEAR_PERI_REG_MASK reg msk s = modify_reg reg (\<lambda>v. v AND NOT msk) s"

definition SET_PERI_REG_MASK :: "u32 \<Rightarrow> u32 \<Rightarrow> mach \<Rightarrow> mach" where
  "SET_PERI_REG_MASK reg msk s = modify_reg reg (\<lambda>v. v OR msk) s"

definition SET_PERI_REG_BITS :: "u32 \<Rightarrow> u32 \<Rightarrow> u32 \<Rightarrow> nat \<Rightarrow> mach \<Rightarrow> mach" where
  "SET_PERI_REG_BITS reg bit_map val shift s =
     modify_reg reg (\<lambda>v. (v AND NOT (push_bit shift bit_map)) OR push_bit shift val) s"

section \<open>Busy waiting\<close>

text \<open>
  \<open>while (!P(READ_PERI_REG(addr)));\<close> reads until the value satisfies \<open>P\<close>. When the feed
  of the register is used up and its resting value does not satisfy \<open>P\<close>, the loop never
  ends; the result is then \<open>None\<close>.
\<close>

function wait_reg :: "u32 \<Rightarrow> (u32 \<Rightarrow> bool) \<Rightarrow> mach \<Rightarrow> mach option" where
  "wait_reg addr P s =
     (case READ_PERI_REG addr s of
        (v, s') \<Rightarrow>
          if P v then Some s'
          else if still (Reg addr) s then None
          else wait_reg addr P s')"
  by pat_completeness auto
termination
  by (relation "measure (\<lambda>(addr, P, s). length (feed s (Reg addr)))")
    (auto simp: READ_PERI_REG_def sample_def still_def split: list.splits)

declare wait_reg.simps [simp del]

section \<open>Pin multiplexing and GPIO macros\<close>

definition PERIPHS_IO_MUX :: u32 where [reg_simps]: "PERIPHS_IO_MUX = 0x60000800"
definition PERIPHS_IO_MUX_MTDI_U :: u32 where [reg_simps]: "PERIPHS_IO_MUX_MTDI_U = PERIPHS_IO_MUX + 0x04"
definition PERIPHS_IO_MUX_MTCK_U :: u32 where [reg_simps]: "PERIPHS_IO_MUX_MTCK_U = PERIPHS_IO_MUX + 0x08"
definition PERIPHS_IO_MUX_MTMS_U :: u32 where [reg_simps]: "PERIPHS_IO_MUX_MTMS_U = PERIPHS_IO_MUX + 0x0c"
definition PERIPHS_IO_MUX_MTDO_U :: u32 where [reg_simps]: "PERIPHS_IO_MUX_MTDO_U = PERIPHS_IO_MUX + 0x10"
definition PERIPHS_IO_MUX_U0RXD_U :: u32 where [reg_simps]: "PERIPHS_IO_MUX_U0RXD_U = PERIPHS_IO_MUX + 0x14"
definition PERIPHS_IO_MUX_U0TXD_U :: u32 where [reg_simps]: "PERIPHS_IO_MUX_U0TXD_U = PERIPHS_IO_MUX + 0x18"
definition PERIPHS_IO_MUX_SD_CLK_U :: u32 where [reg_simps]: "PERIPHS_IO_MUX_SD_CLK_U = PERIPHS_IO_MUX + 0x1c"
definition PERIPHS_IO_MUX_SD_DATA0_U :: u32 where [reg_simps]: "PERIPHS_IO_MUX_SD_DATA0_U = PERIPHS_IO_MUX + 0x20"
definition PERIPHS_IO_MUX_SD_DATA1_U :: u32 where [reg_simps]: "PERIPHS_IO_MUX_SD_DATA1_U = PERIPHS_IO_MUX + 0x24"
definition PERIPHS_IO_MUX_SD_DATA2_U :: u32 where [reg_simps]: "PERIPHS_IO_MUX_SD_DATA2_U = PERIPHS_IO_MUX + 0x28"
definition PERIPHS_IO_MUX_SD_DATA3_U :: u32 where [reg_simps]: "PERIPHS_IO_MUX_SD_DATA3_U = PERIPHS_IO_MUX + 0x2c"
definition PERIPHS_IO_MUX_SD_CMD_U :: u32 where [reg_simps]: "PERIPHS_IO_MUX_SD_CMD_U = PERIPHS_IO_MUX + 0x30"
definition PERIPHS_IO_MUX_GPIO0_U :: u32 where [reg_simps]: "PERIPHS_IO_MUX_GPIO0_U = PERIPHS_IO_MUX + 0x34"
definition PERIPHS_IO_MUX_GPIO2_U :: u32 where [reg_simps]: "PERIPHS_IO_MUX_GPIO2_U = PERIPHS_IO_MUX + 0x38"
definition PERIPHS_IO_MUX_GPIO4_U :: u32 where [reg_simps]: "PERIPHS_IO_MUX_GPIO4_U = PERIPHS_IO_MUX + 0x3c"
definition PERIPHS_IO_MUX_GPIO5_U :: u32 where [reg_simps]: "PERIPHS_IO_MUX_GPIO5_U = PERIPHS_IO_MUX + 0x40"
definition FUNC_GPIO12 :: u32 where [reg_simps]: "FUNC_GPIO12 = 3"
definition FUNC_GPIO13 :: u32 where [reg_simps]: "FUNC_GPIO13 = 3"
definition FUNC_GPIO14 :: u32 where [reg_simps]: "FUNC_GPIO14 = 3"
definition FUNC_GPIO15 :: u32 where [reg_simps]: "FUNC_GPIO15 = 3"
definition FUNC_GPIO3 :: u32 where [reg_simps]: "FUNC_GPIO3 = 3"
definition FUNC_U0TXD :: u32 where [reg_simps]: "FUNC_U0TXD = 0"
definition FUNC_U0RTS :: u32 where [reg_simps]: "FUNC_U0RTS = 4"
definition FUNC_GPIO0 :: u32 where [reg_simps]: "FUNC_GPIO0 = 0"
definition FUNC_GPIO2 :: u32 where [reg_simps]: "FUNC_GPIO2 = 0"
definition FUNC_U1TXD_BK :: u32 where [reg_simps]: "FUNC_U1TXD_BK = 2"
definition FUNC_GPIO4 :: u32 where [reg_simps]: "FUNC_GPIO4 = 0"
definition FUNC_GPIO5 :: u32 where [reg_simps]: "FUNC_GPIO5 = 0"

definition PERIPHS_IO_MUX_FUNC :: u32 where [reg_simps]: "PERIPHS_IO_MUX_FUNC = 0x13"
definition PERIPHS_IO_MUX_PULLUP :: u32 where [reg_simps]: "PERIPHS_IO_MUX_PULLUP = 0x80"

definition pin_func_bits :: "u32 \<Rightarrow> u32" where
  "pin_func_bits func = push_bit 4 (push_bit 2 (func AND 4) OR (func AND 3))"

definition PIN_FUNC_SELECT :: "u32 \<Rightarrow> u32 \<Rightarrow> mach \<Rightarrow> mach" where
  "PIN_FUNC_SELECT pin func s =
     modify_reg pin (\<lambda>v. (v AND NOT (push_bit 4 PERIPHS_IO_MUX_FUNC)) OR pin_func_bits func) s"

definition PIN_PULLUP_DIS :: "u32 \<Rightarrow> mach \<Rightarrow> mach" where
  "PIN_PULLUP_DIS pin s = CLEAR_PERI_REG_MASK pin PERIPHS_IO_MUX_PULLUP s"

definition GPIO_BASE :: u32 where [reg_simps]: "GPIO_BASE = 0x60000300"
definition GPIO_ENABLE_ADDRESS :: u32 where [reg_simps]: "GPIO_ENABLE_ADDRESS = 0x0c"
definition GPIO_STATUS_ADDRESS :: u32 where [reg_simps]: "GPIO_STATUS_ADDRESS = 0x1c"
definition GPIO_STATUS_W1TC_ADDRESS :: u32 where [reg_simps]: "GPIO_STATUS_W1TC_ADDRESS = 0x24"

definition GPIO_PIN_ADDR :: "u32 \<Rightarrow> u32" where
  "GPIO_PIN_ADDR i = 0x28 + i * 4"

definition GPIO_REG_READ :: "u32 \<Rightarrow> mach \<Rightarrow> u32 \<times> mach" where
  "GPIO_REG_READ reg s = READ_PERI_REG (GPIO_BASE + reg) s"

definition GPIO_REG_WRITE :: "u32 \<Rightarrow> u32 \<Rightarrow> mach \<Rightarrow> mach" where
  "GPIO_REG_WRITE reg val s = WRITE_PERI_REG (GPIO_BASE + reg) val s"

fun gpio_int_type_val :: "GPIO_INT_TYPE \<Rightarrow> u32" where
  "gpio_int_type_val GPIO_PIN_INTR_DISABLE = 0"
| "gpio_int_type_val GPIO_PIN_INTR_POSEDGE = 1"
| "gpio_int_type_val GPIO_PIN_INTR_NEGEDGE = 2"
| "gpio_int_type_val GPIO_PIN_INTR_ANYEDGE = 3"
| "gpio_int_type_val GPIO_PIN_INTR_LOLEVEL = 4"
| "gpio_int_type_val GPIO_PIN_INTR_HILEVEL = 5"

definition GPIO_PIN_INT_TYPE_SET :: "u32 \<Rightarrow> u32" where
  "GPIO_PIN_INT_TYPE_SET x = push_bit 7 x AND 0x380"

definition GPIO_PAD_DRIVER_ENABLE :: u32 where "GPIO_PAD_DRIVER_ENABLE = 1"
definition GPIO_PAD_DRIVER_DISABLE :: u32 where
  "GPIO_PAD_DRIVER_DISABLE = NOT GPIO_PAD_DRIVER_ENABLE"

definition GPIO_PIN_PAD_DRIVER_SET :: "u32 \<Rightarrow> u32" where
  "GPIO_PIN_PAD_DRIVER_SET x = push_bit 2 x AND 4"

definition GPIO_AS_PIN_SOURCE :: u32 where "GPIO_AS_PIN_SOURCE = 0"

definition GPIO_PIN_SOURCE_SET :: "u32 \<Rightarrow> u32" where
  "GPIO_PIN_SOURCE_SET x = push_bit 0 x AND 1"

definition GPIO_OUTPUT_SET :: "nat \<Rightarrow> u32 \<Rightarrow> mach \<Rightarrow> mach" where
  "GPIO_OUTPUT_SET gpio_no bit_value s =
     emit (GpioOut (push_bit gpio_no bit_value) (push_bit gpio_no (NOT bit_value AND 1))
            (push_bit gpio_no 1) 0) s"

definition GPIO_DIS_OUTPUT :: "nat \<Rightarrow> mach \<Rightarrow> mach" where
  "GPIO_DIS_OUTPUT gpio_no s = emit (GpioOut 0 0 0 (push_bit gpio_no 1)) s"

definition GPIO_INPUT_GET :: "nat \<Rightarrow> mach \<Rightarrow> u32 \<times> mach" where
  "GPIO_INPUT_GET gpio_no s =
     (case sample GpioInput s of (v, s') \<Rightarrow> (drop_bit gpio_no v AND 1, s'))"

definition UART_CLK_FREQ :: u32 where "UART_CLK_FREQ = 80 * 1000000"

text \<open>The configuration word the drivers give an input pin: no interrupt, no pad driver, GPIO as source.\<close>

definition gpio_pin_input_conf :: u32 where
  "gpio_pin_input_conf =
     GPIO_PIN_INT_TYPE_SET (gpio_int_type_val GPIO_PIN_INTR_DISABLE)
       OR GPIO_PIN_PAD_DRIVER_SET GPIO_PAD_DRIVER_DISABLE
       OR GPIO_PIN_SOURCE_SET GPIO_AS_PIN_SOURCE"

section \<open>Interrupt lines (ets_sys.h)\<close>

definition ETS_SDIO_INUM :: nat where "ETS_SDIO_INUM = 1"
definition ETS_SPI_INUM :: nat where "ETS_SPI_INUM = 2"
definition ETS_GPIO_INUM :: nat where "ETS_GPIO_INUM = 4"
definition ETS_UART_INUM :: nat where "ETS_UART_INUM = 5"
definition ETS_FRC_TIMER1_INUM :: nat where "ETS_FRC_TIMER1_INUM = 9"

definition ETS_INTR_ENABLE :: "nat \<Rightarrow> mach \<Rightarrow> mach" where
  "ETS_INTR_ENABLE inum s = emit (IsrUnmask inum) s"

definition ETS_INTR_DISABLE :: "nat \<Rightarrow> mach \<Rightarrow> mach" where
  "ETS_INTR_DISABLE inum s = emit (IsrMask inum) s"

section \<open>What the trace says of timers and pin interrupts\<close>

text \<open>
  The software timers and the interrupt types of the pins live in the SDK; what they are at
  any moment follows from the calls made so far. A timer that was armed with the repeat flag
  stays armed when it fires.
\<close>

fun timer_step :: "event \<Rightarrow> (timer \<Rightarrow> bool option) \<Rightarrow> timer \<Rightarrow> bool option" where
  "timer_step (TimerArm t ms rep) m = m(t := Some rep)"
| "timer_step (TimerDisarm t) m = m(t := None)"
| "timer_step (Fired t) m = (if m t = Some False then m(t := None) else m)"
| "timer_step _ m = m"

definition armed :: "timer \<Rightarrow> mach \<Rightarrow> bool" where
  "armed t s \<longleftrightarrow> fold timer_step (trace s) (\<lambda>_. None) t \<noteq> None"

fun pin_step :: "event \<Rightarrow> (u32 \<Rightarrow> GPIO_INT_TYPE) \<Rightarrow> u32 \<Rightarrow> GPIO_INT_TYPE" where
  "pin_step (PinIntr p t) m = m(p := t)"
| "pin_step _ m = m"

definition pin_intr :: "u32 \<Rightarrow> mach \<Rightarrow> GPIO_INT_TYPE" where
  "pin_intr p s = fold pin_step (trace s) (\<lambda>_. GPIO_PIN_INTR_DISABLE) p"

section \<open>Laws of the machine\<close>

lemma emit_simps [simp]:
  "cur (emit e s) = cur s" "feed (emit e s) = feed s" "trace (emit e s) = trace s @ [e]"
  by (simp_all add: emit_def)

lemma armed_emit [simp]: "armed t (emit e s) \<longleftrightarrow>
    (case e of TimerArm u ms r \<Rightarrow> u = t \<or> armed t s
     | TimerDisarm u \<Rightarrow> u \<noteq> t \<and> armed t s
     | Fired u \<Rightarrow> if u = t then fold timer_step (trace s) (\<lambda>_. None) t = Some True else armed t s
     | _ \<Rightarrow> armed t s)"
  by (cases e) (auto simp: armed_def)

lemma pin_intr_emit [simp]:
  "pin_intr p (emit e s) = pin_step e (\<lambda>q. pin_intr q s) p"
  by (cases e) (simp_all add: pin_intr_def)

lemma quiet_mach0 [simp]: "quiet mach0" and still_mach0 [simp]: "still p mach0"
  by (simp_all add: quiet_def still_def)

lemma quiet_emit [simp]: "quiet (emit e s) = quiet s"
  by (simp add: quiet_def)

lemma still_emit [simp]: "still p (emit e s) = still p s"
  by (simp add: still_def)

lemma quiet_imp_still [simp]: "quiet s \<Longrightarrow> still (Reg a) s"
  by (simp add: quiet_def still_def)

lemma sample_still [simp]: "still p s \<Longrightarrow> sample p s = (cur s p, s)"
  by (simp add: sample_def still_def)

lemma sample_feed: "feed s p = v # vs \<Longrightarrow>
  sample p s = (v, s\<lparr>cur := (cur s)(p := v), feed := (feed s)(p := vs)\<rparr>)"
  by (simp add: sample_def)

lemma sample_trace: "sample p s = (v, s') \<Longrightarrow> trace s' = trace s"
  by (auto simp: sample_def split: list.splits)

lemma trace_cong:
  assumes "trace s' = trace s"
  shows "armed t s' = armed t s" and "pin_intr p s' = pin_intr p s"
  using assms by (simp_all add: armed_def pin_intr_def)

lemma READ_still [simp]: "still (Reg a) s \<Longrightarrow> READ_PERI_REG a s = (peri s a, s)"
  by (simp add: READ_PERI_REG_def)

lemma WRITE_simps [simp]:
  "cur (WRITE_PERI_REG a v s) = (cur s)(Reg a := v)"
  "feed (WRITE_PERI_REG a v s) = feed s"
  "trace (WRITE_PERI_REG a v s) = trace s @ [Wr a v]"
  by (simp_all add: WRITE_PERI_REG_def)

lemma quiet_WRITE [simp]: "quiet (WRITE_PERI_REG a v s) = quiet s"
  by (simp add: quiet_def)

lemma still_WRITE [simp]: "still p (WRITE_PERI_REG a v s) = still p s"
  by (simp add: still_def)

text \<open>A read-modify-write of a register that has no feed is a plain update.\<close>

lemma modify_reg_still:
  "still (Reg a) s \<Longrightarrow> modify_reg a f s = WRITE_PERI_REG a (f (peri s a)) s"
  by (simp add: modify_reg_def)

lemma modify_reg_simps:
  assumes "still (Reg a) s"
  shows "cur (modify_reg a f s) = (cur s)(Reg a := f (peri s a))"
    "feed (modify_reg a f s) = feed s"
    "trace (modify_reg a f s) = trace s @ [Wr a (f (peri s a))]"
  using assms by (simp_all add: modify_reg_still)

lemmas rmw_defs = CLEAR_PERI_REG_MASK_def SET_PERI_REG_MASK_def SET_PERI_REG_BITS_def
  PIN_FUNC_SELECT_def

lemma CLEAR_simps [simp]:
  assumes "still (Reg a) s"
  shows "cur (CLEAR_PERI_REG_MASK a m s) = (cur s)(Reg a := peri s a AND NOT m)"
    "feed (CLEAR_PERI_REG_MASK a m s) = feed s"
    "trace (CLEAR_PERI_REG_MASK a m s) = trace s @ [Wr a (peri s a AND NOT m)]"
  using assms by (simp_all add: rmw_defs modify_reg_simps)

lemma SET_simps [simp]:
  assumes "still (Reg a) s"
  shows "cur (SET_PERI_REG_MASK a m s) = (cur s)(Reg a := peri s a OR m)"
    "feed (SET_PERI_REG_MASK a m s) = feed s"
    "trace (SET_PERI_REG_MASK a m s) = trace s @ [Wr a (peri s a OR m)]"
  using assms by (simp_all add: rmw_defs modify_reg_simps)

lemma SET_BITS_simps [simp]:
  assumes "still (Reg a) s"
  shows "cur (SET_PERI_REG_BITS a bm v n s) =
      (cur s)(Reg a := (peri s a AND NOT (push_bit n bm)) OR push_bit n v)"
    "feed (SET_PERI_REG_BITS a bm v n s) = feed s"
    "trace (SET_PERI_REG_BITS a bm v n s) =
      trace s @ [Wr a ((peri s a AND NOT (push_bit n bm)) OR push_bit n v)]"
  using assms by (simp_all add: rmw_defs modify_reg_simps)

lemma PIN_FUNC_simps [simp]:
  assumes "still (Reg a) s"
  shows "cur (PIN_FUNC_SELECT a f s) =
      (cur s)(Reg a := (peri s a AND NOT (push_bit 4 PERIPHS_IO_MUX_FUNC)) OR pin_func_bits f)"
    "feed (PIN_FUNC_SELECT a f s) = feed s"
    "trace (PIN_FUNC_SELECT a f s) =
      trace s @ [Wr a ((peri s a AND NOT (push_bit 4 PERIPHS_IO_MUX_FUNC)) OR pin_func_bits f)]"
  using assms by (simp_all add: rmw_defs modify_reg_simps)

lemma still_modify_reg:
  "still p s \<Longrightarrow> still p (modify_reg a f s)"
  by (auto simp: modify_reg_def READ_PERI_REG_def sample_def still_def split: list.splits)

lemma still_rmw [simp]:
  "still p s \<Longrightarrow> still p (CLEAR_PERI_REG_MASK a m s)"
  "still p s \<Longrightarrow> still p (SET_PERI_REG_MASK a m s)"
  "still p s \<Longrightarrow> still p (SET_PERI_REG_BITS a m v n s)"
  "still p s \<Longrightarrow> still p (PIN_FUNC_SELECT a v s)"
  by (simp_all add: rmw_defs still_modify_reg)

lemma feed_modify_reg: "p \<noteq> Reg a \<Longrightarrow> feed (modify_reg a f s) p = feed s p"
  by (auto simp: modify_reg_def READ_PERI_REG_def sample_def split: list.splits)

lemma feed_rmw [simp]:
  assumes "p \<noteq> Reg a"
  shows "feed (CLEAR_PERI_REG_MASK a m s) p = feed s p" "feed (SET_PERI_REG_MASK a m s) p = feed s p"
    "feed (SET_PERI_REG_BITS a m v n s) p = feed s p" "feed (PIN_FUNC_SELECT a v s) p = feed s p"
  using assms by (simp_all add: rmw_defs feed_modify_reg)

lemma quiet_still: "quiet s \<longleftrightarrow> (\<forall>a. still (Reg a) s)"
  by (simp add: quiet_def still_def)

lemma quiet_rmw [simp]:
  "quiet s \<Longrightarrow> quiet (CLEAR_PERI_REG_MASK a m s)"
  "quiet s \<Longrightarrow> quiet (SET_PERI_REG_MASK a m s)"
  "quiet s \<Longrightarrow> quiet (SET_PERI_REG_BITS a m v n s)"
  "quiet s \<Longrightarrow> quiet (PIN_FUNC_SELECT a v s)"
  by (simp_all add: quiet_still)

section \<open>Laws of busy waiting\<close>

lemma wait_reg_still:
  "still (Reg a) s \<Longrightarrow> wait_reg a P s = (if P (peri s a) then Some s else None)"
  by (subst wait_reg.simps) simp

lemma wait_reg_feed:
  assumes "feed s (Reg a) = v # vs"
  defines "s' \<equiv> s\<lparr>cur := (cur s)(Reg a := v), feed := (feed s)(Reg a := vs)\<rparr>"
  shows "wait_reg a P s = (if P v then Some s' else wait_reg a P s')"
proof -
  from assms have "READ_PERI_REG a s = (v, s')" and "\<not> still (Reg a) s"
    by (simp_all add: READ_PERI_REG_def sample_feed still_def)
  then show ?thesis by (subst wait_reg.simps) auto
qed

lemma wait_reg_SomeD:
  "wait_reg a P s = Some t \<Longrightarrow>
     P (peri t a) \<and> trace t = trace s \<and> (\<forall>p. p \<noteq> Reg a \<longrightarrow> cur t p = cur s p \<and> feed t p = feed s p)"
proof (induction "feed s (Reg a)" arbitrary: s)
  case Nil
  then have "still (Reg a) s" by (simp add: still_def)
  with Nil.prems show ?case by (auto simp: wait_reg_still split: if_splits)
next
  case (Cons v vs)
  let ?s = "s\<lparr>cur := (cur s)(Reg a := v), feed := (feed s)(Reg a := vs)\<rparr>"
  have w: "(if P v then Some ?s else wait_reg a P ?s) = Some t"
    using Cons.prems wait_reg_feed [OF Cons.hyps(2) [symmetric], of P] by simp
  show ?case
  proof (cases "P v")
    case True
    with w show ?thesis by auto
  next
    case False
    with w have "wait_reg a P ?s = Some t" by simp
    with Cons.hyps(1) [of ?s] show ?thesis by auto
  qed
qed

text \<open>The loop ends exactly when a value that satisfies the condition is going to appear.\<close>

lemma wait_reg_ends:
  "wait_reg a P s \<noteq> None \<longleftrightarrow>
     (if feed s (Reg a) = [] then P (peri s a) else (\<exists>v \<in> set (feed s (Reg a)). P v))"
proof (induction "feed s (Reg a)" arbitrary: s)
  case Nil
  then have "still (Reg a) s" by (simp add: still_def)
  with Nil show ?case by (simp add: wait_reg_still)
next
  case (Cons v vs)
  let ?s = "s\<lparr>cur := (cur s)(Reg a := v), feed := (feed s)(Reg a := vs)\<rparr>"
  have "wait_reg a P s = (if P v then Some ?s else wait_reg a P ?s)"
    by (rule wait_reg_feed [OF Cons.hyps(2) [symmetric]])
  with Cons.hyps(1) [of ?s] show ?case
    by (auto simp flip: Cons.hyps(2))
qed

text \<open>A loop whose condition fails for the values of a prefix of the feed and holds for the next one.\<close>

lemma wait_reg_prefix:
  assumes "feed s (Reg a) = b @ v # rest" and "\<forall>x \<in> set b. \<not> P x" and "P v"
  shows "wait_reg a P s = Some (s\<lparr>cur := (cur s)(Reg a := v), feed := (feed s)(Reg a := rest)\<rparr>)"
  using assms(1,2)
proof (induction b arbitrary: s)
  case Nil
  then show ?case using assms(3) wait_reg_feed [of s a v rest P] by (simp add: fun_upd_def)
next
  case (Cons x b)
  let ?s = "s\<lparr>cur := (cur s)(Reg a := x), feed := (feed s)(Reg a := b @ v # rest)\<rparr>"
  have "wait_reg a P s = wait_reg a P ?s"
    using wait_reg_feed [of s a x "b @ v # rest" P] Cons.prems by simp
  with Cons.IH [of ?s] Cons.prems show ?case by (simp add: fun_upd_def cong: if_cong)
qed

end
