(* ===== verification/Gpio16.thy ===== *)
theory Gpio16
  imports Machine
begin

text \<open>
  GPIO16 (driver/gpio16.c): the pin sits in the RTC block and is driven through five RTC
  registers. The properties say what the configuration functions leave in the registers and
  that they touch nothing else.
\<close>

definition RTC_GPIO_OUT :: u32 where [reg_simps]: "RTC_GPIO_OUT = 0x60000768"
definition RTC_GPIO_ENABLE :: u32 where [reg_simps]: "RTC_GPIO_ENABLE = 0x60000774"
definition RTC_GPIO_IN_DATA :: u32 where [reg_simps]: "RTC_GPIO_IN_DATA = 0x6000078C"
definition RTC_GPIO_CONF :: u32 where [reg_simps]: "RTC_GPIO_CONF = 0x60000790"
definition PAD_XPD_DCDC_CONF :: u32 where [reg_simps]: "PAD_XPD_DCDC_CONF = 0x600007A0"

definition gpio16_output_conf :: "mach \<Rightarrow> mach" where
  "gpio16_output_conf s =
    (let s = modify_reg PAD_XPD_DCDC_CONF (\<lambda>v. (v AND 0xffffffbc) OR 1) s;
         s = modify_reg RTC_GPIO_CONF (\<lambda>v. (v AND 0xfffffffe) OR 0) s;
         s = modify_reg RTC_GPIO_ENABLE (\<lambda>v. (v AND 0xfffffffe) OR 1) s
     in s)"

definition gpio16_output_set :: "u8 \<Rightarrow> mach \<Rightarrow> mach" where
  "gpio16_output_set val s =
     modify_reg RTC_GPIO_OUT (\<lambda>v. (v AND 0xfffffffe) OR ucast (val AND 1)) s"

definition gpio16_input_conf :: "mach \<Rightarrow> mach" where
  "gpio16_input_conf s =
    (let s = modify_reg PAD_XPD_DCDC_CONF (\<lambda>v. (v AND 0xffffffbc) OR 1) s;
         s = modify_reg RTC_GPIO_CONF (\<lambda>v. (v AND 0xfffffffe) OR 0) s;
         s = modify_reg RTC_GPIO_ENABLE (\<lambda>v. v AND 0xfffffffe) s
     in s)"

definition gpio16_input_get :: "mach \<Rightarrow> u8 \<times> mach" where
  "gpio16_input_get s =
     (case READ_PERI_REG RTC_GPIO_IN_DATA s of (v, s') \<Rightarrow> (ucast (v AND 1), s'))"

lemmas gpio16_defs = gpio16_output_conf_def gpio16_output_set_def gpio16_input_conf_def

lemma bit_mask_fffffffe: "bit (0xfffffffe :: u32) n \<longleftrightarrow> 0 < n \<and> n < 32"
proof -
  have e: "(0xfffffffe :: u32) = NOT 1" by simp
  have "bit (NOT (1 :: u32)) n \<longleftrightarrow> 0 < n \<and> n < 32"
    by (auto simp only: bit_not_iff possible_bit_word bit_1_iff len_num1 len_bit0 len_bit1
        mult_1_right)
  then show ?thesis by (simp only: e)
qed

lemma bit_int_fffffffe: "n < 32 \<Longrightarrow> bit (0xfffffffe :: int) n \<longleftrightarrow> 0 < n"
  using bit_mask_fffffffe [of n] by simp

lemma replace_bit0:
  "bit ((v AND 0xfffffffe) OR w :: u32) n \<longleftrightarrow> (if n = 0 then bit w 0 else bit v n \<or> bit w n)"
  by (auto simp: bit_and_iff bit_or_iff bit_int_fffffffe dest: bit_imp_le_length)

text \<open>
  Configuring the pin as an output and setting it drives bit 0 of the output register to the
  low bit of the value and enables the output; no other bit of the output and enable
  registers and no register outside the four of the pin changes.
\<close>

lemma gpio16_output_regs:
  fixes s :: mach and v :: u8
  assumes "quiet s"
  defines "t \<equiv> gpio16_output_set v (gpio16_output_conf s)"
  shows "bit (peri t RTC_GPIO_OUT) n =
      (if n = 0 then bit v 0 else bit (peri s RTC_GPIO_OUT) n)"
    "bit (peri t RTC_GPIO_ENABLE) n = (n = 0 \<or> bit (peri s RTC_GPIO_ENABLE) n)"
    "bit (peri t RTC_GPIO_CONF) n = (n \<noteq> 0 \<and> bit (peri s RTC_GPIO_CONF) n)"
    "p \<notin> Reg ` {PAD_XPD_DCDC_CONF, RTC_GPIO_CONF, RTC_GPIO_ENABLE, RTC_GPIO_OUT} \<Longrightarrow>
      cur t p = cur s p"
  using assms(1) unfolding t_def gpio16_defs Let_def
  by (auto simp: modify_reg_still replace_bit0 bit_int_fffffffe reg_simps bit_simps bit_1_iff
      dest: bit_imp_le_length)

end
