(* ===== verification/HwTimer.thy ===== *)
theory HwTimer
  imports Machine
begin

text \<open>
  The FRC1 hardware timer (driver/hw_timer.c): the conversion of microseconds to timer
  ticks, arming, and the dispatch of the timer interrupt to the user's callback.
\<close>

definition APB_CLK_FREQ :: u32 where "APB_CLK_FREQ = 80 * 1000000"

definition US_TO_RTC_TIMER_TICKS :: "u32 \<Rightarrow> u32" where
  "US_TO_RTC_TIMER_TICKS t =
     (if t \<noteq> 0 then
        (if t > 0x35A
         then drop_bit 2 t * (drop_bit 4 APB_CLK_FREQ div 250000)
              + (t AND 3) * (drop_bit 4 APB_CLK_FREQ div 1000000)
         else (t * drop_bit 4 APB_CLK_FREQ) div 1000000)
      else 0)"

datatype FRC1_TIMER_SOURCE_TYPE = FRC1_SOURCE | NMI_SOURCE

definition FRC1_ENABLE_TIMER :: u32 where [reg_simps]: "FRC1_ENABLE_TIMER = 0x80"
definition FRC1_AUTO_LOAD :: u32 where [reg_simps]: "FRC1_AUTO_LOAD = 0x40"
definition DIVDED_BY_16 :: u32 where [reg_simps]: "DIVDED_BY_16 = 4"
definition TM_EDGE_INT :: u32 where [reg_simps]: "TM_EDGE_INT = 0"
definition PERIPHS_TIMER_BASEDDR :: u32 where [reg_simps]: "PERIPHS_TIMER_BASEDDR = 0x60000600"
definition FRC1_LOAD_ADDRESS :: u32 where [reg_simps]: "FRC1_LOAD_ADDRESS = 0x00"
definition FRC1_CTRL_ADDRESS :: u32 where [reg_simps]: "FRC1_CTRL_ADDRESS = 0x08"
definition EDGE_INT_ENABLE_REG :: u32 where [reg_simps]: "EDGE_INT_ENABLE_REG = 0x3ff00004"

definition RTC_REG_WRITE :: "u32 \<Rightarrow> u32 \<Rightarrow> mach \<Rightarrow> mach" where
  "RTC_REG_WRITE addr val s = WRITE_PERI_REG (PERIPHS_TIMER_BASEDDR + addr) val s"

record hwt =
  user_hw_timer_cb :: "cfun option"
  ht_hw :: mach

definition hw_timer_arm :: "u32 \<Rightarrow> hwt \<Rightarrow> hwt" where
  "hw_timer_arm val st =
     st\<lparr>ht_hw := RTC_REG_WRITE FRC1_LOAD_ADDRESS (US_TO_RTC_TIMER_TICKS val) (ht_hw st)\<rparr>"

definition hw_timer_set_func :: "cfun option \<Rightarrow> hwt \<Rightarrow> hwt" where
  "hw_timer_set_func f st = st\<lparr>user_hw_timer_cb := f\<rparr>"

definition hw_timer_isr_cb :: "hwt \<Rightarrow> hwt" where
  "hw_timer_isr_cb st =
     (case user_hw_timer_cb st of
        Some f \<Rightarrow> st\<lparr>ht_hw := emit (Call f) (ht_hw st)\<rparr>
      | None \<Rightarrow> st)"

definition hw_timer_nmi_cb :: "hwt \<Rightarrow> hwt" where
  "hw_timer_nmi_cb st =
     (case user_hw_timer_cb st of
        Some f \<Rightarrow> st\<lparr>ht_hw := emit (Call f) (ht_hw st)\<rparr>
      | None \<Rightarrow> st)"

definition hw_timer_init :: "FRC1_TIMER_SOURCE_TYPE \<Rightarrow> u8 \<Rightarrow> hwt \<Rightarrow> hwt" where
  "hw_timer_init source_type req st =
    (let s = ht_hw st;
         s = (if req = 1
              then RTC_REG_WRITE FRC1_CTRL_ADDRESS
                     (FRC1_AUTO_LOAD OR DIVDED_BY_16 OR FRC1_ENABLE_TIMER OR TM_EDGE_INT) s
              else RTC_REG_WRITE FRC1_CTRL_ADDRESS
                     (DIVDED_BY_16 OR FRC1_ENABLE_TIMER OR TM_EDGE_INT) s);
         s = (case source_type of
                NMI_SOURCE \<Rightarrow> emit (NmiSet C_hw_timer_nmi_cb) s
              | FRC1_SOURCE \<Rightarrow> emit (IsrAttach ETS_FRC_TIMER1_INUM C_hw_timer_isr_cb) s);
         s = SET_PERI_REG_MASK EDGE_INT_ENABLE_REG (BIT 1) s;
         s = ETS_INTR_ENABLE ETS_FRC_TIMER1_INUM s
     in st\<lparr>ht_hw := s\<rparr>)"

section \<open>Ticks\<close>

lemma word_split_low2: "(t :: u32) = drop_bit 2 t * 4 + (t AND 3)"
proof -
  have "t AND 3 = take_bit 2 t"
    using take_bit_eq_mask [of 2 t] by (simp add: mask_eq_exp_minus_1)
  moreover have "push_bit 2 (drop_bit 2 t) + take_bit 2 t = t"
    by (rule bits_ident)
  ultimately show ?thesis by (simp add: push_bit_eq_mult)
qed

lemma ticks_long: "drop_bit 2 t * 20 + (t AND 3) * 5 = 5 * (t :: u32)"
proof -
  have "5 * t = 5 * (drop_bit 2 t * 4 + (t AND 3))"
    using word_split_low2 [of t] by simp
  then show ?thesis by (simp add: algebra_simps)
qed

lemma ticks_short:
  assumes "t \<le> (0x35A :: u32)"
  shows "(t * 5000000) div 1000000 = 5 * t"
proof -
  have t: "unat t \<le> 858" using assms by (simp add: word_le_nat_alt)
  then have m: "unat (t * 5000000) = unat t * 5000000"
    by (simp add: unat_word_ariths)
  have "unat ((t * 5000000) div 1000000) = unat (5 * t)"
    using t by (simp add: unat_div m unat_word_ariths)
  then show ?thesis by (simp add: word_unat_eq_iff)
qed

text \<open>
  The conversion of microseconds to ticks computes five ticks per microsecond for every
  32-bit argument (modulo \<open>2^32\<close>), in both of its branches; the bound 0x35A at which it
  switches formula is the largest one for which the direct formula is right.
\<close>

theorem ticks_correct:
  "US_TO_RTC_TIMER_TICKS t = 5 * t
   \<and> (0x35B * drop_bit 4 APB_CLK_FREQ) div 1000000 \<noteq> 5 * (0x35B :: u32)"
  by (auto simp: US_TO_RTC_TIMER_TICKS_def APB_CLK_FREQ_def ticks_long ticks_short not_less)

end
