(* ===== verification/I2cMaster.thy ===== *)
theory I2cMaster
  imports Machine
begin

text \<open>
  The bit-banged I2C master (driver/i2c_master.c, driver/i2c_master.h): two open-drain pins
  driven with \<open>gpio_output_set\<close> and microsecond delays. The contract of the driver is the
  waveform, so the second half of the theory is an independent decoder of the two wires
  (START, STOP and clocked bits) and an abstract bus model that the operations refine.
\<close>

section \<open>The driver\<close>

record i2c =
  m_nLastSDA :: u8
  m_nLastSCL :: u8
  i2c_hw :: mach

definition I2C_MASTER_SDA_GPIO :: nat where "I2C_MASTER_SDA_GPIO = 2"
definition I2C_MASTER_SCL_GPIO :: nat where "I2C_MASTER_SCL_GPIO = 14"
definition I2C_MASTER_SDA_MUX :: u32 where "I2C_MASTER_SDA_MUX = PERIPHS_IO_MUX_GPIO2_U"
definition I2C_MASTER_SCL_MUX :: u32 where "I2C_MASTER_SCL_MUX = PERIPHS_IO_MUX_MTMS_U"
definition I2C_MASTER_SDA_FUNC :: u32 where "I2C_MASTER_SDA_FUNC = FUNC_GPIO2"
definition I2C_MASTER_SCL_FUNC :: u32 where "I2C_MASTER_SCL_FUNC = FUNC_GPIO14"

abbreviation sda_bit :: u32 where "sda_bit \<equiv> push_bit I2C_MASTER_SDA_GPIO 1"
abbreviation scl_bit :: u32 where "scl_bit \<equiv> push_bit I2C_MASTER_SCL_GPIO 1"

definition I2C_MASTER_SDA_HIGH_SCL_HIGH :: "mach \<Rightarrow> mach" where
  "I2C_MASTER_SDA_HIGH_SCL_HIGH s =
     emit (GpioOut (sda_bit OR scl_bit) 0 (sda_bit OR scl_bit) 0) s"

definition I2C_MASTER_SDA_HIGH_SCL_LOW :: "mach \<Rightarrow> mach" where
  "I2C_MASTER_SDA_HIGH_SCL_LOW s = emit (GpioOut sda_bit scl_bit (sda_bit OR scl_bit) 0) s"

definition I2C_MASTER_SDA_LOW_SCL_HIGH :: "mach \<Rightarrow> mach" where
  "I2C_MASTER_SDA_LOW_SCL_HIGH s = emit (GpioOut scl_bit sda_bit (sda_bit OR scl_bit) 0) s"

definition I2C_MASTER_SDA_LOW_SCL_LOW :: "mach \<Rightarrow> mach" where
  "I2C_MASTER_SDA_LOW_SCL_LOW s =
     emit (GpioOut 0 (sda_bit OR scl_bit) (sda_bit OR scl_bit) 0) s"

definition i2c_master_wait :: "u32 \<Rightarrow> i2c \<Rightarrow> i2c" where
  "i2c_master_wait n st = st\<lparr>i2c_hw := emit (DelayUs n) (i2c_hw st)\<rparr>"

definition i2c_master_setDC :: "u8 \<Rightarrow> u8 \<Rightarrow> i2c \<Rightarrow> i2c" where
  "i2c_master_setDC SDA SCL st =
    (let SDA = SDA AND 1; SCL = SCL AND 1;
         st = st\<lparr>m_nLastSDA := SDA\<rparr>;
         st = st\<lparr>m_nLastSCL := SCL\<rparr>;
         s = i2c_hw st;
         s = (if 0 = SDA \<and> 0 = SCL then I2C_MASTER_SDA_LOW_SCL_LOW s
              else if 0 = SDA \<and> 1 = SCL then I2C_MASTER_SDA_LOW_SCL_HIGH s
              else if 1 = SDA \<and> 0 = SCL then I2C_MASTER_SDA_HIGH_SCL_LOW s
              else I2C_MASTER_SDA_HIGH_SCL_HIGH s)
     in st\<lparr>i2c_hw := s\<rparr>)"

definition i2c_master_getDC :: "i2c \<Rightarrow> u8 \<times> i2c" where
  "i2c_master_getDC st =
     (case GPIO_INPUT_GET I2C_MASTER_SDA_GPIO (i2c_hw st) of
        (v, s) \<Rightarrow> (ucast v, st\<lparr>i2c_hw := s\<rparr>))"

definition i2c_master_stop :: "i2c \<Rightarrow> i2c" where
  "i2c_master_stop st =
    (let st = i2c_master_wait 5 st;
         st = i2c_master_setDC 0 (m_nLastSCL st) st;
         st = i2c_master_wait 5 st;
         st = i2c_master_setDC 0 1 st;
         st = i2c_master_wait 5 st;
         st = i2c_master_setDC 1 1 st;
         st = i2c_master_wait 5 st
     in st)"

definition i2c_master_init :: "i2c \<Rightarrow> i2c" where
  "i2c_master_init st =
    (let st = i2c_master_setDC 1 0 st;
         st = i2c_master_wait 5 st;
         st = i2c_master_setDC 0 0 st;
         st = i2c_master_wait 5 st;
         st = i2c_master_setDC 1 0 st;
         st = i2c_master_wait 5 st;
         st = fold (\<lambda>i st.
                let st = i2c_master_setDC 1 0 st;
                    st = i2c_master_wait 5 st;
                    st = i2c_master_setDC 1 1 st;
                    st = i2c_master_wait 5 st
                in st) [0..<28] st
     in i2c_master_stop st)"

definition i2c_master_gpio_init :: "i2c \<Rightarrow> i2c" where
  "i2c_master_gpio_init st =
    (let s = i2c_hw st;
         s = ETS_INTR_DISABLE ETS_GPIO_INUM s;
         s = PIN_FUNC_SELECT I2C_MASTER_SDA_MUX I2C_MASTER_SDA_FUNC s;
         s = PIN_FUNC_SELECT I2C_MASTER_SCL_MUX I2C_MASTER_SCL_FUNC s;
         s = modify_reg (GPIO_BASE + GPIO_PIN_ADDR (of_nat I2C_MASTER_SDA_GPIO))
               (\<lambda>v. v OR GPIO_PIN_PAD_DRIVER_SET GPIO_PAD_DRIVER_ENABLE) s;
         s = modify_reg (GPIO_BASE + GPIO_ENABLE_ADDRESS) (\<lambda>v. v OR sda_bit) s;
         s = modify_reg (GPIO_BASE + GPIO_PIN_ADDR (of_nat I2C_MASTER_SCL_GPIO))
               (\<lambda>v. v OR GPIO_PIN_PAD_DRIVER_SET GPIO_PAD_DRIVER_ENABLE) s;
         s = modify_reg (GPIO_BASE + GPIO_ENABLE_ADDRESS) (\<lambda>v. v OR scl_bit) s;
         s = I2C_MASTER_SDA_HIGH_SCL_HIGH s;
         s = ETS_INTR_ENABLE ETS_GPIO_INUM s
     in i2c_master_init (st\<lparr>i2c_hw := s\<rparr>))"

definition i2c_master_start :: "i2c \<Rightarrow> i2c" where
  "i2c_master_start st =
    (let st = i2c_master_setDC 1 (m_nLastSCL st) st;
         st = i2c_master_wait 5 st;
         st = i2c_master_setDC 1 1 st;
         st = i2c_master_wait 5 st;
         st = i2c_master_setDC 0 1 st;
         st = i2c_master_wait 5 st
     in st)"

definition i2c_master_setAck :: "u8 \<Rightarrow> i2c \<Rightarrow> i2c" where
  "i2c_master_setAck level st =
    (let st = i2c_master_setDC (m_nLastSDA st) 0 st;
         st = i2c_master_wait 5 st;
         st = i2c_master_setDC level 0 st;
         st = i2c_master_wait 5 st;
         st = i2c_master_setDC level 1 st;
         st = i2c_master_wait 8 st;
         st = i2c_master_setDC level 0 st;
         st = i2c_master_wait 5 st;
         st = i2c_master_setDC 1 0 st;
         st = i2c_master_wait 5 st
     in st)"

definition i2c_master_getAck :: "i2c \<Rightarrow> u8 \<times> i2c" where
  "i2c_master_getAck st =
    (let st = i2c_master_setDC (m_nLastSDA st) 0 st;
         st = i2c_master_wait 5 st;
         st = i2c_master_setDC 1 0 st;
         st = i2c_master_wait 5 st;
         st = i2c_master_setDC 1 1 st;
         st = i2c_master_wait 5 st;
         (retVal, st) = i2c_master_getDC st;
         st = i2c_master_wait 5 st;
         st = i2c_master_setDC 1 0 st;
         st = i2c_master_wait 5 st
     in (retVal, st))"

definition i2c_master_checkAck :: "i2c \<Rightarrow> bool \<times> i2c" where
  "i2c_master_checkAck st =
     (case i2c_master_getAck st of (r, st) \<Rightarrow> if r \<noteq> 0 then (False, st) else (True, st))"

definition i2c_master_send_ack :: "i2c \<Rightarrow> i2c" where
  "i2c_master_send_ack st = i2c_master_setAck 0 st"

definition i2c_master_send_nack :: "i2c \<Rightarrow> i2c" where
  "i2c_master_send_nack st = i2c_master_setAck 1 st"

definition i2c_read_bit :: "nat \<Rightarrow> u8 \<times> i2c \<Rightarrow> u8 \<times> i2c" where
  "i2c_read_bit i = (\<lambda>(retVal, st).
    (let st = i2c_master_wait 5 st;
         st = i2c_master_setDC 1 0 st;
         st = i2c_master_wait 5 st;
         st = i2c_master_setDC 1 1 st;
         st = i2c_master_wait 5 st;
         (k, st) = i2c_master_getDC st;
         st = i2c_master_wait 5 st;
         st = (if i = 7 then i2c_master_wait 3 st else st);
         k = push_bit (7 - i) k
     in (retVal OR k, st)))"

definition i2c_master_readByte :: "i2c \<Rightarrow> u8 \<times> i2c" where
  "i2c_master_readByte st =
    (let st = i2c_master_wait 5 st;
         st = i2c_master_setDC (m_nLastSDA st) 0 st;
         st = i2c_master_wait 5 st;
         (retVal, st) = fold i2c_read_bit [0..<8] (0, st);
         st = i2c_master_setDC 1 0 st;
         st = i2c_master_wait 5 st
     in (retVal, st))"

definition i2c_write_bit :: "u8 \<Rightarrow> nat \<Rightarrow> i2c \<Rightarrow> i2c" where
  "i2c_write_bit wrdata i st =
    (let dat = drop_bit i wrdata;
         st = i2c_master_setDC dat 0 st;
         st = i2c_master_wait 5 st;
         st = i2c_master_setDC dat 1 st;
         st = i2c_master_wait 5 st;
         st = (if i = 0 then i2c_master_wait 3 st else st);
         st = i2c_master_setDC dat 0 st;
         st = i2c_master_wait 5 st
     in st)"

definition i2c_master_writeByte :: "u8 \<Rightarrow> i2c \<Rightarrow> i2c" where
  "i2c_master_writeByte wrdata st =
    (let st = i2c_master_wait 5 st;
         st = i2c_master_setDC (m_nLastSDA st) 0 st;
         st = i2c_master_wait 5 st
     in fold (i2c_write_bit wrdata) (rev [0..<8]) st)"

section \<open>What the two wires say\<close>

text \<open>
  A listener on the bus: SDA falling while SCL is high is a START, SDA rising while SCL is
  high is a STOP, and a complete clock pulse (SCL rises and falls without either) carries the
  bit SDA had at the rise.
\<close>

datatype bus_sym = B_START | B_STOP | B_BIT bool

record wires =
  sda :: bool
  scl :: bool
  clocked :: "bool option"

fun drive_wires :: "event \<Rightarrow> wires \<Rightarrow> bool \<times> bool" where
  "drive_wires (GpioOut st cl en dis) w =
     (if bit st I2C_MASTER_SDA_GPIO then True
      else if bit cl I2C_MASTER_SDA_GPIO then False else sda w,
      if bit st I2C_MASTER_SCL_GPIO then True
      else if bit cl I2C_MASTER_SCL_GPIO then False else scl w)"
| "drive_wires _ w = (sda w, scl w)"

definition listen :: "event \<Rightarrow> wires \<Rightarrow> wires \<times> bus_sym list" where
  "listen e w =
    (case drive_wires e w of (d, c) \<Rightarrow>
       if scl w \<and> c then
         (if sda w \<and> \<not> d then (\<lparr>sda = d, scl = c, clocked = None\<rparr>, [B_START])
          else if \<not> sda w \<and> d then (\<lparr>sda = d, scl = c, clocked = None\<rparr>, [B_STOP])
          else (w, []))
       else if scl w then
         (\<lparr>sda = d, scl = c, clocked = None\<rparr>,
          case clocked w of Some b \<Rightarrow> [B_BIT b] | None \<Rightarrow> [])
       else if c then (\<lparr>sda = d, scl = c, clocked = Some d\<rparr>, [])
       else (w\<lparr>sda := d\<rparr>, []))"

primrec decode :: "event list \<Rightarrow> wires \<Rightarrow> wires \<times> bus_sym list" where
  "decode [] w = (w, [])"
| "decode (e # es) w =
     (case listen e w of (w', ss) \<Rightarrow> case decode es w' of (w'', ss') \<Rightarrow> (w'', ss @ ss'))"

text \<open>The time for which the wires have kept their levels; a change before 5 us is \<open>None\<close>.\<close>

fun hold :: "event \<Rightarrow> nat option \<Rightarrow> nat option" where
  "hold _ None = None"
| "hold (DelayUs n) (Some d) = Some (d + unat n)"
| "hold (GpioOut st cl en dis) (Some d) = (if d < 5 then None else Some 0)"
| "hold _ (Some d) = Some d"

section \<open>The abstract bus\<close>

datatype i2c_op = Op_Start | Op_Stop | Op_SetAck u8 | Op_GetAck | Op_Read | Op_Write u8

primrec i2c_exec :: "i2c_op \<Rightarrow> i2c \<Rightarrow> u8 list \<times> i2c" where
  "i2c_exec Op_Start st = ([], i2c_master_start st)"
| "i2c_exec Op_Stop st = ([], i2c_master_stop st)"
| "i2c_exec (Op_SetAck l) st = ([], i2c_master_setAck l st)"
| "i2c_exec Op_GetAck st = (case i2c_master_getAck st of (r, st) \<Rightarrow> ([r], st))"
| "i2c_exec Op_Read st = (case i2c_master_readByte st of (r, st) \<Rightarrow> ([r], st))"
| "i2c_exec (Op_Write v) st = ([], i2c_master_writeByte v st)"

primrec i2c_run :: "i2c_op list \<Rightarrow> i2c \<Rightarrow> u8 list \<times> i2c" where
  "i2c_run [] st = ([], st)"
| "i2c_run (x # xs) st =
     (case i2c_exec x st of (r, st') \<Rightarrow>
        case i2c_run xs st' of (r', st'') \<Rightarrow> (r @ r', st''))"

definition msb_first :: "u8 \<Rightarrow> bool list" where
  "msb_first v = map (bit v) (rev [0..<8])"

text \<open>The levels of (SDA, SCL) between operations, and what each operation says on the bus.\<close>

fun bus_spec :: "i2c_op \<Rightarrow> bool \<times> bool \<Rightarrow> bus_sym list \<times> (bool \<times> bool)" where
  "bus_spec Op_Start (d, c) = ((if c \<and> \<not> d then [B_STOP] else []) @ [B_START], (False, True))"
| "bus_spec Op_Stop (d, c) = ((if c \<and> d then [B_START] else []) @ [B_STOP], (True, True))"
| "bus_spec (Op_SetAck l) (d, c) = ([B_BIT (bit l 0)], (True, False))"
| "bus_spec Op_GetAck (d, c) = ([B_BIT True], (True, False))"
| "bus_spec Op_Read (d, c) = (replicate 8 (B_BIT True), (True, False))"
| "bus_spec (Op_Write v) (d, c) = (map B_BIT (msb_first v), (bit v 0, False))"

primrec bus_run :: "i2c_op list \<Rightarrow> bool \<times> bool \<Rightarrow> bus_sym list \<times> (bool \<times> bool)" where
  "bus_run [] l = ([], l)"
| "bus_run (x # xs) l =
     (case bus_spec x l of (ss, l') \<Rightarrow> case bus_run xs l' of (ss', l'') \<Rightarrow> (ss @ ss', l''))"

section \<open>The operations on the wires\<close>

definition coherent :: "i2c \<Rightarrow> wires \<Rightarrow> bool" where
  "coherent st w \<longleftrightarrow>
     sda w = bit (m_nLastSDA st) 0 \<and> scl w = bit (m_nLastSCL st) 0 \<and> clocked w = None"

definition says :: "wires \<Rightarrow> i2c \<Rightarrow> bus_sym list \<Rightarrow> wires \<Rightarrow> i2c \<Rightarrow> bool" where
  "says w st ss w' st' \<longleftrightarrow>
     (\<exists>es. trace (i2c_hw st') = trace (i2c_hw st) @ es \<and> decode es w = (w', ss)
        \<and> (\<forall>d \<ge> 5. \<exists>d' \<ge> 5. fold hold es (Some d) = Some d'))"

definition performs :: "wires \<Rightarrow> i2c \<Rightarrow> bus_sym list \<Rightarrow> wires \<Rightarrow> i2c \<Rightarrow> bool" where
  "performs w st ss w' st' \<longleftrightarrow> says w st ss w' st' \<and> coherent st' w'"

lemmas wave_defs = performs_def says_def

definition drive :: "bool \<Rightarrow> bool \<Rightarrow> event" where
  "drive d c =
     GpioOut ((if d then sda_bit else 0) OR (if c then scl_bit else 0))
       ((if d then 0 else sda_bit) OR (if c then 0 else scl_bit)) (sda_bit OR scl_bit) 0"

lemma decode_append:
  "decode (es @ fs) w =
     (case decode es w of (w', ss) \<Rightarrow> case decode fs w' of (w'', ss') \<Rightarrow> (w'', ss @ ss'))"
  by (induction es arbitrary: w) (auto split: prod.splits)

lemma drive_wires_drive [simp]: "drive_wires (drive d c) w = (d, c)"
  by (simp add: drive_def I2C_MASTER_SDA_GPIO_def I2C_MASTER_SCL_GPIO_def bit_simps)

lemma listen_delay [simp]: "listen (DelayUs n) w = (w, [])"
  by (simp add: listen_def)

lemma hold_drive [simp]: "hold (drive d c) (Some n) = (if n < 5 then None else Some 0)"
  by (simp add: drive_def)

lemma i2c_setDC_simps [simp]:
  "m_nLastSDA (i2c_master_setDC d c st) = d AND 1"
  "m_nLastSCL (i2c_master_setDC d c st) = c AND 1"
  "trace (i2c_hw (i2c_master_setDC d c st)) = trace (i2c_hw st) @ [drive (bit d 0) (bit c 0)]"
  "feed (i2c_hw (i2c_master_setDC d c st)) = feed (i2c_hw st)"
  "cur (i2c_hw (i2c_master_setDC d c st)) = cur (i2c_hw st)"
  by (auto simp: i2c_master_setDC_def Let_def drive_def I2C_MASTER_SDA_LOW_SCL_LOW_def
      I2C_MASTER_SDA_LOW_SCL_HIGH_def I2C_MASTER_SDA_HIGH_SCL_LOW_def
      I2C_MASTER_SDA_HIGH_SCL_HIGH_def and_one_eq mod2_eq_if bit_0)

lemma i2c_wait_simps [simp]:
  "m_nLastSDA (i2c_master_wait n st) = m_nLastSDA st"
  "m_nLastSCL (i2c_master_wait n st) = m_nLastSCL st"
  "trace (i2c_hw (i2c_master_wait n st)) = trace (i2c_hw st) @ [DelayUs n]"
  "feed (i2c_hw (i2c_master_wait n st)) = feed (i2c_hw st)"
  "cur (i2c_hw (i2c_master_wait n st)) = cur (i2c_hw st)"
  by (simp_all add: i2c_master_wait_def)

lemma bit0_and_1 [simp]: "bit (v AND 1 :: u8) 0 = bit v 0"
  by (simp add: bit_simps)

lemma listen_drive:
  "listen (drive d c) w =
     (if scl w \<and> c then
        (if sda w = d then (w, [])
         else (\<lparr>sda = d, scl = c, clocked = None\<rparr>, [if d then B_STOP else B_START]))
      else if scl w then
        (\<lparr>sda = d, scl = c, clocked = None\<rparr>, map B_BIT (case clocked w of None \<Rightarrow> [] | Some b \<Rightarrow> [b]))
      else if c then (\<lparr>sda = d, scl = c, clocked = Some d\<rparr>, [])
      else (w\<lparr>sda := d\<rparr>, []))"
  by (auto simp: listen_def split: option.splits)

lemma says_trans:
  assumes "says w st ss w' st'" and "says w' st' ss' w'' st''"
  shows "says w st (ss @ ss') w'' st''"
proof -
  from assms obtain es fs where
    "trace (i2c_hw st') = trace (i2c_hw st) @ es" "decode es w = (w', ss)"
    "trace (i2c_hw st'') = trace (i2c_hw st') @ fs" "decode fs w' = (w'', ss')"
    and "\<forall>d \<ge> 5. \<exists>d' \<ge> 5. fold hold es (Some d) = Some d'"
    and "\<forall>d \<ge> 5. \<exists>d' \<ge> 5. fold hold fs (Some d) = Some d'"
    unfolding says_def by blast
  then show ?thesis
    unfolding says_def by (intro exI [of _ "es @ fs"]) (auto simp: decode_append)
qed

lemma says_refl: "says w st [] w st"
  by (auto simp: says_def)

lemma performs_trans:
  "performs w st ss w' st' \<Longrightarrow> performs w' st' ss' w'' st'' \<Longrightarrow> performs w st (ss @ ss') w'' st''"
  by (auto simp: performs_def intro: says_trans)

lemma performs_refl: "coherent st w \<Longrightarrow> performs w st [] w st"
  by (simp add: performs_def says_refl)

lemma performs_coherent: "performs w st ss w' st' \<Longrightarrow> coherent st' w'"
  by (auto simp: performs_def)

text \<open>Each operation is a fixed list of levels and delays; what it says follows by listening.\<close>

abbreviation lines :: "bool \<Rightarrow> bool \<Rightarrow> wires" where
  "lines d c \<equiv> \<lparr>sda = d, scl = c, clocked = None\<rparr>"

lemma coherent_lines: "coherent st w \<Longrightarrow> w = lines (sda w) (scl w)"
  by (simp add: coherent_def)

lemma performs_start:
  assumes "coherent st w"
  shows "performs w st (fst (bus_spec Op_Start (sda w, scl w))) (lines False True)
    (i2c_master_start st)"
  using assms unfolding wave_defs i2c_master_start_def
  by (auto simp: Let_def listen_drive coherent_def)

lemma performs_stop:
  assumes "coherent st w"
  shows "performs w st (fst (bus_spec Op_Stop (sda w, scl w))) (lines True True)
    (i2c_master_stop st)"
  using assms unfolding wave_defs i2c_master_stop_def
  by (auto simp: Let_def listen_drive coherent_def)

lemma performs_setAck:
  assumes "coherent st w"
  shows "performs w st [B_BIT (bit l 0)] (lines True False) (i2c_master_setAck l st)"
  using assms unfolding wave_defs i2c_master_setAck_def
  by (auto simp: Let_def listen_drive coherent_def)

lemma sample_snd_trace [simp]: "trace (snd (sample p s)) = trace s"
  by (simp add: sample_def split: list.splits)

lemma i2c_getDC_split:
  "i2c_master_getDC st =
     (of_bool (bit (fst (sample GpioInput (i2c_hw st))) 2),
      st\<lparr>i2c_hw := snd (sample GpioInput (i2c_hw st))\<rparr>)"
  by (auto simp: i2c_master_getDC_def GPIO_INPUT_GET_def I2C_MASTER_SDA_GPIO_def and_one_eq
      mod2_eq_if bit_iff_odd_drop_bit split: prod.splits)

lemma performs_getAck:
  assumes "coherent st w"
  shows "performs w st [B_BIT True] (lines True False) (snd (i2c_master_getAck st))"
  using assms unfolding wave_defs i2c_master_getAck_def
  by (auto simp: Let_def listen_drive coherent_def i2c_getDC_split)

lemma performs_write_bit:
  assumes "coherent st w" and "\<not> scl w"
  shows "performs w st [B_BIT (bit v i)] (lines (bit v i) False) (i2c_write_bit v i st)"
  using assms unfolding wave_defs i2c_write_bit_def
  by (auto simp: Let_def listen_drive coherent_def bit_simps)

lemma performs_write_bits:
  assumes "coherent st w" and "\<not> scl w"
  shows "performs w st (map (\<lambda>i. B_BIT (bit v i)) is)
    (lines (if is = [] then sda w else bit v (last is)) False) (fold (i2c_write_bit v) is st)"
  using assms
proof (induction "is" arbitrary: st w)
  case Nil
  then show ?case using coherent_lines [of st w] performs_refl [of st w] by simp
next
  case (Cons i js)
  note step = performs_write_bit [OF Cons.prems, of v i]
  from Cons.IH [OF performs_coherent [OF step]] performs_trans [OF step]
  show ?case by (fastforce split: if_splits)
qed

lemma performs_clock_low:
  assumes "coherent st w"
  shows "performs w st [] (lines (sda w) False)
    (i2c_master_wait 5 (i2c_master_setDC (m_nLastSDA st) 0 (i2c_master_wait 5 st)))"
  using assms unfolding wave_defs
  by (auto simp: Let_def listen_drive coherent_def)

lemma performs_writeByte:
  assumes "coherent st w"
  shows "performs w st (map B_BIT (msb_first v)) (lines (bit v 0) False) (i2c_master_writeByte v st)"
proof -
  note low = performs_clock_low [OF assms]
  note bits = performs_write_bits [OF performs_coherent [OF low], of v "rev [0..<8]"]
  have "last (rev [0..<8]) = (0::nat)" by (simp add: last_rev)
  with performs_trans [OF low bits] show ?thesis
    by (simp add: i2c_master_writeByte_def Let_def msb_first_def rev_map comp_def)
qed

text \<open>
  A read leaves the clock high inside its loop: the first pulse starts from a low clock, every
  further one ends the pulse before it.
\<close>

abbreviation pulse :: wires where
  "pulse \<equiv> \<lparr>sda = True, scl = True, clocked = Some True\<rparr>"

lemma says_read_bit:
  "says (lines d False) st [] pulse (snd (i2c_read_bit i (r, st)))"
  "says pulse st [B_BIT True] pulse (snd (i2c_read_bit i (r, st)))"
  unfolding says_def i2c_read_bit_def by (auto simp: Let_def listen_drive i2c_getDC_split)

lemma says_read_bits:
  "says pulse st (replicate (length is) (B_BIT True)) pulse (snd (fold i2c_read_bit is (r, st)))"
proof (induction "is" arbitrary: r st)
  case Nil
  then show ?case by (simp add: says_refl)
next
  case (Cons i js)
  obtain r' st' where e: "i2c_read_bit i (r, st) = (r', st')" by (cases "i2c_read_bit i (r, st)")
  with says_read_bit(2) [of st i r] have "says pulse st [B_BIT True] pulse st'" by simp
  from says_trans [OF this Cons.IH [of st' r']] e show ?case by simp
qed

lemma performs_readByte:
  assumes "coherent st w"
  shows "performs w st (replicate 8 (B_BIT True)) (lines True False) (snd (i2c_master_readByte st))"
proof -
  let ?st = "i2c_master_wait 5 (i2c_master_setDC (m_nLastSDA st) 0 (i2c_master_wait 5 st))"
  obtain r1 st1 where e1: "i2c_read_bit 0 (0, ?st) = (r1, st1)" by (cases "i2c_read_bit 0 (0, ?st)")
  obtain r2 st2 where e2: "fold i2c_read_bit [1..<8] (r1, st1) = (r2, st2)"
    by (cases "fold i2c_read_bit [1..<8] (r1, st1)")
  have loop: "fold i2c_read_bit [0..<8] (0, ?st) = (r2, st2)"
    using e1 e2 by (simp add: upt_conv_Cons [of 0 8])
  have "says w st [] (lines (sda w) False) ?st"
    using performs_clock_low [OF assms] by (simp add: performs_def)
  moreover have "says (lines (sda w) False) ?st [] pulse st1"
    using says_read_bit(1) [of "sda w" ?st 0 0] e1 by simp
  moreover have "says pulse st1 (replicate 7 (B_BIT True)) pulse st2"
    using says_read_bits [of st1 "[1..<8]" r1] e2 by simp
  moreover have "says pulse st2 [B_BIT True] (lines True False)
      (i2c_master_wait 5 (i2c_master_setDC 1 0 st2))"
    by (auto simp: says_def listen_drive)
  ultimately have "says w st ([] @ [] @ replicate 7 (B_BIT True) @ [B_BIT True]) (lines True False)
      (i2c_master_wait 5 (i2c_master_setDC 1 0 st2))"
    by (blast intro: says_trans)
  moreover have "replicate 7 (B_BIT True) @ [B_BIT True] = replicate 8 (B_BIT True)"
    by (simp add: eval_nat_numeral)
  ultimately show ?thesis
    by (simp add: performs_def i2c_master_readByte_def Let_def loop coherent_def)
qed

lemma performs_exec:
  assumes "coherent st w"
  shows "performs w st (fst (bus_spec x (sda w, scl w)))
    (case snd (bus_spec x (sda w, scl w)) of (d, c) \<Rightarrow> lines d c) (snd (i2c_exec x st))"
  using performs_start [OF assms] performs_stop [OF assms] performs_setAck [OF assms]
    performs_getAck [OF assms] performs_readByte [OF assms] performs_writeByte [OF assms]
  by (cases x) (auto split: prod.splits)

lemma performs_run:
  assumes "coherent st w"
  shows "performs w st (fst (bus_run ops (sda w, scl w)))
    (case snd (bus_run ops (sda w, scl w)) of (d, c) \<Rightarrow> lines d c) (snd (i2c_run ops st))"
  using assms
proof (induction ops arbitrary: st w)
  case Nil
  then show ?case using performs_refl [of st w] coherent_lines [of st w] by simp
next
  case (Cons x xs)
  obtain ss d c where b: "bus_spec x (sda w, scl w) = (ss, d, c)"
    by (cases "bus_spec x (sda w, scl w)") auto
  obtain r st' where e: "i2c_exec x st = (r, st')" by (cases "i2c_exec x st")
  from performs_exec [OF Cons.prems, of x] b e have x: "performs w st ss (lines d c) st'" by simp
  from performs_trans [OF x Cons.IH [OF performs_coherent [OF x]]] b e
  show ?case by (simp split: prod.splits) (metis fst_conv snd_conv)
qed

definition said :: "wires \<Rightarrow> i2c \<Rightarrow> i2c \<Rightarrow> bus_sym list" where
  "said w st st' = snd (decode (drop (length (trace (i2c_hw st))) (trace (i2c_hw st'))) w)"

lemma performs_said: "performs w st ss w' st' \<Longrightarrow> said w st st' = ss"
  by (auto simp: wave_defs said_def)

section \<open>Samples of the data line\<close>

definition sample_of :: "bool \<Rightarrow> u32" where
  "sample_of b = (if b then sda_bit else 0)"

lemma read_bits_value:
  assumes "feed (i2c_hw st) GpioInput = xs @ rest" and "length xs = length is"
  shows "fst (fold i2c_read_bit is (r, st)) =
      fold (\<lambda>(i, x) r. r OR push_bit (7 - i) (of_bool (bit x 2))) (zip is xs) r"
  using assms
proof (induction "is" arbitrary: r st xs)
  case Nil
  then show ?case by simp
next
  case (Cons i js)
  then obtain x ys where xs: "xs = x # ys" "length ys = length js" by (cases xs) auto
  obtain st' where e: "i2c_read_bit i (r, st) = (r OR push_bit (7 - i) (of_bool (bit x 2)), st')"
    and f: "feed (i2c_hw st') GpioInput = ys @ rest"
    using Cons.prems xs
    by (auto simp: i2c_read_bit_def Let_def i2c_getDC_split sample_feed)
  from Cons.IH [OF f] xs e show ?case by simp
qed

lemma readByte_value:
  assumes "feed (i2c_hw st) GpioInput = xs @ rest" and "length xs = 8"
  shows "fst (i2c_master_readByte st) =
      fold (\<lambda>(i, x) r. r OR push_bit (7 - i) (of_bool (bit x 2))) (zip [0..<8] xs) 0"
  using assms read_bits_value [of "i2c_master_wait 5 (i2c_master_setDC (m_nLastSDA st) 0
    (i2c_master_wait 5 st))" xs rest "[0..<8]" 0]
  by (auto simp: i2c_master_readByte_def Let_def split: prod.splits)

lemma sample_of_bit [simp]: "bit (sample_of b) 2 = b"
  by (simp add: sample_of_def I2C_MASTER_SDA_GPIO_def bit_simps)

lemma upt_0_8: "[0..<8] = [0, 1, 2, 3, 4, 5, 6, 7::nat]"
  by (simp add: upt_rec)

lemma less_8_cases: "n < 8 \<Longrightarrow> n \<in> {0, 1, 2, 3, 4, 5, 6, 7::nat}"
  by auto

lemma bit_push_of_bool: "k < 8 \<Longrightarrow> bit (push_bit k (of_bool b) :: u8) n \<longleftrightarrow> n = k \<and> b"
  by (auto simp: bit_push_bit_iff bit_of_bool_iff)

lemma collect_bits:
  "fold (\<lambda>(i, x) r. r OR push_bit (7 - i) (of_bool (bit x 2)))
     (zip [0..<8] (map sample_of (msb_first v))) 0 = (v :: u8)"  (is "?l = v")
proof (rule bit_word_eqI)
  fix n
  assume n: "n < LENGTH(8)"
  let ?b = "\<lambda>k. push_bit k (of_bool (bit v k)) :: u8"
  have l: "?l = 0 OR ?b 7 OR ?b 6 OR ?b 5 OR ?b 4 OR ?b 3 OR ?b 2 OR ?b 1 OR ?b 0"
    unfolding msb_first_def upt_0_8
    by (simp only: rev.simps append.simps list.map zip_Cons_Cons zip_Nil fold_simps
        prod.case sample_of_bit) simp
  show "bit ?l n = bit v n"
    unfolding l using less_8_cases [of n] n
    by (cases "n = 1") (auto simp: bit_or_iff bit_push_of_bool)
qed

section \<open>Initialisation\<close>

lemma says_init_pulses:
  "says pulse st (replicate (length is) (B_BIT True)) pulse
     (fold (\<lambda>i st.
        let st = i2c_master_setDC 1 0 st;
            st = i2c_master_wait 5 st;
            st = i2c_master_setDC 1 1 st;
            st = i2c_master_wait 5 st
        in st) is st)"
proof (induction "is" arbitrary: st)
  case Nil
  then show ?case by (simp add: says_refl)
next
  case (Cons i js)
  have "says pulse st [B_BIT True] pulse
    (i2c_master_wait 5 (i2c_master_setDC 1 1 (i2c_master_wait 5 (i2c_master_setDC 1 0 st))))"
    by (auto simp: says_def listen_drive)
  from says_trans [OF this Cons.IH] show ?case by (simp add: Let_def)
qed

definition pending :: "wires \<Rightarrow> bus_sym list" where
  "pending w = map B_BIT (case clocked w of None \<Rightarrow> [] | Some b \<Rightarrow> [b])"

lemma says_init:
  assumes "scl w \<or> clocked w = None"
  shows "performs w st (pending w @ replicate 27 (B_BIT True) @ [B_START, B_STOP]) (lines True True)
    (i2c_master_init st)"
proof -
  let ?body = "\<lambda>i::nat. \<lambda>st.
        let st = i2c_master_setDC 1 0 st;
            st = i2c_master_wait 5 st;
            st = i2c_master_setDC 1 1 st;
            st = i2c_master_wait 5 st
        in st"
  define st1 where "st1 = i2c_master_wait 5 (i2c_master_setDC 1 0 (i2c_master_wait 5
      (i2c_master_setDC 0 0 (i2c_master_wait 5 (i2c_master_setDC 1 0 st)))))"
  define st2 where "st2 = fold ?body [1..<28] (?body 0 st1)"
  have loop: "fold ?body [0..<28] st1 = st2"
    by (simp add: st2_def upt_conv_Cons [of 0 28])
  have "says w st (pending w) (lines True False) st1"
    using assms by (auto simp: says_def st1_def listen_drive pending_def)
  moreover have "says (lines True False) st1 [] pulse (?body 0 st1)"
    by (auto simp: says_def listen_drive Let_def)
  moreover have "says pulse (?body 0 st1) (replicate 27 (B_BIT True)) pulse st2"
    using says_init_pulses [of "?body 0 st1" "[1..<28]"] by (simp add: st2_def)
  moreover have scl: "bit (m_nLastSCL st2) 0"
  proof -
    have "m_nLastSCL (fold ?body is x) = 1" if "m_nLastSCL x = 1" for "is" x
      using that by (induction "is" arbitrary: x) (simp_all add: Let_def)
    moreover have "m_nLastSCL (?body 0 st1) = 1" by (simp add: Let_def)
    ultimately show ?thesis by (simp add: st2_def)
  qed
  then have "says pulse st2 [B_START, B_STOP] (lines True True) (i2c_master_stop st2)"
    by (auto simp: says_def i2c_master_stop_def Let_def listen_drive)
  ultimately have "says w st (pending w @ [] @ replicate 27 (B_BIT True) @ [B_START, B_STOP])
      (lines True True) (i2c_master_stop st2)"
    by (blast intro: says_trans)
  moreover have "i2c_master_init st = i2c_master_stop st2"
    unfolding i2c_master_init_def loop [symmetric] st1_def Let_def by simp
  moreover have "coherent (i2c_master_stop st2) (lines True True)"
    by (simp add: coherent_def i2c_master_stop_def Let_def)
  ultimately show ?thesis by (simp add: performs_def)
qed

lemma cur_init [simp]: "cur (i2c_hw (i2c_master_init st)) = cur (i2c_hw st)"
proof -
  have loop: "cur (i2c_hw (fold (\<lambda>i::nat. \<lambda>st.
                let st = i2c_master_setDC 1 0 st;
                    st = i2c_master_wait 5 st;
                    st = i2c_master_setDC 1 1 st;
                    st = i2c_master_wait 5 st
                in st) is x)) = cur (i2c_hw x)" for "is" x
    by (induction "is" arbitrary: x) (simp_all add: Let_def)
  show ?thesis
    unfolding i2c_master_init_def i2c_master_stop_def Let_def
    by (simp add: loop [unfolded Let_def])
qed

definition gpio_init_pins :: "mach \<Rightarrow> mach" where
  "gpio_init_pins s = ETS_INTR_ENABLE ETS_GPIO_INUM (I2C_MASTER_SDA_HIGH_SCL_HIGH
     (modify_reg (GPIO_BASE + GPIO_ENABLE_ADDRESS) (\<lambda>v. v OR scl_bit)
     (modify_reg (GPIO_BASE + GPIO_PIN_ADDR (of_nat I2C_MASTER_SCL_GPIO))
        (\<lambda>v. v OR GPIO_PIN_PAD_DRIVER_SET GPIO_PAD_DRIVER_ENABLE)
     (modify_reg (GPIO_BASE + GPIO_ENABLE_ADDRESS) (\<lambda>v. v OR sda_bit)
     (modify_reg (GPIO_BASE + GPIO_PIN_ADDR (of_nat I2C_MASTER_SDA_GPIO))
        (\<lambda>v. v OR GPIO_PIN_PAD_DRIVER_SET GPIO_PAD_DRIVER_ENABLE)
     (PIN_FUNC_SELECT I2C_MASTER_SCL_MUX I2C_MASTER_SCL_FUNC
     (PIN_FUNC_SELECT I2C_MASTER_SDA_MUX I2C_MASTER_SDA_FUNC
     (ETS_INTR_DISABLE ETS_GPIO_INUM s))))))))"

lemma gpio_init_split:
  "i2c_master_gpio_init st = i2c_master_init (st\<lparr>i2c_hw := gpio_init_pins (i2c_hw st)\<rparr>)"
  by (simp add: i2c_master_gpio_init_def gpio_init_pins_def Let_def)

lemma high_high: "I2C_MASTER_SDA_HIGH_SCL_HIGH s = emit (drive True True) s"
  by (simp add: I2C_MASTER_SDA_HIGH_SCL_HIGH_def drive_def)

lemma gpio_init_trace:
  assumes "quiet s"
  shows "\<exists>es. trace (gpio_init_pins s) = trace s @ es @ [drive True True, IsrUnmask ETS_GPIO_INUM]
    \<and> (\<forall>e \<in> set es. \<exists>a v. e = Wr a v \<or> e = IsrMask ETS_GPIO_INUM)"
  using assms unfolding gpio_init_pins_def
  by (simp add: ETS_INTR_ENABLE_def ETS_INTR_DISABLE_def high_high modify_reg_simps still_modify_reg)

lemma decode_other:
  "\<forall>e \<in> set es. \<exists>a v. e = Wr a v \<or> e = IsrMask ETS_GPIO_INUM \<Longrightarrow> decode es w = (w, [])"
  by (induction es) (auto simp: listen_def)

lemma gpio_init_pins_regs:
  assumes "quiet s" and "pin \<in> {I2C_MASTER_SDA_GPIO, I2C_MASTER_SCL_GPIO}"
  shows "bit (peri (gpio_init_pins s) (GPIO_BASE + GPIO_PIN_ADDR (of_nat pin))) 2
     \<and> bit (peri (gpio_init_pins s) (GPIO_BASE + GPIO_ENABLE_ADDRESS)) pin"
  using assms unfolding gpio_init_pins_def
  by (auto simp: ETS_INTR_ENABLE_def ETS_INTR_DISABLE_def I2C_MASTER_SDA_HIGH_SCL_HIGH_def
      modify_reg_simps still_modify_reg reg_simps GPIO_PIN_ADDR_def I2C_MASTER_SDA_GPIO_def
      I2C_MASTER_SCL_GPIO_def I2C_MASTER_SDA_MUX_def I2C_MASTER_SCL_MUX_def
      GPIO_PIN_PAD_DRIVER_SET_def GPIO_PAD_DRIVER_ENABLE_def bit_simps)

lemma listen_unmask: "listen (IsrUnmask n) w = (w, [])"
  by (simp add: listen_def)

lemma said_gpio_init:
  assumes q: "quiet (i2c_hw st)" and w: "clocked w = None"
  shows "said w st (i2c_master_gpio_init st) =
      (if scl w \<and> \<not> sda w then [B_STOP] else []) @ (if scl w then [] else [B_BIT True])
      @ replicate 27 (B_BIT True) @ [B_START, B_STOP]
    \<and> coherent (i2c_master_gpio_init st) (lines True True)"
proof -
  let ?st = "st\<lparr>i2c_hw := gpio_init_pins (i2c_hw st)\<rparr>"
  let ?w = "\<lparr>sda = True, scl = True, clocked = if scl w then None else Some True\<rparr>"
  obtain es where es: "trace (i2c_hw ?st) =
      trace (i2c_hw st) @ es @ [drive True True, IsrUnmask ETS_GPIO_INUM]" "decode es w = (w, [])"
    using gpio_init_trace [OF q] decode_other by auto
  have pre: "decode (es @ [drive True True, IsrUnmask ETS_GPIO_INUM]) w =
      (?w, if scl w \<and> \<not> sda w then [B_STOP] else [])"
  proof -
    have "(if sda w = True then w else lines True True) = lines True True" if "scl w"
      using that w by (cases w) simp
    then show ?thesis
      by (cases "scl w") (auto simp: decode_append es(2) listen_drive listen_unmask)
  qed
  from says_init [of ?w ?st] obtain fs where
    fs: "trace (i2c_hw (i2c_master_init ?st)) = trace (i2c_hw ?st) @ fs"
    "decode fs ?w = (lines True True, pending ?w @ replicate 27 (B_BIT True) @ [B_START, B_STOP])"
    and coh: "coherent (i2c_master_init ?st) (lines True True)"
    by (auto simp: wave_defs)
  have "said w st (i2c_master_gpio_init st) =
      (if scl w \<and> \<not> sda w then [B_STOP] else [])
        @ pending ?w @ replicate 27 (B_BIT True) @ [B_START, B_STOP]"
    unfolding said_def gpio_init_split fs(1) es(1)
    using decode_append [of "es @ [drive True True, IsrUnmask ETS_GPIO_INUM]" fs w]
    by (simp add: pre fs(2))
  with coh show ?thesis by (simp add: gpio_init_split pending_def)
qed

section \<open>Properties\<close>

fun op_bits :: "i2c_op \<Rightarrow> bool list option" where
  "op_bits (Op_SetAck l) = Some [bit l 0]"
| "op_bits Op_GetAck = Some [True]"
| "op_bits Op_Read = Some (replicate 8 True)"
| "op_bits (Op_Write v) = Some (msb_first v)"
| "op_bits _ = None"

lemma bus_run_append:
  "bus_run (xs @ ys) l =
     (case bus_run xs l of (ss, l') \<Rightarrow> case bus_run ys l' of (ss', l'') \<Rightarrow> (ss @ ss', l''))"
  by (induction xs arbitrary: l) (auto split: prod.splits)

lemma bus_run_data:
  assumes "list_all (\<lambda>x. op_bits x \<noteq> None) ops" and "\<not> (d \<and> c)"
  shows "fst (bus_run ops (d, c)) = map B_BIT (concat (map (the \<circ> op_bits) ops))
    \<and> \<not> (fst (snd (bus_run ops (d, c))) \<and> snd (snd (bus_run ops (d, c))))"
  using assms
proof (induction ops arbitrary: d c)
  case Nil
  then show ?case by simp
next
  case (Cons x xs)
  obtain ss d' where b: "bus_spec x (d, c) = (ss, d', False)" "ss = map B_BIT (the (op_bits x))"
    using Cons.prems by (cases x) auto
  from Cons.IH [of d' False] Cons.prems b show ?case by (auto split: prod.splits)
qed

text \<open>
  C1. The driver refines the abstract bus: for every sequence of operations, what a listener
  decodes from the levels the operations drive is what the abstract bus says for that
  sequence, and the levels the driver remembers are the levels of the wires.
\<close>

theorem i2c_run_refines_bus:
  assumes "coherent st w" and "bus_run ops (sda w, scl w) = (ss, d, c)"
  shows "said w st (snd (i2c_run ops st)) = ss \<and> coherent (snd (i2c_run ops st)) (lines d c)"
  using performs_said [OF performs_run [OF assms(1), of ops]]
    performs_coherent [OF performs_run [OF assms(1), of ops]] assms(2)
  by simp

text \<open>
  A transaction from the idle bus is framed: one START, then nothing but the bits of its
  data operations, most significant bit first, then one STOP; no spurious START or STOP is
  ever on the wires.
\<close>

theorem i2c_transaction_framed:
  assumes "coherent st (lines True True)" and "list_all (\<lambda>x. op_bits x \<noteq> None) ops"
  shows "said (lines True True) st (snd (i2c_run (Op_Start # ops @ [Op_Stop]) st)) =
    B_START # map B_BIT (concat (map (the \<circ> op_bits) ops)) @ [B_STOP]"
proof -
  obtain ss d c where b: "bus_run ops (False, True) = (ss, d, c)"
    by (cases "bus_run ops (False, True)") auto
  with bus_run_data [OF assms(2), of False True]
  have "ss = map B_BIT (concat (map (the \<circ> op_bits) ops))" and "\<not> (c \<and> d)" by auto
  with b have "fst (bus_run (Op_Start # ops @ [Op_Stop]) (True, True)) =
    B_START # map B_BIT (concat (map (the \<circ> op_bits) ops)) @ [B_STOP]"
    by (simp add: bus_run_append)
  with performs_said [OF performs_run [OF assms(1), of "Op_Start # ops @ [Op_Stop]"]]
  show ?thesis by simp
qed

text \<open>
  C24. Write and read are inverse: a byte that one master clocks out is the byte
  \<open>i2c_master_readByte\<close> returns when its eight samples of the data line are the bits
  decoded from the writer's wires.
\<close>

theorem i2c_write_read_roundtrip:
  assumes "coherent wr w"
    and "said w wr (i2c_master_writeByte v wr) = map B_BIT bs"
    and "feed (i2c_hw rd) GpioInput = map sample_of bs @ rest"
  shows "fst (i2c_master_readByte rd) = v"
proof -
  have "map B_BIT bs = map B_BIT (msb_first v)"
    using performs_said [OF performs_writeByte [OF assms(1), of v]] assms(2) by simp
  then have bs: "bs = msb_first v" by (rule map_injective) (simp add: inj_def)
  then have "length bs = 8" by (simp add: msb_first_def)
  then show ?thesis
    using readByte_value [OF assms(3)] collect_bits [of v] bs by simp
qed

text \<open>
  No operation changes a wire less than 5 us after the previous change, in any sequence:
  low and high periods of the clock, set-up and hold of the data and of START and STOP all
  last at least the half period of 5 us.
\<close>

theorem i2c_levels_held:
  assumes "coherent st w" and "5 \<le> d"
  shows "\<exists>d' \<ge> 5. fold hold
    (drop (length (trace (i2c_hw st))) (trace (i2c_hw (snd (i2c_run ops st))))) (Some d) = Some d'"
  using performs_run [OF assms(1), of ops] assms(2) unfolding wave_defs by auto

text \<open>
  Initialisation works from any bus: whatever the levels of the wires are and whatever
  levels the driver remembers, \<open>i2c_master_gpio_init\<close> clocks out at least 27 ones, which
  flushes a slave that holds the line, then issues one START and one STOP and leaves the bus
  idle and the driver's memory in step with it; both pins end as enabled open-drain outputs.
\<close>

theorem i2c_gpio_init_resets_bus:
  assumes "quiet (i2c_hw st)" and "clocked w = None"
  shows "said w st (i2c_master_gpio_init st) =
      (if scl w \<and> \<not> sda w then [B_STOP] else []) @ (if scl w then [] else [B_BIT True])
      @ replicate 27 (B_BIT True) @ [B_START, B_STOP]
    \<and> coherent (i2c_master_gpio_init st) (lines True True)
    \<and> (\<forall>pin \<in> {I2C_MASTER_SDA_GPIO, I2C_MASTER_SCL_GPIO}.
         bit (peri (i2c_hw (i2c_master_gpio_init st)) (GPIO_BASE + GPIO_PIN_ADDR (of_nat pin))) 2
         \<and> bit (peri (i2c_hw (i2c_master_gpio_init st)) (GPIO_BASE + GPIO_ENABLE_ADDRESS)) pin)"
  using said_gpio_init [OF assms] gpio_init_pins_regs [OF assms(1)]
  by (simp add: gpio_init_split)

section \<open>Concrete runs\<close>

definition i2c_idle :: i2c where
  "i2c_idle = \<lparr>m_nLastSDA = 1, m_nLastSCL = 1, i2c_hw = mach0\<rparr>"

lemma coherent_idle: "coherent i2c_idle (lines True True)"
  by (simp add: coherent_def i2c_idle_def)

lemma i2c_run_refines_bus_witness:
  "said (lines True True) i2c_idle (snd (i2c_run [Op_Start, Op_Start, Op_SetAck 0] i2c_idle)) =
     [B_START, B_STOP, B_START, B_BIT False]"
  using i2c_run_refines_bus [OF coherent_idle,
      of "[Op_Start, Op_Start, Op_SetAck 0]" "[B_START, B_STOP, B_START, B_BIT False]" True False]
  by simp

lemma i2c_transaction_framed_witness:
  "said (lines True True) i2c_idle
     (snd (i2c_run (Op_Start # [Op_Write 0xA5, Op_GetAck] @ [Op_Stop]) i2c_idle)) =
   B_START # map B_BIT [True, False, True, False, False, True, False, True, True] @ [B_STOP]"
  using i2c_transaction_framed [OF coherent_idle, of "[Op_Write 0xA5, Op_GetAck]"]
  by (simp add: msb_first_def upt_0_8)

lemma i2c_write_read_roundtrip_witness:
  "fst (i2c_master_readByte (i2c_idle\<lparr>i2c_hw := mach0\<lparr>feed :=
      (\<lambda>_. [])(GpioInput := map sample_of (msb_first 0x5C))\<rparr>\<rparr>)) = 0x5C"
  using i2c_write_read_roundtrip [OF coherent_idle, of "0x5C" "msb_first 0x5C"
      "i2c_idle\<lparr>i2c_hw := mach0\<lparr>feed := (\<lambda>_. [])(GpioInput := map sample_of (msb_first 0x5C))\<rparr>\<rparr>" "[]"]
    performs_said [OF performs_writeByte [OF coherent_idle, of "0x5C"]]
  by simp

lemma i2c_levels_held_witness:
  "\<exists>d' \<ge> 5. fold hold (drop (length (trace (i2c_hw i2c_idle)))
     (trace (i2c_hw (snd (i2c_run [Op_Start, Op_Read, Op_Stop] i2c_idle))))) (Some 9) = Some d'"
  by (rule i2c_levels_held [OF coherent_idle]) simp

lemma i2c_gpio_init_resets_bus_witness:
  "said (lines False True) i2c_idle (i2c_master_gpio_init i2c_idle) =
     B_STOP # replicate 27 (B_BIT True) @ [B_START, B_STOP]"
  using i2c_gpio_init_resets_bus [of i2c_idle "lines False True"] by (simp add: i2c_idle_def)

end
