(* ===== verification/Key.thy ===== *)
theory Key
  imports Machine
begin

text \<open>
  Push buttons (driver/key.c, driver/key.h). A key is a small state machine spread over one
  interrupt handler and two timer callbacks; the theory models the three and proves, over
  every interleaving of interrupts and timers, that no key gets stuck and that every press is
  reported once.
\<close>

section \<open>The driver\<close>

record single_key_param =
  key_level :: u8
  gpio_id :: u8
  gpio_func :: u8
  gpio_name :: u32
  short_press :: "cfun option"
  long_press :: "cfun option"

record keys_param =
  key_num :: u8
  single_key :: "single_key_param list"
  key_hw :: mach

text \<open>The object comes from \<open>os_zalloc\<close>; the null pointer is not tested before the stores.\<close>

definition key_init_single ::
  "u8 \<Rightarrow> u32 \<Rightarrow> u8 \<Rightarrow> cfun option \<Rightarrow> cfun option \<Rightarrow> mach \<Rightarrow> (single_key_param \<times> mach) option" where
  "key_init_single gid nam func lp sp s =
     (case sample HeapPtr s of
        (ptr, s') \<Rightarrow>
          if ptr = 0 then None
          else Some (\<lparr>key_level = 0, gpio_id = gid, gpio_func = func, gpio_name = nam,
                      short_press = sp, long_press = lp\<rparr>, s'))"

definition set_level :: "nat \<Rightarrow> u8 \<Rightarrow> keys_param \<Rightarrow> keys_param" where
  "set_level i v st = st\<lparr>single_key := (single_key st)[i := (single_key st ! i)\<lparr>key_level := v\<rparr>]\<rparr>"

definition key_do :: "event \<Rightarrow> keys_param \<Rightarrow> keys_param" where
  "key_do e st = st\<lparr>key_hw := emit e (key_hw st)\<rparr>"

abbreviation pin_of :: "keys_param \<Rightarrow> nat \<Rightarrow> u32" where
  "pin_of st i \<equiv> ucast (gpio_id (single_key st ! i))"

abbreviation key_bit :: "keys_param \<Rightarrow> nat \<Rightarrow> u32" where
  "key_bit st i \<equiv> BIT (unat (gpio_id (single_key st ! i)))"

definition key_init_one :: "nat \<Rightarrow> keys_param \<Rightarrow> keys_param option" where
  "key_init_one i st =
    (if i < length (single_key st) then
      (let st = set_level i 1 st;
           k = single_key st ! i;
           st = st\<lparr>key_hw := PIN_FUNC_SELECT (gpio_name k) (ucast (gpio_func k)) (key_hw st)\<rparr>;
           st = key_do (GpioOut 0 0 0 (pin_of st i)) st;
           st = key_do (GpioRegSet (GPIO_PIN_ADDR (pin_of st i)) gpio_pin_input_conf) st;
           st = st\<lparr>key_hw := GPIO_REG_WRITE GPIO_STATUS_W1TC_ADDRESS (key_bit st i) (key_hw st)\<rparr>;
           st = key_do (PinIntr (pin_of st i) GPIO_PIN_INTR_NEGEDGE) st
       in Some st)
     else None)"

definition key_init :: "keys_param \<Rightarrow> keys_param option" where
  "key_init st =
    (let st = key_do (IsrAttach ETS_GPIO_INUM C_key_intr_handler) st;
         st = st\<lparr>key_hw := ETS_INTR_DISABLE ETS_GPIO_INUM (key_hw st)\<rparr>
     in map_option (\<lambda>st. st\<lparr>key_hw := ETS_INTR_ENABLE ETS_GPIO_INUM (key_hw st)\<rparr>)
          (fold (\<lambda>i r. Option.bind r (key_init_one i)) [0..<unat (key_num st)] (Some st)))"

definition call_if :: "cfun option \<Rightarrow> keys_param \<Rightarrow> keys_param" where
  "call_if f st = (case f of Some g \<Rightarrow> key_do (Call g) st | None \<Rightarrow> st)"

definition key_input :: "nat \<Rightarrow> keys_param \<Rightarrow> u32 \<times> keys_param" where
  "key_input i st =
     (case GPIO_INPUT_GET (unat (gpio_id (single_key st ! i))) (key_hw st) of
        (v, s) \<Rightarrow> (v, st\<lparr>key_hw := s\<rparr>))"

definition key_5s_cb :: "nat \<Rightarrow> keys_param \<Rightarrow> keys_param" where
  "key_5s_cb i st =
    (let st = key_do (TimerDisarm (T_key_5s i)) st;
         (v, st) = key_input i st
     in if 0 = v then call_if (long_press (single_key st ! i)) st else st)"

definition key_50ms_cb :: "nat \<Rightarrow> keys_param \<Rightarrow> keys_param" where
  "key_50ms_cb i st =
    (let st = key_do (TimerDisarm (T_key_50ms i)) st;
         (v, st) = key_input i st
     in if 1 = v then
          (let st = key_do (TimerDisarm (T_key_5s i)) st;
               st = set_level i 1 st;
               st = key_do (PinIntr (pin_of st i) GPIO_PIN_INTR_NEGEDGE) st
           in call_if (short_press (single_key st ! i)) st)
        else key_do (PinIntr (pin_of st i) GPIO_PIN_INTR_POSEDGE) st)"

definition key_intr_one :: "u32 \<Rightarrow> nat \<Rightarrow> keys_param \<Rightarrow> keys_param option" where
  "key_intr_one gpio_status i st =
    (if i < length (single_key st) then
       Some (if gpio_status AND key_bit st i \<noteq> 0 then
         (let st = key_do (PinIntr (pin_of st i) GPIO_PIN_INTR_DISABLE) st;
              st = st\<lparr>key_hw := GPIO_REG_WRITE GPIO_STATUS_W1TC_ADDRESS
                                  (gpio_status AND key_bit st i) (key_hw st)\<rparr>
          in if key_level (single_key st ! i) = 1 then
               (let st = key_do (TimerDisarm (T_key_5s i)) st;
                    st = key_do (TimerSetfn (T_key_5s i) (C_key_5s_cb i)) st;
                    st = key_do (TimerArm (T_key_5s i) 5000 False) st;
                    st = set_level i 0 st
                in key_do (PinIntr (pin_of st i) GPIO_PIN_INTR_POSEDGE) st)
             else
               (let st = key_do (TimerDisarm (T_key_50ms i)) st;
                    st = key_do (TimerSetfn (T_key_50ms i) (C_key_50ms_cb i)) st
                in key_do (TimerArm (T_key_50ms i) 50 False) st))
         else st)
     else None)"

definition key_intr_handler :: "keys_param \<Rightarrow> keys_param option" where
  "key_intr_handler st =
     (case GPIO_REG_READ GPIO_STATUS_ADDRESS (key_hw st) of
        (gpio_status, s) \<Rightarrow>
          fold (\<lambda>i r. Option.bind r (key_intr_one gpio_status i)) [0..<unat (key_num st)]
            (Some (st\<lparr>key_hw := s\<rparr>)))"

section \<open>Interrupts, timers and the world\<close>

text \<open>
  One step of the system: the environment changes what the sources show, the interrupt line
  fires (only for pins whose interrupt is enabled), or an armed timer expires and its
  callback runs.
\<close>

definition intr_on :: "keys_param \<Rightarrow> nat \<Rightarrow> bool" where
  "intr_on st i \<longleftrightarrow> pin_intr (pin_of st i) (key_hw st) \<noteq> GPIO_PIN_INTR_DISABLE"

inductive key_step :: "keys_param \<Rightarrow> keys_param \<Rightarrow> bool" where
  world: "key_step st (st\<lparr>key_hw := (key_hw st)\<lparr>cur := c, feed := f\<rparr>\<rparr>)"
| intr: "key_intr_handler st = Some st' \<Longrightarrow>
    (\<And>i. i < length (single_key st) \<Longrightarrow>
       fst (GPIO_REG_READ GPIO_STATUS_ADDRESS (key_hw st)) AND key_bit st i \<noteq> 0 \<Longrightarrow> intr_on st i) \<Longrightarrow>
    key_step st st'"
| t5s: "i < length (single_key st) \<Longrightarrow> armed (T_key_5s i) (key_hw st) \<Longrightarrow>
    key_step st (key_5s_cb i (key_do (Fired (T_key_5s i)) st))"
| t50ms: "i < length (single_key st) \<Longrightarrow> armed (T_key_50ms i) (key_hw st) \<Longrightarrow>
    key_step st (key_50ms_cb i (key_do (Fired (T_key_50ms i)) st))"

inductive_cases key_stepE: "key_step st st'"

section \<open>What a key goes through\<close>

text \<open>
  The three phases of a key: up and waiting for a falling edge; down and waiting for a rising
  edge; and the debounce window, in which the interrupt is off and the 50 ms timer runs.
\<close>

definition key_ok :: "keys_param \<Rightarrow> nat \<Rightarrow> bool" where
  "key_ok st i \<longleftrightarrow>
    (let lev = key_level (single_key st ! i);
         t = pin_intr (pin_of st i) (key_hw st);
         a5 = armed (T_key_5s i) (key_hw st);
         a50 = armed (T_key_50ms i) (key_hw st)
     in lev = 1 \<and> t = GPIO_PIN_INTR_NEGEDGE \<and> \<not> a5 \<and> \<not> a50
        \<or> lev = 0 \<and> t = GPIO_PIN_INTR_POSEDGE \<and> \<not> a50
        \<or> lev = 0 \<and> t = GPIO_PIN_INTR_DISABLE \<and> a50)"

fun is_press :: "nat \<Rightarrow> event \<Rightarrow> bool" where
  "is_press i (TimerArm (T_key_5s j) ms rep) = (i = j)"
| "is_press i _ = False"

definition presses :: "nat \<Rightarrow> keys_param \<Rightarrow> nat" where
  "presses i st = length (filter (is_press i) (trace (key_hw st)))"

definition calls :: "cfun \<Rightarrow> keys_param \<Rightarrow> nat" where
  "calls f st = length (filter (\<lambda>e. e = Call f) (trace (key_hw st)))"

text \<open>A function that is the short (long) press callback of key \<open>i\<close> and nothing else.\<close>

definition only_short :: "keys_param \<Rightarrow> nat \<Rightarrow> cfun \<Rightarrow> bool" where
  "only_short st i f \<longleftrightarrow> i < length (single_key st) \<and>
     (\<forall>j < length (single_key st). (short_press (single_key st ! j) = Some f) = (j = i)
        \<and> long_press (single_key st ! j) \<noteq> Some f)"

definition only_long :: "keys_param \<Rightarrow> nat \<Rightarrow> cfun \<Rightarrow> bool" where
  "only_long st i f \<longleftrightarrow> i < length (single_key st) \<and>
     (\<forall>j < length (single_key st). (long_press (single_key st ! j) = Some f) = (j = i)
        \<and> short_press (single_key st ! j) \<noteq> Some f)"

definition reports_ok :: "keys_param \<Rightarrow> keys_param \<Rightarrow> nat \<Rightarrow> bool" where
  "reports_ok st0 st i \<longleftrightarrow>
     (\<forall>f. only_short st0 i f \<longrightarrow>
        calls f st + presses i st0 + (if key_level (single_key st ! i) = 0 then 1 else 0) =
        calls f st0 + presses i st)
   \<and> (\<forall>f. only_long st0 i f \<longrightarrow>
        calls f st + presses i st0 + (if armed (T_key_5s i) (key_hw st) then 1 else 0) \<le>
        calls f st0 + presses i st)"

definition static :: "keys_param \<Rightarrow> single_key_param list \<times> u8" where
  "static st = (map (key_level_update (\<lambda>_. 0)) (single_key st), key_num st)"

definition wired :: "keys_param \<Rightarrow> bool" where
  "wired st \<longleftrightarrow> unat (key_num st) = length (single_key st) \<and> distinct (map gpio_id (single_key st))"

definition key_inv :: "keys_param \<Rightarrow> keys_param \<Rightarrow> bool" where
  "key_inv st0 st \<longleftrightarrow> wired st \<and> static st = static st0 \<and>
     (\<forall>i < length (single_key st). key_ok st i \<and> reports_ok st0 st i)"

lemma key_do_simps [simp]:
  "single_key (key_do e st) = single_key st" "key_num (key_do e st) = key_num st"
  "key_hw (key_do e st) = emit e (key_hw st)"
  by (simp_all add: key_do_def)

lemma set_level_simps [simp]:
  "key_hw (set_level i v st) = key_hw st" "key_num (set_level i v st) = key_num st"
  "length (single_key (set_level i v st)) = length (single_key st)"
  "i < length (single_key st) \<Longrightarrow> single_key (set_level i v st) ! j =
     (if i = j then (single_key st ! j)\<lparr>key_level := v\<rparr> else single_key st ! j)"
  by (simp_all add: set_level_def nth_list_update)

lemma level_upd_eq: "k\<lparr>key_level := 0\<rparr> = k'\<lparr>key_level := 0\<rparr> \<longleftrightarrow>
  gpio_id k = gpio_id k' \<and> gpio_func k = gpio_func k' \<and> gpio_name k = gpio_name k'
    \<and> short_press k = short_press k' \<and> long_press k = long_press k'"
  for k k' :: single_key_param
  by (cases k; cases k') auto

lemma static_iff: "static st = static st' \<longleftrightarrow>
  key_num st = key_num st' \<and> length (single_key st) = length (single_key st') \<and>
  (\<forall>i < length (single_key st). gpio_id (single_key st ! i) = gpio_id (single_key st' ! i)
     \<and> gpio_func (single_key st ! i) = gpio_func (single_key st' ! i)
     \<and> gpio_name (single_key st ! i) = gpio_name (single_key st' ! i)
     \<and> short_press (single_key st ! i) = short_press (single_key st' ! i)
     \<and> long_press (single_key st ! i) = long_press (single_key st' ! i))"
  by (auto simp: static_def list_eq_iff_nth_eq level_upd_eq)

lemma static_wired: "static st = static st' \<Longrightarrow> wired st = wired st'"
  unfolding wired_def static_iff by (auto simp: distinct_conv_nth)

section \<open>Frames\<close>

text \<open>What a step that concerns another key leaves alone of key \<open>j\<close>.\<close>

definition same_key :: "keys_param \<Rightarrow> nat \<Rightarrow> keys_param \<Rightarrow> keys_param \<Rightarrow> bool" where
  "same_key st0 j st st' \<longleftrightarrow>
     key_level (single_key st' ! j) = key_level (single_key st ! j)
   \<and> pin_intr (pin_of st j) (key_hw st') = pin_intr (pin_of st j) (key_hw st)
   \<and> armed (T_key_5s j) (key_hw st') = armed (T_key_5s j) (key_hw st)
   \<and> armed (T_key_50ms j) (key_hw st') = armed (T_key_50ms j) (key_hw st)
   \<and> presses j st' = presses j st
   \<and> (\<forall>f. only_short st0 j f \<or> only_long st0 j f \<longrightarrow> calls f st' = calls f st)"

definition acts :: "keys_param \<Rightarrow> nat \<Rightarrow> keys_param \<Rightarrow> keys_param \<Rightarrow> bool" where
  "acts st0 i st st' \<longleftrightarrow> static st' = static st
     \<and> (\<forall>j < length (single_key st). j \<noteq> i \<longrightarrow> same_key st0 j st st')
     \<and> key_ok st' i \<and> reports_ok st0 st' i"

lemma static_pin: "static st' = static st \<Longrightarrow> j < length (single_key st) \<Longrightarrow> pin_of st' j = pin_of st j"
  by (simp add: static_iff)

lemma acts_inv:
  assumes "key_inv st0 st" and "acts st0 i st st'"
  shows "key_inv st0 st'"
proof -
  have len: "length (single_key st') = length (single_key st)"
    using assms(2) by (simp add: acts_def static_iff)
  have "key_ok st' j \<and> reports_ok st0 st' j" if j: "j < length (single_key st)" for j
  proof (cases "j = i")
    case True
    with assms(2) show ?thesis by (simp add: acts_def)
  next
    case False
    with assms j have "same_key st0 j st st'" "key_ok st j" "reports_ok st0 st j"
      by (auto simp: acts_def key_inv_def)
    moreover have "static st' = static st" using assms(2) by (simp add: acts_def)
    then have "pin_of st' j = pin_of st j" using j by (rule static_pin)
    ultimately show ?thesis
      unfolding key_ok_def reports_ok_def same_key_def by (simp add: Let_def)
  qed
  with assms len show ?thesis
    using static_wired [of st' st] by (auto simp: key_inv_def acts_def)
qed

lemma presses_do: "presses i (key_do e st) = presses i st + (if is_press i e then 1 else 0)"
  by (simp add: presses_def)

lemma calls_do: "calls f (key_do e st) = calls f st + (if e = Call f then 1 else 0)"
  by (simp add: calls_def)

lemma counts_set_level [simp]:
  "presses j (set_level i v st) = presses j st" "calls f (set_level i v st) = calls f st"
  by (simp_all add: presses_def calls_def)

lemma wired_pins: "wired st \<Longrightarrow> i < length (single_key st) \<Longrightarrow> j < length (single_key st) \<Longrightarrow>
  pin_of st i = pin_of st j \<longleftrightarrow> i = j"
proof -
  assume w: "wired st" and ij: "i < length (single_key st)" "j < length (single_key st)"
  have "pin_of st i = pin_of st j \<longleftrightarrow> gpio_id (single_key st ! i) = gpio_id (single_key st ! j)"
    by simp
  also have "\<dots> \<longleftrightarrow> i = j"
    using w ij by (auto simp: wired_def distinct_conv_nth)
  finally show ?thesis .
qed

lemma hw_write_simps [simp]:
  "armed t (GPIO_REG_WRITE a v s) = armed t s" "pin_intr p (GPIO_REG_WRITE a v s) = pin_intr p s"
  "trace (GPIO_REG_WRITE a v s) = trace s @ [Wr (GPIO_BASE + a) v]"
  by (simp_all add: GPIO_REG_WRITE_def armed_def pin_intr_def)

lemma intr_one_acts:
  assumes inv: "key_inv st0 st" and i: "i < length (single_key st)"
    and hit: "status AND key_bit st i \<noteq> 0" and on: "intr_on st i"
  shows "\<exists>st'. key_intr_one status i st = Some st' \<and> acts st0 i st st'"
proof -
  have w: "wired st" using inv by (simp add: key_inv_def)
  have ok: "key_ok st i" "reports_ok st0 st i" using inv i by (auto simp: key_inv_def)
  have pins: "\<forall>j < length (single_key st). j \<noteq> i \<longrightarrow>
      gpio_id (single_key st ! j) \<noteq> gpio_id (single_key st ! i)"
    using wired_pins [OF w i] by (metis ucast_u8_u32_eq)
  show ?thesis
  proof (cases "key_level (single_key st ! i) = 1")
    case True
    with i hit ok on pins show ?thesis
      by (auto simp: key_intr_one_def Let_def acts_def static_iff same_key_def key_ok_def
          reports_ok_def presses_def calls_def)
  next
    case False
    with i hit ok on pins show ?thesis
      by (auto simp: key_intr_one_def Let_def acts_def static_iff same_key_def key_ok_def
          reports_ok_def presses_def calls_def intr_on_def)
  qed
qed

lemma same_trace_ok:
  assumes "trace (key_hw st') = trace (key_hw st)" and "single_key st' = single_key st"
  shows "key_ok st' i = key_ok st i" and "reports_ok st0 st' i = reports_ok st0 st i"
    and "intr_on st' i = intr_on st i"
  using assms trace_cong [OF assms(1)]
  by (simp_all add: key_ok_def reports_ok_def intr_on_def presses_def calls_def)

lemma same_trace_inv:
  assumes "trace (key_hw st') = trace (key_hw st)" and "single_key st' = single_key st"
    and "key_num st' = key_num st"
  shows "key_inv st0 st' = key_inv st0 st"
  using assms(2,3) same_trace_ok [OF assms(1,2)]
  by (simp add: key_inv_def wired_def static_def)

text \<open>The handler passes over the keys in turn; the keys it has not reached keep their interrupt on.\<close>

lemma intr_handler_inv:
  assumes inv: "key_inv st0 st"
    and on: "\<And>i. i < length (single_key st) \<Longrightarrow>
      fst (GPIO_REG_READ GPIO_STATUS_ADDRESS (key_hw st)) AND key_bit st i \<noteq> 0 \<Longrightarrow> intr_on st i"
  shows "\<exists>st'. key_intr_handler st = Some st' \<and> key_inv st0 st'"
proof -
  obtain status s where r: "GPIO_REG_READ GPIO_STATUS_ADDRESS (key_hw st) = (status, s)"
    by (cases "GPIO_REG_READ GPIO_STATUS_ADDRESS (key_hw st)")
  then have tr: "trace s = trace (key_hw st)"
    by (auto simp: GPIO_REG_READ_def READ_PERI_REG_def dest: sample_trace)
  let ?st = "st\<lparr>key_hw := s\<rparr>"
  let ?n = "unat (key_num st)"
  have n: "?n = length (single_key st)" using inv by (simp add: key_inv_def wired_def)
  define P where "P = (\<lambda>k x. key_inv st0 x \<and> static x = static st \<and>
    (\<forall>i < ?n. k \<le> i \<longrightarrow> status AND key_bit x i \<noteq> 0 \<longrightarrow> intr_on x i))"
  have "P 0 ?st"
    using inv on same_trace_inv [of ?st st] same_trace_ok [of ?st st] tr r n
    by (auto simp: P_def static_def)
  moreover have "\<exists>t. key_intr_one status k x = Some t \<and> P (Suc k) t"
    if "k < ?n" and "P k x" for k x
  proof -
    have x: "key_inv st0 x" "static x = static st"
      and k: "k < length (single_key x)" and l: "length (single_key x) = ?n"
      using that n by (auto simp: P_def static_iff)
    show ?thesis
    proof (cases "status AND key_bit x k = 0")
      case True
      with that k x show ?thesis by (auto simp: key_intr_one_def P_def)
    next
      case False
      moreover have "intr_on x k" using that False by (simp add: P_def)
      ultimately obtain t where t: "key_intr_one status k x = Some t" "acts st0 k x t"
        using intr_one_acts [OF x(1) k] by blast
      have "static t = static x" using t(2) by (simp add: acts_def)
      moreover have "intr_on t i = intr_on x i \<and> key_bit t i = key_bit x i"
        if "i < ?n" "i \<noteq> k" for i
        using t(2) that l \<open>static t = static x\<close>
        by (simp add: acts_def same_key_def intr_on_def static_iff)
      ultimately show ?thesis
        using t acts_inv [OF x(1) t(2)] \<open>P k x\<close> by (auto simp: P_def)
    qed
  qed
  ultimately have "\<exists>t. fold (\<lambda>i r. Option.bind r (key_intr_one status i)) [0..<?n] (Some ?st) = Some t
      \<and> P ?n t"
    by (intro fold_bind_upt) auto
  then show ?thesis by (auto simp: key_intr_handler_def r P_def)
qed

lemma key_input_cases:
  obtains v s where "key_input i st = (v, st\<lparr>key_hw := s\<rparr>)" and "trace s = trace (key_hw st)"
proof -
  obtain u s where "sample GpioInput (key_hw st) = (u, s)"
    by (cases "sample GpioInput (key_hw st)")
  then show ?thesis
    using that sample_trace [of GpioInput "key_hw st" u s]
    by (auto simp: key_input_def GPIO_INPUT_GET_def)
qed

lemma call_if_simps [simp]:
  "single_key (call_if f st) = single_key st" "key_num (call_if f st) = key_num st"
  "armed t (key_hw (call_if f st)) = armed t (key_hw st)"
  "pin_intr p (key_hw (call_if f st)) = pin_intr p (key_hw st)"
  "trace (key_hw (call_if f st)) = trace (key_hw st) @ (case f of Some g \<Rightarrow> [Call g] | None \<Rightarrow> [])"
  by (cases f; simp add: call_if_def)+

lemma t5s_acts:
  assumes inv: "key_inv st0 st" and i: "i < length (single_key st)"
    and on: "armed (T_key_5s i) (key_hw st)"
  shows "acts st0 i st (key_5s_cb i (key_do (Fired (T_key_5s i)) st))"
proof -
  have ok: "key_ok st i" "reports_ok st0 st i" using inv i by (auto simp: key_inv_def)
  have stat: "static st = static st0" using inv by (simp add: key_inv_def)
  let ?st = "key_do (TimerDisarm (T_key_5s i)) (key_do (Fired (T_key_5s i)) st)"
  obtain v s where v: "key_input i ?st = (v, ?st\<lparr>key_hw := s\<rparr>)" and s: "trace s = trace (key_hw ?st)"
    using key_input_cases .
  from trace_cong [OF s] ok on i stat show ?thesis
    by (auto simp: key_5s_cb_def v s Let_def acts_def static_iff same_key_def key_ok_def
        reports_ok_def presses_def calls_def only_short_def only_long_def split: option.splits)
qed

lemma t50ms_acts:
  assumes inv: "key_inv st0 st" and i: "i < length (single_key st)"
    and on: "armed (T_key_50ms i) (key_hw st)"
  shows "acts st0 i st (key_50ms_cb i (key_do (Fired (T_key_50ms i)) st))"
proof -
  have ok: "key_ok st i" "reports_ok st0 st i" using inv i by (auto simp: key_inv_def)
  have stat: "static st = static st0" and w: "wired st" using inv by (simp_all add: key_inv_def)
  have pins: "\<forall>j < length (single_key st). j \<noteq> i \<longrightarrow>
      gpio_id (single_key st ! j) \<noteq> gpio_id (single_key st ! i)"
    using wired_pins [OF w i] by (metis ucast_u8_u32_eq)
  let ?st = "key_do (TimerDisarm (T_key_50ms i)) (key_do (Fired (T_key_50ms i)) st)"
  obtain v s where v: "key_input i ?st = (v, ?st\<lparr>key_hw := s\<rparr>)" and s: "trace s = trace (key_hw ?st)"
    using key_input_cases .
  from trace_cong [OF s] ok on i stat pins show ?thesis
    by (cases "v = 1")
      (auto simp: key_50ms_cb_def v s Let_def acts_def static_iff same_key_def key_ok_def
        reports_ok_def presses_def calls_def only_short_def only_long_def split: option.splits)
qed

lemma key_step_inv:
  assumes "key_step st st'" and inv: "key_inv st0 st"
  shows "key_inv st0 st'"
  using assms(1)
proof cases
  case (world c f)
  then show ?thesis using same_trace_inv [of st' st st0] inv by simp
next
  case intr
  then show ?thesis using intr_handler_inv [OF inv] by auto
next
  case (t5s i)
  then show ?thesis using acts_inv [OF inv t5s_acts [OF inv]] by simp
next
  case (t50ms i)
  then show ?thesis using acts_inv [OF inv t50ms_acts [OF inv]] by simp
qed

lemma key_steps_inv: "key_step\<^sup>*\<^sup>* st st' \<Longrightarrow> key_inv st0 st \<Longrightarrow> key_inv st0 st'"
  by (induction rule: rtranclp_induct) (auto intro: key_step_inv)

section \<open>Initialisation\<close>

lemma modify_reg_trace: "\<exists>v. trace (modify_reg a f s) = trace s @ [Wr a v]"
proof -
  obtain v s' where "READ_PERI_REG a s = (v, s')" by (cases "READ_PERI_REG a s")
  then show ?thesis
    using sample_trace [of "Reg a" s v s'] by (simp add: modify_reg_def READ_PERI_REG_def)
qed

lemma pin_func_frame [simp]:
  "armed t (PIN_FUNC_SELECT a f s) = armed t s" "pin_intr p (PIN_FUNC_SELECT a f s) = pin_intr p s"
  using modify_reg_trace [of a "\<lambda>v. (v AND NOT (push_bit 4 PERIPHS_IO_MUX_FUNC)) OR pin_func_bits f" s]
  by (auto simp: PIN_FUNC_SELECT_def armed_def pin_intr_def)

lemma key_init_inv:
  assumes w: "wired st"
    and idle: "\<And>i. i < length (single_key st) \<Longrightarrow>
      \<not> armed (T_key_5s i) (key_hw st) \<and> \<not> armed (T_key_50ms i) (key_hw st)"
  shows "\<exists>st'. key_init st = Some st' \<and> static st' = static st \<and>
    (\<forall>i < length (single_key st). key_ok st' i \<and> key_level (single_key st' ! i) = 1)"
proof -
  let ?st = "(key_do (IsrAttach ETS_GPIO_INUM C_key_intr_handler) st)"
  let ?st = "?st\<lparr>key_hw := ETS_INTR_DISABLE ETS_GPIO_INUM (key_hw ?st)\<rparr>"
  define n where "n = length (single_key st)"
  have kn: "unat (key_num st) = n" using w by (simp add: wired_def n_def)
  define P where "P = (\<lambda>k x. static x = static st
    \<and> (\<forall>i < n. \<not> armed (T_key_5s i) (key_hw x) \<and> \<not> armed (T_key_50ms i) (key_hw x))
    \<and> (\<forall>i < k. key_level (single_key x ! i) = 1
         \<and> pin_intr (pin_of st i) (key_hw x) = GPIO_PIN_INTR_NEGEDGE))"
  have "P 0 ?st"
    using idle by (auto simp: P_def n_def static_def ETS_INTR_DISABLE_def)
  moreover have "\<exists>t. key_init_one k x = Some t \<and> P (Suc k) t" if "k < n" and "P k x" for k x
    using that
    by (auto simp: key_init_one_def Let_def P_def n_def static_iff less_Suc_eq)
  ultimately have "\<exists>t. fold (\<lambda>i r. Option.bind r (key_init_one i)) [0..<n] (Some ?st) = Some t
      \<and> P n t"
    by (intro fold_bind_upt) auto
  then obtain t where t: "fold (\<lambda>i r. Option.bind r (key_init_one i)) [0..<n] (Some ?st) = Some t" "P n t"
    by blast
  let ?t = "t\<lparr>key_hw := ETS_INTR_ENABLE ETS_GPIO_INUM (key_hw t)\<rparr>"
  have "key_init st = Some ?t"
    using t(1) by (simp add: key_init_def Let_def kn)
  moreover have "static ?t = static st" using t(2) by (simp add: P_def static_def)
  moreover have "key_ok ?t i \<and> key_level (single_key ?t ! i) = 1" if "i < n" for i
    using that t(2)
    by (simp add: P_def key_ok_def ETS_INTR_ENABLE_def static_iff n_def)
  ultimately show ?thesis by (auto simp: n_def)
qed

lemma not_bit_unat: "\<not> bit (w :: 'a::len word) (unat w)"
proof -
  have "unat w < 2 ^ unat w" by (rule less_exp)
  then have "drop_bit (unat w) (unat w) = 0"
    by (simp add: drop_bit_eq_div)
  then have "drop_bit (unat w) w = 0"
    by (metis unsigned_0 unsigned_drop_bit_eq take_bit_of_0 unsigned_word_eqI drop_bit_take_bit
        word_unat_eq_iff unat_drop_bit_eq)
  then show ?thesis by (simp add: bit_iff_odd_drop_bit)
qed

text \<open>
  \<open>gpio_output_set\<close> takes masks, but initialisation passes it the number of the pin
  (\<open>GPIO_ID_PIN\<close> is the identity): the mask never holds the key's own pin, so the output
  driver of that pin is not switched off; for pin 14 it disables pins 1, 2 and 3 instead.
\<close>

lemma key_init_output_mask:
  assumes "i < length (single_key st)"
  shows "\<exists>st' v tr. key_init_one i st = Some st'
    \<and> trace (key_hw st') = trace (key_hw st) @ [Wr (gpio_name (single_key st ! i)) v,
         GpioOut 0 0 0 (pin_of st i)] @ tr
    \<and> \<not> bit (pin_of st i) (unat (gpio_id (single_key st ! i)))"
proof -
  let ?k = "single_key st ! i"
  obtain v where "trace (PIN_FUNC_SELECT (gpio_name ?k) (ucast (gpio_func ?k)) (key_hw st)) =
      trace (key_hw st) @ [Wr (gpio_name ?k) v]"
    unfolding PIN_FUNC_SELECT_def using modify_reg_trace by blast
  moreover have "\<not> bit (pin_of st i) (unat (gpio_id ?k))"
    using not_bit_unat [of "gpio_id ?k"] by (simp add: bit_ucast_iff)
  ultimately show ?thesis
    using assms by (simp add: key_init_one_def Let_def)
qed

lemma intr_handler_returns:
  assumes "unat (key_num st) \<le> length (single_key st)"
  shows "key_intr_handler st \<noteq> None"
proof -
  obtain status s where r: "GPIO_REG_READ GPIO_STATUS_ADDRESS (key_hw st) = (status, s)"
    by (cases "GPIO_REG_READ GPIO_STATUS_ADDRESS (key_hw st)")
  have "\<exists>t. fold (\<lambda>i r. Option.bind r (key_intr_one status i)) [0..<unat (key_num st)]
      (Some (st\<lparr>key_hw := s\<rparr>)) = Some t \<and> length (single_key t) = length (single_key st)"
    using assms by (intro fold_bind_upt) (auto simp: key_intr_one_def Let_def)
  then show ?thesis by (auto simp: key_intr_handler_def r)
qed

section \<open>Properties\<close>

text \<open>
  C23. No key is ever stuck: from initialisation, through every interleaving of edges,
  spurious interrupts of enabled pins, timers and changes of the inputs, each key is either
  up and waiting for the falling edge, down and waiting for the rising edge, or in the
  debounce window with its 50 ms timer running; the interrupt handler always returns, never
  indexing a key that does not exist.
\<close>

theorem key_never_stuck:
  assumes "wired st" and "\<And>i. i < length (single_key st) \<Longrightarrow>
      \<not> armed (T_key_5s i) (key_hw st) \<and> \<not> armed (T_key_50ms i) (key_hw st)"
    and "key_init st = Some st1" and "key_step\<^sup>*\<^sup>* st1 st2" and "i < length (single_key st)"
  shows "key_ok st2 i \<and> (intr_on st2 i \<or> armed (T_key_50ms i) (key_hw st2))
    \<and> (armed (T_key_5s i) (key_hw st2) \<longrightarrow> key_level (single_key st2 ! i) = 0)
    \<and> key_intr_handler st2 \<noteq> None"
proof -
  from key_init_inv [OF assms(1,2)] assms(3) have st1: "static st1 = static st"
    and "\<forall>i < length (single_key st). key_ok st1 i \<and> key_level (single_key st1 ! i) = 1" by auto
  then have "key_inv st1 st1"
    using static_wired [OF st1] assms(1)
    by (auto simp: key_inv_def reports_ok_def static_iff key_ok_def Let_def)
  with assms(4) have inv: "key_inv st1 st2" by (rule key_steps_inv)
  with st1 assms(5) have ok: "key_ok st2 i" and len: "length (single_key st2) = length (single_key st)"
    by (auto simp: key_inv_def static_iff)
  moreover have "key_intr_handler st2 \<noteq> None"
    using inv by (intro intr_handler_returns) (auto simp: key_inv_def wired_def)
  ultimately show ?thesis by (auto simp: key_ok_def intr_on_def Let_def)
qed

text \<open>
  C5. Every press is reported exactly once: along every run the calls of a key's short-press
  function equal the presses seen (falling edges accepted), less the one still being held,
  and its long-press function is called at most once per press.
\<close>

theorem key_reports_each_press:
  assumes "wired st" and "\<And>i. i < length (single_key st) \<Longrightarrow>
      \<not> armed (T_key_5s i) (key_hw st) \<and> \<not> armed (T_key_50ms i) (key_hw st)"
    and "key_init st = Some st1" and "key_step\<^sup>*\<^sup>* st1 st2"
    and "only_short st1 i f" and "only_long st1 i g"
  shows "calls f st2 + presses i st1 + (if key_level (single_key st2 ! i) = 0 then 1 else 0) =
      calls f st1 + presses i st2
    \<and> calls g st2 + presses i st1 \<le> calls g st1 + presses i st2"
proof -
  from key_init_inv [OF assms(1,2)] assms(3) have st1: "static st1 = static st"
    and "\<forall>i < length (single_key st). key_ok st1 i \<and> key_level (single_key st1 ! i) = 1" by auto
  then have "key_inv st1 st1"
    using static_wired [OF st1] assms(1)
    by (auto simp: key_inv_def reports_ok_def static_iff key_ok_def Let_def)
  with assms(4) have inv: "key_inv st1 st2" by (rule key_steps_inv)
  then have "reports_ok st1 st2 i"
    using assms(5) by (auto simp: key_inv_def only_short_def static_iff)
  with assms(5,6) show ?thesis by (auto simp: reports_ok_def split: if_splits)
qed

section \<open>A concrete key\<close>

definition key_demo :: keys_param where
  "key_demo = \<lparr>key_num = 1, single_key =
     [\<lparr>key_level = 0, gpio_id = 13, gpio_func = 3, gpio_name = PERIPHS_IO_MUX_MTCK_U,
       short_press = Some (C_user 0), long_press = Some (C_user 1)\<rparr>],
     key_hw = mach0\<rparr>"

definition key_demo_up :: keys_param where
  "key_demo_up = the (key_init key_demo)"

definition key_demo_edge :: keys_param where
  "key_demo_edge = key_demo_up\<lparr>key_hw := (key_hw key_demo_up)
     \<lparr>cur := (\<lambda>_. 0)(Reg (GPIO_BASE + GPIO_STATUS_ADDRESS) := 0x2000), feed := (\<lambda>_. [])\<rparr>\<rparr>"

definition key_demo_down :: keys_param where
  "key_demo_down = the (key_intr_handler key_demo_edge)"

lemmas key_demo_eval = key_demo_up_def key_demo_edge_def key_demo_down_def key_demo_def key_init_def
  key_init_one_def key_intr_handler_def key_intr_one_def Let_def set_level_def key_do_def
  GPIO_REG_READ_def GPIO_REG_WRITE_def READ_PERI_REG_def sample_def BIT_def

lemma key_demo_idle: "wired key_demo" "trace (key_hw key_demo) = []"
  by (simp_all add: wired_def key_demo_def)

lemma key_demo_up: "key_init key_demo = Some key_demo_up"
  by (simp add: key_demo_eval)

lemma key_demo_press: "key_intr_handler key_demo_edge = Some key_demo_down"
  by (simp add: key_demo_eval)

lemma key_demo_on: "intr_on key_demo_edge 0"
  by (simp add: key_demo_eval intr_on_def ETS_INTR_ENABLE_def pin_intr_def)

lemma key_demo_run: "key_step\<^sup>*\<^sup>* key_demo_up key_demo_down"
proof -
  have "key_step key_demo_up key_demo_edge"
    unfolding key_demo_edge_def by (rule key_step.world)
  moreover have len: "length (single_key key_demo_edge) = 1" by (simp add: key_demo_eval)
  have "key_step key_demo_edge key_demo_down"
    by (rule key_step.intr [OF key_demo_press]) (use len key_demo_on in simp)
  ultimately show ?thesis by (simp add: converse_rtranclp_into_rtranclp)
qed

lemma key_never_stuck_witness:
  "key_ok key_demo_down 0 \<and> armed (T_key_5s 0) (key_hw key_demo_down)"
proof -
  have "key_ok key_demo_down 0"
    using key_never_stuck [OF key_demo_idle(1) _ key_demo_up key_demo_run, of 0] key_demo_idle(2)
    by (simp add: armed_def) (simp add: key_demo_def)
  then show ?thesis by (simp add: key_demo_eval armed_def ETS_INTR_ENABLE_def)
qed

lemma key_reports_each_press_witness:
  "presses 0 key_demo_down = 1 \<and> key_level (single_key key_demo_down ! 0) = 0
   \<and> calls (C_user 0) key_demo_down = 0"
proof -
  have "only_short key_demo_up 0 (C_user 0)" and "only_long key_demo_up 0 (C_user 1)"
    by (simp_all add: only_short_def only_long_def key_demo_eval)
  from key_reports_each_press [OF key_demo_idle(1) _ key_demo_up key_demo_run this] key_demo_idle(2)
  have "calls (C_user 0) key_demo_down + presses 0 key_demo_up
      + (if key_level (single_key key_demo_down ! 0) = 0 then 1 else 0) =
    calls (C_user 0) key_demo_up + presses 0 key_demo_down"
    by (simp add: armed_def)
  moreover have "presses 0 key_demo_up = 0" "calls (C_user 0) key_demo_up = 0"
    "presses 0 key_demo_down = 1" "key_level (single_key key_demo_down ! 0) = 0"
    by (simp_all add: presses_def calls_def key_demo_eval ETS_INTR_ENABLE_def ETS_INTR_DISABLE_def
        PIN_FUNC_SELECT_def modify_reg_still)
  ultimately show ?thesis by simp
qed

end
