(* ===== verification/UartReg.thy ===== *)
theory UartReg
  imports Machine
begin

text \<open>
  Registers, bit fields, enumerations and state of the UART driver (driver/uart_register.h,
  driver/uart.h).
\<close>

section \<open>Registers and fields of uart_register.h\<close>

definition REG_UART_BASE :: "u8 \<Rightarrow> u32" where "REG_UART_BASE i = 0x60000000 + ucast i * 0xf00"

definition UART_FIFO :: "u8 \<Rightarrow> u32" where "UART_FIFO i = REG_UART_BASE i + 0x0"
definition UART_INT_ST :: "u8 \<Rightarrow> u32" where "UART_INT_ST i = REG_UART_BASE i + 0x8"
definition UART_INT_ENA :: "u8 \<Rightarrow> u32" where "UART_INT_ENA i = REG_UART_BASE i + 0xc"
definition UART_INT_CLR :: "u8 \<Rightarrow> u32" where "UART_INT_CLR i = REG_UART_BASE i + 0x10"
definition UART_STATUS :: "u8 \<Rightarrow> u32" where "UART_STATUS i = REG_UART_BASE i + 0x1c"
definition UART_CONF0 :: "u8 \<Rightarrow> u32" where "UART_CONF0 i = REG_UART_BASE i + 0x20"
definition UART_CONF1 :: "u8 \<Rightarrow> u32" where "UART_CONF1 i = REG_UART_BASE i + 0x24"

definition UART_RXFIFO_TOUT_INT_ST :: u32 where [reg_simps]: "UART_RXFIFO_TOUT_INT_ST = BIT 8"
definition UART_RXFIFO_OVF_INT_ST :: u32 where [reg_simps]: "UART_RXFIFO_OVF_INT_ST = BIT 4"
definition UART_FRM_ERR_INT_ST :: u32 where [reg_simps]: "UART_FRM_ERR_INT_ST = BIT 3"
definition UART_TXFIFO_EMPTY_INT_ST :: u32 where [reg_simps]: "UART_TXFIFO_EMPTY_INT_ST = BIT 1"
definition UART_RXFIFO_FULL_INT_ST :: u32 where [reg_simps]: "UART_RXFIFO_FULL_INT_ST = BIT 0"
definition UART_RXFIFO_TOUT_INT_ENA :: u32 where [reg_simps]: "UART_RXFIFO_TOUT_INT_ENA = BIT 8"
definition UART_RXFIFO_OVF_INT_ENA :: u32 where [reg_simps]: "UART_RXFIFO_OVF_INT_ENA = BIT 4"
definition UART_FRM_ERR_INT_ENA :: u32 where [reg_simps]: "UART_FRM_ERR_INT_ENA = BIT 3"
definition UART_TXFIFO_EMPTY_INT_ENA :: u32 where [reg_simps]: "UART_TXFIFO_EMPTY_INT_ENA = BIT 1"
definition UART_RXFIFO_FULL_INT_ENA :: u32 where [reg_simps]: "UART_RXFIFO_FULL_INT_ENA = BIT 0"
definition UART_RXFIFO_TOUT_INT_CLR :: u32 where [reg_simps]: "UART_RXFIFO_TOUT_INT_CLR = BIT 8"
definition UART_RXFIFO_OVF_INT_CLR :: u32 where [reg_simps]: "UART_RXFIFO_OVF_INT_CLR = BIT 4"
definition UART_FRM_ERR_INT_CLR :: u32 where [reg_simps]: "UART_FRM_ERR_INT_CLR = BIT 3"
definition UART_TXFIFO_EMPTY_INT_CLR :: u32 where [reg_simps]: "UART_TXFIFO_EMPTY_INT_CLR = BIT 1"
definition UART_RXFIFO_FULL_INT_CLR :: u32 where [reg_simps]: "UART_RXFIFO_FULL_INT_CLR = BIT 0"
definition UART_RTS_INV :: u32 where [reg_simps]: "UART_RTS_INV = BIT 23"
definition UART_TXD_INV :: u32 where [reg_simps]: "UART_TXD_INV = BIT 22"
definition UART_CTS_INV :: u32 where [reg_simps]: "UART_CTS_INV = BIT 20"
definition UART_RXD_INV :: u32 where [reg_simps]: "UART_RXD_INV = BIT 19"
definition UART_TXFIFO_RST :: u32 where [reg_simps]: "UART_TXFIFO_RST = BIT 18"
definition UART_RXFIFO_RST :: u32 where [reg_simps]: "UART_RXFIFO_RST = BIT 17"
definition UART_TX_FLOW_EN :: u32 where [reg_simps]: "UART_TX_FLOW_EN = BIT 15"
definition UART_PARITY_EN :: u32 where [reg_simps]: "UART_PARITY_EN = BIT 1"
definition UART_PARITY :: u32 where [reg_simps]: "UART_PARITY = BIT 0"
definition UART_RX_TOUT_EN :: u32 where [reg_simps]: "UART_RX_TOUT_EN = BIT 31"
definition UART_RX_FLOW_EN :: u32 where [reg_simps]: "UART_RX_FLOW_EN = BIT 23"

definition UART_TXFIFO_CNT :: u32 where [reg_simps]: "UART_TXFIFO_CNT = 0xff"
definition UART_RXFIFO_CNT :: u32 where [reg_simps]: "UART_RXFIFO_CNT = 0xff"
definition UART_STOP_BIT_NUM :: u32 where [reg_simps]: "UART_STOP_BIT_NUM = 0x3"
definition UART_BIT_NUM :: u32 where [reg_simps]: "UART_BIT_NUM = 0x3"
definition UART_PARITY_EN_M :: u32 where [reg_simps]: "UART_PARITY_EN_M = 0x1"
definition UART_PARITY_M :: u32 where [reg_simps]: "UART_PARITY_M = 0x1"
definition UART_RX_TOUT_THRHD :: u32 where [reg_simps]: "UART_RX_TOUT_THRHD = 0x7f"
definition UART_RX_FLOW_THRHD :: u32 where [reg_simps]: "UART_RX_FLOW_THRHD = 0x7f"
definition UART_TXFIFO_EMPTY_THRHD :: u32 where [reg_simps]: "UART_TXFIFO_EMPTY_THRHD = 0x7f"
definition UART_RXFIFO_FULL_THRHD :: u32 where [reg_simps]: "UART_RXFIFO_FULL_THRHD = 0x7f"

definition UART_TXFIFO_CNT_S :: nat where [reg_simps]: "UART_TXFIFO_CNT_S = 16"
definition UART_RXFIFO_CNT_S :: nat where [reg_simps]: "UART_RXFIFO_CNT_S = 0"
definition UART_STOP_BIT_NUM_S :: nat where [reg_simps]: "UART_STOP_BIT_NUM_S = 4"
definition UART_BIT_NUM_S :: nat where [reg_simps]: "UART_BIT_NUM_S = 2"
definition UART_PARITY_EN_S :: nat where [reg_simps]: "UART_PARITY_EN_S = 1"
definition UART_PARITY_S :: nat where [reg_simps]: "UART_PARITY_S = 0"
definition UART_RX_TOUT_THRHD_S :: nat where [reg_simps]: "UART_RX_TOUT_THRHD_S = 24"
definition UART_RX_FLOW_THRHD_S :: nat where [reg_simps]: "UART_RX_FLOW_THRHD_S = 16"
definition UART_TXFIFO_EMPTY_THRHD_S :: nat where [reg_simps]: "UART_TXFIFO_EMPTY_THRHD_S = 8"
definition UART_RXFIFO_FULL_THRHD_S :: nat where [reg_simps]: "UART_RXFIFO_FULL_THRHD_S = 0"

section \<open>Enumerations of uart.h\<close>

text \<open>An enumeration is a datatype with its C values; a value of the type is always one of them.\<close>

datatype UartBitsNum4Char = FIVE_BITS | SIX_BITS | SEVEN_BITS | EIGHT_BITS

primrec bits_val :: "UartBitsNum4Char \<Rightarrow> u32" where
  "bits_val FIVE_BITS = 0" | "bits_val SIX_BITS = 1" | "bits_val SEVEN_BITS = 2"
| "bits_val EIGHT_BITS = 3"

datatype UartStopBitsNum = ONE_STOP_BIT | ONE_HALF_STOP_BIT | TWO_STOP_BIT

primrec stop_val :: "UartStopBitsNum \<Rightarrow> u32" where
  "stop_val ONE_STOP_BIT = 1" | "stop_val ONE_HALF_STOP_BIT = 2" | "stop_val TWO_STOP_BIT = 3"

datatype UartParityMode = NONE_BITS | ODD_BITS | EVEN_BITS

primrec parity_val :: "UartParityMode \<Rightarrow> u32" where
  "parity_val NONE_BITS = 2" | "parity_val ODD_BITS = 1" | "parity_val EVEN_BITS = 0"

datatype UartExistParity = STICK_PARITY_DIS | STICK_PARITY_EN

primrec exist_val :: "UartExistParity \<Rightarrow> u32" where
  "exist_val STICK_PARITY_DIS = 0" | "exist_val STICK_PARITY_EN = 1"

datatype UART_LineLevelInverse =
    UART_None_Inverse | UART_Rxd_Inverse | UART_CTS_Inverse | UART_Txd_Inverse | UART_RTS_Inverse

primrec inverse_val :: "UART_LineLevelInverse \<Rightarrow> u32" where
  "inverse_val UART_None_Inverse = 0" | "inverse_val UART_Rxd_Inverse = UART_RXD_INV"
| "inverse_val UART_CTS_Inverse = UART_CTS_INV" | "inverse_val UART_Txd_Inverse = UART_TXD_INV"
| "inverse_val UART_RTS_Inverse = UART_RTS_INV"

datatype UartBautRate =
    BIT_RATE_300 | BIT_RATE_600 | BIT_RATE_1200 | BIT_RATE_2400 | BIT_RATE_4800 | BIT_RATE_9600
  | BIT_RATE_19200 | BIT_RATE_38400 | BIT_RATE_57600 | BIT_RATE_74880 | BIT_RATE_115200
  | BIT_RATE_230400 | BIT_RATE_460800 | BIT_RATE_921600 | BIT_RATE_1843200 | BIT_RATE_3686400

primrec baud_val :: "UartBautRate \<Rightarrow> u32" where
  "baud_val BIT_RATE_300 = 300" | "baud_val BIT_RATE_600 = 600" | "baud_val BIT_RATE_1200 = 1200"
| "baud_val BIT_RATE_2400 = 2400" | "baud_val BIT_RATE_4800 = 4800" | "baud_val BIT_RATE_9600 = 9600"
| "baud_val BIT_RATE_19200 = 19200" | "baud_val BIT_RATE_38400 = 38400"
| "baud_val BIT_RATE_57600 = 57600" | "baud_val BIT_RATE_74880 = 74880"
| "baud_val BIT_RATE_115200 = 115200" | "baud_val BIT_RATE_230400 = 230400"
| "baud_val BIT_RATE_460800 = 460800" | "baud_val BIT_RATE_921600 = 921600"
| "baud_val BIT_RATE_1843200 = 1843200" | "baud_val BIT_RATE_3686400 = 3686400"

datatype UART_HwFlowCtrl =
    USART_HardwareFlowControl_None | USART_HardwareFlowControl_RTS
  | USART_HardwareFlowControl_CTS | USART_HardwareFlowControl_CTS_RTS

primrec flow_val :: "UART_HwFlowCtrl \<Rightarrow> u32" where
  "flow_val USART_HardwareFlowControl_None = 0" | "flow_val USART_HardwareFlowControl_RTS = 1"
| "flow_val USART_HardwareFlowControl_CTS = 2" | "flow_val USART_HardwareFlowControl_CTS_RTS = 3"

datatype STATUS = OK | FAIL | PENDING | BUSY | CANCEL

datatype TCPState = RUN | BLOCK

section \<open>State\<close>

text \<open>
  \<open>UartDevice\<close> keeps the fields the driver uses; the object itself lives in the ROM, so its
  initial contents are arbitrary. The ring buffers of the buffered build hold their storage as
  a byte list and their two pointers as offsets from its start.
\<close>

record UartDevice =
  baut_rate :: UartBautRate
  data_bits :: UartBitsNum4Char
  exist_parity :: UartExistParity
  parity :: UartParityMode
  stop_bits :: UartStopBitsNum
  TrigLvl :: u8

record UartBuffer =
  UartBuffSize :: u32
  pUartBuff :: "u8 list"
  pInPos :: nat
  pOutPos :: nat
  BuffState :: STATUS
  Space :: u16
  TcpControl :: TCPState

record uart =
  UartDev :: UartDevice
  pTxBuffer :: "UartBuffer option"
  pRxBuffer :: "UartBuffer option"
  uart_hw :: mach

definition on_hw :: "(mach \<Rightarrow> mach) \<Rightarrow> uart \<Rightarrow> uart" where
  "on_hw f st = st\<lparr>uart_hw := f (uart_hw st)\<rparr>"

definition UART0 :: u8 where "UART0 = 0"
definition UART1 :: u8 where "UART1 = 1"
definition UART_LINE_INV_MASK :: u32 where [reg_simps]: "UART_LINE_INV_MASK = push_bit 19 0x3f"
definition UART_FIFO_LEN :: nat where "UART_FIFO_LEN = 128"
definition UART_TX_EMPTY_THRESH_VAL :: u32 where "UART_TX_EMPTY_THRESH_VAL = 0x10"
definition UART_TX_BUFFER_SIZE :: u32 where "UART_TX_BUFFER_SIZE = 256"
definition UART_RX_BUFFER_SIZE :: u32 where "UART_RX_BUFFER_SIZE = 256"

end
