(* ===== verification/Uart.thy ===== *)
theory Uart
  imports UartReg
begin

text \<open>
  The unbuffered part of the UART driver (driver/uart.c): configuration and setters of the
  line parameters, blocking and non-blocking transmission, the print functions with their
  line-end translation, and the two waiting functions.
\<close>

section \<open>Transmission\<close>

definition tx_cnt :: "u32 \<Rightarrow> u32" where
  "tx_cnt v = drop_bit UART_TXFIFO_CNT_S v AND UART_TXFIFO_CNT"

text \<open>The busy loop of \<open>uart_tx_one_char\<close>; \<open>None\<close> when the FIFO never drains.\<close>

definition uart_tx_one_char :: "u8 \<Rightarrow> u8 \<Rightarrow> mach \<Rightarrow> mach option" where
  "uart_tx_one_char uart TxChar s =
     map_option (WRITE_PERI_REG (UART_FIFO uart) (ucast TxChar))
       (wait_reg (UART_STATUS uart)
          (\<lambda>v. let fifo_cnt = v AND push_bit UART_TXFIFO_CNT_S UART_TXFIFO_CNT
                in drop_bit UART_TXFIFO_CNT_S fifo_cnt AND UART_TXFIFO_CNT < 126) s)"

definition uart_tx_one_char_no_wait :: "u8 \<Rightarrow> u8 \<Rightarrow> mach \<Rightarrow> mach" where
  "uart_tx_one_char_no_wait uart TxChar s =
     (case READ_PERI_REG (UART_STATUS uart) s of
        (v, s) \<Rightarrow> let fifo_cnt = (ucast (tx_cnt v) :: u8)
                  in if fifo_cnt < 126 then WRITE_PERI_REG (UART_FIFO uart) (ucast TxChar) s else s)"

definition uart0_tx_one_char_no_wait :: "u8 \<Rightarrow> mach \<Rightarrow> mach" where
  "uart0_tx_one_char_no_wait TxChar s =
     (case READ_PERI_REG (UART_STATUS UART0) s of
        (v, s) \<Rightarrow> let fifo_cnt = (ucast (tx_cnt v) :: u8)
                  in if fifo_cnt < 126 then WRITE_PERI_REG (UART_FIFO UART0) (ucast TxChar) s else s)"

abbreviation LF :: u8 where "LF \<equiv> 10"
abbreviation CR :: u8 where "CR \<equiv> 13"

definition uart1_write_char :: "u8 \<Rightarrow> mach \<Rightarrow> mach option" where
  "uart1_write_char c s =
     (if c = LF then Option.bind (uart_tx_one_char UART1 CR s) (uart_tx_one_char UART1 LF)
      else if c = CR then Some s
      else uart_tx_one_char UART1 c s)"

definition uart0_write_char :: "u8 \<Rightarrow> mach \<Rightarrow> mach option" where
  "uart0_write_char c s =
     (if c = LF then Option.bind (uart_tx_one_char UART0 CR s) (uart_tx_one_char UART0 LF)
      else if c = CR then Some s
      else uart_tx_one_char UART0 c s)"

text \<open>A buffer that is shorter than the length passed is read out of bounds: \<open>None\<close>.\<close>

definition uart0_tx_buffer :: "u8 list \<Rightarrow> u16 \<Rightarrow> mach \<Rightarrow> mach option" where
  "uart0_tx_buffer buf len s =
     fold (\<lambda>i r. Option.bind r (\<lambda>s. if i < length buf then uart_tx_one_char UART0 (buf ! i) s else None))
       [0..<unat len] (Some s)"

text \<open>A C string is the bytes of its object; running past the end without a NUL is \<open>None\<close>.\<close>

primrec uart0_sendStr :: "u8 list \<Rightarrow> mach \<Rightarrow> mach option" where
  "uart0_sendStr [] s = None"
| "uart0_sendStr (c # str) s =
     (if c = 0 then Some s
      else Option.bind (uart_tx_one_char UART0 c s) (uart0_sendStr str))"

primrec uart1_sendStr_no_wait :: "u8 list \<Rightarrow> mach \<Rightarrow> mach option" where
  "uart1_sendStr_no_wait [] s = None"
| "uart1_sendStr_no_wait (c # str) s =
     (if c = 0 then Some s
      else uart1_sendStr_no_wait str (uart_tx_one_char_no_wait UART1 c s))"

text \<open>A string literal of the source as the bytes of its object.\<close>

definition cstring :: "string \<Rightarrow> u8 list" where
  "cstring s = map (\<lambda>c. of_nat (of_char c)) s @ [0]"

section \<open>Interrupt enables\<close>

definition uart_rx_intr_disable :: "u8 \<Rightarrow> mach \<Rightarrow> mach" where
  "uart_rx_intr_disable uart_no s =
     CLEAR_PERI_REG_MASK (UART_INT_ENA uart_no)
       (UART_RXFIFO_FULL_INT_ENA OR UART_RXFIFO_TOUT_INT_ENA) s"

definition uart_rx_intr_enable :: "u8 \<Rightarrow> mach \<Rightarrow> mach" where
  "uart_rx_intr_enable uart_no s =
     SET_PERI_REG_MASK (UART_INT_ENA uart_no)
       (UART_RXFIFO_FULL_INT_ENA OR UART_RXFIFO_TOUT_INT_ENA) s"

definition UART_ResetFifo :: "u8 \<Rightarrow> mach \<Rightarrow> mach" where
  "UART_ResetFifo uart_no s =
     CLEAR_PERI_REG_MASK (UART_CONF0 uart_no) (UART_RXFIFO_RST OR UART_TXFIFO_RST)
       (SET_PERI_REG_MASK (UART_CONF0 uart_no) (UART_RXFIFO_RST OR UART_TXFIFO_RST) s)"

definition UART_ClearIntrStatus :: "u8 \<Rightarrow> u32 \<Rightarrow> mach \<Rightarrow> mach" where
  "UART_ClearIntrStatus uart_no clr_mask s = WRITE_PERI_REG (UART_INT_CLR uart_no) clr_mask s"

definition UART_SetIntrEna :: "u8 \<Rightarrow> u32 \<Rightarrow> mach \<Rightarrow> mach" where
  "UART_SetIntrEna uart_no ena_mask s = SET_PERI_REG_MASK (UART_INT_ENA uart_no) ena_mask s"

definition UART_SetPrintPort :: "u8 \<Rightarrow> mach \<Rightarrow> mach" where
  "UART_SetPrintPort uart_no s =
     (if uart_no = 1 then emit (InstallPutc C_uart1_write_char) s
      else emit (InstallPutc C_uart0_write_char) (emit (InstallPutc C_uart0_write_char_no_wait) s))"

section \<open>Line parameters\<close>

definition conf0_of :: "UartDevice \<Rightarrow> u32" where
  "conf0_of d =
     push_bit UART_PARITY_EN_S (exist_val (exist_parity d) AND UART_PARITY_EN_M)
     OR push_bit UART_PARITY_S (parity_val (parity d) AND UART_PARITY_M)
     OR push_bit UART_STOP_BIT_NUM_S (stop_val (stop_bits d) AND UART_STOP_BIT_NUM)
     OR push_bit UART_BIT_NUM_S (bits_val (data_bits d) AND UART_BIT_NUM)"

definition uart_config :: "u8 \<Rightarrow> uart \<Rightarrow> uart" where
  "uart_config uart_no st =
    (let d = UartDev st;
         s = uart_hw st;
         s = (if uart_no = UART1 then PIN_FUNC_SELECT PERIPHS_IO_MUX_GPIO2_U FUNC_U1TXD_BK s
              else (let s = emit (IsrAttach ETS_UART_INUM C_uart0_rx_intr_handler) s;
                        s = PIN_PULLUP_DIS PERIPHS_IO_MUX_U0TXD_U s
                    in PIN_FUNC_SELECT PERIPHS_IO_MUX_U0TXD_U FUNC_U0TXD s));
         s = emit (DivModify uart_no (UART_CLK_FREQ div baud_val (baut_rate d))) s;
         s = WRITE_PERI_REG (UART_CONF0 uart_no) (conf0_of d) s;
         s = SET_PERI_REG_MASK (UART_CONF0 uart_no) (UART_RXFIFO_RST OR UART_TXFIFO_RST) s;
         s = CLEAR_PERI_REG_MASK (UART_CONF0 uart_no) (UART_RXFIFO_RST OR UART_TXFIFO_RST) s;
         s = (if uart_no = UART0 then
                (let s = WRITE_PERI_REG (UART_CONF1 uart_no)
                       (push_bit UART_RXFIFO_FULL_THRHD_S (100 AND UART_RXFIFO_FULL_THRHD)
                        OR push_bit UART_RX_TOUT_THRHD_S (0x02 AND UART_RX_TOUT_THRHD)
                        OR UART_RX_TOUT_EN
                        OR push_bit UART_TXFIFO_EMPTY_THRHD_S (0x10 AND UART_TXFIFO_EMPTY_THRHD)) s
                 in SET_PERI_REG_MASK (UART_INT_ENA uart_no)
                      (UART_RXFIFO_TOUT_INT_ENA OR UART_FRM_ERR_INT_ENA) s)
              else WRITE_PERI_REG (UART_CONF1 uart_no)
                     (push_bit UART_RXFIFO_FULL_THRHD_S
                        (ucast (TrigLvl d) AND UART_RXFIFO_FULL_THRHD)) s);
         s = WRITE_PERI_REG (UART_INT_CLR uart_no) 0xffff s;
         s = SET_PERI_REG_MASK (UART_INT_ENA uart_no)
               (UART_RXFIFO_FULL_INT_ENA OR UART_RXFIFO_OVF_INT_ENA) s
     in st\<lparr>uart_hw := s\<rparr>)"

definition UART_SetWordLength :: "u8 \<Rightarrow> UartBitsNum4Char \<Rightarrow> mach \<Rightarrow> mach" where
  "UART_SetWordLength uart_no len s =
     SET_PERI_REG_BITS (UART_CONF0 uart_no) UART_BIT_NUM (bits_val len) UART_BIT_NUM_S s"

definition UART_SetStopBits :: "u8 \<Rightarrow> UartStopBitsNum \<Rightarrow> mach \<Rightarrow> mach" where
  "UART_SetStopBits uart_no bit_num s =
     SET_PERI_REG_BITS (UART_CONF0 uart_no) UART_STOP_BIT_NUM (stop_val bit_num) UART_STOP_BIT_NUM_S s"

definition UART_SetLineInverse :: "u8 \<Rightarrow> UART_LineLevelInverse \<Rightarrow> mach \<Rightarrow> mach" where
  "UART_SetLineInverse uart_no inverse_mask s =
     SET_PERI_REG_MASK (UART_CONF0 uart_no) (inverse_val inverse_mask)
       (CLEAR_PERI_REG_MASK (UART_CONF0 uart_no) UART_LINE_INV_MASK s)"

definition UART_SetParity :: "u8 \<Rightarrow> UartParityMode \<Rightarrow> mach \<Rightarrow> mach" where
  "UART_SetParity uart_no Parity_mode s =
     (let s = CLEAR_PERI_REG_MASK (UART_CONF0 uart_no) (UART_PARITY OR UART_PARITY_EN) s
      in if Parity_mode = NONE_BITS then s
         else SET_PERI_REG_MASK (UART_CONF0 uart_no) (parity_val Parity_mode OR UART_PARITY_EN) s)"

text \<open>A division by zero traps: \<open>None\<close>.\<close>

definition UART_SetBaudrate :: "u8 \<Rightarrow> u32 \<Rightarrow> mach \<Rightarrow> mach option" where
  "UART_SetBaudrate uart_no baud_rate s =
     (if baud_rate = 0 then None
      else Some (emit (DivModify uart_no (UART_CLK_FREQ div baud_rate)) s))"

definition FUNC_UART0_CTS :: u32 where [reg_simps]: "FUNC_UART0_CTS = 4"

definition UART_SetFlowCtrl :: "u8 \<Rightarrow> UART_HwFlowCtrl \<Rightarrow> u8 \<Rightarrow> mach \<Rightarrow> mach" where
  "UART_SetFlowCtrl uart_no flow_ctrl rx_thresh s =
    (let s = (if flow_val flow_ctrl AND flow_val USART_HardwareFlowControl_RTS \<noteq> 0 then
                (let s = PIN_FUNC_SELECT PERIPHS_IO_MUX_MTDO_U FUNC_U0RTS s;
                     s = SET_PERI_REG_BITS (UART_CONF1 uart_no) UART_RX_FLOW_THRHD
                           (ucast rx_thresh) UART_RX_FLOW_THRHD_S s
                 in SET_PERI_REG_MASK (UART_CONF1 uart_no) UART_RX_FLOW_EN s)
              else CLEAR_PERI_REG_MASK (UART_CONF1 uart_no) UART_RX_FLOW_EN s)
     in if flow_val flow_ctrl AND flow_val USART_HardwareFlowControl_CTS \<noteq> 0 then
          (let s = PIN_FUNC_SELECT PERIPHS_IO_MUX_MTCK_U FUNC_UART0_CTS s
           in SET_PERI_REG_MASK (UART_CONF0 uart_no) UART_TX_FLOW_EN s)
        else CLEAR_PERI_REG_MASK (UART_CONF0 uart_no) UART_TX_FLOW_EN s)"

section \<open>Waiting for the transmitter\<close>

text \<open>
  The two loops poll the FIFO counter and the system time. The recursion consumes the values
  the environment has scripted for both sources; when both scripts are used up the state
  cannot change any more and a loop that goes on is one that never ends: \<open>None\<close>.
\<close>

abbreviation WTD_REG :: u32 where "WTD_REG \<equiv> 0x60000914"

function wait_tx_empty :: "u8 \<Rightarrow> u32 \<Rightarrow> u32 \<Rightarrow> mach \<Rightarrow> mach option" where
  "wait_tx_empty uart_no t_s time_out_us s =
     (case READ_PERI_REG (UART_STATUS uart_no) s of (v, s1) \<Rightarrow>
        if v AND push_bit UART_TXFIFO_CNT_S UART_TXFIFO_CNT = 0 then Some s1
        else (case sample SysTime s1 of (now, s2) \<Rightarrow>
          if now - t_s > time_out_us then Some s2
          else if still (Reg (UART_STATUS uart_no)) s \<and> still SysTime s then None
          else wait_tx_empty uart_no t_s time_out_us (WRITE_PERI_REG WTD_REG 0x73 s2)))"
  by pat_completeness auto
termination
  by (relation "measure (\<lambda>(u, t, to, s). length (feed s (Reg (UART_STATUS u))) + length (feed s SysTime))")
    (auto simp: READ_PERI_REG_def sample_def still_def split: list.splits)

declare wait_tx_empty.simps [simp del]

definition UART_WaitTxFifoEmpty :: "u8 \<Rightarrow> u32 \<Rightarrow> mach \<Rightarrow> mach option" where
  "UART_WaitTxFifoEmpty uart_no time_out_us s =
     (case sample SysTime s of (t_s, s) \<Rightarrow> wait_tx_empty uart_no t_s time_out_us s)"

definition tx_buff_len :: "uart \<Rightarrow> u32" where
  "tx_buff_len st =
     (case pTxBuffer st of Some b \<Rightarrow> UartBuffSize b - ucast (Space b) | None \<Rightarrow> 0)"

function check_output :: "u8 \<Rightarrow> u32 \<Rightarrow> u32 \<Rightarrow> u32 \<Rightarrow> mach \<Rightarrow> (bool \<times> mach) option" where
  "check_output uart_no t_start time_out_us buff_len s =
     (case READ_PERI_REG (UART_STATUS uart_no) s of (v, s1) \<Rightarrow>
        let tx_fifo_len = (ucast (tx_cnt v) :: u8) in
        if tx_fifo_len = 0 \<and> buff_len = 0 then Some (True, s1)
        else (case sample SysTime s1 of (now, s2) \<Rightarrow>
          if now - t_start > time_out_us then Some (False, s2)
          else if still (Reg (UART_STATUS uart_no)) s \<and> still SysTime s then None
          else check_output uart_no t_start time_out_us buff_len (WRITE_PERI_REG WTD_REG 0x73 s2)))"
  by pat_completeness auto
termination
  by (relation "measure (\<lambda>(u, t, to, b, s). length (feed s (Reg (UART_STATUS u))) + length (feed s SysTime))")
    (auto simp: READ_PERI_REG_def sample_def still_def split: list.splits)

declare check_output.simps [simp del]

definition UART_CheckOutputFinished :: "u8 \<Rightarrow> u32 \<Rightarrow> uart \<Rightarrow> (bool \<times> uart) option" where
  "UART_CheckOutputFinished uart_no time_out_us st =
     (case sample SysTime (uart_hw st) of (t_start, s) \<Rightarrow>
        map_option (\<lambda>(r, s). (r, st\<lparr>uart_hw := s\<rparr>))
          (check_output uart_no t_start time_out_us (tx_buff_len st) s))"

definition uart_init_2 :: "UartBautRate \<Rightarrow> UartBautRate \<Rightarrow> uart \<Rightarrow> uart" where
  "uart_init_2 uart0_br uart1_br st =
    (let st = st\<lparr>UartDev := (UartDev st)\<lparr>baut_rate := uart0_br, exist_parity := STICK_PARITY_EN,
                  parity := EVEN_BITS, stop_bits := ONE_STOP_BIT, data_bits := EIGHT_BITS\<rparr>\<rparr>;
         st = uart_config UART0 st;
         st = st\<lparr>UartDev := (UartDev st)\<lparr>baut_rate := uart1_br\<rparr>\<rparr>;
         st = uart_config UART1 st;
         st = on_hw (ETS_INTR_ENABLE ETS_UART_INUM) st
     in on_hw (emit (InstallPutc C_uart1_write_char)) st)"

section \<open>Registers\<close>

lemmas uart_regs = UART_FIFO_def UART_INT_ST_def UART_INT_ENA_def UART_INT_CLR_def UART_STATUS_def
  UART_CONF0_def UART_CONF1_def REG_UART_BASE_def

text \<open>Two registers of one port are equal only when their offsets are.\<close>

lemma uart_regs_neq [simp]:
  "UART_STATUS u \<noteq> UART_FIFO u" "UART_FIFO u \<noteq> UART_STATUS u"
  "UART_CONF0 u \<noteq> UART_CONF1 u" "UART_CONF1 u \<noteq> UART_CONF0 u"
  "UART_CONF0 u \<noteq> UART_INT_ENA u" "UART_INT_ENA u \<noteq> UART_CONF0 u"
  "UART_CONF0 u \<noteq> UART_INT_CLR u" "UART_INT_CLR u \<noteq> UART_CONF0 u"
  "UART_INT_ENA u \<noteq> UART_INT_CLR u" "UART_INT_CLR u \<noteq> UART_INT_ENA u"
  "UART_CONF1 u \<noteq> UART_INT_ENA u" "UART_INT_ENA u \<noteq> UART_CONF1 u"
  "UART_INT_ST u \<noteq> UART_INT_ENA u" "UART_INT_ENA u \<noteq> UART_INT_ST u"
  "UART_INT_ST u \<noteq> UART_INT_CLR u" "UART_INT_CLR u \<noteq> UART_INT_ST u"
  "UART_INT_ENA u \<noteq> UART_FIFO u" "UART_FIFO u \<noteq> UART_INT_ENA u"
  "UART_INT_CLR u \<noteq> UART_FIFO u" "UART_FIFO u \<noteq> UART_INT_CLR u"
  "UART_INT_ENA u \<noteq> UART_STATUS u" "UART_STATUS u \<noteq> UART_INT_ENA u"
  by (simp_all add: uart_regs)

section \<open>Line parameters read back\<close>

definition conf0_fields :: "u32 \<Rightarrow> u32 \<times> u32 \<times> bool \<times> bool" where
  "conf0_fields v = (drop_bit 2 v AND 3, drop_bit 4 v AND 3, bit v 1, bit v 0)"

lemma two_bits_eq: "a AND 3 = b AND 3 \<longleftrightarrow> (bit a 0 \<longleftrightarrow> bit b 0) \<and> (bit a 1 \<longleftrightarrow> bit b 1)"
  for a b :: u32
proof
  assume e: "a AND 3 = b AND 3"
  have "bit (a AND 3) n = bit (b AND 3) n" for n by (simp add: e)
  from this [of 0] this [of 1] show "(bit a 0 \<longleftrightarrow> bit b 0) \<and> (bit a 1 \<longleftrightarrow> bit b 1)"
    by (simp add: bit_and_iff bit_numeral_rec)
next
  assume h: "(bit a 0 \<longleftrightarrow> bit b 0) \<and> (bit a 1 \<longleftrightarrow> bit b 1)"
  show "a AND 3 = b AND 3"
  proof (rule bit_word_eqI)
    fix n
    have three: "bit (3 :: int) n \<longleftrightarrow> n = 0 \<or> n = 1"
      using bit_mask_iff [of 2 n, where 'a = int] by (auto simp: mask_eq_exp_minus_1)
    show "bit (a AND 3) n = bit (b AND 3) n"
      using h by (auto simp: bit_and_iff three)
  qed
qed

lemma conf0_of_fields:
  "conf0_fields (conf0_of d) = (bits_val (data_bits d), stop_val (stop_bits d),
     exist_parity d = STICK_PARITY_EN, parity d = ODD_BITS)"
  by (cases "data_bits d"; cases "stop_bits d"; cases "exist_parity d"; cases "parity d")
    (simp_all add: conf0_fields_def conf0_of_def reg_simps)

lemma conf0_of_high: "drop_bit 6 (conf0_of d) = 0"
  by (cases "data_bits d"; cases "stop_bits d"; cases "exist_parity d"; cases "parity d")
    (simp_all add: conf0_of_def reg_simps)

lemma and3_val:
  "(x :: u32) AND 3 = 0 \<longleftrightarrow> \<not> bit x 0 \<and> \<not> bit x 1" "x AND 3 = 1 \<longleftrightarrow> bit x 0 \<and> \<not> bit x 1"
  "x AND 3 = 2 \<longleftrightarrow> \<not> bit x 0 \<and> bit x 1" "x AND 3 = 3 \<longleftrightarrow> bit x 0 \<and> bit x 1"
  using two_bits_eq [of x 0] two_bits_eq [of x 1] two_bits_eq [of x 2] two_bits_eq [of x 3]
  by simp_all

lemma bit_push3: "bit (push_bit k 3 :: u32) n \<longleftrightarrow> n < 32 \<and> (n = k \<or> n = Suc k)"
  using two_bits_eq [of 3 3]
proof -
  have three: "bit (3 :: int) n \<longleftrightarrow> n = 0 \<or> n = 1" for n
    using bit_mask_iff [of 2 n, where 'a = int] by (auto simp: mask_eq_exp_minus_1)
  show ?thesis by (auto simp: bit_push_bit_iff three)
qed

lemma set_bits_field:
  assumes "k + 2 \<le> 32" and "f \<in> {0, 1, 2, 3}"
  shows "drop_bit k ((v AND NOT (push_bit k 3)) OR push_bit k f :: u32) AND 3 = f"
    and "n \<noteq> k \<Longrightarrow> n \<noteq> Suc k \<Longrightarrow>
      bit ((v AND NOT (push_bit k 3)) OR push_bit k f :: u32) n = bit v n"
proof -
  have three: "bit (3 :: int) n \<longleftrightarrow> n = 0 \<or> n = 1" for n
    using bit_mask_iff [of 2 n, where 'a = int] by (auto simp: mask_eq_exp_minus_1)
  have f: "f AND 3 = f" using assms(2) by auto
  have "drop_bit k ((v AND NOT (push_bit k 3)) OR push_bit k f) AND 3 = f AND 3"
    using assms(1) by (subst two_bits_eq) (auto simp: bit_simps three)
  then show "drop_bit k ((v AND NOT (push_bit k 3)) OR push_bit k f :: u32) AND 3 = f"
    by (simp add: f)
  have low: "m < 2" if "bit f m" for m
  proof -
    have "bit (f AND 3) m" using that by (simp only: f)
    then show ?thesis by (auto simp: bit_and_iff three)
  qed
  show "bit ((v AND NOT (push_bit k 3)) OR push_bit k f :: u32) n = bit v n"
    if "n \<noteq> k" "n \<noteq> Suc k"
  proof -
    have "\<not> (k \<le> n \<and> bit f (n - k))" using low [of "n - k"] that by auto
    moreover have "\<not> (k \<le> n \<and> bit (3 :: int) (n - k))" using that by (auto simp: three)
    ultimately show ?thesis by (auto simp: bit_simps dest: bit_imp_le_length)
  qed
qed

lemma drop_and3_cong:
  "bit a k = bit b k \<Longrightarrow> bit a (Suc k) = bit b (Suc k) \<Longrightarrow>
    drop_bit k a AND 3 = drop_bit k b AND (3 :: u32)"
  by (simp add: two_bits_eq bit_drop_bit_eq)

lemma bits_val_range: "bits_val wl \<in> {0, 1, 2, 3}" by (cases wl) auto
lemma stop_val_range: "stop_val sb \<in> {0, 1, 2, 3}" by (cases sb) auto

abbreviation conf0 :: "u8 \<Rightarrow> mach \<Rightarrow> u32" where
  "conf0 u s \<equiv> peri s (UART_CONF0 u)"

lemma word_length_conf0:
  assumes "still (Reg (UART_CONF0 u)) s"
  shows "conf0_fields (conf0 u (UART_SetWordLength u wl s)) =
      (bits_val wl, snd (conf0_fields (conf0 u s)))"
    and "n \<noteq> 2 \<Longrightarrow> n \<noteq> 3 \<Longrightarrow> bit (conf0 u (UART_SetWordLength u wl s)) n = bit (conf0 u s) n"
proof -
  let ?v = "(conf0 u s AND NOT (push_bit 2 3)) OR push_bit 2 (bits_val wl)"
  have v: "conf0 u (UART_SetWordLength u wl s) = ?v"
    using assms by (simp add: UART_SetWordLength_def UART_BIT_NUM_def UART_BIT_NUM_S_def)
  note field = set_bits_field [of 2, OF _ bits_val_range [of wl], where v = "conf0 u s"]
  have "drop_bit 4 ?v AND 3 = drop_bit 4 (conf0 u s) AND 3"
    using field(2) [of 4] field(2) [of 5] by (intro drop_and3_cong) simp_all
  then show "conf0_fields (conf0 u (UART_SetWordLength u wl s)) =
      (bits_val wl, snd (conf0_fields (conf0 u s)))"
    unfolding v conf0_fields_def using field(1) field(2) [of 0] field(2) [of 1] by simp
  show "bit (conf0 u (UART_SetWordLength u wl s)) n = bit (conf0 u s) n" if "n \<noteq> 2" "n \<noteq> 3"
    unfolding v using field(2) [of n] that by simp
qed

lemma stop_bits_conf0:
  assumes "still (Reg (UART_CONF0 u)) s"
  shows "conf0_fields (conf0 u (UART_SetStopBits u sb s)) =
      (fst (conf0_fields (conf0 u s)), stop_val sb, snd (snd (conf0_fields (conf0 u s))))"
    and "n \<noteq> 4 \<Longrightarrow> n \<noteq> 5 \<Longrightarrow> bit (conf0 u (UART_SetStopBits u sb s)) n = bit (conf0 u s) n"
proof -
  let ?v = "(conf0 u s AND NOT (push_bit 4 3)) OR push_bit 4 (stop_val sb)"
  have v: "conf0 u (UART_SetStopBits u sb s) = ?v"
    using assms by (simp add: UART_SetStopBits_def UART_STOP_BIT_NUM_def UART_STOP_BIT_NUM_S_def)
  note field = set_bits_field [of 4, OF _ stop_val_range [of sb], where v = "conf0 u s"]
  have "drop_bit 2 ?v AND 3 = drop_bit 2 (conf0 u s) AND 3"
    using field(2) [of 2] field(2) [of 3] by (intro drop_and3_cong) simp_all
  then show "conf0_fields (conf0 u (UART_SetStopBits u sb s)) =
      (fst (conf0_fields (conf0 u s)), stop_val sb, snd (snd (conf0_fields (conf0 u s))))"
    unfolding v conf0_fields_def using field(1) field(2) [of 0] field(2) [of 1] by simp
  show "bit (conf0 u (UART_SetStopBits u sb s)) n = bit (conf0 u s) n" if "n \<noteq> 4" "n \<noteq> 5"
    unfolding v using field(2) [of n] that by simp
qed

lemma parity_conf0_bit:
  assumes "still (Reg (UART_CONF0 u)) s" and "n < 32"
  shows "bit (conf0 u (UART_SetParity u p s)) n =
    (if n = 0 then p = ODD_BITS else if n = 1 then p \<noteq> NONE_BITS else bit (conf0 u s) n)"
  using assms
  by (cases p) (auto simp: UART_SetParity_def reg_simps bit_simps bit_BIT Let_def bit_1_iff)

lemma parity_conf0:
  assumes "still (Reg (UART_CONF0 u)) s"
  shows "conf0_fields (conf0 u (UART_SetParity u p s)) =
      (fst (conf0_fields (conf0 u s)), fst (snd (conf0_fields (conf0 u s))), p \<noteq> NONE_BITS, p = ODD_BITS)"
  using parity_conf0_bit [OF assms, of _ p]
  by (simp add: conf0_fields_def two_bits_eq bit_drop_bit_eq)

lemma inverse_conf0_bit:
  assumes "still (Reg (UART_CONF0 u)) s" and "n < 19"
  shows "bit (conf0 u (UART_SetLineInverse u li s)) n = bit (conf0 u s) n"
proof -
  have "bit (inverse_val li) n = False" using assms(2)
    by (cases li) (simp_all add: reg_simps bit_BIT)
  moreover have "\<not> bit UART_LINE_INV_MASK n"
    unfolding UART_LINE_INV_MASK_def bit_push_bit_iff using assms(2) by simp
  ultimately show ?thesis using assms by (simp add: UART_SetLineInverse_def bit_simps)
qed

lemma uart_setters_still [simp]:
  "still q s \<Longrightarrow> still q (UART_SetWordLength u wl s)"
  "still q s \<Longrightarrow> still q (UART_SetStopBits u sb s)"
  "still q s \<Longrightarrow> still q (UART_SetParity u p s)"
  by (simp_all add: UART_SetWordLength_def UART_SetStopBits_def UART_SetParity_def Let_def)

section \<open>Configuration\<close>

lemma conf0_of_no_rst:
  "((conf0_of d OR (UART_RXFIFO_RST OR UART_TXFIFO_RST)) AND NOT (UART_RXFIFO_RST OR UART_TXFIFO_RST)) = conf0_of d"
  by (cases "data_bits d"; cases "stop_bits d"; cases "exist_parity d"; cases "parity d")
    (simp_all add: conf0_of_def reg_simps BIT_def)

lemma uart_config_regs:
  assumes "quiet (uart_hw st)" and "u \<in> {UART0, UART1}"
  shows "conf0 u (uart_hw (uart_config u st)) = conf0_of (UartDev st)"
    and "peri (uart_hw (uart_config u st)) (UART_INT_ENA u) =
      (peri (uart_hw st) (UART_INT_ENA u)
        OR (if u = UART0 then UART_RXFIFO_TOUT_INT_ENA OR UART_FRM_ERR_INT_ENA else 0))
        OR (UART_RXFIFO_FULL_INT_ENA OR UART_RXFIFO_OVF_INT_ENA)"
    and "DivModify u (UART_CLK_FREQ div baud_val (baut_rate (UartDev st)))
      \<in> set (trace (uart_hw (uart_config u st)))"
    and "UartDev (uart_config u st) = UartDev st"
proof -
  have mux: "UART_INT_ENA u \<notin> {PERIPHS_IO_MUX_GPIO2_U, PERIPHS_IO_MUX_U0TXD_U}"
    using assms(2) by (auto simp: uart_regs reg_simps UART0_def UART1_def)
  have q: "quiet (uart_hw st)" by fact
  show "conf0 u (uart_hw (uart_config u st)) = conf0_of (UartDev st)"
    using q assms(2) conf0_of_no_rst [of "UartDev st"]
    by (auto simp: uart_config_def Let_def PIN_PULLUP_DIS_def)
  show "peri (uart_hw (uart_config u st)) (UART_INT_ENA u) =
      (peri (uart_hw st) (UART_INT_ENA u)
        OR (if u = UART0 then UART_RXFIFO_TOUT_INT_ENA OR UART_FRM_ERR_INT_ENA else 0))
        OR (UART_RXFIFO_FULL_INT_ENA OR UART_RXFIFO_OVF_INT_ENA)"
    using q mux assms(2) by (auto simp: uart_config_def Let_def PIN_PULLUP_DIS_def)
  show "DivModify u (UART_CLK_FREQ div baud_val (baut_rate (UartDev st)))
      \<in> set (trace (uart_hw (uart_config u st)))"
    using q by (simp add: uart_config_def Let_def PIN_PULLUP_DIS_def)
  show "UartDev (uart_config u st) = UartDev st"
    by (simp add: uart_config_def Let_def)
qed

section \<open>Sending\<close>

fun fifo_byte :: "u8 \<Rightarrow> event \<Rightarrow> u32 list" where
  "fifo_byte u (Wr a v) = (if a = UART_FIFO u then [v] else [])"
| "fifo_byte u _ = []"

text \<open>The words stored into the transmit FIFO of a port, in order.\<close>

definition sent :: "u8 \<Rightarrow> mach \<Rightarrow> u32 list" where
  "sent u s = concat (map (fifo_byte u) (trace s))"

lemma sent_WRITE [simp]:
  "sent u (WRITE_PERI_REG a v s) = sent u s @ (if a = UART_FIFO u then [v] else [])"
  by (simp add: sent_def)

lemma sent_cong: "trace s' = trace s \<Longrightarrow> sent u s' = sent u s"
  by (simp add: sent_def)

lemma tx_cnt_cond:
  "drop_bit UART_TXFIFO_CNT_S (v AND push_bit UART_TXFIFO_CNT_S UART_TXFIFO_CNT) AND UART_TXFIFO_CNT =
    tx_cnt v"
  by (rule bit_word_eqI) (auto simp: tx_cnt_def bit_simps dest: bit_imp_le_length)

lemma tx_one_char_eq: "uart_tx_one_char u c s =
    map_option (WRITE_PERI_REG (UART_FIFO u) (ucast c)) (wait_reg (UART_STATUS u) (\<lambda>v. tx_cnt v < 126) s)"
  unfolding uart_tx_one_char_def Let_def tx_cnt_cond ..

lemma tx_one_char_SomeD:
  assumes "uart_tx_one_char u c s = Some s'"
  shows "trace s' = trace s @ [Wr (UART_FIFO u) (ucast c)]"
    and "tx_cnt (peri s' (UART_STATUS u)) < 126"
    and "p \<noteq> Reg (UART_STATUS u) \<Longrightarrow> feed s' p = feed s p"
  using assms by (auto simp: tx_one_char_eq dest!: wait_reg_SomeD)

lemma tx_one_char_None:
  "uart_tx_one_char u c s = None \<longleftrightarrow>
     (if feed s (Reg (UART_STATUS u)) = [] then \<not> tx_cnt (peri s (UART_STATUS u)) < 126
      else \<forall>v \<in> set (feed s (Reg (UART_STATUS u))). \<not> tx_cnt v < 126)"
  using wait_reg_ends [of "UART_STATUS u" "\<lambda>v. tx_cnt v < 126" s]
  by (auto simp: tx_one_char_eq)

definition tx_ready :: "u8 \<Rightarrow> mach \<Rightarrow> bool" where
  "tx_ready u s \<longleftrightarrow> still (Reg (UART_STATUS u)) s \<and> tx_cnt (peri s (UART_STATUS u)) < 126"

lemma tx_ready_send:
  "tx_ready u s \<Longrightarrow> uart_tx_one_char u c s = Some (WRITE_PERI_REG (UART_FIFO u) (ucast c) s)"
  "tx_ready u s \<Longrightarrow> tx_ready u (WRITE_PERI_REG (UART_FIFO u) v s)"
  by (simp_all add: tx_ready_def tx_one_char_eq wait_reg_still)

text \<open>What the print functions make of a text: LF becomes CR LF and CR is dropped.\<close>

definition crlf :: "u8 list \<Rightarrow> u8 list" where
  "crlf cs = concat (map (\<lambda>c. if c = LF then [CR, LF] else if c = CR then [] else [c]) cs)"

definition put_all :: "(u8 \<Rightarrow> mach \<Rightarrow> mach option) \<Rightarrow> u8 list \<Rightarrow> mach \<Rightarrow> mach option" where
  "put_all f cs s = fold (\<lambda>c r. Option.bind r (f c)) cs (Some s)"

lemma fold_bind_list_None: "fold (\<lambda>c r. Option.bind r (f c)) cs None = None"
  by (induction cs) simp_all

lemma put_all_Cons: "put_all f (c # cs) s = Option.bind (f c s) (put_all f cs)"
  by (cases "f c s") (simp_all add: put_all_def fold_bind_list_None)

text \<open>
  Several routines put characters on a port: one after the other, each waiting for room. What they
  promise is the same up to the encoding of a character, and so is what follows for a text.
\<close>

locale char_sink =
  fixes put :: "u8 \<Rightarrow> mach \<Rightarrow> mach option" and port :: u8 and enc :: "u8 \<Rightarrow> u8 list"
  assumes put_sent: "put c s = Some s' \<Longrightarrow> sent port s' = sent port s @ map ucast (enc c)"
    and put_ready: "tx_ready port s \<Longrightarrow> \<exists>s'. put c s = Some s' \<and> tx_ready port s'"
begin

lemma all_sent: "put_all put cs s = Some s' \<Longrightarrow> sent port s' = sent port s @ map ucast (concat (map enc cs))"
proof (induction cs arbitrary: s)
  case Nil
  then show ?case by (simp add: put_all_def)
next
  case (Cons c cs)
  then obtain t where "put c s = Some t" "put_all put cs t = Some s'" by (auto simp: put_all_Cons bind_eq_Some_conv)
  with put_sent [of c s t] Cons.IH [of t] show ?case by simp
qed

lemma all_ready: "tx_ready port s \<Longrightarrow> \<exists>s'. put_all put cs s = Some s' \<and> tx_ready port s'"
proof (induction cs arbitrary: s)
  case Nil
  then show ?case by (simp add: put_all_def)
next
  case (Cons c cs)
  from put_ready [OF Cons.prems, of c] obtain t where "put c s = Some t" "tx_ready port t" by blast
  with Cons.IH [of t] show ?case by (simp add: put_all_Cons)
qed

end

interpretation raw: char_sink "uart_tx_one_char u" u "\<lambda>c. [c]" for u
  by unfold_locales (auto simp: sent_def tx_ready_send dest!: tx_one_char_SomeD(1))

interpretation line1: char_sink uart1_write_char UART1 "\<lambda>c. crlf [c]"
  by unfold_locales (auto simp: uart1_write_char_def crlf_def bind_eq_Some_conv tx_ready_send dest!: raw.put_sent split: if_splits)

interpretation line0: char_sink uart0_write_char UART0 "\<lambda>c. crlf [c]"
  by unfold_locales (auto simp: uart0_write_char_def crlf_def bind_eq_Some_conv tx_ready_send dest!: raw.put_sent split: if_splits)

lemma crlf_chars: "concat (map (\<lambda>c. crlf [c]) cs) = crlf cs"
  by (simp add: crlf_def)

text \<open>The buffer and the string routine send the characters one by one.\<close>

lemma sendStr_chars: "0 \<notin> set cs \<Longrightarrow> uart0_sendStr (cs @ 0 # rest) s = put_all (uart_tx_one_char UART0) cs s"
  by (induction cs arbitrary: s) (auto simp: put_all_Cons put_all_def [of _ "[]"] intro!: arg_cong [of _ _ "Option.bind _"])

lemma tx_buffer_chars:
  assumes "unat len \<le> length buf"
  shows "uart0_tx_buffer buf len s = put_all (uart_tx_one_char UART0) (take (unat len) buf) s"
proof -
  have "take (unat len) buf = map ((!) buf) [0..<unat len]" using assms by (auto intro: nth_equalityI)
  then have "put_all (uart_tx_one_char UART0) (take (unat len) buf) s =
      fold (\<lambda>i r. Option.bind r (uart_tx_one_char UART0 (buf ! i))) [0..<unat len] (Some s)"
    by (simp add: put_all_def fold_map comp_def)
  also have "\<dots> = uart0_tx_buffer buf len s"
    unfolding uart0_tx_buffer_def using assms by (intro fold_cong) auto
  finally show ?thesis by simp
qed

text \<open>
  The line-parameter setters commute with reading back: whatever the control register
  held, after setting word length, stop bits and parity its fields are the three values, and
  every bit above the six of those fields (inversion, flow control, FIFO reset) is untouched.
\<close>

theorem uart_line_setters:
  assumes "still (Reg (UART_CONF0 u)) s"
  shows "conf0_fields (conf0 u (UART_SetParity u p (UART_SetStopBits u sb (UART_SetWordLength u wl s)))) =
      (bits_val wl, stop_val sb, p \<noteq> NONE_BITS, p = ODD_BITS)
    \<and> (\<forall>n. 6 \<le> n \<and> n < 32 \<longrightarrow>
        bit (conf0 u (UART_SetParity u p (UART_SetStopBits u sb (UART_SetWordLength u wl s)))) n =
        bit (conf0 u s) n)"
  using assms
  by (auto simp: parity_conf0 stop_bits_conf0 word_length_conf0 parity_conf0_bit)

text \<open>
  Configuring a port programs exactly the parameters held in \<open>UartDev\<close>: reading the
  control register back gives its word length, stop bits and parity (and no FIFO left in
  reset), the divisor set is the one of its baud rate, and the receive interrupts are on.
\<close>

theorem uart_config_programs_line:
  assumes "quiet (uart_hw st)" and "u \<in> {UART0, UART1}"
  shows "conf0_fields (conf0 u (uart_hw (uart_config u st))) =
      (bits_val (data_bits (UartDev st)), stop_val (stop_bits (UartDev st)),
       exist_parity (UartDev st) = STICK_PARITY_EN, parity (UartDev st) = ODD_BITS)
    \<and> drop_bit 6 (conf0 u (uart_hw (uart_config u st))) = 0
    \<and> DivModify u (UART_CLK_FREQ div baud_val (baut_rate (UartDev st)))
        \<in> set (trace (uart_hw (uart_config u st)))
    \<and> bit (peri (uart_hw (uart_config u st)) (UART_INT_ENA u)) 0
    \<and> (u = UART0 \<longrightarrow> bit (peri (uart_hw (uart_config u st)) (UART_INT_ENA u)) 8)"
  using uart_config_regs [OF assms] assms(2)
  by (auto simp: conf0_of_fields conf0_of_high reg_simps bit_or_iff bit_BIT)

text \<open>Baud rates in their order: a faster rate has a smaller divisor.\<close>

lemma baud_val_inj: "baud_val r = baud_val r' \<longleftrightarrow> r = r'"
  by (cases r; cases r') simp_all

instantiation UartBautRate :: linorder
begin

definition less_eq_UartBautRate :: "UartBautRate \<Rightarrow> UartBautRate \<Rightarrow> bool" where
  "less_eq_UartBautRate r r' \<longleftrightarrow> baud_val r \<le> baud_val r'"

definition less_UartBautRate :: "UartBautRate \<Rightarrow> UartBautRate \<Rightarrow> bool" where
  "less_UartBautRate r r' \<longleftrightarrow> baud_val r < baud_val r'"

instance
  by standard (auto simp: less_eq_UartBautRate_def less_UartBautRate_def less_le baud_val_inj simp flip: baud_val_inj)

end

lemma divisor_antimono:
  fixes r r' :: UartBautRate
  assumes "r \<le> r'"
  shows "UART_CLK_FREQ div baud_val r' \<le> UART_CLK_FREQ div baud_val r"
proof -
  have "0 < unat (baud_val r)" by (cases r) simp_all
  then show ?thesis
    using assms by (simp add: less_eq_UartBautRate_def word_le_nat_alt unat_div div_le_mono2)
qed

text \<open>
  The divisor is usable for every baud rate of the interface: it is not zero, fits the
  20 bits of the divider, never gives a rate below the one asked for, and the rate it gives is
  within one per cent of it (four for the fastest, 3686400); a faster rate never has a larger
  divisor.
\<close>

theorem uart_divisor_error:
  "let d = unat (UART_CLK_FREQ div baud_val r); b = unat (baud_val r) in
    0 < d \<and> d < 2 ^ 20 \<and> b * d \<le> 80000000
    \<and> (80000000 - b * d) * 100 \<le> (if r = BIT_RATE_3686400 then 4 else 1) * (b * d)
    \<and> UART_CLK_FREQ div baud_val (max r r') \<le> UART_CLK_FREQ div baud_val r"
proof -
  have "UART_CLK_FREQ div baud_val (max r r') \<le> UART_CLK_FREQ div baud_val r" by (rule divisor_antimono) simp
  then show ?thesis by (cases r) (simp_all add: UART_CLK_FREQ_def unat_div Let_def del: max.absorb1 max.absorb2)
qed

text \<open>
  What reaches the wire is the text with its line ends translated: printing any text with
  the blocking print function of either port stores into the transmit FIFO exactly the
  characters with LF as CR LF and CR dropped, in order; sending a string or a buffer stores its
  characters unchanged, up to the terminating zero or the length; and all of them return whenever
  the FIFO has room.
\<close>

theorem uart_print_translates:
  "(put_all uart1_write_char cs s = Some s' \<longrightarrow> sent UART1 s' = sent UART1 s @ map ucast (crlf cs))
   \<and> (put_all uart0_write_char cs s = Some s' \<longrightarrow> sent UART0 s' = sent UART0 s @ map ucast (crlf cs))
   \<and> (0 \<notin> set cs \<and> uart0_sendStr (cs @ 0 # rest) s = Some s' \<longrightarrow> sent UART0 s' = sent UART0 s @ map ucast cs)
   \<and> (unat len \<le> length cs \<and> uart0_tx_buffer cs len s = Some s' \<longrightarrow>
        sent UART0 s' = sent UART0 s @ map ucast (take (unat len) cs))
   \<and> (tx_ready UART1 s \<longrightarrow> put_all uart1_write_char cs s \<noteq> None)
   \<and> (tx_ready UART0 s \<longrightarrow> put_all uart0_write_char cs s \<noteq> None
        \<and> (0 \<notin> set cs \<longrightarrow> uart0_sendStr (cs @ 0 # rest) s \<noteq> None)
        \<and> (unat len \<le> length cs \<longrightarrow> uart0_tx_buffer cs len s \<noteq> None))"
  using line1.all_sent [of cs s s'] line0.all_sent [of cs s s'] raw.all_sent [of UART0 cs s s']
    raw.all_sent [of UART0 "take (unat len) cs" s s'] line1.all_ready [of s cs] line0.all_ready [of s cs]
    raw.all_ready [of UART0 s cs] raw.all_ready [of UART0 s "take (unat len) cs"]
  by (auto simp: crlf_chars sendStr_chars tx_buffer_chars)

text \<open>
  The blocking transmit never overruns the FIFO and blocks only when it must: it returns
  exactly when some status the hardware is going to show has fewer than 126 bytes in the FIFO,
  the byte is stored after such a status was read, and it is the only store.
\<close>

theorem uart_tx_one_char_waits:
  "(uart_tx_one_char u c s = None \<longleftrightarrow>
     (if feed s (Reg (UART_STATUS u)) = [] then \<not> tx_cnt (peri s (UART_STATUS u)) < 126
      else \<forall>v \<in> set (feed s (Reg (UART_STATUS u))). \<not> tx_cnt v < 126))
   \<and> (\<forall>s'. uart_tx_one_char u c s = Some s' \<longrightarrow>
        tx_cnt (peri s' (UART_STATUS u)) < 126
        \<and> trace s' = trace s @ [Wr (UART_FIFO u) (ucast c)])"
  using tx_one_char_None [of u c s] tx_one_char_SomeD [of u c s] by blast

section \<open>Waiting\<close>

lemma check_output_result:
  "check_output u t0 to n s = Some (r, s') \<Longrightarrow>
     (if r then tx_cnt (peri s' (UART_STATUS u)) = 0 \<and> n = 0
      else cur s' SysTime - t0 > to)"
proof (induction u t0 to n s arbitrary: r s' rule: check_output.induct)
  case (1 u t0 to n s)
  have zero: "(ucast (tx_cnt v) :: u8) = 0 \<longleftrightarrow> tx_cnt v = 0" for v
  proof -
    have "tx_cnt v = ucast (ucast (drop_bit 16 v) :: u8)"
      by (simp add: ucast_byte tx_cnt_def reg_simps)
    moreover have "(ucast (tx_cnt v) :: u8) = ucast (drop_bit 16 v)"
      by (simp add: ucast_and_byte tx_cnt_def reg_simps)
    ultimately show ?thesis by (metis unsigned_0 ucast_u8_u32_eq)
  qed
  obtain v s1 where r1: "READ_PERI_REG (UART_STATUS u) s = (v, s1)"
    by (cases "READ_PERI_REG (UART_STATUS u) s")
  then have v: "peri s1 (UART_STATUS u) = v"
    by (auto simp: READ_PERI_REG_def sample_def split: list.splits)
  obtain now s2 where r2: "sample SysTime s1 = (now, s2)" by (cases "sample SysTime s1")
  then have now: "cur s2 SysTime = now"
    by (auto simp: sample_def split: list.splits)
  show ?case
  proof (cases "(ucast (tx_cnt v) :: u8) = 0 \<and> n = 0 \<or> now - t0 > to")
    case True
    with 1(2) v now show ?thesis
      by (auto simp: check_output.simps [of u t0 to n s] r1 r2 zero Let_def split: if_splits)
  next
    case False
    with 1(2) have go: "\<not> (still (Reg (UART_STATUS u)) s \<and> still SysTime s)"
      and "check_output u t0 to n (WRITE_PERI_REG WTD_REG 0x73 s2) = Some (r, s')"
      by (auto simp: check_output.simps [of u t0 to n s] r1 r2 Let_def split: if_splits)
    with 1(1) [OF r1 [symmetric] refl _ r2 [symmetric]] False show ?thesis by auto
  qed
qed

text \<open>The wait ends as soon as the clock is going to show a time past the limit.\<close>

lemma check_output_ends:
  "\<exists>now \<in> set (feed s SysTime). now - t0 > to \<Longrightarrow> check_output u t0 to n s \<noteq> None"
proof (induction u t0 to n s rule: check_output.induct)
  case (1 u t0 to n s)
  obtain v s1 where r1: "READ_PERI_REG (UART_STATUS u) s = (v, s1)"
    by (cases "READ_PERI_REG (UART_STATUS u) s")
  then have f1: "feed s1 SysTime = feed s SysTime"
    by (auto simp: READ_PERI_REG_def sample_def split: list.splits)
  obtain t ts where t: "feed s SysTime = t # ts" using 1(2) by (cases "feed s SysTime") auto
  then have r2: "sample SysTime s1 = (t, s1\<lparr>cur := (cur s1)(SysTime := t), feed := (feed s1)(SysTime := ts)\<rparr>)"
    using f1 by (simp add: sample_feed)
  have "\<not> still SysTime s" using t by (simp add: still_def)
  then show ?case
    using 1(1) [OF r1 [symmetric] refl _ r2 [symmetric]] 1(2) t
    by (cases "t - t0 > to") (auto simp: check_output.simps [of u t0 to n s] r1 r2 Let_def)
qed

lemma wait_tx_empty_ends:
  "\<exists>now \<in> set (feed s SysTime). now - t0 > to \<Longrightarrow> wait_tx_empty u t0 to s \<noteq> None"
proof (induction u t0 to s rule: wait_tx_empty.induct)
  case (1 u t0 to s)
  obtain v s1 where r1: "READ_PERI_REG (UART_STATUS u) s = (v, s1)"
    by (cases "READ_PERI_REG (UART_STATUS u) s")
  then have f1: "feed s1 SysTime = feed s SysTime"
    by (auto simp: READ_PERI_REG_def sample_def split: list.splits)
  obtain t ts where t: "feed s SysTime = t # ts" using 1(2) by (cases "feed s SysTime") auto
  then have r2: "sample SysTime s1 = (t, s1\<lparr>cur := (cur s1)(SysTime := t), feed := (feed s1)(SysTime := ts)\<rparr>)"
    using f1 by (simp add: sample_feed)
  have "\<not> still SysTime s" using t by (simp add: still_def)
  then show ?case
    using 1(1) [OF r1 [symmetric] _ r2 [symmetric]] 1(2) t
    by (cases "t - t0 > to") (auto simp: wait_tx_empty.simps [of u t0 to s] r1 r2 Let_def)
qed

lemma wait_tx_empty_result:
  "wait_tx_empty u t0 to s = Some s' \<Longrightarrow>
     tx_cnt (peri s' (UART_STATUS u)) = 0 \<or> cur s' SysTime - t0 > to"
proof (induction u t0 to s arbitrary: s' rule: wait_tx_empty.induct)
  case (1 u t0 to s)
  obtain v s1 where r1: "READ_PERI_REG (UART_STATUS u) s = (v, s1)"
    by (cases "READ_PERI_REG (UART_STATUS u) s")
  then have v: "peri s1 (UART_STATUS u) = v"
    by (auto simp: READ_PERI_REG_def sample_def split: list.splits)
  obtain now s2 where r2: "sample SysTime s1 = (now, s2)" by (cases "sample SysTime s1")
  then have now: "cur s2 SysTime = now"
    by (auto simp: sample_def split: list.splits)
  have zero: "tx_cnt v = 0" if "v AND push_bit UART_TXFIFO_CNT_S UART_TXFIFO_CNT = 0"
    using tx_cnt_cond [of v] that by simp
  show ?case
  proof (cases "v AND push_bit UART_TXFIFO_CNT_S UART_TXFIFO_CNT = 0 \<or> now - t0 > to")
    case True
    with 1(2) v now show ?thesis
      by (auto simp: wait_tx_empty.simps [of u t0 to s] r1 r2 zero split: if_splits)
  next
    case False
    with 1(2) have go: "\<not> (still (Reg (UART_STATUS u)) s \<and> still SysTime s)"
      and "wait_tx_empty u t0 to (WRITE_PERI_REG WTD_REG 0x73 s2) = Some s'"
      by (auto simp: wait_tx_empty.simps [of u t0 to s] r1 r2 split: if_splits)
    with 1(1) [OF r1 [symmetric] _ r2 [symmetric]] False show ?thesis by auto
  qed
qed

text \<open>
  The waits are bounded and truthful: both return as soon as the clock shows a time past
  the limit (counting from the call, across a wrap of the counter); the check reports success
  only with the FIFO and the ring buffer empty, and failure only past the limit.
\<close>

theorem uart_wait_bounded:
  assumes "feed (uart_hw st) SysTime = t0 # ts" and "\<exists>now \<in> set ts. now - t0 > to"
  shows "(\<exists>s'. UART_WaitTxFifoEmpty u to (uart_hw st) = Some s'
        \<and> (tx_cnt (peri s' (UART_STATUS u)) = 0 \<or> cur s' SysTime - t0 > to))
    \<and> (\<exists>r st'. UART_CheckOutputFinished u to st = Some (r, st')
        \<and> (if r then tx_cnt (peri (uart_hw st') (UART_STATUS u)) = 0 \<and> tx_buff_len st = 0
           else cur (uart_hw st') SysTime - t0 > to))"
proof -
  let ?s = "(uart_hw st)\<lparr>cur := (cur (uart_hw st))(SysTime := t0),
    feed := (feed (uart_hw st))(SysTime := ts)\<rparr>"
  have r: "sample SysTime (uart_hw st) = (t0, ?s)" using assms(1) by (rule sample_feed)
  have f: "\<exists>now \<in> set (feed ?s SysTime). now - t0 > to" using assms(2) by simp
  from check_output_ends [OF f, of u "tx_buff_len st"] obtain b s' where
    c: "check_output u t0 to (tx_buff_len st) ?s = Some (b, s')" by auto
  from wait_tx_empty_ends [OF f, of u] obtain s'' where
    w: "wait_tx_empty u t0 to ?s = Some s''" by blast
  from check_output_result [OF c] wait_tx_empty_result [OF w] w c show ?thesis
    by (simp add: UART_WaitTxFifoEmpty_def UART_CheckOutputFinished_def r)
qed

section \<open>Concrete runs\<close>

definition uart_demo :: uart where
  "uart_demo = \<lparr>UartDev = \<lparr>baut_rate = BIT_RATE_115200, data_bits = EIGHT_BITS,
      exist_parity = STICK_PARITY_EN, parity = ODD_BITS, stop_bits = TWO_STOP_BIT, TrigLvl = 1\<rparr>,
     pTxBuffer = None, pRxBuffer = None, uart_hw = mach0\<rparr>"

lemma uart_line_setters_witness:
  "conf0_fields (conf0 0 (UART_SetParity 0 EVEN_BITS (UART_SetStopBits 0 TWO_STOP_BIT
     (UART_SetWordLength 0 SEVEN_BITS (WRITE_PERI_REG (UART_CONF0 0) 0xFFFFFFFF mach0))))) =
   (2, 3, True, False)"
  using uart_line_setters [of 0 "WRITE_PERI_REG (UART_CONF0 0) 0xFFFFFFFF mach0" EVEN_BITS
      TWO_STOP_BIT SEVEN_BITS] by simp

lemma uart_config_programs_line_witness:
  "conf0_fields (conf0 UART0 (uart_hw (uart_config UART0 uart_demo))) = (3, 3, True, True)
   \<and> DivModify UART0 694 \<in> set (trace (uart_hw (uart_config UART0 uart_demo)))"
  using uart_config_programs_line [of uart_demo UART0]
  by (simp add: uart_demo_def UART_CLK_FREQ_def)

lemma uart_print_translates_witness:
  "\<exists>s'. put_all uart1_write_char [72, LF, CR] mach0 = Some s' \<and> sent UART1 s' = [72, 13, 10]"
proof -
  have "tx_ready UART1 mach0" by (simp add: tx_ready_def tx_cnt_def)
  then obtain s' where s': "put_all uart1_write_char [72, LF, CR] mach0 = Some s'"
    using uart_print_translates [of "[72, LF, CR]" mach0 _ "[]" 0] by (auto simp del: uart0_sendStr.simps)
  with uart_print_translates [of "[72, LF, CR]" mach0 s' "[]" 0] show ?thesis
    by (simp add: crlf_def sent_def)
qed

lemma uart_tx_one_char_waits_witness:
  "uart_tx_one_char 0 65 (mach0\<lparr>feed := (\<lambda>_. [])(Reg (UART_STATUS 0) := [0x00800000, 0x007E0000])\<rparr>) = None"
  using uart_tx_one_char_waits [of 0 65
      "mach0\<lparr>feed := (\<lambda>_. [])(Reg (UART_STATUS 0) := [0x00800000, 0x007E0000])\<rparr>"]
  by (simp add: tx_cnt_def reg_simps)

definition uart_demo_clock :: uart where
  "uart_demo_clock = uart_demo\<lparr>uart_hw := mach0\<lparr>feed :=
     (\<lambda>_. [])(SysTime := [0xFFFFFFF0, 0xFFFFFFFF, 0x70])\<rparr>\<rparr>"

lemma uart_wait_bounded_witness:
  "\<exists>r st'. UART_CheckOutputFinished 0 100 uart_demo_clock = Some (r, st')"
proof -
  have "feed (uart_hw uart_demo_clock) SysTime = 0xFFFFFFF0 # [0xFFFFFFFF, 0x70]"
    and "\<exists>now \<in> set [0xFFFFFFFF, 0x70 :: u32]. now - 0xFFFFFFF0 > 100"
    by (simp_all add: uart_demo_clock_def)
  from uart_wait_bounded [OF this, of 0] show ?thesis by blast
qed

end
