(* ===== verification/UartBuf.thy ===== *)
theory UartBuf
  imports Uart
begin

text \<open>
  The ring buffers of the UART driver (driver/uart.c, the code under \<open>UART_BUFF_EN\<close>). A
  buffer is storage, two positions and a count of free bytes, and every operation on it is a
  few pointer moves and \<open>memcpy\<close>s; the theory shows that they implement a bounded FIFO queue,
  through the interface \<open>byte_queue\<close> that both directions (transmit and receive) satisfy.
\<close>

section \<open>Memory\<close>

text \<open>\<open>os_memcpy\<close> into and out of an object; a copy that leaves the object is \<open>None\<close>.\<close>

definition memcpy_in :: "u8 list \<Rightarrow> nat \<Rightarrow> u8 list \<Rightarrow> u8 list option" where
  "memcpy_in buf off xs =
     (if off + length xs \<le> length buf
      then Some (take off buf @ xs @ drop (off + length xs) buf) else None)"

definition memcpy_out :: "u8 list \<Rightarrow> nat \<Rightarrow> nat \<Rightarrow> u8 list option" where
  "memcpy_out buf off n =
     (if off + n \<le> length buf then Some (take n (drop off buf)) else None)"

section \<open>The driver\<close>

abbreviation rb_size :: "UartBuffer \<Rightarrow> nat" where
  "rb_size b \<equiv> unat (UartBuffSize b)"

text \<open>The \<open>DBG1\<close> messages end in LF CR.\<close>

abbreviation nr :: string where "nr \<equiv> [CHR 0x0A, CHR 0x0D]"

definition dbg1 :: "string \<Rightarrow> mach \<Rightarrow> mach" where
  "dbg1 str s = the (uart1_sendStr_no_wait (cstring str) s)"

text \<open>
  Allocation. The free heap is compared first; the results of the two \<open>os_malloc\<close> calls are
  not. A null first pointer is dereferenced at once (\<open>None\<close>); a null second one gives a buffer
  without storage, on which every later copy fails. Fresh storage holds zeros here; no
  operation shows a byte that was not stored before.
\<close>

definition Uart_Buf_Init :: "u32 \<Rightarrow> mach \<Rightarrow> (UartBuffer option \<times> mach) option" where
  "Uart_Buf_Init buf_size s =
     (case sample FreeHeap s of (heap_size, s) \<Rightarrow>
        if heap_size \<le> buf_size then Some (None, dbg1 (''no buf for uart'' @ nr) s)
        else (case sample HeapPtr s of (p1, s) \<Rightarrow>
          if p1 = 0 then None
          else (case sample HeapPtr s of (p2, s) \<Rightarrow>
            Some (Some \<lparr>UartBuffSize = buf_size,
                        pUartBuff = (if p2 = 0 then [] else replicate (unat buf_size) 0),
                        pInPos = 0, pOutPos = 0, BuffState = OK, Space = ucast buf_size,
                        TcpControl = RUN\<rparr>, s))))"

definition rb_wrap_in :: "UartBuffer \<Rightarrow> UartBuffer" where
  "rb_wrap_in b = b\<lparr>pInPos := pInPos b mod rb_size b\<rparr>"

definition rb_wrap_out :: "UartBuffer \<Rightarrow> UartBuffer" where
  "rb_wrap_out b = b\<lparr>pOutPos := pOutPos b mod rb_size b\<rparr>"

definition rb_copy_in :: "u8 list \<Rightarrow> UartBuffer \<Rightarrow> UartBuffer option" where
  "rb_copy_in xs b =
     (case memcpy_in (pUartBuff b) (pInPos b) xs of
        None \<Rightarrow> None
      | Some m \<Rightarrow>
          (let b = b\<lparr>pUartBuff := m\<rparr>;
               b = b\<lparr>pInPos := pInPos b + length xs\<rparr>;
               b = rb_wrap_in b
           in Some (b\<lparr>Space := Space b - of_nat (length xs)\<rparr>)))"

definition Uart_Buf_Cpy :: "u8 list \<Rightarrow> u16 \<Rightarrow> UartBuffer \<Rightarrow> UartBuffer option" where
  "Uart_Buf_Cpy pdata data_len b =
     (if data_len = 0 then Some b
      else if length pdata < unat data_len then None
      else
        (let tail_len = (of_nat (rb_size b - pInPos b) :: u16) in
         if tail_len \<ge> data_len then rb_copy_in (take (unat data_len) pdata) b
         else Option.bind (rb_copy_in (take (unat tail_len) pdata) b)
                (rb_copy_in (take (unat (data_len - tail_len)) (drop (unat tail_len) pdata)))))"

definition rb_copy_out :: "bool \<Rightarrow> nat \<Rightarrow> UartBuffer \<Rightarrow> (u8 list \<times> UartBuffer) option" where
  "rb_copy_out wrap n b =
     (case memcpy_out (pUartBuff b) (pOutPos b) n of
        None \<Rightarrow> None
      | Some xs \<Rightarrow>
          (let b = b\<lparr>pOutPos := pOutPos b + n\<rparr>;
               b = (if wrap then rb_wrap_out b else b)
           in Some (xs, b\<lparr>Space := Space b + of_nat n\<rparr>)))"

definition rx_len :: "u16 \<Rightarrow> UartBuffer \<Rightarrow> u16" where
  "rx_len data_len b =
    (let buf_len = (ucast (UartBuffSize b - ucast (Space b)) :: u16)
     in if data_len > buf_len then buf_len else data_len)"

text \<open>The three cases of \<open>rx_buff_deq\<close>; only the last two wrap the position.\<close>

definition rx_take :: "u16 \<Rightarrow> UartBuffer \<Rightarrow> (u8 list \<times> UartBuffer) option" where
  "rx_take data_len b =
    (let tail_len = (of_nat (rb_size b - pOutPos b) :: u16);
         len_tmp = rx_len data_len b
     in if pOutPos b \<le> pInPos b then rb_copy_out False (unat len_tmp) b
        else if len_tmp > tail_len then
          (case rb_copy_out True (unat tail_len) b of
             None \<Rightarrow> None
           | Some (xs, b) \<Rightarrow>
               map_option (\<lambda>(ys, b). (xs @ ys, b)) (rb_copy_out True (unat (len_tmp - tail_len)) b))
        else rb_copy_out True (unat len_tmp) b)"

text \<open>The functions below dereference the buffer pointer; a null pointer is \<open>None\<close>.\<close>

definition rx_buff_deq :: "u16 \<Rightarrow> uart \<Rightarrow> (u8 list \<times> uart) option" where
  "rx_buff_deq data_len st =
     (case pRxBuffer st of
        None \<Rightarrow> None
      | Some b \<Rightarrow>
          map_option (\<lambda>(xs, b).
            (xs, (if UART_FIFO_LEN \<le> unat (Space b) then on_hw (uart_rx_intr_enable UART0) else id)
                   (st\<lparr>pRxBuffer := Some b\<rparr>)))
            (rx_take data_len b))"

definition rx_store :: "u8 \<Rightarrow> UartBuffer \<Rightarrow> UartBuffer option" where
  "rx_store fifo_data b =
     (case memcpy_in (pUartBuff b) (pInPos b) [fifo_data] of
        None \<Rightarrow> None
      | Some m \<Rightarrow>
          (let b = b\<lparr>pUartBuff := m, pInPos := pInPos b + 1\<rparr>
           in Some (if pInPos b = rb_size b then b\<lparr>pInPos := 0\<rparr> else b)))"

definition rx_read_fifo :: "UartBuffer \<times> mach \<Rightarrow> (UartBuffer \<times> mach) option" where
  "rx_read_fifo = (\<lambda>(b, s).
     case READ_PERI_REG (UART_FIFO UART0) s of
       (v, s) \<Rightarrow> map_option (\<lambda>b. (b, s)) (rx_store (ucast (v AND 0xFF)) b))"

definition rx_cnt :: "u32 \<Rightarrow> u8" where
  "rx_cnt v = ucast (drop_bit UART_RXFIFO_CNT_S v AND UART_RXFIFO_CNT)"

definition Uart_rx_buff_enq :: "uart \<Rightarrow> uart option" where
  "Uart_rx_buff_enq st =
     (case READ_PERI_REG (UART_STATUS UART0) (uart_hw st) of (v, s) \<Rightarrow>
        let fifo_len = rx_cnt v in
        case pRxBuffer st of
          None \<Rightarrow> None
        | Some b \<Rightarrow>
            if ucast fifo_len \<ge> Space b
            then Some (st\<lparr>uart_hw := emit (Print (''buf full!!!'' @ nr) []) s\<rparr>)
            else
              map_option (\<lambda>(b, s).
                 let b = b\<lparr>Space := Space b - ucast fifo_len\<rparr>;
                     st = st\<lparr>pRxBuffer := Some b, uart_hw := s\<rparr>
                 in if UART_FIFO_LEN \<le> unat (Space b) then on_hw (uart_rx_intr_enable UART0) st else st)
                (fold (\<lambda>_ r. Option.bind r rx_read_fifo) [0..<unat fifo_len] (Some (b, s))))"

definition tx_buff_enq :: "u8 list \<Rightarrow> u16 \<Rightarrow> uart \<Rightarrow> uart option" where
  "tx_buff_enq pdata data_len st =
    (let st = on_hw (CLEAR_PERI_REG_MASK (UART_INT_ENA UART0) UART_TXFIFO_EMPTY_INT_ENA) st;
         r = (case pTxBuffer st of
                None \<Rightarrow>
                  (let st = on_hw (dbg1 (nr @ ''null, create buffer struct'' @ nr)) st in
                   case Uart_Buf_Init UART_TX_BUFFER_SIZE (uart_hw st) of
                     None \<Rightarrow> None
                   | Some (None, s) \<Rightarrow>
                       Some (st\<lparr>pTxBuffer := None, uart_hw := dbg1 (''uart tx MALLOC no buf '' @ nr) s\<rparr>)
                   | Some (Some b, s) \<Rightarrow>
                       map_option (\<lambda>b. st\<lparr>pTxBuffer := Some b, uart_hw := s\<rparr>)
                         (Uart_Buf_Cpy pdata data_len b))
              | Some b \<Rightarrow>
                  if data_len \<le> Space b
                  then map_option (\<lambda>b. st\<lparr>pTxBuffer := Some b\<rparr>) (Uart_Buf_Cpy pdata data_len b)
                  else Some (on_hw (dbg1 (''UART TX BUF FULL!!!!'' @ nr)) st))
     in map_option (\<lambda>st.
          let st = on_hw (SET_PERI_REG_MASK (UART_CONF1 UART0)
                     (push_bit UART_TXFIFO_EMPTY_THRHD_S
                        (UART_TX_EMPTY_THRESH_VAL AND UART_TXFIFO_EMPTY_THRHD))) st
          in on_hw (SET_PERI_REG_MASK (UART_INT_ENA UART0) UART_TXFIFO_EMPTY_INT_ENA) st) r)"

definition tx_pop :: "u8 \<Rightarrow> UartBuffer \<times> mach \<Rightarrow> (UartBuffer \<times> mach) option" where
  "tx_pop uart_no = (\<lambda>(b, s).
     if pOutPos b < length (pUartBuff b) then
       (let s = WRITE_PERI_REG (UART_FIFO uart_no) (ucast (pUartBuff b ! pOutPos b)) s;
            b = b\<lparr>pOutPos := pOutPos b + 1\<rparr>
        in Some (if pOutPos b = rb_size b then b\<lparr>pOutPos := 0\<rparr> else b, s))
     else None)"

definition tx_fifo_insert :: "u8 \<Rightarrow> u8 \<Rightarrow> UartBuffer \<times> mach \<Rightarrow> (UartBuffer \<times> mach) option" where
  "tx_fifo_insert data_len uart_no bs =
     map_option (\<lambda>(b, s).
        let b = rb_wrap_out b in (b\<lparr>Space := Space b + ucast data_len\<rparr>, s))
       (fold (\<lambda>_ r. Option.bind r (tx_pop uart_no)) [0..<unat data_len] (Some bs))"

definition tx_start_uart_buffer :: "u8 \<Rightarrow> uart \<Rightarrow> uart option" where
  "tx_start_uart_buffer uart_no st =
     (case READ_PERI_REG (UART_STATUS uart_no) (uart_hw st) of (v, s) \<Rightarrow>
        let tx_fifo_len = (ucast (tx_cnt v) :: u8);
            fifo_remain = of_nat UART_FIFO_LEN - tx_fifo_len
        in case pTxBuffer st of
             None \<Rightarrow> Some (st\<lparr>uart_hw := dbg1 (''pTxBuff null '' @ nr) s\<rparr>)
           | Some b \<Rightarrow>
               let data_len = (ucast (UartBuffSize b - ucast (Space b)) :: u16) in
               if data_len > ucast fifo_remain then
                 map_option (\<lambda>(b, s). on_hw (SET_PERI_REG_MASK (UART_INT_ENA UART0) UART_TXFIFO_EMPTY_INT_ENA)
                     (st\<lparr>pTxBuffer := Some b, uart_hw := s\<rparr>))
                   (tx_fifo_insert fifo_remain uart_no (b, s))
               else
                 map_option (\<lambda>(b, s). st\<lparr>pTxBuffer := Some b, uart_hw := s\<rparr>)
                   (tx_fifo_insert (ucast data_len) uart_no (b, s)))"

section \<open>The queue interface\<close>

text \<open>
  What a client of a bounded byte queue relies on: a put that fits appends, a get of no more
  than what is there (and no more than the chunk the operation can move) removes from the
  front. The client lemma is stream conservation over any history of puts and gets.
\<close>

datatype queue_op = Q_put "u8 list" | Q_get nat

primrec input_of :: "queue_op \<Rightarrow> u8 list" where
  "input_of (Q_put xs) = xs"
| "input_of (Q_get k) = []"

locale byte_queue =
  fixes abs :: "'q \<Rightarrow> u8 list" and ok :: "'q \<Rightarrow> bool" and cap :: "'q \<Rightarrow> nat" and chunk :: nat
    and put :: "u8 list \<Rightarrow> 'q \<Rightarrow> 'q option" and get :: "nat \<Rightarrow> 'q \<Rightarrow> (u8 list \<times> 'q) option"
  assumes put_law: "ok q \<Longrightarrow> length xs \<le> cap q - length (abs q) \<Longrightarrow> length xs \<le> chunk \<Longrightarrow>
      \<exists>q'. put xs q = Some q' \<and> ok q' \<and> abs q' = abs q @ xs \<and> cap q' = cap q"
    and get_law: "ok q \<Longrightarrow> n \<le> length (abs q) \<Longrightarrow> n \<le> chunk \<Longrightarrow>
      \<exists>q'. get n q = Some (take n (abs q), q') \<and> ok q' \<and> abs q' = drop n (abs q) \<and> cap q' = cap q"
begin

primrec exec :: "queue_op \<Rightarrow> 'q \<Rightarrow> (u8 list \<times> 'q) option" where
  "exec (Q_put xs) q = map_option (\<lambda>q. ([], q)) (put xs q)"
| "exec (Q_get n) q = get n q"

primrec runs :: "queue_op list \<Rightarrow> 'q \<Rightarrow> (u8 list \<times> 'q) option" where
  "runs [] q = Some ([], q)"
| "runs (x # xs) q =
     Option.bind (exec x q) (\<lambda>(o1, q). map_option (\<lambda>(o2, q). (o1 @ o2, q)) (runs xs q))"

text \<open>An admissible history: every put fits and every get finds its bytes.\<close>

fun fits :: "nat \<Rightarrow> nat \<Rightarrow> queue_op list \<Rightarrow> bool" where
  "fits c n [] \<longleftrightarrow> True"
| "fits c n (Q_put xs # ops) \<longleftrightarrow> length xs \<le> c - n \<and> length xs \<le> chunk \<and> fits c (n + length xs) ops"
| "fits c n (Q_get k # ops) \<longleftrightarrow> k \<le> n \<and> k \<le> chunk \<and> fits c (n - k) ops"

lemma stream:
  assumes "ok q" and "fits (cap q) (length (abs q)) ops"
  shows "\<exists>out q'. runs ops q = Some (out, q') \<and> ok q' \<and>
    out @ abs q' = abs q @ concat (map input_of ops)"
  using assms
proof (induction ops arbitrary: q)
  case Nil
  then show ?case by simp
next
  case (Cons x ops)
  show ?case
  proof (cases x)
    case (Q_put xs)
    with Cons.prems put_law [of q xs] obtain q1 where
      q1: "put xs q = Some q1" "ok q1" "abs q1 = abs q @ xs" "cap q1 = cap q" by auto
    with Cons.IH [of q1] Cons.prems Q_put show ?thesis by auto
  next
    case (Q_get k)
    with Cons.prems get_law [of q k] obtain q1 where
      q1: "get k q = Some (take k (abs q), q1)" "ok q1" "abs q1 = drop k (abs q)" "cap q1 = cap q"
      by auto
    with Cons.prems Q_get have "fits (cap q1) (length (abs q1)) ops" by simp
    from Cons.IH [OF q1(2) this] obtain out q' where
      "runs ops q1 = Some (out, q')" "ok q'" "out @ abs q' = abs q1 @ concat (map input_of ops)"
      by blast
    then show ?thesis
      using q1 Q_get by (auto intro!: exI [of _ q'] simp flip: append_assoc) (metis append_assoc append_take_drop_id)
  qed
qed

end

section \<open>The ring\<close>

definition rb_len :: "UartBuffer \<Rightarrow> nat" where
  "rb_len b = rb_size b - unat (Space b)"

definition rb_ok :: "UartBuffer \<Rightarrow> bool" where
  "rb_ok b \<longleftrightarrow> length (pUartBuff b) = rb_size b \<and> 0 < rb_size b \<and> rb_size b < 65536
     \<and> pInPos b < rb_size b \<and> pOutPos b < rb_size b \<and> unat (Space b) \<le> rb_size b
     \<and> (pOutPos b + rb_len b) mod rb_size b = pInPos b"

definition contents :: "UartBuffer \<Rightarrow> u8 list" where
  "contents b = map (\<lambda>k. pUartBuff b ! ((pOutPos b + k) mod rb_size b)) [0..<rb_len b]"

lemma length_contents [simp]: "length (contents b) = rb_len b"
  by (simp add: contents_def)

lemma mod_add_inj:
  assumes "(a + i) mod n = (a + j) mod n" and "i < n" and "j < (n :: nat)"
  shows "i = j"
proof -
  have "(a + i) mod n = (a + j) mod n \<Longrightarrow> i \<le> j \<Longrightarrow> j < n \<Longrightarrow> i = j" for i j
  proof -
    assume e: "(a + i) mod n = (a + j) mod n" and ij: "i \<le> j" "j < n"
    then have "n dvd (a + j) - (a + i)" using mod_eq_dvd_iff_nat [of "a + i" "a + j" n] by simp
    then have "n dvd j - i" by simp
    with ij show "i = j" by (metis diff_is_0_eq dvd_imp_le le_less_trans less_imp_diff_less
        linorder_not_less nat_less_le zero_less_diff)
  qed
  from this [of i j] this [of j i] assms show ?thesis by (metis le_cases)
qed

lemma rb_copy_in_spec:
  assumes ok: "rb_ok b" and fit: "pInPos b + length xs \<le> rb_size b" and sp: "length xs \<le> unat (Space b)"
  shows "\<exists>b'. rb_copy_in xs b = Some b' \<and> rb_ok b' \<and> contents b' = contents b @ xs
    \<and> UartBuffSize b' = UartBuffSize b \<and> pOutPos b' = pOutPos b
    \<and> pInPos b' = (pInPos b + length xs) mod rb_size b
    \<and> unat (Space b') = unat (Space b) - length xs"
proof -
  let ?n = "rb_size b" and ?m = "length xs"
  let ?mem = "take (pInPos b) (pUartBuff b) @ xs @ drop (pInPos b + ?m) (pUartBuff b)"
  let ?b = "b\<lparr>pUartBuff := ?mem, pInPos := (pInPos b + ?m) mod ?n, Space := Space b - of_nat ?m\<rparr>"
  have len: "length (pUartBuff b) = ?n" and n: "0 < ?n" and in_n: "pInPos b < ?n"
    and inpos: "(pOutPos b + rb_len b) mod ?n = pInPos b" and S: "unat (Space b) \<le> ?n"
    using ok by (auto simp: rb_ok_def)
  have e: "rb_copy_in xs b = Some ?b"
    using fit len by (simp add: rb_copy_in_def memcpy_in_def Let_def rb_wrap_in_def)
  have sp': "unat (Space b - of_nat ?m) = unat (Space b) - ?m" by (rule unat_minus_of_nat [OF sp])
  have L: "rb_len ?b = rb_len b + ?m" using sp S by (simp add: rb_len_def sp')
  have Ln: "rb_len b + ?m \<le> ?n" using sp S by (simp add: rb_len_def)
  have ok': "rb_ok ?b"
    using ok fit n L by (simp add: rb_ok_def sp') (metis (no_types, lifting) add.assoc inpos mod_add_left_eq le_trans diff_le_self)
  have "contents ?b = contents b @ xs"
  proof (rule nth_equalityI)
    show "length (contents ?b) = length (contents b @ xs)" by (simp add: L)
  next
    fix k
    assume "k < length (contents ?b)"
    then have k: "k < rb_len b + ?m" by (simp add: L)
    let ?p = "(pOutPos b + k) mod ?n"
    have p: "contents ?b ! k = ?mem ! ?p" using k by (simp add: contents_def L)
    show "contents ?b ! k = (contents b @ xs) ! k"
    proof (cases "k < rb_len b")
      case True
      have "\<not> (pInPos b \<le> ?p \<and> ?p < pInPos b + ?m)"
      proof
        assume r: "pInPos b \<le> ?p \<and> ?p < pInPos b + ?m"
        define j where "j = ?p - pInPos b"
        have j: "j < ?m" "?p = pInPos b + j" using r by (auto simp: j_def)
        have "?p = (pInPos b + j) mod ?n" using j fit by simp
        also have "\<dots> = (pOutPos b + (rb_len b + j)) mod ?n"
          using inpos by (metis add.assoc mod_add_left_eq)
        finally have "k = rb_len b + j"
          using mod_add_inj [of "pOutPos b" k ?n "rb_len b + j"] True Ln j(1) by simp
        with True show False by simp
      qed
      moreover have "?p < ?n" using n by simp
      ultimately have "?mem ! ?p = pUartBuff b ! ?p"
        using len in_n fit by (auto simp: nth_append)
      with p True show ?thesis by (simp add: nth_append contents_def)
    next
      case False
      define j where "j = k - rb_len b"
      have j: "k = rb_len b + j" "j < ?m" using False k by (auto simp: j_def)
      have "?p = (pInPos b + j) mod ?n"
        using j inpos by (metis add.assoc mod_add_left_eq)
      also have "\<dots> = pInPos b + j" using fit j(2) by simp
      finally have "?mem ! ?p = xs ! j" using j(2) len in_n by (simp add: nth_append)
      with p j show ?thesis by (simp add: nth_append)
    qed
  qed
  with e ok' sp' show ?thesis by simp
qed

lemma Uart_Buf_Cpy_spec:
  assumes ok: "rb_ok b" and len: "length pdata = unat data_len" and sp: "unat data_len \<le> unat (Space b)"
  shows "\<exists>b'. Uart_Buf_Cpy pdata data_len b = Some b' \<and> rb_ok b' \<and> contents b' = contents b @ pdata
    \<and> UartBuffSize b' = UartBuffSize b \<and> unat (Space b') = unat (Space b) - unat data_len"
proof (cases "data_len = 0")
  case True
  with ok len show ?thesis by (simp add: Uart_Buf_Cpy_def)
next
  case False
  let ?n = "rb_size b" and ?d = "unat data_len" and ?t = "rb_size b - pInPos b"
  have n: "?n < 65536" "pInPos b < ?n" "unat (Space b) \<le> ?n" using ok by (auto simp: rb_ok_def)
  then have t: "unat (of_nat ?t :: u16) = ?t" by (intro unat_of_nat_small) simp
  show ?thesis
  proof (cases "(of_nat ?t :: u16) \<ge> data_len")
    case True
    then have "pInPos b + length pdata \<le> ?n" using t n len by (simp add: word_le_nat_alt)
    from rb_copy_in_spec [OF ok this] sp len True False show ?thesis
      by (auto simp: Uart_Buf_Cpy_def)
  next
    case gt: False
    let ?xs = "take ?t pdata" and ?ys = "drop ?t pdata"
    have d: "?t < ?d" using gt t by (simp add: word_le_nat_alt)
    have rest: "unat (data_len - of_nat ?t) = ?d - ?t" using d by (intro unat_minus_of_nat) simp
    have xs: "length ?xs = ?t" and ys: "length ?ys = ?d - ?t" using len d by simp_all
    from rb_copy_in_spec [OF ok, of ?xs] xs n sp d obtain b1 where
      b1: "rb_copy_in ?xs b = Some b1" "rb_ok b1" "contents b1 = contents b @ ?xs"
        "UartBuffSize b1 = UartBuffSize b" "pInPos b1 = 0" "unat (Space b1) = unat (Space b) - ?t"
      by auto
    have "pInPos b1 + length ?ys \<le> rb_size b1" and "length ?ys \<le> unat (Space b1)"
      using b1(4-6) ys n sp d by simp_all
    from rb_copy_in_spec [OF b1(2) this] b1 ys d obtain b2 where
      b2: "rb_copy_in ?ys b1 = Some b2" "rb_ok b2" "contents b2 = contents b1 @ ?ys"
        "UartBuffSize b2 = UartBuffSize b" "unat (Space b2) = unat (Space b) - ?t - (?d - ?t)"
      by metis
    have "Uart_Buf_Cpy pdata data_len b = Some b2"
      using False gt len t rest b1(1) b2(1) ys by (simp add: Uart_Buf_Cpy_def)
    moreover have "contents b2 = contents b @ pdata"
      using b2(3) b1(3) by simp
    ultimately show ?thesis using b2 d by simp
  qed
qed

lemma rb_copy_out_spec:
  assumes ok: "rb_ok b" and m: "m \<le> rb_len b" and fit: "pOutPos b + m \<le> rb_size b"
    and wrap: "wrap \<or> pOutPos b + m < rb_size b"
  shows "\<exists>b'. rb_copy_out wrap m b = Some (take m (contents b), b') \<and> rb_ok b'
    \<and> contents b' = drop m (contents b)
    \<and> UartBuffSize b' = UartBuffSize b \<and> pInPos b' = pInPos b
    \<and> pOutPos b' = (pOutPos b + m) mod rb_size b
    \<and> unat (Space b') = unat (Space b) + m"
proof -
  let ?n = "rb_size b"
  let ?b = "b\<lparr>pOutPos := (pOutPos b + m) mod ?n, Space := Space b + of_nat m\<rparr>"
  have len: "length (pUartBuff b) = ?n" and n: "0 < ?n" "?n < 65536" and S: "unat (Space b) \<le> ?n"
    and inpos: "(pOutPos b + rb_len b) mod ?n = pInPos b"
    using ok by (auto simp: rb_ok_def)
  have sp: "unat (Space b + of_nat m) = unat (Space b) + m"
    using m S n by (intro unat_plus_of_nat) (simp add: rb_len_def)
  have L: "rb_len ?b = rb_len b - m" by (simp add: rb_len_def sp)
  have "take m (drop (pOutPos b) (pUartBuff b)) = take m (contents b)"
  proof (rule nth_equalityI)
    show "length (take m (drop (pOutPos b) (pUartBuff b))) = length (take m (contents b))"
      using m fit len by simp
  next
    fix k
    assume "k < length (take m (drop (pOutPos b) (pUartBuff b)))"
    then have "k < m" by simp
    with m fit len show "take m (drop (pOutPos b) (pUartBuff b)) ! k = take m (contents b) ! k"
      by (simp add: contents_def)
  qed
  then have e: "rb_copy_out wrap m b = Some (take m (contents b), ?b)"
    using fit len wrap by (auto simp: rb_copy_out_def memcpy_out_def Let_def rb_wrap_out_def)
  have md: "((pOutPos b + m) mod ?n + (rb_len b - m)) mod ?n = pInPos b"
  proof -
    have "((pOutPos b + m) mod ?n + (rb_len b - m)) mod ?n = (pOutPos b + m + (rb_len b - m)) mod ?n"
      by (rule mod_add_left_eq)
    with m inpos show ?thesis by simp
  qed
  have sm: "unat (Space b) + m \<le> ?n" using m S by (simp add: rb_len_def)
  have ok': "rb_ok ?b"
    using ok n md sm unfolding rb_ok_def L by (simp add: sp)
  have "contents ?b = drop m (contents b)"
  proof (rule nth_equalityI)
    show "length (contents ?b) = length (drop m (contents b))" by (simp add: L)
  next
    fix k
    assume "k < length (contents ?b)"
    then have "k < rb_len b - m" by (simp add: L)
    then have "m + k < rb_len b" using m by linarith
    then show "contents ?b ! k = drop m (contents b) ! k"
      using m by (simp add: contents_def L mod_add_left_eq add.assoc)
  qed
  with e ok' sp show ?thesis by simp
qed

section \<open>The receive direction\<close>

text \<open>
  The receive ring is never filled to the last byte (\<open>Uart_rx_buff_enq\<close> takes the FIFO only
  when it is shorter than the free space), which is what makes the first case of
  \<open>rx_buff_deq\<close>, the one without a wrap, stay inside the storage.
\<close>

definition rx_ok :: "UartBuffer \<Rightarrow> bool" where
  "rx_ok b \<longleftrightarrow> rb_ok b \<and> 0 < unat (Space b)"

lemma rb_len_u16:
  assumes "rb_ok b"
  shows "unat (ucast (UartBuffSize b - ucast (Space b)) :: u16) = rb_len b"
proof -
  have S: "unat (Space b) \<le> rb_size b" and n: "rb_size b < 65536" using assms by (auto simp: rb_ok_def)
  have u: "unat (ucast (Space b) :: u32) = unat (Space b)"
    by (simp add: unsigned_ucast_eq take_bit_nat_eq_self unat_u16_less [THEN less_trans])
  then have "(ucast (Space b) :: u32) \<le> UartBuffSize b" using S by (simp add: word_le_nat_alt)
  then have "unat (UartBuffSize b - ucast (Space b)) = rb_len b"
    using u by (simp add: unat_sub rb_len_def)
  moreover have "rb_len b < 65536" using n by (simp add: rb_len_def)
  ultimately show ?thesis by (simp add: unsigned_ucast_eq take_bit_nat_eq_self)
qed

lemma rx_take_spec:
  fixes data_len :: u16
  assumes ok: "rx_ok b"
  defines "m \<equiv> min (unat data_len) (rb_len b)"
  shows "\<exists>b'. rx_take data_len b = Some (take m (contents b), b') \<and> rx_ok b'
    \<and> contents b' = drop m (contents b) \<and> UartBuffSize b' = UartBuffSize b
    \<and> unat (Space b') = unat (Space b) + m"
proof -
  let ?n = "rb_size b" and ?t = "rb_size b - pOutPos b" and ?len = "rx_len data_len b"
  have rb: "rb_ok b" and S0: "0 < unat (Space b)" using ok by (auto simp: rx_ok_def)
  have n: "?n < 65536" "pOutPos b < ?n" "pInPos b < ?n" "unat (Space b) \<le> ?n"
    and inpos: "(pOutPos b + rb_len b) mod ?n = pInPos b"
    using rb by (auto simp: rb_ok_def)
  have t: "unat (of_nat ?t :: u16) = ?t" using n by (intro unat_of_nat_small) simp
  have len: "unat ?len = m"
    using rb_len_u16 [OF rb] by (auto simp: m_def rx_len_def Let_def word_less_nat_alt)
  have Ln: "rb_len b < ?n" using S0 n by (simp add: rb_len_def)
  have mL: "m \<le> rb_len b" by (simp add: m_def)
  consider (lin) "pOutPos b \<le> pInPos b" | (short) "\<not> pOutPos b \<le> pInPos b" "m \<le> ?t"
    | (split) "\<not> pOutPos b \<le> pInPos b" "?t < m" by linarith
  then show ?thesis
  proof cases
    case lin
    have "pOutPos b + rb_len b < ?n"
    proof (rule ccontr)
      assume "\<not> pOutPos b + rb_len b < ?n"
      then have "pInPos b = pOutPos b + rb_len b - ?n"
        using inpos n Ln by (simp add: mod_if split: if_splits)
      with lin Ln n \<open>\<not> pOutPos b + rb_len b < ?n\<close> show False by linarith
    qed
    with mL have fit: "pOutPos b + m < ?n" by linarith
    from rb_copy_out_spec [OF rb mL, of False] fit obtain b' where
      b': "rb_copy_out False m b = Some (take m (contents b), b')" "rb_ok b'"
        "contents b' = drop m (contents b)" "UartBuffSize b' = UartBuffSize b"
        "unat (Space b') = unat (Space b) + m" by auto
    moreover have "rx_take data_len b = rb_copy_out False m b"
      using lin len by (simp add: rx_take_def Let_def)
    ultimately show ?thesis using S0 by (auto simp: rx_ok_def)
  next
    case short
    have "pOutPos b + m \<le> ?n" using short(2) n(2) by linarith
    from rb_copy_out_spec [OF rb mL this, of True] obtain b' where
      b': "rb_copy_out True m b = Some (take m (contents b), b')" "rb_ok b'"
        "contents b' = drop m (contents b)" "UartBuffSize b' = UartBuffSize b"
        "unat (Space b') = unat (Space b) + m" by auto
    moreover have "\<not> ?len > of_nat ?t" using short(2) len t by (simp only: word_less_nat_alt not_less)
    then have "rx_take data_len b = rb_copy_out True m b"
      unfolding rx_take_def Let_def len by (simp only: short(1) if_False)
    ultimately show ?thesis using S0 by (auto simp: rx_ok_def)
  next
    case split
    have tL: "?t \<le> rb_len b" using split mL by linarith
    from rb_copy_out_spec [OF rb tL, of True] n obtain b1 where
      b1: "rb_copy_out True ?t b = Some (take ?t (contents b), b1)" "rb_ok b1"
        "contents b1 = drop ?t (contents b)" "UartBuffSize b1 = UartBuffSize b" "pOutPos b1 = 0"
        "unat (Space b1) = unat (Space b) + ?t" by auto
    have l1: "rb_len b1 = rb_len b - ?t"
      by (simp add: rb_len_def b1)
    have "m - ?t \<le> rb_len b1" and "pOutPos b1 + (m - ?t) \<le> rb_size b1"
      using l1 mL b1 Ln by auto
    from rb_copy_out_spec [OF b1(2) this, of True] obtain b2 where
      b2: "rb_copy_out True (m - ?t) b1 = Some (take (m - ?t) (contents b1), b2)" "rb_ok b2"
        "contents b2 = drop (m - ?t) (contents b1)" "UartBuffSize b2 = UartBuffSize b"
        "unat (Space b2) = unat (Space b1) + (m - ?t)" using b1(4) by auto
    have gt: "?len > of_nat ?t" using split(2) len t by (simp only: word_less_nat_alt)
    have rest: "unat (?len - of_nat ?t) = m - ?t"
      using split(2) len unat_minus_of_nat [of ?t ?len] by linarith
    have "rx_take data_len b =
        map_option (\<lambda>(ys, c). (take ?t (contents b) @ ys, c)) (rb_copy_out True (m - ?t) b1)"
      unfolding rx_take_def Let_def rest t using gt split(1) b1(1) by simp
    then have "rx_take data_len b = Some (take m (contents b), b2)"
      using b2(1) b1(3) split(2) by (simp flip: take_add)
    moreover have "contents b2 = drop m (contents b)"
      using b2(3) b1(3) split(2) by simp
    ultimately show ?thesis using b2 b1 split S0 by (auto simp: rx_ok_def)
  qed
qed

section \<open>One byte at a time\<close>

text \<open>
  The FIFO loops move single bytes and settle the count of free bytes at the end, so their
  steps are related to the copies above with the count \<open>w\<close> it would have had.
\<close>

lemma rx_store_step:
  assumes "rb_ok (b\<lparr>Space := w\<rparr>)" and "0 < unat w"
  shows "\<exists>b'. rx_store x b = Some b' \<and> rb_ok (b'\<lparr>Space := w - 1\<rparr>)
    \<and> contents (b'\<lparr>Space := w - 1\<rparr>) = contents (b\<lparr>Space := w\<rparr>) @ [x]
    \<and> UartBuffSize b' = UartBuffSize b \<and> Space b' = Space b"
proof -
  have pos: "pInPos b < rb_size b" "length (pUartBuff b) = rb_size b"
    using assms(1) by (auto simp: rb_ok_def)
  from rb_copy_in_spec [OF assms(1), of "[x]"] pos assms(2) obtain c where
    c: "rb_copy_in [x] (b\<lparr>Space := w\<rparr>) = Some c" "rb_ok c"
      "contents c = contents (b\<lparr>Space := w\<rparr>) @ [x]" "UartBuffSize c = UartBuffSize b"
    by auto
  obtain b' where b': "rx_store x b = Some b'" "c = b'\<lparr>Space := w - 1\<rparr>" "Space b' = Space b"
    using c(1) pos
    by (auto simp: rb_copy_in_def rx_store_def memcpy_in_def Let_def rb_wrap_in_def mod_if
        split: if_splits)
  with c show ?thesis by auto
qed

definition rx_put :: "u8 list \<Rightarrow> UartBuffer \<Rightarrow> UartBuffer option" where
  "rx_put xs b = map_option (\<lambda>b. b\<lparr>Space := Space b - of_nat (length xs)\<rparr>)
     (fold (\<lambda>x r. Option.bind r (rx_store x)) xs (Some b))"

lemma rx_stores:
  assumes "rb_ok (b\<lparr>Space := w\<rparr>)" and "length xs \<le> unat w"
  shows "\<exists>b'. fold (\<lambda>x r. Option.bind r (rx_store x)) xs (Some b) = Some b'
    \<and> rb_ok (b'\<lparr>Space := w - of_nat (length xs)\<rparr>)
    \<and> contents (b'\<lparr>Space := w - of_nat (length xs)\<rparr>) = contents (b\<lparr>Space := w\<rparr>) @ xs
    \<and> UartBuffSize b' = UartBuffSize b \<and> Space b' = Space b"
  using assms
proof (induction xs arbitrary: b w)
  case Nil
  then show ?case by simp
next
  case (Cons x xs)
  from rx_store_step [of w b x] Cons.prems obtain b1 where
    b1: "rx_store x b = Some b1" "rb_ok (b1\<lparr>Space := w - 1\<rparr>)"
      "contents (b1\<lparr>Space := w - 1\<rparr>) = contents (b\<lparr>Space := w\<rparr>) @ [x]"
      "UartBuffSize b1 = UartBuffSize b" "Space b1 = Space b" by auto
  have "length xs \<le> unat (w - 1)"
    using Cons.prems(2) unat_minus_of_nat [of 1 w] by simp
  from Cons.IH [OF b1(2) this] b1 show ?case
    by (auto simp: diff_diff_eq)
qed

lemma rx_put_spec:
  assumes "rx_ok b" and "length xs < unat (Space b)"
  shows "\<exists>b'. rx_put xs b = Some b' \<and> rx_ok b' \<and> contents b' = contents b @ xs
    \<and> UartBuffSize b' = UartBuffSize b \<and> unat (Space b') = unat (Space b) - length xs"
proof -
  have ok: "rb_ok (b\<lparr>Space := Space b\<rparr>)" using assms(1) by (simp add: rx_ok_def)
  have le: "length xs \<le> unat (Space b)" using assms(2) by simp
  have sp: "unat (Space b - of_nat (length xs)) = unat (Space b) - length xs"
    by (rule unat_minus_of_nat [OF le])
  from rx_stores [OF ok le] sp assms(2) show ?thesis
    by (auto simp: rx_put_def rx_ok_def)
qed

text \<open>The loop of \<open>Uart_rx_buff_enq\<close> stores what the FIFO register shows on successive reads.\<close>

lemma rx_fifo_loop:
  assumes "feed s (Reg (UART_FIFO UART0)) = vs @ rest"
    and "fold (\<lambda>x r. Option.bind r (rx_store x)) (map ucast vs) (Some b) = Some b'"
  shows "\<exists>s'. fold (\<lambda>_ r. Option.bind r rx_read_fifo) [i..<i + length vs] (Some (b, s)) = Some (b', s')
    \<and> feed s' (Reg (UART_FIFO UART0)) = rest \<and> trace s' = trace s
    \<and> (\<forall>p. p \<noteq> Reg (UART_FIFO UART0) \<longrightarrow> cur s' p = cur s p \<and> feed s' p = feed s p)"
  using assms
proof (induction vs arbitrary: i b s)
  case Nil
  then show ?case by auto
next
  case (Cons v vs)
  let ?s = "s\<lparr>cur := (cur s)(Reg (UART_FIFO UART0) := v), feed := (feed s)(Reg (UART_FIFO UART0) := vs @ rest)\<rparr>"
  have rd: "rx_read_fifo (b, s) = map_option (\<lambda>b. (b, ?s)) (rx_store (ucast v) b)"
    using Cons.prems by (simp add: rx_read_fifo_def READ_PERI_REG_def sample_feed ucast_and_byte)
  have up: "[i..<i + length (v # vs)] = i # [Suc i..<Suc i + length vs]"
    by (subst upt_conv_Cons) auto
  from Cons.prems(2) obtain b1 where
    b1: "rx_store (ucast v) b = Some b1"
      "fold (\<lambda>x r. Option.bind r (rx_store x)) (map ucast vs) (Some b1) = Some b'"
    by (cases "rx_store (ucast v) b") (simp_all add: fold_bind_list_None)
  from Cons.IH [of ?s b1 "Suc i"] b1 show ?case
    unfolding up by (auto simp: rd)
qed

lemma rx_cnt_val: "unat (rx_cnt v) = unat (v AND 0xFF)"
proof -
  have "(ucast (rx_cnt v) :: u32) = v AND 0xFF"
    by (simp add: rx_cnt_def reg_simps ucast_byte ucast_and_byte)
  moreover have "unat (ucast (rx_cnt v) :: u32) = unat (rx_cnt v)"
    by (simp add: unsigned_ucast_eq take_bit_nat_eq_self unat_u8_less [THEN less_trans])
  ultimately show ?thesis by simp
qed

lemma ucast_u8_u16: "unat (ucast (x :: u8) :: u16) = unat x" "(ucast x :: u16) = of_nat (unat x)"
  by (simp_all add: unsigned_ucast_eq take_bit_nat_eq_self unat_u8_less [THEN less_trans])

section \<open>The transmit direction\<close>

lemma tx_pop_step:
  assumes "rb_ok (b\<lparr>Space := w\<rparr>)" and "unat w < rb_size b"
  shows "\<exists>b'. tx_pop u (b, s) =
      Some (b', WRITE_PERI_REG (UART_FIFO u) (ucast (hd (contents (b\<lparr>Space := w\<rparr>)))) s)
    \<and> rb_ok (b'\<lparr>Space := w + 1\<rparr>)
    \<and> contents (b\<lparr>Space := w\<rparr>) = hd (contents (b\<lparr>Space := w\<rparr>)) # contents (b'\<lparr>Space := w + 1\<rparr>)
    \<and> UartBuffSize b' = UartBuffSize b \<and> Space b' = Space b"
proof -
  have pos: "pOutPos b < rb_size b" "length (pUartBuff b) = rb_size b"
    using assms(1) by (auto simp: rb_ok_def)
  have ne: "contents (b\<lparr>Space := w\<rparr>) \<noteq> []" and l: "1 \<le> rb_len (b\<lparr>Space := w\<rparr>)"
    using assms(2) by (auto simp: contents_def rb_len_def)
  from rb_copy_out_spec [OF assms(1) l, of True] pos obtain c where
    c: "rb_copy_out True 1 (b\<lparr>Space := w\<rparr>) = Some (take 1 (contents (b\<lparr>Space := w\<rparr>)), c)" "rb_ok c"
      "contents c = drop 1 (contents (b\<lparr>Space := w\<rparr>))" "UartBuffSize c = UartBuffSize b" by auto
  have hd: "take 1 (contents (b\<lparr>Space := w\<rparr>)) = [hd (contents (b\<lparr>Space := w\<rparr>))]"
    using ne by (cases "contents (b\<lparr>Space := w\<rparr>)") auto
  have mem: "take 1 (drop (pOutPos b) (pUartBuff b)) = [pUartBuff b ! pOutPos b]"
    using pos by (simp add: take_Suc hd_drop_conv_nth)
  have "rb_copy_out True 1 (b\<lparr>Space := w\<rparr>) = Some ([pUartBuff b ! pOutPos b],
      b\<lparr>pOutPos := (pOutPos b + 1) mod rb_size b, Space := w + 1\<rparr>)"
    using pos mem by (simp add: rb_copy_out_def memcpy_out_def Let_def rb_wrap_out_def)
  then have x: "hd (contents (b\<lparr>Space := w\<rparr>)) = pUartBuff b ! pOutPos b"
    and c': "c = b\<lparr>pOutPos := (pOutPos b + 1) mod rb_size b, Space := w + 1\<rparr>"
    using c(1) hd by auto
  let ?b = "b\<lparr>pOutPos := (pOutPos b + 1) mod rb_size b\<rparr>"
  have pop: "tx_pop u (b, s) = Some (?b, WRITE_PERI_REG (UART_FIFO u) (ucast (pUartBuff b ! pOutPos b)) s)"
    using pos by (auto simp: tx_pop_def Let_def mod_if)
  have tl: "contents (?b\<lparr>Space := w + 1\<rparr>) = tl (contents (b\<lparr>Space := w\<rparr>))"
    using c(3) c' by (simp add: drop_Suc)
  have "contents (b\<lparr>Space := w\<rparr>) = pUartBuff b ! pOutPos b # tl (contents (b\<lparr>Space := w\<rparr>))"
    using ne x by (metis list.collapse)
  then have "contents (b\<lparr>Space := w\<rparr>) = pUartBuff b ! pOutPos b # contents (?b\<lparr>Space := w + 1\<rparr>)"
    unfolding tl .
  moreover have "rb_ok (?b\<lparr>Space := w + 1\<rparr>)" using c(2) c' by simp
  ultimately show ?thesis
    unfolding x using pop by (intro exI [of _ ?b] conjI) simp_all
qed

lemma tx_pops:
  assumes "rb_ok (b\<lparr>Space := w\<rparr>)" and "k \<le> rb_size b - unat w"
  shows "\<exists>b' s'. fold (\<lambda>_ r. Option.bind r (tx_pop u)) [i..<i + k] (Some (b, s)) = Some (b', s')
    \<and> trace s' = trace s @ map (\<lambda>x. Wr (UART_FIFO u) (ucast x)) (take k (contents (b\<lparr>Space := w\<rparr>)))
    \<and> feed s' = feed s \<and> (\<forall>p. p \<noteq> Reg (UART_FIFO u) \<longrightarrow> cur s' p = cur s p)
    \<and> rb_ok (b'\<lparr>Space := w + of_nat k\<rparr>)
    \<and> contents (b'\<lparr>Space := w + of_nat k\<rparr>) = drop k (contents (b\<lparr>Space := w\<rparr>))
    \<and> UartBuffSize b' = UartBuffSize b \<and> Space b' = Space b"
  using assms
proof (induction k arbitrary: i b w s)
  case 0
  then show ?case by auto
next
  case (Suc k)
  have lt: "unat w < rb_size b" and n: "rb_size b < 65536"
    using Suc.prems by (auto simp: rb_ok_def)
  let ?x = "hd (contents (b\<lparr>Space := w\<rparr>))"
  let ?s = "WRITE_PERI_REG (UART_FIFO u) (ucast ?x) s"
  from tx_pop_step [OF Suc.prems(1) lt, of u s] obtain b1 where
    b1: "tx_pop u (b, s) = Some (b1, ?s)" "rb_ok (b1\<lparr>Space := w + 1\<rparr>)"
      "contents (b\<lparr>Space := w\<rparr>) = ?x # contents (b1\<lparr>Space := w + 1\<rparr>)"
      "UartBuffSize b1 = UartBuffSize b" "Space b1 = Space b" by blast
  have w1: "unat (w + 1) = unat w + 1"
    using unat_plus_of_nat [of w 1] lt n by simp
  have up: "[i..<i + Suc k] = i # [Suc i..<Suc i + k]" by (subst upt_conv_Cons) auto
  have "k \<le> rb_size b1 - unat (w + 1)" using Suc.prems(2) b1(4) w1 by simp
  from Suc.IH [OF b1(2) this, of "Suc i" ?s] obtain b' s' where
    r: "fold (\<lambda>_ r. Option.bind r (tx_pop u)) [Suc i..<Suc i + k] (Some (b1, ?s)) = Some (b', s')"
      "trace s' = trace ?s @ map (\<lambda>x. Wr (UART_FIFO u) (ucast x)) (take k (contents (b1\<lparr>Space := w + 1\<rparr>)))"
      "feed s' = feed ?s" "\<forall>p. p \<noteq> Reg (UART_FIFO u) \<longrightarrow> cur s' p = cur ?s p"
      "rb_ok (b'\<lparr>Space := w + 1 + of_nat k\<rparr>)"
      "contents (b'\<lparr>Space := w + 1 + of_nat k\<rparr>) = drop k (contents (b1\<lparr>Space := w + 1\<rparr>))"
      "UartBuffSize b' = UartBuffSize b1" "Space b' = Space b1" by blast
  have k: "w + 1 + of_nat k = w + of_nat (Suc k)" by simp
  have "fold (\<lambda>_ r. Option.bind r (tx_pop u)) [i..<i + Suc k] (Some (b, s)) = Some (b', s')"
    unfolding up using b1(1) r(1) by simp
  moreover have "take (Suc k) (contents (b\<lparr>Space := w\<rparr>)) = ?x # take k (contents (b1\<lparr>Space := w + 1\<rparr>))"
    and "drop (Suc k) (contents (b\<lparr>Space := w\<rparr>)) = drop k (contents (b1\<lparr>Space := w + 1\<rparr>))"
    using b1(3) by (metis take_Suc_Cons, metis drop_Suc_Cons)
  ultimately show ?case
    using r b1(4,5) unfolding k by (intro exI [of _ b'] exI [of _ s'] conjI) simp_all
qed

lemma tx_fifo_insert_spec:
  assumes ok: "rb_ok b" and k: "unat data_len \<le> rb_len b"
  shows "\<exists>b' s'. tx_fifo_insert data_len u (b, s) = Some (b', s') \<and> rb_ok b'
    \<and> trace s' = trace s @ map (\<lambda>x. Wr (UART_FIFO u) (ucast x)) (take (unat data_len) (contents b))
    \<and> feed s' = feed s \<and> (\<forall>p. p \<noteq> Reg (UART_FIFO u) \<longrightarrow> cur s' p = cur s p)
    \<and> contents b' = drop (unat data_len) (contents b)
    \<and> UartBuffSize b' = UartBuffSize b \<and> unat (Space b') = unat (Space b) + unat data_len"
proof -
  let ?k = "unat data_len"
  have ok': "rb_ok (b\<lparr>Space := Space b\<rparr>)" using ok by simp
  have "?k \<le> rb_size b - unat (Space b)" using k by (simp add: rb_len_def)
  from tx_pops [OF ok' this, of u 0 s] obtain b1 s1 where
    r: "fold (\<lambda>_ r. Option.bind r (tx_pop u)) [0..<?k] (Some (b, s)) = Some (b1, s1)"
      "trace s1 = trace s @ map (\<lambda>x. Wr (UART_FIFO u) (ucast x)) (take ?k (contents b))"
      "feed s1 = feed s" "\<forall>p. p \<noteq> Reg (UART_FIFO u) \<longrightarrow> cur s1 p = cur s p"
      "rb_ok (b1\<lparr>Space := Space b + of_nat ?k\<rparr>)"
      "contents (b1\<lparr>Space := Space b + of_nat ?k\<rparr>) = drop ?k (contents b)"
      "UartBuffSize b1 = UartBuffSize b" "Space b1 = Space b"
    by auto
  have sp: "unat (Space b + of_nat ?k) = unat (Space b) + ?k"
    using ok k by (intro unat_plus_of_nat) (auto simp: rb_ok_def rb_len_def)
  have out: "pOutPos b1 mod rb_size b1 = pOutPos b1" using r(5) by (simp add: rb_ok_def)
  have "tx_fifo_insert data_len u (b, s) = Some (b1\<lparr>Space := Space b + of_nat ?k\<rparr>, s1)"
    unfolding ucast_u8_u16(2) [symmetric]
    using r(1,8) out by (simp add: tx_fifo_insert_def rb_wrap_out_def Let_def)
  then show ?thesis
    using r sp
    by (intro exI [of _ "b1\<lparr>Space := Space b + of_nat ?k\<rparr>"] exI [of _ s1] conjI) simp_all
qed

section \<open>Both rings are queues\<close>

definition tx_put :: "u8 list \<Rightarrow> UartBuffer \<Rightarrow> UartBuffer option" where
  "tx_put xs b = Uart_Buf_Cpy xs (of_nat (length xs)) b"

definition tx_get :: "nat \<Rightarrow> UartBuffer \<Rightarrow> (u8 list \<times> UartBuffer) option" where
  "tx_get n b = map_option (\<lambda>(b, s). (map ucast (sent UART0 s), b))
     (tx_fifo_insert (of_nat n) UART0 (b, mach0))"

definition rx_get :: "nat \<Rightarrow> UartBuffer \<Rightarrow> (u8 list \<times> UartBuffer) option" where
  "rx_get n b = rx_take (of_nat n) b"

definition rx_cap :: "UartBuffer \<Rightarrow> nat" where
  "rx_cap b = rb_size b - 1"

lemma sent_appended:
  assumes "trace s' = trace s @ map (\<lambda>x. Wr (UART_FIFO u) (ucast (x :: u8))) xs"
  shows "sent u s' = sent u s @ map ucast xs"
proof -
  have "concat (map (fifo_byte u) (map (\<lambda>x. Wr (UART_FIFO u) (ucast (x :: u8))) xs)) = map ucast xs"
    by (induction xs) simp_all
  with assms show ?thesis by (simp add: sent_def)
qed

lemma ucast_u32_u8 [simp]: "(ucast (ucast (x :: u8) :: u32) :: u8) = x"
  by (rule bit_word_eqI) (simp add: bit_simps)

interpretation tx_ring: byte_queue contents rb_ok rb_size 255 tx_put tx_get
proof unfold_locales
  fix q :: UartBuffer and xs :: "u8 list"
  assume q: "rb_ok q" and l: "length xs \<le> rb_size q - length (contents q)" "length xs \<le> 255"
  have n: "unat (of_nat (length xs) :: u16) = length xs"
    using l(2) by (intro unat_of_nat_small) simp
  have "length xs \<le> unat (Space q)"
    using l(1) q by (simp add: rb_len_def rb_ok_def)
  with Uart_Buf_Cpy_spec [OF q, of xs "of_nat (length xs)"] n
  show "\<exists>q'. tx_put xs q = Some q' \<and> rb_ok q' \<and> contents q' = contents q @ xs \<and> rb_size q' = rb_size q"
    by (auto simp: tx_put_def)
next
  fix q :: UartBuffer and n :: nat
  assume q: "rb_ok q" and n: "n \<le> length (contents q)" "n \<le> 255"
  have u: "unat (of_nat n :: u8) = n" using n(2) by (intro unat_of_nat_small) simp
  from tx_fifo_insert_spec [OF q, of "of_nat n" UART0 mach0] n u obtain b' s' where
    r: "tx_fifo_insert (of_nat n) UART0 (q, mach0) = Some (b', s')" "rb_ok b'"
      "trace s' = trace mach0 @ map (\<lambda>x. Wr (UART_FIFO UART0) (ucast x)) (take n (contents q))"
      "contents b' = drop n (contents q)" "UartBuffSize b' = UartBuffSize q" by auto
  have "sent UART0 s' = map ucast (take n (contents q))"
    using sent_appended [OF r(3)] by (simp add: sent_def)
  with r show "\<exists>q'. tx_get n q = Some (take n (contents q), q') \<and> rb_ok q'
      \<and> contents q' = drop n (contents q) \<and> rb_size q' = rb_size q"
    by (simp add: tx_get_def comp_def)
qed

interpretation rx_ring: byte_queue contents rx_ok rx_cap 255 rx_put rx_get
proof unfold_locales
  fix q :: UartBuffer and xs :: "u8 list"
  assume q: "rx_ok q" and l: "length xs \<le> rx_cap q - length (contents q)" "length xs \<le> 255"
  have "length xs < unat (Space q)"
    using l(1) q by (auto simp: rb_len_def rx_ok_def rb_ok_def rx_cap_def)
  from rx_put_spec [OF q this]
  show "\<exists>q'. rx_put xs q = Some q' \<and> rx_ok q' \<and> contents q' = contents q @ xs \<and> rx_cap q' = rx_cap q"
    by (auto simp: rx_cap_def)
next
  fix q :: UartBuffer and n :: nat
  assume q: "rx_ok q" and n: "n \<le> length (contents q)" "n \<le> 255"
  have u: "unat (of_nat n :: u16) = n" using n(2) by (intro unat_of_nat_small) simp
  with rx_take_spec [OF q, of "of_nat n"] n
  show "\<exists>q'. rx_get n q = Some (take n (contents q), q') \<and> rx_ok q'
      \<and> contents q' = drop n (contents q) \<and> rx_cap q' = rx_cap q"
    by (auto simp: rx_get_def rx_cap_def min_def)
qed

section \<open>The handlers on the rings\<close>

lemma dbg1_frame:
  "p \<notin> {Reg (UART_STATUS UART1), Reg (UART_FIFO UART1)} \<Longrightarrow> cur (dbg1 str s) p = cur s p
     \<and> feed (dbg1 str s) p = feed s p"
  "sent UART0 (dbg1 str s) = sent UART0 s"
proof -
  have step: "(p \<notin> {Reg (UART_STATUS UART1), Reg (UART_FIFO UART1)} \<longrightarrow>
      cur (uart_tx_one_char_no_wait UART1 c s) p = cur s p
      \<and> feed (uart_tx_one_char_no_wait UART1 c s) p = feed s p)
    \<and> sent UART0 (uart_tx_one_char_no_wait UART1 c s) = sent UART0 s" for c s p
    by (auto simp: uart_tx_one_char_no_wait_def READ_PERI_REG_def sample_def Let_def sent_def
        UART0_def UART1_def uart_regs split: list.splits)
  have "\<exists>s'. uart1_sendStr_no_wait (cs @ [0]) s = Some s'
    \<and> (p \<notin> {Reg (UART_STATUS UART1), Reg (UART_FIFO UART1)} \<longrightarrow> cur s' p = cur s p \<and> feed s' p = feed s p)
    \<and> sent UART0 s' = sent UART0 s" for cs p
  proof (induction cs arbitrary: s)
    case Nil
    then show ?case by simp
  next
    case (Cons c cs)
    show ?case
      using Cons.IH [of "uart_tx_one_char_no_wait UART1 c s"] step [of p c s] by auto
  qed
  from this [of "map (\<lambda>c. of_nat (of_char c)) str" p]
  show "p \<notin> {Reg (UART_STATUS UART1), Reg (UART_FIFO UART1)} \<Longrightarrow> cur (dbg1 str s) p = cur s p
      \<and> feed (dbg1 str s) p = feed s p"
    and "sent UART0 (dbg1 str s) = sent UART0 s"
    by (auto simp: dbg1_def cstring_def)
qed

lemma uart0_regs_not_port1:
  "UART_INT_ENA UART0 \<notin> {UART_STATUS UART1, UART_FIFO UART1}"
  "UART_CONF1 UART0 \<notin> {UART_STATUS UART1, UART_FIFO UART1}"
  by (simp_all add: uart_regs UART0_def UART1_def)

lemma sent_rmw [simp]:
  "still (Reg a) s \<Longrightarrow> a \<noteq> UART_FIFO u \<Longrightarrow> sent u (SET_PERI_REG_MASK a m s) = sent u s"
  "still (Reg a) s \<Longrightarrow> a \<noteq> UART_FIFO u \<Longrightarrow> sent u (CLEAR_PERI_REG_MASK a m s) = sent u s"
  by (simp_all add: sent_def)

lemma on_hw_simps [simp]:
  "uart_hw (on_hw f st) = f (uart_hw st)" "pTxBuffer (on_hw f st) = pTxBuffer st"
  "pRxBuffer (on_hw f st) = pRxBuffer st" "UartDev (on_hw f st) = UartDev st"
  by (simp_all add: on_hw_def)


definition tx_room :: "mach \<Rightarrow> nat" where
  "tx_room s = UART_FIFO_LEN - unat (tx_cnt (peri s (UART_STATUS UART0)))"

lemma tx_room_u8:
  assumes "tx_cnt v \<le> 128"
  shows "unat (of_nat UART_FIFO_LEN - (ucast (tx_cnt v) :: u8)) = UART_FIFO_LEN - unat (tx_cnt v)"
proof -
  have c: "unat (tx_cnt v) \<le> 128" using assms by (simp add: word_le_nat_alt)
  then have u: "unat (ucast (tx_cnt v) :: u8) = unat (tx_cnt v)"
    by (simp add: unsigned_ucast_eq take_bit_nat_eq_self)
  then have "(ucast (tx_cnt v) :: u8) \<le> 128" using c by (simp add: word_le_nat_alt)
  then show ?thesis using u by (simp add: UART_FIFO_LEN_def unat_sub)
qed

text \<open>
  The empty-FIFO interrupt drains the transmit ring without overrunning the hardware
  FIFO: it moves the oldest bytes, as many as there are or as fit, in order and each once, and
  when bytes remain it leaves the interrupt on that will move them.
\<close>

theorem uart_tx_drain:
  assumes "pTxBuffer st = Some b" and "rb_ok b"
    and "still (Reg (UART_STATUS UART0)) (uart_hw st)" and "still (Reg (UART_INT_ENA UART0)) (uart_hw st)"
    and "tx_cnt (peri (uart_hw st) (UART_STATUS UART0)) \<le> 128"
  shows "\<exists>st' b'. tx_start_uart_buffer UART0 st = Some st' \<and> pTxBuffer st' = Some b' \<and> rb_ok b'
    \<and> sent UART0 (uart_hw st') =
        sent UART0 (uart_hw st) @ map ucast (take (tx_room (uart_hw st)) (contents b))
    \<and> contents b' = drop (tx_room (uart_hw st)) (contents b)
    \<and> (contents b' \<noteq> [] \<longrightarrow> bit (peri (uart_hw st') (UART_INT_ENA UART0)) 1)"
proof -
  let ?s = "uart_hw st" and ?v = "peri (uart_hw st) (UART_STATUS UART0)"
  let ?room = "of_nat UART_FIFO_LEN - (ucast (tx_cnt ?v) :: u8)"
  let ?len = "ucast (UartBuffSize b - ucast (Space b)) :: u16"
  have room: "unat ?room = tx_room ?s" using tx_room_u8 [OF assms(5)] by (simp add: tx_room_def)
  have len: "unat ?len = rb_len b" by (rule rb_len_u16 [OF assms(2)])
  have r128: "tx_room ?s \<le> 128" by (simp add: tx_room_def UART_FIFO_LEN_def)
  have gt: "?len > ucast ?room \<longleftrightarrow> tx_room ?s < rb_len b"
    by (simp only: word_less_nat_alt ucast_u8_u16(1) room len)
  show ?thesis
  proof (cases "tx_room ?s < rb_len b")
    case True
    then have "unat ?room \<le> rb_len b" using room by simp
    from tx_fifo_insert_spec [OF assms(2) this, of UART0 ?s] obtain b' s' where
      r: "tx_fifo_insert ?room UART0 (b, ?s) = Some (b', s')" "rb_ok b'"
        "trace s' = trace ?s @ map (\<lambda>x. Wr (UART_FIFO UART0) (ucast x)) (take (tx_room ?s) (contents b))"
        "feed s' = feed ?s" "contents b' = drop (tx_room ?s) (contents b)"
      unfolding room by blast
    have "still (Reg (UART_INT_ENA UART0)) s'" using r(4) assms(4) by (simp add: still_def)
    then show ?thesis
      using assms(1,3) True gt r sent_appended [OF r(3)]
      by (simp add: tx_start_uart_buffer_def Let_def reg_simps bit_or_iff bit_BIT)
  next
    case False
    have u: "unat (ucast ?len :: u8) = rb_len b"
      using False r128 len by (simp add: unsigned_ucast_eq [of ?len] take_bit_nat_eq_self)
    then have "unat (ucast ?len :: u8) \<le> rb_len b" by simp
    from tx_fifo_insert_spec [OF assms(2) this, of UART0 ?s] obtain b' s' where
      r: "tx_fifo_insert (ucast ?len) UART0 (b, ?s) = Some (b', s')" "rb_ok b'"
        "trace s' = trace ?s @ map (\<lambda>x. Wr (UART_FIFO UART0) (ucast x)) (take (rb_len b) (contents b))"
        "contents b' = drop (rb_len b) (contents b)"
      unfolding u by blast
    have "take (rb_len b) (contents b) = contents b" "drop (rb_len b) (contents b) = []"
      "take (tx_room ?s) (contents b) = contents b" "drop (tx_room ?s) (contents b) = []"
      using False by simp_all
    then show ?thesis
      using assms(1,3) False gt r sent_appended [OF r(3)]
      by (simp add: tx_start_uart_buffer_def Let_def)
  qed
qed

lemma rx_enq_spec:
  assumes st: "pRxBuffer st = Some b" "rx_ok b"
    and still: "still (Reg (UART_STATUS UART0)) (uart_hw st)" "still (Reg (UART_INT_ENA UART0)) (uart_hw st)"
    and fd: "feed (uart_hw st) (Reg (UART_FIFO UART0)) = vs @ rest"
    and cnt: "length vs = unat (peri (uart_hw st) (UART_STATUS UART0) AND 0xFF)"
    and fits: "length vs < unat (Space b)"
  shows "\<exists>st' b'. Uart_rx_buff_enq st = Some st' \<and> pRxBuffer st' = Some b' \<and> rx_ok b'
    \<and> contents b' = contents b @ map ucast vs \<and> feed (uart_hw st') (Reg (UART_FIFO UART0)) = rest
    \<and> still (Reg (UART_INT_ENA UART0)) (uart_hw st')"
proof -
  let ?s = "uart_hw st" and ?v = "peri (uart_hw st) (UART_STATUS UART0)"
  have n: "unat (rx_cnt ?v) = length vs" using cnt rx_cnt_val by simp
  have ok: "rb_ok (b\<lparr>Space := Space b\<rparr>)" using st(2) by (simp add: rx_ok_def)
  have le: "length (map (ucast :: u32 \<Rightarrow> u8) vs) \<le> unat (Space b)" using fits by simp
  from rx_stores [OF ok le] obtain b1 where
    b1: "fold (\<lambda>x r. Option.bind r (rx_store x)) (map ucast vs) (Some b) = Some b1"
      "rb_ok (b1\<lparr>Space := Space b - of_nat (length vs)\<rparr>)"
      "contents (b1\<lparr>Space := Space b - of_nat (length vs)\<rparr>) = contents b @ map ucast vs"
      "Space b1 = Space b"
    by auto
  from rx_fifo_loop [OF fd b1(1), of 0] obtain s1 where
    s1: "fold (\<lambda>_ r. Option.bind r rx_read_fifo) [0..<length vs] (Some (b, ?s)) = Some (b1, s1)"
      "feed s1 (Reg (UART_FIFO UART0)) = rest"
      "\<forall>p. p \<noteq> Reg (UART_FIFO UART0) \<longrightarrow> cur s1 p = cur ?s p \<and> feed s1 p = feed ?s p" by auto
  have sp: "unat (Space b - of_nat (length vs)) = unat (Space b) - length vs"
    using fits by (intro unat_minus_of_nat) simp
  let ?b = "b1\<lparr>Space := Space b - of_nat (length vs)\<rparr>"
  have q: "still (Reg (UART_INT_ENA UART0)) s1" using s1(3) still(2) by (simp add: still_def)
  have c: "(ucast (rx_cnt ?v) :: u16) = of_nat (length vs)"
    unfolding n [symmetric] by (rule ucast_u8_u16(2))
  have "\<not> Space b \<le> ucast (rx_cnt ?v)"
    using fits n by (simp add: word_le_nat_alt ucast_u8_u16(1))
  then have "Uart_rx_buff_enq st = Some (let st = st\<lparr>pRxBuffer := Some ?b, uart_hw := s1\<rparr>
      in if UART_FIFO_LEN \<le> unat (Space ?b) then on_hw (uart_rx_intr_enable UART0) st else st)"
    using still st(1) s1(1) b1(4)
    by (simp add: Uart_rx_buff_enq_def Let_def c n)
  moreover have "rx_ok ?b" using b1(2) fits sp by (simp add: rx_ok_def)
  ultimately show ?thesis
    using b1(3) s1(2) q by (auto simp: Let_def uart_rx_intr_enable_def)
qed

text \<open>
  C30. Received bytes survive the ring: what the receive task takes out of the hardware FIFO
  is what the reader later gets, in order and appended to what was waiting; the reader gets as
  much as it asks for or as there is; the FIFO is left alone when the ring has no room for all
  of it; and once 128 bytes are free after a read the receive interrupts are on again.
\<close>

theorem uart_rx_roundtrip:
  assumes "pRxBuffer st = Some b" and "rx_ok b"
    and "still (Reg (UART_STATUS UART0)) (uart_hw st)" and "still (Reg (UART_INT_ENA UART0)) (uart_hw st)"
    and "feed (uart_hw st) (Reg (UART_FIFO UART0)) = vs @ rest"
    and "length vs = unat (peri (uart_hw st) (UART_STATUS UART0) AND 0xFF)"
  shows "(length vs < unat (Space b) \<longrightarrow>
      (\<exists>st1 st2 b2. Uart_rx_buff_enq st = Some st1
        \<and> rx_buff_deq n st1 = Some (take (unat n) (contents b @ map ucast vs), st2)
        \<and> pRxBuffer st2 = Some b2 \<and> rx_ok b2
        \<and> contents b2 = drop (unat n) (contents b @ map ucast vs)
        \<and> feed (uart_hw st2) (Reg (UART_FIFO UART0)) = rest
        \<and> (128 \<le> unat (Space b2) \<longrightarrow> bit (peri (uart_hw st2) (UART_INT_ENA UART0)) 0
             \<and> bit (peri (uart_hw st2) (UART_INT_ENA UART0)) 8)))
    \<and> (unat (Space b) \<le> length vs \<longrightarrow>
      (\<exists>st1. Uart_rx_buff_enq st = Some st1 \<and> pRxBuffer st1 = Some b
        \<and> feed (uart_hw st1) = feed (uart_hw st)))"
proof (intro conjI impI)
  assume fits: "length vs < unat (Space b)"
  from rx_enq_spec [OF assms fits] obtain st1 b1 where
    r1: "Uart_rx_buff_enq st = Some st1" "pRxBuffer st1 = Some b1" "rx_ok b1"
      "contents b1 = contents b @ map ucast vs" "feed (uart_hw st1) (Reg (UART_FIFO UART0)) = rest"
      "still (Reg (UART_INT_ENA UART0)) (uart_hw st1)" by blast
  let ?m = "min (unat n) (rb_len b1)"
  have m: "take ?m (contents b1) = take (unat n) (contents b1)"
    "drop ?m (contents b1) = drop (unat n) (contents b1)"
    by (auto simp: min_def)
  from rx_take_spec [OF r1(3), of n] obtain b2 where
    r2: "rx_take n b1 = Some (take (unat n) (contents b1), b2)" "rx_ok b2"
      "contents b2 = drop (unat n) (contents b1)" unfolding m by blast
  show "\<exists>st1 st2 b2. Uart_rx_buff_enq st = Some st1
      \<and> rx_buff_deq n st1 = Some (take (unat n) (contents b @ map ucast vs), st2)
      \<and> pRxBuffer st2 = Some b2 \<and> rx_ok b2
      \<and> contents b2 = drop (unat n) (contents b @ map ucast vs)
      \<and> feed (uart_hw st2) (Reg (UART_FIFO UART0)) = rest
      \<and> (128 \<le> unat (Space b2) \<longrightarrow> bit (peri (uart_hw st2) (UART_INT_ENA UART0)) 0
           \<and> bit (peri (uart_hw st2) (UART_INT_ENA UART0)) 8)"
    using r1 r2
    by (auto simp: rx_buff_deq_def uart_rx_intr_enable_def UART_FIFO_LEN_def reg_simps bit_or_iff bit_BIT)
next
  assume "unat (Space b) \<le> length vs"
  then have "Space b \<le> ucast (rx_cnt (peri (uart_hw st) (UART_STATUS UART0)))"
    using assms(6) rx_cnt_val by (simp only: word_le_nat_alt ucast_u8_u16(1))
  then show "\<exists>st1. Uart_rx_buff_enq st = Some st1 \<and> pRxBuffer st1 = Some b
      \<and> feed (uart_hw st1) = feed (uart_hw st)"
    using assms(1,3) by (simp add: Uart_rx_buff_enq_def Let_def)
qed

lemma tx_enq_spec:
  assumes "pTxBuffer st = Some b" and "rb_ok b" and "length pdata = unat data_len"
    and "still (Reg (UART_INT_ENA UART0)) (uart_hw st)" and "still (Reg (UART_CONF1 UART0)) (uart_hw st)"
  shows "\<exists>st' b'. tx_buff_enq pdata data_len st = Some st' \<and> pTxBuffer st' = Some b' \<and> rb_ok b'
    \<and> contents b' = contents b @ (if data_len \<le> Space b then pdata else [])
    \<and> bit (peri (uart_hw st') (UART_INT_ENA UART0)) 1"
proof (cases "data_len \<le> Space b")
  case True
  then have "unat data_len \<le> unat (Space b)" by (simp add: word_le_nat_alt)
  from Uart_Buf_Cpy_spec [OF assms(2,3) this] assms(1,4,5) True show ?thesis
    by (auto simp: tx_buff_enq_def Let_def reg_simps bit_or_iff bit_BIT)
next
  case False
  let ?s = "CLEAR_PERI_REG_MASK (UART_INT_ENA UART0) UART_TXFIFO_EMPTY_INT_ENA (uart_hw st)"
  have "still (Reg (UART_INT_ENA UART0)) (dbg1 (''UART TX BUF FULL!!!!'' @ nr) ?s)"
    and "still (Reg (UART_CONF1 UART0)) (dbg1 (''UART TX BUF FULL!!!!'' @ nr) ?s)"
    using assms(4,5) uart0_regs_not_port1
    by (auto simp: still_def dbg1_frame(1))
  then show ?thesis
    using False assms(1,2)
    by (auto simp: tx_buff_enq_def Let_def reg_simps bit_or_iff bit_BIT)
qed

section \<open>Concrete rings\<close>

definition ring_demo :: UartBuffer where
  "ring_demo = \<lparr>UartBuffSize = 4, pUartBuff = [11, 12, 13, 14], pInPos = 1, pOutPos = 2,
     BuffState = OK, Space = 1, TcpControl = RUN\<rparr>"

lemma ring_demo: "rb_ok ring_demo" "rx_ok ring_demo" "contents ring_demo = [13, 14, 11]"
  by (simp_all add: rb_ok_def rx_ok_def contents_def rb_len_def ring_demo_def upt_rec)

definition uart_ring_demo :: "mach \<Rightarrow> uart" where
  "uart_ring_demo s = uart_demo\<lparr>pTxBuffer := Some ring_demo, pRxBuffer := Some ring_demo, uart_hw := s\<rparr>"


lemma uart_tx_drain_witness:
  "\<exists>st'. tx_start_uart_buffer UART0 (uart_ring_demo (WRITE_PERI_REG (UART_STATUS UART0) 0x007E0000 mach0)) = Some st'
     \<and> sent UART0 (uart_hw st') = [13, 14]"
proof -
  let ?s = "WRITE_PERI_REG (UART_STATUS UART0) 0x007E0000 mach0"
  have v: "tx_cnt 0x007E0000 = 126" by (simp add: tx_cnt_def reg_simps)
  have "tx_room ?s = 2" by (simp add: tx_room_def v UART_FIFO_LEN_def)
  moreover have "sent UART0 ?s = []" by (simp add: sent_def UART0_def)
  ultimately show ?thesis
    using uart_tx_drain [of "uart_ring_demo ?s" ring_demo] ring_demo
    by (auto simp: uart_ring_demo_def v)
qed

lemma uart_rx_roundtrip_witness:
  "\<exists>st1 st2. Uart_rx_buff_enq (uart_ring_demo mach0) = Some st1
     \<and> rx_buff_deq 2 st1 = Some ([13, 14], st2)"
  using uart_rx_roundtrip [of "uart_ring_demo mach0" ring_demo "[]" "[]" 2] ring_demo
  by (auto simp: uart_ring_demo_def) (simp add: ring_demo_def)

end
