(* ===== verification/UartIsr.thy ===== *)
theory UartIsr
  imports UartBuf
begin

text \<open>
  The interrupt handler and the receive task of the UART driver (driver/uart.c), with the
  initialisation that connects them. The build options \<open>UART_BUFF_EN\<close> and
  \<open>UART_SELFTEST\<close> are arguments; the repository's header sets both to 0.
\<close>

section \<open>The driver\<close>

abbreviation frm_msg :: string where
  "frm_msg \<equiv> ''FRM_ERR'' @ [CHR 0x0D, CHR 0x0A]"
abbreviation ovf_msg :: string where
  "ovf_msg \<equiv> ''RX OVF!!'' @ [CHR 0x0D, CHR 0x0A]"

definition uart_recvTaskPrio :: nat where "uart_recvTaskPrio = 0"
definition uart_recvTaskQueueLen :: nat where "uart_recvTaskQueueLen = 10"

definition uart0_write_char_no_wait :: "bool \<Rightarrow> u8 \<Rightarrow> uart \<Rightarrow> uart option" where
  "uart0_write_char_no_wait buff_en c st =
    (if buff_en then
       (if c = LF then Option.bind (tx_buff_enq [CR] 1 st) (tx_buff_enq [LF] 1)
        else if c = CR then Some st
        else tx_buff_enq [c] 1 st)
     else
       (if c = LF then
          Some (on_hw (uart_tx_one_char_no_wait UART0 LF) (on_hw (uart_tx_one_char_no_wait UART0 CR) st))
        else if c = CR then Some st
        else Some (on_hw (uart_tx_one_char_no_wait UART0 c) st)))"

text \<open>One test of the handler: it reads the interrupt status anew.\<close>

definition int_st :: "u32 \<Rightarrow> mach \<Rightarrow> bool \<times> mach" where
  "int_st bits s =
     (case READ_PERI_REG (UART_INT_ST UART0) s of (v, s) \<Rightarrow> (bits = v AND bits, s))"

definition uart0_rx_intr_handler :: "bool \<Rightarrow> uart \<Rightarrow> uart option" where
  "uart0_rx_intr_handler buff_en st =
    (let (frm, s) = int_st UART_FRM_ERR_INT_ST (uart_hw st) in
     if frm then
       Some (st\<lparr>uart_hw := WRITE_PERI_REG (UART_INT_CLR UART0) UART_FRM_ERR_INT_CLR (dbg1 frm_msg s)\<rparr>)
     else let (full, s) = int_st UART_RXFIFO_FULL_INT_ST s in
     if full then
       (let s = uart_rx_intr_disable UART0 s;
            s = WRITE_PERI_REG (UART_INT_CLR UART0) UART_RXFIFO_FULL_INT_CLR s
        in Some (st\<lparr>uart_hw := emit (Post uart_recvTaskPrio 0 0) s\<rparr>))
     else let (tout, s) = int_st UART_RXFIFO_TOUT_INT_ST s in
     if tout then
       (let s = uart_rx_intr_disable UART0 s;
            s = WRITE_PERI_REG (UART_INT_CLR UART0) UART_RXFIFO_TOUT_INT_CLR s
        in Some (st\<lparr>uart_hw := emit (Post uart_recvTaskPrio 0 0) s\<rparr>))
     else let (empt, s) = int_st UART_TXFIFO_EMPTY_INT_ST s in
     if empt then
       (let s = CLEAR_PERI_REG_MASK (UART_INT_ENA UART0) UART_TXFIFO_EMPTY_INT_ENA s;
            st = st\<lparr>uart_hw := s\<rparr>;
            r = (if buff_en then tx_start_uart_buffer UART0 st else Some st)
        in map_option (on_hw (WRITE_PERI_REG (UART_INT_CLR UART0) UART_TXFIFO_EMPTY_INT_CLR)) r)
     else let (ovf, s) = int_st UART_RXFIFO_OVF_INT_ST s in
     if ovf then
       Some (st\<lparr>uart_hw := dbg1 ovf_msg (WRITE_PERI_REG (UART_INT_CLR UART0) UART_RXFIFO_OVF_INT_CLR s)\<rparr>)
     else Some (st\<lparr>uart_hw := s\<rparr>))"

definition echo_byte :: "mach \<Rightarrow> mach option" where
  "echo_byte s =
     (case READ_PERI_REG (UART_FIFO UART0) s of
        (v, s) \<Rightarrow> uart_tx_one_char UART0 (ucast (v AND 0xFF)) s)"

definition uart_recvTask :: "bool \<Rightarrow> u32 \<Rightarrow> uart \<Rightarrow> uart option" where
  "uart_recvTask buff_en sig st =
    (if sig = 0 then
       (if buff_en then Uart_rx_buff_enq st
        else
          (case READ_PERI_REG (UART_STATUS UART0) (uart_hw st) of (v, s) \<Rightarrow>
             let fifo_len = rx_cnt v in
             map_option (\<lambda>s.
                 let s = WRITE_PERI_REG (UART_INT_CLR UART0)
                           (UART_RXFIFO_FULL_INT_CLR OR UART_RXFIFO_TOUT_INT_CLR) s
                 in st\<lparr>uart_hw := uart_rx_intr_enable UART0 s\<rparr>)
               (fold (\<lambda>_ r. Option.bind r echo_byte) [0..<unat fifo_len] (Some s))))
     else Some st)"

text \<open>The self-test moves what was received back to the transmitter.\<close>

definition uart_test_rx :: "uart \<Rightarrow> uart option" where
  "uart_test_rx st =
     Option.bind (rx_buff_deq 128 st) (\<lambda>(xs, st). tx_buff_enq xs (of_nat (length xs)) st)"

definition uart_init :: "bool \<Rightarrow> bool \<Rightarrow> UartBautRate \<Rightarrow> UartBautRate \<Rightarrow> uart \<Rightarrow> uart option" where
  "uart_init buff_en selftest uart0_br uart1_br st =
    (let st = on_hw (emit (TaskCreate C_uart_recvTask uart_recvTaskPrio uart_recvTaskQueueLen)) st;
         st = st\<lparr>UartDev := (UartDev st)\<lparr>baut_rate := uart0_br\<rparr>\<rparr>;
         st = uart_config UART0 st;
         st = st\<lparr>UartDev := (UartDev st)\<lparr>baut_rate := uart1_br\<rparr>\<rparr>;
         st = uart_config UART1 st;
         st = on_hw (ETS_INTR_ENABLE ETS_UART_INUM) st;
         r = (if buff_en then
                Option.bind (Uart_Buf_Init UART_TX_BUFFER_SIZE (uart_hw st)) (\<lambda>(tx, s).
                  map_option (\<lambda>(rx, s). st\<lparr>pTxBuffer := tx, pRxBuffer := rx, uart_hw := s\<rparr>)
                    (Uart_Buf_Init UART_RX_BUFFER_SIZE s))
              else Some st)
     in map_option (\<lambda>st.
          if selftest \<and> buff_en then
            (let st = on_hw (emit (TimerDisarm T_buff_timer)) st;
                 st = on_hw (emit (TimerSetfn T_buff_timer C_uart_test_rx)) st
             in on_hw (emit (TimerArm T_buff_timer 10 True)) st)
          else st) r)"

definition uart_reattach :: "bool \<Rightarrow> bool \<Rightarrow> uart \<Rightarrow> uart option" where
  "uart_reattach buff_en selftest st =
     uart_init buff_en selftest BIT_RATE_115200 BIT_RATE_115200 st"

section \<open>The echo\<close>

lemma echo_step:
  assumes "tx_ready UART0 s" and "feed s (Reg (UART_FIFO UART0)) = v # vs"
  shows "\<exists>s'. echo_byte s = Some s' \<and> tx_ready UART0 s' \<and> feed s' (Reg (UART_FIFO UART0)) = vs
    \<and> sent UART0 s' = sent UART0 s @ [v AND 0xFF]
    \<and> (\<forall>p. p \<noteq> Reg (UART_FIFO UART0) \<longrightarrow> cur s' p = cur s p \<and> feed s' p = feed s p)"
proof -
  let ?s = "s\<lparr>cur := (cur s)(Reg (UART_FIFO UART0) := v), feed := (feed s)(Reg (UART_FIFO UART0) := vs)\<rparr>"
  have r: "tx_ready UART0 ?s" using assms(1) by (simp add: tx_ready_def still_def)
  have "sent UART0 ?s = sent UART0 s" by (rule sent_cong) simp
  with r tx_ready_send [OF r] assms(2) show ?thesis
    by (simp add: echo_byte_def READ_PERI_REG_def sample_feed ucast_and_byte ucast_byte)
qed

lemma echo_loop:
  assumes "tx_ready UART0 s" and "feed s (Reg (UART_FIFO UART0)) = vs @ rest"
  shows "\<exists>s'. fold (\<lambda>_ r. Option.bind r echo_byte) [i..<i + length vs] (Some s) = Some s'
    \<and> feed s' (Reg (UART_FIFO UART0)) = rest
    \<and> sent UART0 s' = sent UART0 s @ map (\<lambda>v. v AND 0xFF) vs
    \<and> (\<forall>p. p \<noteq> Reg (UART_FIFO UART0) \<longrightarrow> cur s' p = cur s p \<and> feed s' p = feed s p)"
  using assms
proof (induction vs arbitrary: i s)
  case Nil
  then show ?case by simp
next
  case (Cons v vs)
  have up: "[i..<i + length (v # vs)] = i # [Suc i..<Suc i + length vs]"
    by (subst upt_conv_Cons) auto
  from echo_step [OF Cons.prems(1), of v "vs @ rest"] Cons.prems(2) obtain s1 where
    s1: "echo_byte s = Some s1" "tx_ready UART0 s1" "feed s1 (Reg (UART_FIFO UART0)) = vs @ rest"
      "sent UART0 s1 = sent UART0 s @ [v AND 0xFF]"
      "\<forall>p. p \<noteq> Reg (UART_FIFO UART0) \<longrightarrow> cur s1 p = cur s p \<and> feed s1 p = feed s p" by auto
  from Cons.IH [OF s1(2,3), of "Suc i"] s1 show ?case unfolding up by auto
qed

text \<open>
  The receive task echoes: when the transmitter has room, the bytes waiting in the
  receive FIFO are sent back, all of them, in order and once, and the two receive interrupts
  that the handler switched off are on again.
\<close>

theorem uart_task_echoes:
  assumes "tx_ready UART0 (uart_hw st)" and "still (Reg (UART_INT_ENA UART0)) (uart_hw st)"
    and "feed (uart_hw st) (Reg (UART_FIFO UART0)) = vs @ rest"
    and "length vs = unat (peri (uart_hw st) (UART_STATUS UART0) AND 0xFF)"
  shows "\<exists>st'. uart_recvTask False 0 st = Some st'
    \<and> sent UART0 (uart_hw st') = sent UART0 (uart_hw st) @ map (\<lambda>v. v AND 0xFF) vs
    \<and> feed (uart_hw st') (Reg (UART_FIFO UART0)) = rest
    \<and> bit (peri (uart_hw st') (UART_INT_ENA UART0)) 0
    \<and> bit (peri (uart_hw st') (UART_INT_ENA UART0)) 8"
proof -
  let ?s = "uart_hw st"
  from echo_loop [OF assms(1,3), of 0] obtain s1 where
    s1: "fold (\<lambda>_ r. Option.bind r echo_byte) [0..<length vs] (Some ?s) = Some s1"
      "feed s1 (Reg (UART_FIFO UART0)) = rest"
      "sent UART0 s1 = sent UART0 ?s @ map (\<lambda>v. v AND 0xFF) vs"
      "\<forall>p. p \<noteq> Reg (UART_FIFO UART0) \<longrightarrow> cur s1 p = cur ?s p \<and> feed s1 p = feed ?s p" by auto
  have n: "unat (rx_cnt (peri ?s (UART_STATUS UART0))) = length vs"
    using assms(4) rx_cnt_val by simp
  have st: "still (Reg (UART_STATUS UART0)) ?s" using assms(1) by (simp add: tx_ready_def)
  have "still (Reg (UART_INT_ENA UART0)) s1" using s1(4) assms(2) by (simp add: still_def)
  with s1 n st show ?thesis
    by (simp add: uart_recvTask_def Let_def uart_rx_intr_enable_def reg_simps bit_or_iff bit_BIT)
qed

section \<open>The handler\<close>

text \<open>The cause the handler serves, when several are pending: the first of its tests that holds.\<close>

definition isr_cause :: "u32 \<Rightarrow> nat option" where
  "isr_cause v = (if bit v 3 then Some 3 else if bit v 0 then Some 0 else if bit v 8 then Some 8
     else if bit v 1 then Some 1 else if bit v 4 then Some 4 else None)"

fun ack_of :: "event \<Rightarrow> u32 list" where
  "ack_of (Wr a v) = (if a = UART_INT_CLR UART0 then [v] else [])"
| "ack_of _ = []"

fun post_of :: "event \<Rightarrow> (nat \<times> u32 \<times> u32) list" where
  "post_of (Post p a b) = [(p, a, b)]"
| "post_of _ = []"

definition acks :: "mach \<Rightarrow> u32 list" where "acks s = concat (map ack_of (trace s))"
definition uart_posts :: "mach \<Rightarrow> (nat \<times> u32 \<times> u32) list" where "uart_posts s = concat (map post_of (trace s))"

lemma dbg1_quiet_trace:
  "acks (dbg1 str s) = acks s \<and> uart_posts (dbg1 str s) = uart_posts s"
proof -
  have step: "acks (uart_tx_one_char_no_wait UART1 c s) = acks s
      \<and> uart_posts (uart_tx_one_char_no_wait UART1 c s) = uart_posts s" for c s
    by (auto simp: uart_tx_one_char_no_wait_def READ_PERI_REG_def sample_def Let_def acks_def uart_posts_def
        UART0_def UART1_def uart_regs split: list.splits)
  have "\<exists>s'. uart1_sendStr_no_wait (cs @ [0]) s = Some s' \<and> acks s' = acks s \<and> uart_posts s' = uart_posts s"
    for cs
  proof (induction cs arbitrary: s)
    case Nil
    then show ?case by simp
  next
    case (Cons c cs)
    show ?case
      using Cons.IH [of "uart_tx_one_char_no_wait UART1 c s"] step [of c s] by auto
  qed
  from this [of "map (\<lambda>c. of_nat (of_char c)) str"] show ?thesis
    by (auto simp: dbg1_def cstring_def)
qed

lemma BIT_eq_and: "n < 32 \<Longrightarrow> BIT n = v AND BIT n \<longleftrightarrow> bit v n"
proof -
  assume n: "n < 32"
  have "v AND BIT n = (if bit v n then BIT n else 0)"
    using n by (auto intro!: bit_word_eqI simp: bit_and_iff bit_BIT)
  moreover have "BIT n \<noteq> 0" using n bit_BIT [of n n] by (metis bit_0_eq bot_apply bot_bool_def)
  ultimately show ?thesis by simp
qed

lemma int_st_still:
  "still (Reg (UART_INT_ST UART0)) s \<Longrightarrow> n < 32 \<Longrightarrow>
    int_st (BIT n) s = (bit (peri s (UART_INT_ST UART0)) n, s)"
  by (simp add: int_st_def BIT_eq_and)

text \<open>
  C22. The interrupt handler serves one cause per call, by fixed priority: frame error, FIFO
  full, receive timeout, transmit FIFO empty, overflow. It acknowledges exactly the cause it
  serves, uart_posts exactly one receive event for FIFO full and timeout and none otherwise, and
  for those two leaves both receive interrupts masked until the task enables them.
\<close>

theorem uart_isr_serves_one_cause:
  assumes "still (Reg (UART_INT_ST UART0)) (uart_hw st)" and "still (Reg (UART_INT_ENA UART0)) (uart_hw st)"
    and "isr_cause (peri (uart_hw st) (UART_INT_ST UART0)) = c"
  shows "\<exists>st'. uart0_rx_intr_handler False st = Some st'
    \<and> acks (uart_hw st') = acks (uart_hw st) @ (case c of Some n \<Rightarrow> [BIT n] | None \<Rightarrow> [])
    \<and> uart_posts (uart_hw st') =
        uart_posts (uart_hw st) @ (if c = Some 0 \<or> c = Some 8 then [(uart_recvTaskPrio, 0, 0)] else [])
    \<and> (c = Some 0 \<or> c = Some 8 \<longrightarrow>
        \<not> bit (peri (uart_hw st') (UART_INT_ENA UART0)) 0
        \<and> \<not> bit (peri (uart_hw st') (UART_INT_ENA UART0)) 8)"
proof -
  have clr: "UART_INT_ENA UART0 \<noteq> UART_INT_CLR UART0" by simp
  show ?thesis
    using assms dbg1_quiet_trace
    by (auto simp: uart0_rx_intr_handler_def Let_def int_st_still isr_cause_def
        UART_FRM_ERR_INT_ST_def UART_RXFIFO_FULL_INT_ST_def UART_RXFIFO_TOUT_INT_ST_def
        UART_TXFIFO_EMPTY_INT_ST_def UART_RXFIFO_OVF_INT_ST_def
        UART_FRM_ERR_INT_CLR_def UART_RXFIFO_FULL_INT_CLR_def UART_RXFIFO_TOUT_INT_CLR_def
        UART_TXFIFO_EMPTY_INT_CLR_def UART_RXFIFO_OVF_INT_CLR_def
        UART_RXFIFO_FULL_INT_ENA_def UART_RXFIFO_TOUT_INT_ENA_def
        acks_def uart_posts_def uart_rx_intr_disable_def bit_simps bit_BIT split: if_splits)
qed

section \<open>Concrete runs\<close>

definition uart_rx_demo :: uart where
  "uart_rx_demo = uart_demo\<lparr>uart_hw := mach0\<lparr>
     cur := (\<lambda>_. 0)(Reg (UART_STATUS UART0) := 2, Reg (UART_INT_ST UART0) := 0x101),
     feed := (\<lambda>_. [])(Reg (UART_FIFO UART0) := [0x141, 0x42])\<rparr>\<rparr>"

lemma uart_rx_demo_still:
  "still (Reg (UART_INT_ST UART0)) (uart_hw uart_rx_demo)"
  "still (Reg (UART_INT_ENA UART0)) (uart_hw uart_rx_demo)"
  "tx_ready UART0 (uart_hw uart_rx_demo)"
  by (simp_all add: uart_rx_demo_def still_def tx_ready_def tx_cnt_def reg_simps uart_regs)

lemma uart_task_echoes_witness:
  "\<exists>st'. uart_recvTask False 0 uart_rx_demo = Some st' \<and> sent UART0 (uart_hw st') = [0x41, 0x42]"
  using uart_task_echoes [OF uart_rx_demo_still(3,2), of "[0x141, 0x42]" "[]"]
  by (auto simp: uart_rx_demo_def sent_def uart_regs)

lemma uart_isr_serves_one_cause_witness:
  "\<exists>st'. uart0_rx_intr_handler False uart_rx_demo = Some st'
     \<and> acks (uart_hw st') = [BIT 0] \<and> uart_posts (uart_hw st') = [(0, 0, 0)]"
  using uart_isr_serves_one_cause [OF uart_rx_demo_still(1,2), of "Some 0"]
  by (auto simp: uart_rx_demo_def isr_cause_def acks_def uart_posts_def uart_recvTaskPrio_def uart_regs)

end
