(* ===== verification/SpiReg.thy ===== *)
theory SpiReg
  imports Machine
begin

text \<open>
  Registers and fields of the two SPI controllers (driver/spi_register.h) and the busy waits
  the SPI drivers share.
\<close>

section \<open>Registers\<close>

definition REG_SPI_BASE :: "'n::len word \<Rightarrow> u32" where "REG_SPI_BASE i = 0x60000200 - ucast i * 0x100"

definition SPI_CMD :: "'n::len word \<Rightarrow> u32" where "SPI_CMD i = REG_SPI_BASE i + 0x0"
definition SPI_ADDR :: "'n::len word \<Rightarrow> u32" where "SPI_ADDR i = REG_SPI_BASE i + 0x4"
definition SPI_CTRL :: "'n::len word \<Rightarrow> u32" where "SPI_CTRL i = REG_SPI_BASE i + 0x8"
definition SPI_CTRL2 :: "'n::len word \<Rightarrow> u32" where "SPI_CTRL2 i = REG_SPI_BASE i + 0x14"
definition SPI_CLOCK :: "'n::len word \<Rightarrow> u32" where "SPI_CLOCK i = REG_SPI_BASE i + 0x18"
definition SPI_USER :: "'n::len word \<Rightarrow> u32" where "SPI_USER i = REG_SPI_BASE i + 0x1c"
definition SPI_USER1 :: "'n::len word \<Rightarrow> u32" where "SPI_USER1 i = REG_SPI_BASE i + 0x20"
definition SPI_USER2 :: "'n::len word \<Rightarrow> u32" where "SPI_USER2 i = REG_SPI_BASE i + 0x24"
definition SPI_PIN :: "'n::len word \<Rightarrow> u32" where "SPI_PIN i = REG_SPI_BASE i + 0x2c"
definition SPI_SLAVE :: "'n::len word \<Rightarrow> u32" where "SPI_SLAVE i = REG_SPI_BASE i + 0x30"
definition SPI_SLAVE1 :: "'n::len word \<Rightarrow> u32" where "SPI_SLAVE1 i = REG_SPI_BASE i + 0x34"
definition SPI_W0 :: "'n::len word \<Rightarrow> u32" where "SPI_W0 i = REG_SPI_BASE i + 0x40"
definition SPI_W8 :: "'n::len word \<Rightarrow> u32" where "SPI_W8 i = REG_SPI_BASE i + 0x60"
definition SPI_W9 :: "'n::len word \<Rightarrow> u32" where "SPI_W9 i = REG_SPI_BASE i + 0x64"
definition SPI_W10 :: "'n::len word \<Rightarrow> u32" where "SPI_W10 i = REG_SPI_BASE i + 0x68"
definition SPI_W11 :: "'n::len word \<Rightarrow> u32" where "SPI_W11 i = REG_SPI_BASE i + 0x6c"
definition SPI_W12 :: "'n::len word \<Rightarrow> u32" where "SPI_W12 i = REG_SPI_BASE i + 0x70"
definition SPI_W13 :: "'n::len word \<Rightarrow> u32" where "SPI_W13 i = REG_SPI_BASE i + 0x74"
definition SPI_W14 :: "'n::len word \<Rightarrow> u32" where "SPI_W14 i = REG_SPI_BASE i + 0x78"
definition SPI_W15 :: "'n::len word \<Rightarrow> u32" where "SPI_W15 i = REG_SPI_BASE i + 0x7c"
definition SPI_EXT2 :: "'n::len word \<Rightarrow> u32" where "SPI_EXT2 i = REG_SPI_BASE i + 0xf8"
definition SPI_EXT3 :: "'n::len word \<Rightarrow> u32" where "SPI_EXT3 i = REG_SPI_BASE i + 0xfc"

definition SPI_USR :: u32 where [reg_simps]: "SPI_USR = BIT 18"
definition SPI_FLASH_READ :: u32 where [reg_simps]: "SPI_FLASH_READ = BIT 31"
definition SPI_WR_BIT_ORDER :: u32 where [reg_simps]: "SPI_WR_BIT_ORDER = BIT 26"
definition SPI_RD_BIT_ORDER :: u32 where [reg_simps]: "SPI_RD_BIT_ORDER = BIT 25"
definition SPI_QIO_MODE :: u32 where [reg_simps]: "SPI_QIO_MODE = BIT 24"
definition SPI_DIO_MODE :: u32 where [reg_simps]: "SPI_DIO_MODE = BIT 23"
definition SPI_QOUT_MODE :: u32 where [reg_simps]: "SPI_QOUT_MODE = BIT 20"
definition SPI_DOUT_MODE :: u32 where [reg_simps]: "SPI_DOUT_MODE = BIT 14"
definition SPI_CLK_EQU_SYSCLK :: u32 where [reg_simps]: "SPI_CLK_EQU_SYSCLK = BIT 31"
definition SPI_USR_COMMAND :: u32 where [reg_simps]: "SPI_USR_COMMAND = BIT 31"
definition SPI_USR_ADDR :: u32 where [reg_simps]: "SPI_USR_ADDR = BIT 30"
definition SPI_USR_DUMMY :: u32 where [reg_simps]: "SPI_USR_DUMMY = BIT 29"
definition SPI_USR_MISO :: u32 where [reg_simps]: "SPI_USR_MISO = BIT 28"
definition SPI_USR_MOSI :: u32 where [reg_simps]: "SPI_USR_MOSI = BIT 27"
definition SPI_USR_MISO_HIGHPART :: u32 where [reg_simps]: "SPI_USR_MISO_HIGHPART = BIT 24"
definition SPI_CK_OUT_EDGE :: u32 where [reg_simps]: "SPI_CK_OUT_EDGE = BIT 7"
definition SPI_CS_SETUP :: u32 where [reg_simps]: "SPI_CS_SETUP = BIT 5"
definition SPI_CS_HOLD :: u32 where [reg_simps]: "SPI_CS_HOLD = BIT 4"
definition SPI_FLASH_MODE :: u32 where [reg_simps]: "SPI_FLASH_MODE = BIT 2"
definition SPI_IDLE_EDGE :: u32 where [reg_simps]: "SPI_IDLE_EDGE = BIT 29"
definition SPI_CS2_DIS :: u32 where [reg_simps]: "SPI_CS2_DIS = BIT 2"
definition SPI_CS1_DIS :: u32 where [reg_simps]: "SPI_CS1_DIS = BIT 1"
definition SPI_CS0_DIS :: u32 where [reg_simps]: "SPI_CS0_DIS = BIT 0"
definition SPI_SYNC_RESET :: u32 where [reg_simps]: "SPI_SYNC_RESET = BIT 31"
definition SPI_SLAVE_MODE :: u32 where [reg_simps]: "SPI_SLAVE_MODE = BIT 30"
definition SPI_SLV_WR_RD_BUF_EN :: u32 where [reg_simps]: "SPI_SLV_WR_RD_BUF_EN = BIT 29"
definition SPI_TRANS_DONE_EN :: u32 where [reg_simps]: "SPI_TRANS_DONE_EN = BIT 9"
definition SPI_SLV_WR_STA_DONE_EN :: u32 where [reg_simps]: "SPI_SLV_WR_STA_DONE_EN = BIT 8"
definition SPI_SLV_RD_STA_DONE_EN :: u32 where [reg_simps]: "SPI_SLV_RD_STA_DONE_EN = BIT 7"
definition SPI_SLV_WR_BUF_DONE_EN :: u32 where [reg_simps]: "SPI_SLV_WR_BUF_DONE_EN = BIT 6"
definition SPI_SLV_RD_BUF_DONE_EN :: u32 where [reg_simps]: "SPI_SLV_RD_BUF_DONE_EN = BIT 5"
definition SPI_TRANS_DONE :: u32 where [reg_simps]: "SPI_TRANS_DONE = BIT 4"
definition SPI_SLV_WR_STA_DONE :: u32 where [reg_simps]: "SPI_SLV_WR_STA_DONE = BIT 3"
definition SPI_SLV_RD_STA_DONE :: u32 where [reg_simps]: "SPI_SLV_RD_STA_DONE = BIT 2"
definition SPI_SLV_WR_BUF_DONE :: u32 where [reg_simps]: "SPI_SLV_WR_BUF_DONE = BIT 1"
definition SPI_SLV_RD_BUF_DONE :: u32 where [reg_simps]: "SPI_SLV_RD_BUF_DONE = BIT 0"

definition SPI_MOSI_DELAY_NUM :: u32 where [reg_simps]: "SPI_MOSI_DELAY_NUM = 0x7"
definition SPI_MOSI_DELAY_NUM_S :: nat where [reg_simps]: "SPI_MOSI_DELAY_NUM_S = 23"
definition SPI_MISO_DELAY_NUM :: u32 where [reg_simps]: "SPI_MISO_DELAY_NUM = 0x7"
definition SPI_MISO_DELAY_NUM_S :: nat where [reg_simps]: "SPI_MISO_DELAY_NUM_S = 18"
definition SPI_CLKDIV_PRE :: u32 where [reg_simps]: "SPI_CLKDIV_PRE = 0x1fff"
definition SPI_CLKDIV_PRE_S :: nat where [reg_simps]: "SPI_CLKDIV_PRE_S = 18"
definition SPI_CLKCNT_N :: u32 where [reg_simps]: "SPI_CLKCNT_N = 0x3f"
definition SPI_CLKCNT_N_S :: nat where [reg_simps]: "SPI_CLKCNT_N_S = 12"
definition SPI_CLKCNT_H :: u32 where [reg_simps]: "SPI_CLKCNT_H = 0x3f"
definition SPI_CLKCNT_H_S :: nat where [reg_simps]: "SPI_CLKCNT_H_S = 6"
definition SPI_CLKCNT_L :: u32 where [reg_simps]: "SPI_CLKCNT_L = 0x3f"
definition SPI_CLKCNT_L_S :: nat where [reg_simps]: "SPI_CLKCNT_L_S = 0"
definition SPI_USR_ADDR_BITLEN :: u32 where [reg_simps]: "SPI_USR_ADDR_BITLEN = 0x3f"
definition SPI_USR_ADDR_BITLEN_S :: nat where [reg_simps]: "SPI_USR_ADDR_BITLEN_S = 26"
definition SPI_USR_MOSI_BITLEN :: u32 where [reg_simps]: "SPI_USR_MOSI_BITLEN = 0x1ff"
definition SPI_USR_MOSI_BITLEN_S :: nat where [reg_simps]: "SPI_USR_MOSI_BITLEN_S = 17"
definition SPI_USR_MISO_BITLEN :: u32 where [reg_simps]: "SPI_USR_MISO_BITLEN = 0x1ff"
definition SPI_USR_MISO_BITLEN_S :: nat where [reg_simps]: "SPI_USR_MISO_BITLEN_S = 8"
definition SPI_USR_COMMAND_BITLEN :: u32 where [reg_simps]: "SPI_USR_COMMAND_BITLEN = 0xf"
definition SPI_USR_COMMAND_BITLEN_S :: nat where [reg_simps]: "SPI_USR_COMMAND_BITLEN_S = 28"
definition SPI_USR_COMMAND_VALUE :: u32 where [reg_simps]: "SPI_USR_COMMAND_VALUE = 0xffff"
definition SPI_USR_COMMAND_VALUE_S :: nat where [reg_simps]: "SPI_USR_COMMAND_VALUE_S = 0"
definition SPI_SLV_STATUS_BITLEN :: u32 where [reg_simps]: "SPI_SLV_STATUS_BITLEN = 0x1f"
definition SPI_SLV_STATUS_BITLEN_S :: nat where [reg_simps]: "SPI_SLV_STATUS_BITLEN_S = 27"
definition SPI_SLV_BUF_BITLEN :: u32 where [reg_simps]: "SPI_SLV_BUF_BITLEN = 0x1ff"
definition SPI_SLV_BUF_BITLEN_S :: nat where [reg_simps]: "SPI_SLV_BUF_BITLEN_S = 16"
definition SPI_SLV_RD_ADDR_BITLEN :: u32 where [reg_simps]: "SPI_SLV_RD_ADDR_BITLEN = 0x3f"
definition SPI_SLV_RD_ADDR_BITLEN_S :: nat where [reg_simps]: "SPI_SLV_RD_ADDR_BITLEN_S = 10"
definition SPI_SLV_WR_ADDR_BITLEN :: u32 where [reg_simps]: "SPI_SLV_WR_ADDR_BITLEN = 0x3f"
definition SPI_SLV_WR_ADDR_BITLEN_S :: nat where [reg_simps]: "SPI_SLV_WR_ADDR_BITLEN_S = 4"

definition SPI :: u8 where "SPI = 0"
definition HSPI :: u8 where "HSPI = 1"

lemmas spi_reg_defs = REG_SPI_BASE_def SPI_CMD_def SPI_ADDR_def SPI_CTRL_def SPI_CTRL2_def SPI_CLOCK_def SPI_USER_def SPI_USER1_def SPI_USER2_def SPI_PIN_def SPI_SLAVE_def SPI_SLAVE1_def SPI_W0_def SPI_W8_def SPI_W9_def SPI_W10_def SPI_W11_def SPI_W12_def SPI_W13_def SPI_W14_def SPI_W15_def SPI_EXT2_def SPI_EXT3_def

section \<open>Busy waits\<close>

text \<open>\<open>while (READ_PERI_REG(SPI_CMD(spi_no)) & SPI_USR);\<close>\<close>

definition wait_spi :: "'n::len word \<Rightarrow> mach \<Rightarrow> mach option" where
  "wait_spi spi_no s = wait_reg (SPI_CMD spi_no) (\<lambda>v. v AND SPI_USR = 0) s"

lemma wait_spi_idle:
  "still (Reg (SPI_CMD n)) s \<Longrightarrow> \<not> bit (peri s (SPI_CMD n)) 18 \<Longrightarrow> wait_spi n s = Some s"
  by (simp add: wait_spi_def wait_reg_still SPI_USR_def BIT_and_eq_0_iff)

section \<open>Fields and data words\<close>

text \<open>The length fields as bit masks, and the data registers W0 to W15.\<close>

lemma spi_field_masks:
  "SPI_USR_MOSI_BITLEN = mask 9" "SPI_USR_MISO_BITLEN = mask 9" "SPI_USR_ADDR_BITLEN = mask 6"
  "SPI_USR_COMMAND_BITLEN = mask 4" "SPI_USR_COMMAND_VALUE = mask 16"
  by (simp_all add: reg_simps mask_eq_exp_minus_1)

definition spi_words :: "'n::len word \<Rightarrow> nat \<Rightarrow> mach \<Rightarrow> u32 list" where
  "spi_words n k s = map (\<lambda>i. peri s (SPI_W0 n + 4 * of_nat i)) [0..<k]"

lemma w_index_inj:
  assumes "i < 64" and "j < 64"
  shows "SPI_W0 n + 4 * of_nat i = SPI_W0 n + 4 * of_nat j \<longleftrightarrow> i = j"
proof
  assume "SPI_W0 n + 4 * of_nat i = SPI_W0 n + 4 * of_nat j"
  then have "(4 * of_nat i :: u32) = 4 * of_nat j" by simp
  then have "unat (of_nat (4 * i) :: u32) = unat (of_nat (4 * j) :: u32)" by simp
  with assms unat_of_nat_small [of "4 * i", where 'a = 32] unat_of_nat_small [of "4 * j", where 'a = 32]
  show "i = j" by simp
qed simp

lemma w_index_ne:
  assumes "i < 16"
  shows "SPI_W0 n + 4 * of_nat i \<noteq> SPI_CMD n" "SPI_W0 n + 4 * of_nat i \<noteq> SPI_USER n"
    "SPI_W0 n + 4 * of_nat i \<noteq> SPI_USER1 n" "SPI_W0 n + 4 * of_nat i \<noteq> SPI_USER2 n"
    "SPI_W0 n + 4 * of_nat i \<noteq> SPI_SLAVE n" "SPI_W0 n + 4 * of_nat i \<noteq> SPI_ADDR n"
    "SPI_W0 n + 4 * of_nat i \<noteq> SPI_PIN n" "SPI_W0 n + 4 * of_nat i \<noteq> SPI_CLOCK n"
    "SPI_W0 n + 4 * of_nat i \<noteq> SPI_CTRL n" "SPI_W0 n + 4 * of_nat i \<noteq> SPI_CTRL2 n"
proof -
  have "i \<in> {0, 1, 2, 3, 4, 5, 6, 7, 8, 9, 10, 11, 12, 13, 14, 15}" using assms by (simp, arith)
  then show "SPI_W0 n + 4 * of_nat i \<noteq> SPI_CMD n" "SPI_W0 n + 4 * of_nat i \<noteq> SPI_USER n"
    "SPI_W0 n + 4 * of_nat i \<noteq> SPI_USER1 n" "SPI_W0 n + 4 * of_nat i \<noteq> SPI_USER2 n"
    "SPI_W0 n + 4 * of_nat i \<noteq> SPI_SLAVE n" "SPI_W0 n + 4 * of_nat i \<noteq> SPI_ADDR n"
    "SPI_W0 n + 4 * of_nat i \<noteq> SPI_PIN n" "SPI_W0 n + 4 * of_nat i \<noteq> SPI_CLOCK n"
    "SPI_W0 n + 4 * of_nat i \<noteq> SPI_CTRL n" "SPI_W0 n + 4 * of_nat i \<noteq> SPI_CTRL2 n"
    by (auto simp: spi_reg_defs)
qed

end
