(* ===== verification/Spi.thy ===== *)
theory Spi
  imports SpiReg
begin

text \<open>
  The byte-wise SPI driver (driver/spi.c): the master functions for a display and for a second
  ESP8266 as slave, the slave set-up and its interrupt handler, and the slave test code.
\<close>

section \<open>State\<close>

text \<open>The static variables of the file: the receive buffer of the slave and its word index.\<close>

record spi =
  spi_data :: "u8 list"
  idx :: u8
  spi_hw :: mach

section \<open>Cache\<close>

definition CACHE_FLASH_CTRL_REG :: u32 where "CACHE_FLASH_CTRL_REG = 0x3ff0000C"
definition CACHE_FLUSH_START_BIT :: u32 where "CACHE_FLUSH_START_BIT = BIT 0"
definition CACHE_EMPTY_FLAG_BIT :: u32 where "CACHE_EMPTY_FLAG_BIT = BIT 1"

text \<open>
  The first loop restarts the flush until the empty flag is down; on a register that rests
  with the flag up it never ends (\<open>None\<close>).
\<close>

function flush_restart :: "mach \<Rightarrow> mach option" where
  "flush_restart s =
     (case READ_PERI_REG CACHE_FLASH_CTRL_REG s of (v, s') \<Rightarrow>
        if v AND CACHE_EMPTY_FLAG_BIT \<noteq> 0 then
          (if still (Reg CACHE_FLASH_CTRL_REG) s then None
           else flush_restart
             (SET_PERI_REG_MASK CACHE_FLASH_CTRL_REG CACHE_FLUSH_START_BIT
               (CLEAR_PERI_REG_MASK CACHE_FLASH_CTRL_REG CACHE_FLUSH_START_BIT s')))
        else Some s')"
  by pat_completeness auto

lemma modify_reg_feed_le:
  "length (feed (modify_reg a f s) p) \<le> length (feed s p)"
  by (auto simp: modify_reg_def READ_PERI_REG_def sample_def split: list.splits)

lemma read_not_still_less:
  "\<lbrakk>READ_PERI_REG a s = (v, s'); \<not> still (Reg a) s\<rbrakk>
    \<Longrightarrow> length (feed s' (Reg a)) < length (feed s (Reg a))"
  by (auto simp: READ_PERI_REG_def sample_def still_def split: list.splits)

lemma set_clear_feed_le:
  "length (feed (SET_PERI_REG_MASK a m (CLEAR_PERI_REG_MASK a n s)) p) \<le> length (feed s p)"
  unfolding SET_PERI_REG_MASK_def CLEAR_PERI_REG_MASK_def by (meson le_trans modify_reg_feed_le)

termination flush_restart
  by (relation "measure (\<lambda>s. length (feed s (Reg CACHE_FLASH_CTRL_REG)))", simp,
      unfold in_measure, rule le_less_trans [OF set_clear_feed_le read_not_still_less],
      erule sym, assumption)

declare flush_restart.simps [simp del]

definition cache_flush :: "mach \<Rightarrow> mach option" where
  "cache_flush s =
     Option.bind (flush_restart s) (\<lambda>s.
       map_option (CLEAR_PERI_REG_MASK CACHE_FLASH_CTRL_REG CACHE_FLUSH_START_BIT)
         (wait_reg CACHE_FLASH_CTRL_REG (\<lambda>v. v AND CACHE_EMPTY_FLAG_BIT \<noteq> 0) s))"

section \<open>Master\<close>

definition spi_master_init :: "u8 \<Rightarrow> mach \<Rightarrow> mach" where
  "spi_master_init spi_no s =
    (if spi_no > 1 then s
     else
       (let s = SET_PERI_REG_MASK (SPI_USER spi_no) (SPI_CS_SETUP OR SPI_CS_HOLD OR SPI_USR_COMMAND) s;
            s = CLEAR_PERI_REG_MASK (SPI_USER spi_no) SPI_FLASH_MODE s
        in WRITE_PERI_REG (SPI_CLOCK spi_no)
             (push_bit SPI_CLKCNT_N_S (3 AND SPI_CLKCNT_N)
              OR push_bit SPI_CLKCNT_H_S (1 AND SPI_CLKCNT_H)
              OR push_bit SPI_CLKCNT_L_S (3 AND SPI_CLKCNT_L)) s))"

definition lcd_word :: "u8 \<Rightarrow> u8 \<Rightarrow> u32" where
  "lcd_word high_bit low_8bit =
    (let bytetemp = (if high_bit \<noteq> 0 then drop_bit 1 low_8bit OR 0x80 else drop_bit 1 low_8bit AND 0x7f);
         regvalue = push_bit SPI_USR_COMMAND_BITLEN_S (8 AND SPI_USR_COMMAND_BITLEN) OR ucast bytetemp
     in if low_8bit AND 1 \<noteq> 0 then regvalue OR BIT 15 else regvalue)"

definition spi_lcd_9bit_write :: "u8 \<Rightarrow> u8 \<Rightarrow> u8 \<Rightarrow> mach \<Rightarrow> mach option" where
  "spi_lcd_9bit_write spi_no high_bit low_8bit s =
    (if spi_no > 1 then Some s
     else
       map_option (\<lambda>s.
           let s = WRITE_PERI_REG (SPI_USER2 spi_no) (lcd_word high_bit low_8bit) s
           in SET_PERI_REG_MASK (SPI_CMD spi_no) SPI_USR s)
         (wait_spi spi_no s))"

definition spi_mast_byte_write :: "u8 \<Rightarrow> u8 \<Rightarrow> mach \<Rightarrow> mach option" where
  "spi_mast_byte_write spi_no dat s =
    (if spi_no > 1 then Some s
     else
       Option.bind (wait_spi spi_no s) (\<lambda>s.
         let s = CLEAR_PERI_REG_MASK (SPI_USER spi_no) (SPI_USR_MOSI OR SPI_USR_MISO) s;
             s = WRITE_PERI_REG (SPI_USER2 spi_no)
                   (push_bit SPI_USR_COMMAND_BITLEN_S (7 AND SPI_USR_COMMAND_BITLEN) OR ucast dat) s;
             s = SET_PERI_REG_MASK (SPI_CMD spi_no) SPI_USR s
         in wait_spi spi_no s))"

definition spi_byte_write_espslave :: "u8 \<Rightarrow> u8 \<Rightarrow> mach \<Rightarrow> mach option" where
  "spi_byte_write_espslave spi_no dat s =
    (if spi_no > 1 then Some s
     else
       map_option (\<lambda>s.
           let s = SET_PERI_REG_MASK (SPI_USER spi_no) SPI_USR_MOSI s;
               s = CLEAR_PERI_REG_MASK (SPI_USER spi_no) (SPI_USR_MISO OR SPI_USR_ADDR OR SPI_USR_DUMMY) s;
               s = WRITE_PERI_REG (SPI_USER2 spi_no)
                     (push_bit SPI_USR_COMMAND_BITLEN_S (7 AND SPI_USR_COMMAND_BITLEN) OR 4) s;
               s = WRITE_PERI_REG (SPI_W0 spi_no) (ucast dat) s
           in SET_PERI_REG_MASK (SPI_CMD spi_no) SPI_USR s)
         (wait_spi spi_no s))"

text \<open>The byte is stored through a pointer; an invalid module number leaves the old value there.\<close>

definition spi_byte_read_espslave :: "u8 \<Rightarrow> u8 \<Rightarrow> mach \<Rightarrow> (u8 \<times> mach) option" where
  "spi_byte_read_espslave spi_no dat s =
    (if spi_no > 1 then Some (dat, s)
     else
       Option.bind (wait_spi spi_no s) (\<lambda>s.
         let s = SET_PERI_REG_MASK (SPI_USER spi_no) SPI_USR_MISO s;
             s = CLEAR_PERI_REG_MASK (SPI_USER spi_no) (SPI_USR_MOSI OR SPI_USR_ADDR OR SPI_USR_DUMMY) s;
             s = WRITE_PERI_REG (SPI_USER2 spi_no)
                   (push_bit SPI_USR_COMMAND_BITLEN_S (7 AND SPI_USR_COMMAND_BITLEN) OR 6) s;
             s = SET_PERI_REG_MASK (SPI_CMD spi_no) SPI_USR s
         in map_option (\<lambda>s. case READ_PERI_REG (SPI_W0 spi_no) s of (v, s) \<Rightarrow> (ucast (v AND 0xff), s))
              (wait_spi spi_no s)))"

section \<open>Slave\<close>

definition slave_bit_len :: "u8 \<Rightarrow> u32" where
  "slave_bit_len data_len =
     (if data_len \<le> 1 then 7 else if data_len \<ge> 32 then 0xff
      else push_bit 3 (ucast data_len) - 1)"

definition spi_slave_init :: "u8 \<Rightarrow> u8 \<Rightarrow> mach \<Rightarrow> mach" where
  "spi_slave_init spi_no data_len s =
    (if spi_no > 1 then s
     else
       (let data_bit_len = slave_bit_len data_len;
            s = (if spi_no = SPI then
                   PIN_FUNC_SELECT PERIPHS_IO_MUX_SD_DATA1_U 1 (PIN_FUNC_SELECT PERIPHS_IO_MUX_SD_DATA0_U 1
                     (PIN_FUNC_SELECT PERIPHS_IO_MUX_SD_CMD_U 1 (PIN_FUNC_SELECT PERIPHS_IO_MUX_SD_CLK_U 1 s)))
                 else if spi_no = HSPI then
                   PIN_FUNC_SELECT PERIPHS_IO_MUX_MTDO_U 2 (PIN_FUNC_SELECT PERIPHS_IO_MUX_MTMS_U 2
                     (PIN_FUNC_SELECT PERIPHS_IO_MUX_MTCK_U 2 (PIN_FUNC_SELECT PERIPHS_IO_MUX_MTDI_U 2 s)))
                 else s);
            s = SET_PERI_REG_MASK (SPI_SLAVE spi_no)
                  (SPI_SLAVE_MODE OR SPI_SLV_WR_RD_BUF_EN OR SPI_SLV_WR_BUF_DONE_EN
                   OR SPI_SLV_RD_BUF_DONE_EN OR SPI_SLV_WR_STA_DONE_EN OR SPI_SLV_RD_STA_DONE_EN
                   OR SPI_TRANS_DONE_EN) s;
            s = CLEAR_PERI_REG_MASK (SPI_USER spi_no) SPI_FLASH_MODE s;
            s = SET_PERI_REG_MASK (SPI_USER spi_no) SPI_USR_MISO_HIGHPART s;
            s = SET_PERI_REG_MASK (SPI_CTRL2 spi_no) (push_bit SPI_MOSI_DELAY_NUM_S (2 AND SPI_MOSI_DELAY_NUM)) s;
            (v, s) = READ_PERI_REG (SPI_CTRL2 spi_no) s;
            s = emit (Print ''SPI_CTRL2 is %08x'' [uint v]) s;
            s = WRITE_PERI_REG (SPI_CLOCK spi_no) 0 s;
            s = WRITE_PERI_REG (SPI_USER2 spi_no)
                  (push_bit SPI_USR_COMMAND_BITLEN_S (7 AND SPI_USR_COMMAND_BITLEN)) s;
            s = SET_PERI_REG_MASK (SPI_SLAVE1 spi_no)
                  (push_bit SPI_SLV_BUF_BITLEN_S (data_bit_len AND SPI_SLV_BUF_BITLEN)
                   OR push_bit SPI_SLV_STATUS_BITLEN_S (7 AND SPI_SLV_STATUS_BITLEN)
                   OR push_bit SPI_SLV_WR_ADDR_BITLEN_S (7 AND SPI_SLV_WR_ADDR_BITLEN)
                   OR push_bit SPI_SLV_RD_ADDR_BITLEN_S (7 AND SPI_SLV_RD_ADDR_BITLEN)) s;
            s = SET_PERI_REG_MASK (SPI_PIN spi_no) (BIT 19) s;
            s = SET_PERI_REG_MASK (SPI_CMD spi_no) SPI_USR s;
            s = emit (IsrAttach ETS_SPI_INUM C_spi_slave_isr_handler) s
        in ETS_INTR_ENABLE ETS_SPI_INUM s))"

definition gpio_init :: "mach \<Rightarrow> mach" where
  "gpio_init s =
    (let s = PIN_FUNC_SELECT PERIPHS_IO_MUX_GPIO0_U FUNC_GPIO0 s;
         s = PIN_FUNC_SELECT PERIPHS_IO_MUX_GPIO2_U FUNC_GPIO2 s;
         s = GPIO_OUTPUT_SET 0 1 s
     in GPIO_OUTPUT_SET 2 0 s)"

definition INTR_STATUS_REG :: u32 where "INTR_STATUS_REG = 0x3ff00020"

abbreviation spi_en_bits :: u32 where
  "spi_en_bits \<equiv> SPI_TRANS_DONE_EN OR SPI_SLV_WR_STA_DONE_EN OR SPI_SLV_RD_STA_DONE_EN
     OR SPI_SLV_WR_BUF_DONE_EN OR SPI_SLV_RD_BUF_DONE_EN"

abbreviation spi_done_bits :: u32 where
  "spi_done_bits \<equiv> SPI_TRANS_DONE OR SPI_SLV_WR_STA_DONE OR SPI_SLV_RD_STA_DONE
     OR SPI_SLV_WR_BUF_DONE OR SPI_SLV_RD_BUF_DONE"

text \<open>A store outside \<open>spi_data\<close> would be \<open>None\<close>.\<close>

definition store_byte :: "nat \<Rightarrow> u32 \<Rightarrow> u8 list \<Rightarrow> u8 list option" where
  "store_byte i v xs = (if i < length xs then Some (xs[i := ucast (v AND 0xff)]) else None)"

definition recv_word :: "spi \<Rightarrow> spi option" where
  "recv_word st =
     (case READ_PERI_REG (SPI_W0 HSPI + push_bit 2 (ucast (idx st))) (spi_hw st) of (recv_data, s) \<Rightarrow>
        let k = unat (push_bit 2 (ucast (idx st) :: u32)) in
        map_option (\<lambda>d. st\<lparr>spi_data := d, idx := idx st + 1, spi_hw := s\<rparr>)
          (Option.bind (store_byte k recv_data (spi_data st)) (\<lambda>d.
           Option.bind (store_byte (k + 1) (drop_bit 8 recv_data) d) (\<lambda>d.
           Option.bind (store_byte (k + 2) (drop_bit 16 recv_data) d)
             (store_byte (k + 3) (drop_bit 24 recv_data))))))"

function recv_words :: "spi \<Rightarrow> spi option" where
  "recv_words st = (if idx st < 8 then Option.bind (recv_word st) recv_words else Some st)"
  by pat_completeness auto

lemma recv_word_idx: "recv_word st = Some st' \<Longrightarrow> idx st' = idx st + 1"
  by (auto simp: recv_word_def Let_def split: prod.splits)

termination recv_words
proof (relation "measure (\<lambda>st. 8 - unat (idx st))", simp)
  fix st st' :: spi
  assume "idx st < 8" and "recv_word st = Some st'"
  then show "(st', st) \<in> measure (\<lambda>st. 8 - unat (idx st))"
    using unat_plus_of_nat [of "idx st" 1] by (simp add: recv_word_idx word_less_nat_alt)
qed

declare recv_words.simps [simp del]

definition spi_slave_isr_handler :: "spi \<Rightarrow> spi option" where
  "spi_slave_isr_handler st =
    (let (v, s) = READ_PERI_REG INTR_STATUS_REG (spi_hw st) in
     if v AND BIT 4 \<noteq> 0 then Some (st\<lparr>spi_hw := CLEAR_PERI_REG_MASK (SPI_SLAVE SPI) 0x3ff s\<rparr>)
     else
       (let (v, s) = READ_PERI_REG INTR_STATUS_REG s in
        if v AND BIT 7 \<noteq> 0 then
          (let (regvalue, s) = READ_PERI_REG (SPI_SLAVE HSPI) s;
               s = CLEAR_PERI_REG_MASK (SPI_SLAVE HSPI) spi_en_bits s;
               s = SET_PERI_REG_MASK (SPI_SLAVE HSPI) SPI_SYNC_RESET s;
               s = CLEAR_PERI_REG_MASK (SPI_SLAVE HSPI) spi_done_bits s;
               s = SET_PERI_REG_MASK (SPI_SLAVE HSPI) spi_en_bits s;
               st = st\<lparr>spi_hw := s\<rparr>;
               r = (if regvalue AND SPI_SLV_WR_BUF_DONE \<noteq> 0 then
                      map_option (\<lambda>st. st\<lparr>spi_hw := GPIO_OUTPUT_SET 0 1 (spi_hw st)\<rparr>)
                        (recv_words (st\<lparr>idx := 0, spi_hw := GPIO_OUTPUT_SET 0 0 s\<rparr>))
                    else Some st)
           in if regvalue AND SPI_SLV_RD_BUF_DONE \<noteq> 0
              then map_option (\<lambda>st. st\<lparr>spi_hw := GPIO_OUTPUT_SET 2 0 (spi_hw st)\<rparr>) r
              else r)
        else (case READ_PERI_REG INTR_STATUS_REG s of (v, s) \<Rightarrow> Some (st\<lparr>spi_hw := s\<rparr>))))"

section \<open>Slave test code (SPI_SLAVE_DEBUG)\<close>

text \<open>
  The test master reads a byte, adds one, writes it back and asks to be called again in
  500 ms. \<open>temp0\<close> is what the uninitialised local variable holds; module HSPI always
  overwrites it.
\<close>

definition hspi_master_readwrite_repeat :: "u8 \<Rightarrow> mach \<Rightarrow> mach option" where
  "hspi_master_readwrite_repeat temp0 s =
    (let s = emit (TimerDisarm T_spi_timer2) s in
     Option.bind (spi_byte_read_espslave HSPI temp0 s) (\<lambda>(temp, s).
       map_option (\<lambda>s.
           let s = emit (TimerSetfn T_spi_timer2 C_hspi_master_readwrite_repeat) s
           in emit (TimerArm T_spi_timer2 500 False) s)
         (spi_byte_write_espslave HSPI (temp + 1) s)))"

definition set_miso_data :: "mach \<Rightarrow> mach" where
  "set_miso_data s =
    (case GPIO_INPUT_GET 2 s of (v, s) \<Rightarrow>
       if v = 0 then
         (let s = WRITE_PERI_REG (SPI_W8 HSPI) 0x05040302 s;
              s = WRITE_PERI_REG (SPI_W9 HSPI) 0x09080706 s;
              s = WRITE_PERI_REG (SPI_W10 HSPI) 0x0d0c0b0a s;
              s = WRITE_PERI_REG (SPI_W11 HSPI) 0x11100f0e s;
              s = WRITE_PERI_REG (SPI_W12 HSPI) 0x15141312 s;
              s = WRITE_PERI_REG (SPI_W13 HSPI) 0x19181716 s;
              s = WRITE_PERI_REG (SPI_W14 HSPI) 0x1d1c1b1a s;
              s = WRITE_PERI_REG (SPI_W15 HSPI) 0x21201f1e s
          in GPIO_OUTPUT_SET 2 1 s)
       else s)"

definition disp_spi_data :: "spi \<Rightarrow> spi" where
  "disp_spi_data st =
     st\<lparr>spi_hw := fold (\<lambda>i. emit (Print ''data %d : 0x%02x'' [int i, uint (spi_data st ! i)]))
                  [0..<32] (spi_hw st)\<rparr>"

definition MOSI :: u32 where "MOSI = 0"
definition STATUS_R_IN_WR :: u32 where "STATUS_R_IN_WR = 2"
definition STATUS_W :: u32 where "STATUS_W = 3"
definition TR_DONE_ALONE :: u32 where "TR_DONE_ALONE = 4"
definition WR_RD :: u32 where "WR_RD = 5"
definition DATA_ERROR :: u32 where "DATA_ERROR = 6"
definition STATUS_R_IN_RD :: u32 where "STATUS_R_IN_RD = 7"
definition SPI_QUEUE_LEN :: nat where "SPI_QUEUE_LEN = 8"

definition spi_task :: "u32 \<Rightarrow> u32 \<Rightarrow> spi \<Rightarrow> spi" where
  "spi_task sig par st =
    (let report = (\<lambda>fmt. st\<lparr>spi_hw := emit (Print fmt [uint par]) (spi_hw st)\<rparr>) in
     if sig = MOSI then disp_spi_data st
     else if sig = STATUS_R_IN_WR then report ''SR ERR in WRPR,Reg:%08x ''
     else if sig = STATUS_W then report ''SW ERR,Reg:%08x''
     else if sig = TR_DONE_ALONE then report ''TD ALO ERR,Reg:%08x''
     else if sig = WR_RD then report ''WR&RD ERR,Reg:%08x''
     else if sig = DATA_ERROR then report ''Data ERR,Reg:%08x''
     else if sig = STATUS_R_IN_RD then report ''SR ERR in RDPR,Reg:%08x''
     else st)"

definition spi_task_init :: "mach \<Rightarrow> mach" where
  "spi_task_init s = emit (TaskCreate C_spi_task 1 SPI_QUEUE_LEN) s"

section \<open>The display word\<close>

text \<open>The order in which the controller shifts the command register out: the low byte first, each byte from its top bit.\<close>

definition lcd_bit_order :: "nat list" where
  "lcd_bit_order = [7, 6, 5, 4, 3, 2, 1, 0, 15]"

lemma lcd_word_bits:
  "map (bit (lcd_word h l)) lcd_bit_order = (h \<noteq> 0) # map (bit l) [7, 6, 5, 4, 3, 2, 1, 0]"
  "drop_bit 28 (lcd_word h l) = 8"
proof -
  have 1: "l AND 1 \<noteq> 0 \<longleftrightarrow> bit l 0" by (simp add: and_one_eq odd_iff_mod_2_eq_one bit_0)
  have n16: "\<not> bit l 16" using bit_u8_imp_less [of l 16] by auto
  show "map (bit (lcd_word h l)) lcd_bit_order = (h \<noteq> 0) # map (bit l) [7, 6, 5, 4, 3, 2, 1, 0]"
    using n16
    by (simp add: lcd_bit_order_def lcd_word_def Let_def 1 bit_or_iff bit_and_iff bit_ucast_iff
        bit_drop_bit_eq bit_BIT reg_simps bit_push_bit_iff numeral_eq_Suc)
  have "drop_bit 28 (ucast x :: u32) = 0" for x :: u8
    by (rule bit_word_eqI) (auto simp: bit_drop_bit_eq bit_ucast_iff dest: bit_u8_imp_less)
  moreover have "drop_bit 28 (BIT 15) = 0"
    by (simp add: BIT_def)
  ultimately show "drop_bit 28 (lcd_word h l) = 8"
    by (simp add: lcd_word_def Let_def drop_bit_or reg_simps)
qed

text \<open>
  The display write, on an idle controller, starts one transfer whose command phase is
  nine bits long and is, in shifting order, the data/command bit and then the eight data bits
  from the top; a module number other than 0 and 1 has no effect.
\<close>

theorem spi_lcd_sends_nine_bits:
  assumes "spi_no \<le> 1" and "wait_spi spi_no s = Some s1"
    and "still (Reg (SPI_CMD spi_no)) s1"
  shows "\<exists>t. spi_lcd_9bit_write spi_no high_bit low_8bit s = Some t
    \<and> bit (peri t (SPI_CMD spi_no)) 18
    \<and> drop_bit 28 (peri t (SPI_USER2 spi_no)) = 9 - 1
    \<and> map (bit (peri t (SPI_USER2 spi_no))) lcd_bit_order
        = (high_bit \<noteq> 0) # map (bit low_8bit) [7, 6, 5, 4, 3, 2, 1, 0]
    \<and> spi_lcd_9bit_write 2 high_bit low_8bit s = Some s"
proof -
  have "SPI_USER2 spi_no \<noteq> SPI_CMD spi_no" by (simp add: spi_reg_defs)
  with assms lcd_word_bits [of high_bit low_8bit] show ?thesis
    by (simp add: spi_lcd_9bit_write_def Let_def not_less [symmetric] SPI_USR_def bit_or_iff bit_BIT)
qed

theorem spi_lcd_sends_nine_bits_witness:
  "\<exists>t. spi_lcd_9bit_write HSPI 1 0xA5 mach0 = Some t \<and> bit (peri t (SPI_CMD HSPI)) 18"
proof -
  have "wait_spi HSPI mach0 = Some mach0" by (simp add: wait_spi_idle)
  then show ?thesis
    using spi_lcd_sends_nine_bits [of HSPI mach0 mach0 1 "0xA5"] by (auto simp: HSPI_def)
qed

section \<open>The slave interrupt\<close>

text \<open>The four bytes of a word, the lowest first, and the receive half of the data buffer W0 to W7.\<close>

definition word_bytes :: "u32 \<Rightarrow> u8 list" where
  "word_bytes w = map (\<lambda>k. ucast (drop_bit (8 * k) w)) [0..<4]"

definition spi_rx_words :: "mach \<Rightarrow> u32 list" where
  "spi_rx_words s = map (\<lambda>i. peri s (SPI_W0 HSPI + 4 * of_nat i)) [0..<8]"

lemma length_word_bytes [simp]: "length (word_bytes w) = 4"
  by (simp add: word_bytes_def)

lemma store_four:
  assumes "length pre = k" and "4 \<le> length rest"
  shows "Option.bind (store_byte k v (pre @ rest)) (\<lambda>d.
           Option.bind (store_byte (k + 1) (drop_bit 8 v) d) (\<lambda>d.
           Option.bind (store_byte (k + 2) (drop_bit 16 v) d)
             (store_byte (k + 3) (drop_bit 24 v))))
    = Some (pre @ word_bytes v @ drop 4 rest)"
proof -
  from assms(2) obtain a b c d r where r: "rest = a # b # c # d # r"
    by (auto simp: numeral_eq_Suc Suc_le_length_iff)
  have u: "[0..<4] = [0, 1, 2, 3 :: nat]" by (simp add: upt_conv_Cons)
  show ?thesis
    using assms(1) by (simp add: r store_byte_def list_update_append word_bytes_def u ucast_and_byte
      numeral_eq_Suc)
qed

lemma recv_word_step:
  assumes "quiet (spi_hw st)" and "idx st = of_nat i" and "i < 8"
    and "spi_data st = pre @ rest" and "length pre = 4 * i" and "4 \<le> length rest"
  shows "recv_word st = Some (st\<lparr>spi_data :=
      pre @ word_bytes (peri (spi_hw st) (SPI_W0 HSPI + 4 * of_nat i)) @ drop 4 rest,
      idx := of_nat (Suc i)\<rparr>)"
proof -
  have u: "unat (of_nat i :: u8) = i" using assms(3) by (intro unat_of_nat_small) simp
  have c: "(ucast (of_nat i :: u8) :: u32) = of_nat i"
    using assms(3) by (simp add: unsigned_of_nat take_bit_nat_eq_self)
  have p: "push_bit 2 (of_nat i :: u32) = 4 * of_nat i" by (simp add: push_bit_eq_mult)
  have k: "unat (4 * of_nat i :: u32) = 4 * i"
    using unat_of_nat_small [of "4 * i", where 'a = 32] assms(3) by simp
  show ?thesis
    using assms store_four [of pre "4 * i" rest "peri (spi_hw st) (SPI_W0 HSPI + 4 * of_nat i)"]
    by (simp add: recv_word_def Let_def c p k)
qed

abbreviation rx_bytes :: "mach \<Rightarrow> nat \<Rightarrow> u8 list" where
  "rx_bytes s n \<equiv> concat (map word_bytes (take n (spi_rx_words s)))"

lemma length_rx_bytes: "n \<le> 8 \<Longrightarrow> length (rx_bytes s n) = 4 * n"
  by (simp add: length_concat comp_def spi_rx_words_def sum_list_triv)

lemma rx_bytes_Suc:
  "n < 8 \<Longrightarrow> rx_bytes s (Suc n) = rx_bytes s n @ word_bytes (peri s (SPI_W0 HSPI + 4 * of_nat n))"
  by (simp add: take_Suc_conv_app_nth spi_rx_words_def)

lemma recv_words_loop:
  assumes "quiet (spi_hw st)" and "idx st = of_nat i" and "i \<le> 8"
    and "spi_data st = rx_bytes (spi_hw st) i @ rest" and "length rest = 32 - 4 * i"
  shows "recv_words st = Some (st\<lparr>spi_data := rx_bytes (spi_hw st) 8, idx := 8\<rparr>)"
  using assms
proof (induction "8 - i" arbitrary: i st rest)
  case 0
  then have "i = 8" by simp
  with 0 show ?case by (subst recv_words.simps) simp
next
  case (Suc n)
  then have i: "i < 8" by simp
  let ?st = "st\<lparr>spi_data := rx_bytes (spi_hw st) (Suc i) @ drop 4 rest, idx := of_nat (Suc i)\<rparr>"
  have lt: "idx st < 8"
    using i Suc.prems(2) unat_of_nat_small [of i, where 'a = 8] by (simp add: word_less_nat_alt)
  have "recv_word st = Some ?st"
    using recv_word_step [OF Suc.prems(1,2) i Suc.prems(4)] Suc.prems(5) i
    by (simp add: length_rx_bytes rx_bytes_Suc)
  moreover have "recv_words ?st = Some (?st\<lparr>spi_data := rx_bytes (spi_hw ?st) 8, idx := 8\<rparr>)"
    using Suc.hyps(2) Suc.prems i by (intro Suc.hyps(1) [of "Suc i" _ "drop 4 rest"]) simp_all
  ultimately show ?case
    using lt by (subst recv_words.simps) simp
qed

text \<open>The pins the handler drives: the calls of gpio_output_set, in order.\<close>

fun is_gpio_out :: "event \<Rightarrow> bool" where
  "is_gpio_out (GpioOut _ _ _ _) = True"
| "is_gpio_out _ = False"

definition pin_calls :: "mach \<Rightarrow> event list" where
  "pin_calls s = filter is_gpio_out (trace s)"

lemma pin_calls_simps [simp]:
  "pin_calls (GPIO_OUTPUT_SET n b s) = pin_calls s @ [GpioOut (push_bit n b) (push_bit n (NOT b AND 1)) (push_bit n 1) 0]"
  "pin_calls (WRITE_PERI_REG a v s) = pin_calls s"
  "cur (GPIO_OUTPUT_SET n b s) = cur s" "feed (GPIO_OUTPUT_SET n b s) = feed s"
  "quiet (GPIO_OUTPUT_SET n b s) = quiet s"
  by (simp_all add: pin_calls_def GPIO_OUTPUT_SET_def quiet_def)

lemma pin_calls_rmw [simp]:
  assumes "quiet s"
  shows "pin_calls (CLEAR_PERI_REG_MASK a m s) = pin_calls s"
    "pin_calls (SET_PERI_REG_MASK a m s) = pin_calls s"
  using assms by (simp_all add: pin_calls_def)

definition slave_ack :: "mach \<Rightarrow> mach" where
  "slave_ack s =
     SET_PERI_REG_MASK (SPI_SLAVE HSPI) spi_en_bits
       (CLEAR_PERI_REG_MASK (SPI_SLAVE HSPI) spi_done_bits
         (SET_PERI_REG_MASK (SPI_SLAVE HSPI) SPI_SYNC_RESET
           (CLEAR_PERI_REG_MASK (SPI_SLAVE HSPI) spi_en_bits s)))"

lemma slave_ack_simps:
  assumes "quiet s"
  shows "quiet (slave_ack s)" and "pin_calls (slave_ack s) = pin_calls s"
    and "a \<noteq> SPI_SLAVE HSPI \<Longrightarrow> peri (slave_ack s) a = peri s a"
    and "bit (peri (slave_ack s) (SPI_SLAVE HSPI)) n =
      (if n < 5 then False else if n < 10 \<or> n = 31 then True else bit (peri s (SPI_SLAVE HSPI)) n)"
proof -
  show "quiet (slave_ack s)" "pin_calls (slave_ack s) = pin_calls s"
    using assms by (simp_all add: slave_ack_def)
  show "a \<noteq> SPI_SLAVE HSPI \<Longrightarrow> peri (slave_ack s) a = peri s a"
    using assms by (simp add: slave_ack_def)
  have eq: "peri (slave_ack s) (SPI_SLAVE HSPI) =
      ((peri s (SPI_SLAVE HSPI) AND NOT spi_en_bits OR SPI_SYNC_RESET) AND NOT spi_done_bits) OR spi_en_bits"
    using assms by (simp add: slave_ack_def)
  have "n < 5 \<longleftrightarrow> n = 0 \<or> n = 1 \<or> n = 2 \<or> n = 3 \<or> n = 4"
    and "n < 10 \<longleftrightarrow> n < 5 \<or> n = 5 \<or> n = 6 \<or> n = 7 \<or> n = 8 \<or> n = 9" by auto
  then show "bit (peri (slave_ack s) (SPI_SLAVE HSPI)) n =
      (if n < 5 then False else if n < 10 \<or> n = 31 then True else bit (peri s (SPI_SLAVE HSPI)) n)"
    unfolding eq by (auto simp: bit_or_iff bit_and_iff bit_not_iff bit_BIT reg_simps dest: bit_imp_le_length)
qed

lemma isr_unfold:
  assumes "quiet s" and "s = spi_hw st" and "\<not> bit (peri s INTR_STATUS_REG) 4" and "bit (peri s INTR_STATUS_REG) 7"
  shows "spi_slave_isr_handler st =
    (let st' = st\<lparr>spi_hw := slave_ack s\<rparr>;
         r = (if bit (peri s (SPI_SLAVE HSPI)) 1 then
                map_option (\<lambda>st. st\<lparr>spi_hw := GPIO_OUTPUT_SET 0 1 (spi_hw st)\<rparr>)
                  (recv_words (st'\<lparr>idx := 0, spi_hw := GPIO_OUTPUT_SET 0 0 (slave_ack s)\<rparr>))
              else Some st')
     in if bit (peri s (SPI_SLAVE HSPI)) 0
        then map_option (\<lambda>st. st\<lparr>spi_hw := GPIO_OUTPUT_SET 2 0 (spi_hw st)\<rparr>) r else r)"
  using assms
  by (simp add: spi_slave_isr_handler_def Let_def slave_ack_def BIT_and_eq_0_iff
      SPI_SLV_WR_BUF_DONE_def SPI_SLV_RD_BUF_DONE_def)

text \<open>
  When the master has filled the receive half of the data buffer, the interrupt handler of
  the slave copies all 32 bytes to \<open>spi_data\<close>, word by word with the low byte first and without
  a store outside the array, with the write-ready line (pin 0) low before the copy and high
  after it; the cause flags are cleared and the five interrupts enabled again.
\<close>

theorem spi_slave_isr_receives:
  assumes "quiet (spi_hw st)" and "length (spi_data st) = 32"
    and "\<not> bit (peri (spi_hw st) INTR_STATUS_REG) 4" and "bit (peri (spi_hw st) INTR_STATUS_REG) 7"
    and "bit (peri (spi_hw st) (SPI_SLAVE HSPI)) 1"
  shows "\<exists>st'. spi_slave_isr_handler st = Some st'
    \<and> spi_data st' = concat (map word_bytes (spi_rx_words (spi_hw st)))
    \<and> length (spi_data st') = 32
    \<and> (\<exists>rd. pin_calls (spi_hw st') = pin_calls (spi_hw st) @ [GpioOut 0 1 1 0, GpioOut 1 0 1 0] @ rd)
    \<and> (\<forall>n < 5. \<not> bit (peri (spi_hw st') (SPI_SLAVE HSPI)) n)
    \<and> (\<forall>n. 5 \<le> n \<and> n < 10 \<longrightarrow> bit (peri (spi_hw st') (SPI_SLAVE HSPI)) n)"
proof -
  let ?s = "spi_hw st" and ?a = "GPIO_OUTPUT_SET 0 0 (slave_ack (spi_hw st))"
  note ack = slave_ack_simps [OF assms(1)]
  have ne: "SPI_W0 HSPI + 4 * of_nat i \<noteq> SPI_SLAVE HSPI" if "i < 8" for i
  proof -
    have "i \<in> {0, 1, 2, 3, 4, 5, 6, 7}" using that by auto
    then show ?thesis by (auto simp: spi_reg_defs HSPI_def)
  qed
  have w: "spi_rx_words ?a = spi_rx_words ?s"
    using ack(3) ne by (simp add: spi_rx_words_def)
  have r: "recv_words (st\<lparr>idx := 0, spi_hw := ?a\<rparr>) = Some (st\<lparr>spi_data := rx_bytes ?s 8, idx := 8, spi_hw := ?a\<rparr>)"
    using recv_words_loop [of "st\<lparr>idx := 0, spi_hw := ?a\<rparr>" 0 "spi_data st"] assms(2) ack(1) w by simp
  have all: "rx_bytes ?s 8 = concat (map word_bytes (spi_rx_words ?s))"
    by (simp add: spi_rx_words_def)
  have len: "length (concat (map word_bytes (spi_rx_words ?s))) = 32"
    using length_rx_bytes [of 8 ?s] all by simp
  show ?thesis
    using isr_unfold [OF assms(1) refl assms(3,4)] assms(5) r all len ack(2,4)
    by (simp add: Let_def BIT_def)
qed

definition sample_spi :: spi where
  "sample_spi = \<lparr>spi_data = replicate 32 0, idx = 0,
     spi_hw = mach0\<lparr>cur := (\<lambda>_. 0x01020304)(Reg INTR_STATUS_REG := 0x80, Reg (SPI_SLAVE HSPI) := 2)\<rparr>\<rparr>"

theorem spi_slave_isr_receives_witness:
  "\<exists>st'. spi_slave_isr_handler sample_spi = Some st' \<and> length (spi_data st') = 32"
proof -
  have "quiet (spi_hw sample_spi)" by (simp add: sample_spi_def quiet_def)
  moreover have "INTR_STATUS_REG \<noteq> SPI_SLAVE HSPI"
    by (simp add: INTR_STATUS_REG_def spi_reg_defs HSPI_def)
  ultimately show ?thesis
    using spi_slave_isr_receives [of sample_spi] by (auto simp: sample_spi_def)
qed

end
