(* ===== verification/SpiInterface.thy ===== *)
theory SpiInterface
  imports SpiReg
begin

text \<open>
  The general SPI driver (driver/spi_interface.c): set-up of a controller as master or slave,
  data and status transfers, chip select and interrupt sources. A pointer argument is an
  option, \<open>None\<close> being NULL; the buffer behind \<open>data\<close> is a list of words. A result \<open>None\<close> of
  an operation means a busy wait that never ends or an access outside the buffer.
\<close>

section \<open>Types (spi_interface.h)\<close>

definition MASTER_WRITE_STATUS_TO_SLAVE_CMD :: u32 where "MASTER_WRITE_STATUS_TO_SLAVE_CMD = 1"
definition MASTER_READ_STATUS_FROM_SLAVE_CMD :: u32 where "MASTER_READ_STATUS_FROM_SLAVE_CMD = 4"

definition SpiNum_HSPI :: u32 where "SpiNum_HSPI = 1"
definition SpiMode_Master :: u32 where "SpiMode_Master = 0"
definition SpiMode_Slave :: u32 where "SpiMode_Slave = 1"
definition SpiSubMode_1 :: u32 where "SpiSubMode_1 = 1"
definition SpiSubMode_2 :: u32 where "SpiSubMode_2 = 2"
definition SpiSubMode_3 :: u32 where "SpiSubMode_3 = 3"
definition SpiBitOrder_MSBFirst :: u32 where "SpiBitOrder_MSBFirst = 0"
definition SpiBitOrder_LSBFirst :: u32 where "SpiBitOrder_LSBFirst = 1"

text \<open>The speeds of the enumeration, each the divisor of the 80 MHz clock.\<close>

definition SpiSpeed :: "u32 list" where
  "SpiSpeed = [160, 80, 40, 16, 10, 8]"

record SpiAttr =
  mode :: u32
  subMode :: u32
  speed :: u32
  bitOrder :: u32

record SpiData =
  cmd :: u16
  cmdLen :: u8
  addr :: "u32 option"
  addrLen :: u8
  data :: "u32 list option"
  dataLen :: u8

record SpiIntInfo =
  src :: u32
  isrFunc :: cfun

section \<open>Set-up\<close>

text \<open>The divider pair \<open>(i, k)\<close>; \<open>None\<close> is the division by zero of a truncated \<open>i\<close>.\<close>

definition speed_split :: "u32 \<Rightarrow> (u8 \<times> u8) option" where
  "speed_split sp =
    (let i = (ucast (if sp div 40 \<noteq> 0 then sp div 40 else 1) :: u8)
     in if i = 0 then None else Some (i, ucast (sp div ucast i)))"

definition clock_word :: "u8 \<Rightarrow> u8 \<Rightarrow> u32" where
  "clock_word i k =
     push_bit SPI_CLKDIV_PRE_S ((ucast i - 1) AND SPI_CLKDIV_PRE)
     OR push_bit SPI_CLKCNT_N_S ((ucast k - 1) AND SPI_CLKCNT_N)
     OR push_bit SPI_CLKCNT_H_S (((ucast k + 1) div 2 - 1) AND SPI_CLKCNT_H)
     OR push_bit SPI_CLKCNT_L_S ((ucast k - 1) AND SPI_CLKCNT_L)"

definition set_sub_mode :: "u32 \<Rightarrow> u32 \<Rightarrow> mach \<Rightarrow> mach" where
  "set_sub_mode spiNum m s =
    (if m = SpiSubMode_1 then
       SET_PERI_REG_MASK (SPI_USER spiNum) SPI_CK_OUT_EDGE (CLEAR_PERI_REG_MASK (SPI_PIN spiNum) SPI_IDLE_EDGE s)
     else if m = SpiSubMode_2 then
       SET_PERI_REG_MASK (SPI_USER spiNum) SPI_CK_OUT_EDGE (SET_PERI_REG_MASK (SPI_PIN spiNum) SPI_IDLE_EDGE s)
     else if m = SpiSubMode_3 then
       CLEAR_PERI_REG_MASK (SPI_USER spiNum) SPI_CK_OUT_EDGE (SET_PERI_REG_MASK (SPI_PIN spiNum) SPI_IDLE_EDGE s)
     else
       CLEAR_PERI_REG_MASK (SPI_USER spiNum) SPI_CK_OUT_EDGE (CLEAR_PERI_REG_MASK (SPI_PIN spiNum) SPI_IDLE_EDGE s))"

definition set_bit_order :: "u32 \<Rightarrow> u32 \<Rightarrow> mach \<Rightarrow> mach" where
  "set_bit_order spiNum b s =
    (if b = SpiBitOrder_MSBFirst then
       CLEAR_PERI_REG_MASK (SPI_CTRL spiNum) SPI_RD_BIT_ORDER (CLEAR_PERI_REG_MASK (SPI_CTRL spiNum) SPI_WR_BIT_ORDER s)
     else if b = SpiBitOrder_LSBFirst then
       SET_PERI_REG_MASK (SPI_CTRL spiNum) SPI_RD_BIT_ORDER (SET_PERI_REG_MASK (SPI_CTRL spiNum) SPI_WR_BIT_ORDER s)
     else s)"

definition set_speed :: "u32 \<Rightarrow> u32 \<Rightarrow> mach \<Rightarrow> mach option" where
  "set_speed spiNum sp s =
    (if 1 < sp then
       map_option (\<lambda>(i, k).
           WRITE_PERI_REG (SPI_CLOCK spiNum) (clock_word i k)
             (CLEAR_PERI_REG_MASK (SPI_CLOCK spiNum) SPI_CLK_EQU_SYSCLK s))
         (speed_split sp)
     else Some (WRITE_PERI_REG (SPI_CLOCK spiNum) SPI_CLK_EQU_SYSCLK s))"

definition set_mode :: "u32 \<Rightarrow> SpiAttr \<Rightarrow> mach \<Rightarrow> mach option" where
  "set_mode spiNum pAttr s =
    (if mode pAttr = SpiMode_Master then
       (let s = CLEAR_PERI_REG_MASK (SPI_SLAVE spiNum) SPI_SLAVE_MODE s;
            s = CLEAR_PERI_REG_MASK (SPI_USER spiNum) SPI_USR_MISO_HIGHPART s
        in map_option (\<lambda>s.
             let s = SET_PERI_REG_MASK (SPI_USER spiNum) (SPI_CS_SETUP OR SPI_CS_HOLD OR SPI_USR_MOSI) s
             in SET_PERI_REG_MASK (SPI_CTRL2 spiNum) (push_bit SPI_MISO_DELAY_NUM_S (1 AND SPI_MISO_DELAY_NUM)) s)
             (set_speed spiNum (speed pAttr) s))
     else if mode pAttr = SpiMode_Slave then
       (let s = SET_PERI_REG_MASK (SPI_PIN spiNum) (BIT 19) s;
            s = SET_PERI_REG_MASK (SPI_SLAVE spiNum) SPI_SLAVE_MODE s;
            s = SET_PERI_REG_MASK (SPI_USER spiNum) SPI_USR_MISO_HIGHPART s;
            s = SET_PERI_REG_MASK (SPI_USER spiNum) SPI_USR_MOSI s;
            s = SET_PERI_REG_MASK (SPI_CTRL2 spiNum) (push_bit SPI_MOSI_DELAY_NUM_S (1 AND SPI_MOSI_DELAY_NUM)) s;
            s = WRITE_PERI_REG (SPI_CLOCK spiNum) 0 s;
            s = SET_PERI_REG_BITS (SPI_USER2 spiNum) SPI_USR_COMMAND_BITLEN 7 SPI_USR_COMMAND_BITLEN_S s;
            s = SET_PERI_REG_BITS (SPI_SLAVE1 spiNum) SPI_SLV_WR_ADDR_BITLEN 7 SPI_SLV_WR_ADDR_BITLEN_S s;
            s = SET_PERI_REG_BITS (SPI_SLAVE1 spiNum) SPI_SLV_RD_ADDR_BITLEN 7 SPI_SLV_RD_ADDR_BITLEN_S s;
            s = SET_PERI_REG_BITS (SPI_SLAVE1 spiNum) SPI_SLV_BUF_BITLEN (32 * 8 - 1) SPI_SLV_BUF_BITLEN_S s
        in Some (SET_PERI_REG_BITS (SPI_SLAVE1 spiNum) SPI_SLV_STATUS_BITLEN 7 SPI_SLV_STATUS_BITLEN_S s))
     else Some s)"

definition clear_data_buffer :: "u32 \<Rightarrow> mach \<Rightarrow> mach" where
  "clear_data_buffer spiNum s =
     fold (\<lambda>i. WRITE_PERI_REG (REG_SPI_BASE spiNum + 0x40 + of_nat i * 4) 0) [0..<16] s"

definition SPIInit :: "u32 \<Rightarrow> SpiAttr option \<Rightarrow> mach \<Rightarrow> mach option" where
  "SPIInit spiNum pAttr s =
    (case pAttr of
       None \<Rightarrow> Some s
     | Some a \<Rightarrow>
         if spiNum > SpiNum_HSPI then Some s
         else
           (let s = set_sub_mode spiNum (subMode a) s;
                s = set_bit_order spiNum (bitOrder a) s;
                s = CLEAR_PERI_REG_MASK (SPI_USER spiNum) SPI_FLASH_MODE s
            in map_option (\<lambda>s.
                 clear_data_buffer spiNum
                   (CLEAR_PERI_REG_MASK (SPI_CTRL spiNum)
                     (SPI_QIO_MODE OR SPI_DIO_MODE OR SPI_DOUT_MODE OR SPI_QOUT_MODE) s))
                 (set_mode spiNum a s)))"

section \<open>Master transfers\<close>

definition SPIMasterCfgAddr :: "u32 \<Rightarrow> u32 \<Rightarrow> mach \<Rightarrow> mach" where
  "SPIMasterCfgAddr spiNum ad s =
    (if spiNum > SpiNum_HSPI then s else WRITE_PERI_REG (SPI_ADDR spiNum) ad s)"

definition SPIMasterCfgCmd :: "u32 \<Rightarrow> u32 \<Rightarrow> mach \<Rightarrow> mach" where
  "SPIMasterCfgCmd spiNum c s =
    (if spiNum > SpiNum_HSPI then s
     else SET_PERI_REG_BITS (SPI_USER2 spiNum) SPI_USR_COMMAND_VALUE c SPI_USR_COMMAND_VALUE_S s)"

text \<open>The number of bits of \<open>n\<close> bytes, less one, as the length fields take it.\<close>

definition bit_len :: "u8 \<Rightarrow> u32" where
  "bit_len n = push_bit 3 (ucast n) - 1"

definition word_count :: "u8 \<Rightarrow> nat" where
  "word_count n = unat n div 4 + (if unat n mod 4 \<noteq> 0 then 1 else 0)"

text \<open>The parts that sending and receiving share: the command and the address phase.\<close>

definition set_command :: "u32 \<Rightarrow> SpiData \<Rightarrow> mach \<Rightarrow> mach" where
  "set_command spiNum d s =
    (if cmdLen d \<noteq> 0 then
       (let s = SET_PERI_REG_BITS (SPI_USER2 spiNum) SPI_USR_COMMAND_BITLEN (bit_len (cmdLen d)) SPI_USR_COMMAND_BITLEN_S s;
            s = SET_PERI_REG_MASK (SPI_USER spiNum) SPI_USR_COMMAND s
        in SPIMasterCfgCmd spiNum (ucast (cmd d)) s)
     else
       SET_PERI_REG_BITS (SPI_USER2 spiNum) SPI_USR_COMMAND_BITLEN 0 SPI_USR_COMMAND_BITLEN_S
         (CLEAR_PERI_REG_MASK (SPI_USER spiNum) SPI_USR_COMMAND s))"

text \<open>The flag of the result tells whether the function goes on (the address pointer was valid).\<close>

definition set_address :: "u32 \<Rightarrow> SpiData \<Rightarrow> mach \<Rightarrow> bool \<times> mach" where
  "set_address spiNum d s =
    (if addrLen d = 0 then
       (True, SET_PERI_REG_BITS (SPI_USER1 spiNum) SPI_USR_ADDR_BITLEN 0 SPI_USR_ADDR_BITLEN_S
                (CLEAR_PERI_REG_MASK (SPI_USER spiNum) SPI_USR_ADDR s))
     else
       (case addr d of
          None \<Rightarrow> (False, s)
        | Some a \<Rightarrow>
            (let s = SET_PERI_REG_BITS (SPI_USER1 spiNum) SPI_USR_ADDR_BITLEN (bit_len (addrLen d)) SPI_USR_ADDR_BITLEN_S s;
                 s = SET_PERI_REG_MASK (SPI_USER spiNum) SPI_USR_ADDR s
             in (True, SPIMasterCfgAddr spiNum a s))))"

fun load_send_buffer :: "u32 \<Rightarrow> nat \<Rightarrow> u8 \<Rightarrow> u32 list \<Rightarrow> mach \<Rightarrow> mach option" where
  "load_send_buffer spiNum n idx [] s = None"
| "load_send_buffer spiNum n idx (v # vs) s =
     (let s = WRITE_PERI_REG (SPI_W0 spiNum + push_bit 2 (ucast idx)) v s
      in if unat (idx + 1) < n then load_send_buffer spiNum n (idx + 1) vs s else Some s)"

definition SPIMasterSendData :: "u32 \<Rightarrow> SpiData option \<Rightarrow> mach \<Rightarrow> (int \<times> mach) option" where
  "SPIMasterSendData spiNum pInData s =
    (case pInData of
       None \<Rightarrow> Some (- 1, s)
     | Some d \<Rightarrow>
         if spiNum > SpiNum_HSPI \<or> 64 < dataLen d then Some (- 1, s)
         else
           Option.bind (wait_spi spiNum s) (\<lambda>s.
             case set_address spiNum d (set_command spiNum d s) of (ok, s) \<Rightarrow>
               if \<not> ok then Some (- 1, s)
               else if dataLen d \<noteq> 0 \<and> data d = None then Some (- 1, s)
               else
                 Option.bind
                   (if dataLen d \<noteq> 0 then
                      map_option
                        (SET_PERI_REG_BITS (SPI_USER1 spiNum) SPI_USR_MOSI_BITLEN (bit_len (dataLen d)) SPI_USR_MOSI_BITLEN_S)
                        (load_send_buffer spiNum (word_count (dataLen d)) 0 (the (data d))
                          (CLEAR_PERI_REG_MASK (SPI_USER spiNum) SPI_USR_MISO
                            (SET_PERI_REG_MASK (SPI_USER spiNum) SPI_USR_MOSI s)))
                    else
                      Some (SET_PERI_REG_BITS (SPI_USER1 spiNum) SPI_USR_MOSI_BITLEN 0 SPI_USR_MOSI_BITLEN_S
                             (CLEAR_PERI_REG_MASK (SPI_USER spiNum) SPI_USR_MOSI s)))
                   (\<lambda>s. map_option (\<lambda>s. (0, CLEAR_PERI_REG_MASK (SPI_SLAVE spiNum) SPI_TRANS_DONE s))
                          (wait_reg (SPI_SLAVE spiNum) (\<lambda>v. v AND SPI_TRANS_DONE \<noteq> 0)
                            (SET_PERI_REG_MASK (SPI_CMD spiNum) SPI_USR s)))))"

text \<open>
  The receive loop runs once before its first test. A store outside the buffer (or through a
  null pointer) is \<open>None\<close>.
\<close>

function read_recv_buffer :: "u32 \<Rightarrow> u8 \<Rightarrow> u8 \<Rightarrow> u32 list \<Rightarrow> mach \<Rightarrow> (u32 list \<times> mach) option" where
  "read_recv_buffer spiNum len idx buf s =
     (case READ_PERI_REG (SPI_W0 spiNum + push_bit 2 (ucast idx)) s of (v, s) \<Rightarrow>
        if unat idx < length buf then
          (if unat (idx + 1) < word_count len
           then read_recv_buffer spiNum len (idx + 1) (buf[unat idx := v]) s
           else Some (buf[unat idx := v], s))
        else None)"
  by pat_completeness auto

lemma word_count_le: "word_count n \<le> 64"
  using unat_u8_less [of n] by (simp add: word_count_def) linarith

lemma idx_measure:
  fixes idx :: u8
  assumes "unat (idx + 1) < word_count len"
  shows "(if idx + 1 = 255 then 65 else 64 - unat (idx + 1)) < (if idx = 255 then 65 else 64 - unat idx)"
proof (cases "idx = 255")
  case True
  then show ?thesis by simp
next
  case False
  have "unat idx \<noteq> 255"
  proof
    assume "unat idx = 255"
    then have "unat idx = unat (255 :: u8)" by simp
    with False show False by (simp only: word_unat_eq_iff)
  qed
  with unat_u8_less [of idx] have u: "unat (idx + 1) = unat idx + 1"
    using unat_plus_of_nat [of idx 1] by simp
  with assms word_count_le [of len] have "unat idx + 1 < 64" by linarith
  moreover from this u have "idx + 1 \<noteq> 255" by auto
  ultimately show ?thesis using False u by simp
qed

termination read_recv_buffer
  by (relation "measure (\<lambda>(_, _, idx, _, _). if idx = 255 then 65 else 64 - unat idx)", simp,
      unfold in_measure prod.case, erule idx_measure)

declare read_recv_buffer.simps [simp del]

definition SPIMasterRecvData :: "u32 \<Rightarrow> SpiData option \<Rightarrow> mach \<Rightarrow> (int \<times> SpiData option \<times> mach) option" where
  "SPIMasterRecvData spiNum pOutData s =
    (case pOutData of
       None \<Rightarrow> Some (- 1, None, s)
     | Some d \<Rightarrow>
         if spiNum > SpiNum_HSPI then Some (- 1, Some d, s)
         else
           Option.bind (wait_spi spiNum s) (\<lambda>s.
             case set_address spiNum d (set_command spiNum d s) of (ok, s) \<Rightarrow>
               if \<not> ok then Some (- 1, Some d, s)
               else if dataLen d \<noteq> 0 \<and> data d = None then Some (- 1, Some d, s)
               else
                 (let s = (if dataLen d \<noteq> 0 then
                             SET_PERI_REG_BITS (SPI_USER1 spiNum) SPI_USR_MISO_BITLEN (bit_len (dataLen d)) SPI_USR_MISO_BITLEN_S
                               (SET_PERI_REG_MASK (SPI_USER spiNum) SPI_USR_MISO
                                 (CLEAR_PERI_REG_MASK (SPI_USER spiNum) SPI_USR_MOSI s))
                           else
                             SET_PERI_REG_BITS (SPI_USER1 spiNum) SPI_USR_MISO_BITLEN 0 SPI_USR_MISO_BITLEN_S
                               (CLEAR_PERI_REG_MASK (SPI_USER spiNum) SPI_USR_MISO
                                 (CLEAR_PERI_REG_MASK (SPI_USER spiNum) SPI_USR_MOSI s)));
                      s = SET_PERI_REG_MASK (SPI_CMD spiNum) SPI_USR s
                  in Option.bind (wait_spi spiNum s) (\<lambda>s.
                       case data d of
                         None \<Rightarrow> None
                       | Some buf \<Rightarrow>
                           map_option (\<lambda>(buf, s). (0, Some (d\<lparr>data := Some buf\<rparr>), s))
                             (read_recv_buffer spiNum (dataLen d) 0 buf s)))))"

section \<open>Slave transfers\<close>

text \<open>The length is tested against a byte counter; the loop runs over the words of the buffer.\<close>

fun load_slave_buffer :: "u32 \<Rightarrow> nat \<Rightarrow> nat \<Rightarrow> u32 list \<Rightarrow> mach \<Rightarrow> mach option" where
  "load_slave_buffer spiNum i 0 vs s = Some s"
| "load_slave_buffer spiNum i (Suc n) [] s = None"
| "load_slave_buffer spiNum i (Suc n) (v # vs) s =
     load_slave_buffer spiNum (Suc i) n vs (WRITE_PERI_REG (SPI_W8 spiNum + push_bit 2 (of_nat i)) v s)"

definition SPISlaveSendData :: "u32 \<Rightarrow> u32 list option \<Rightarrow> u8 \<Rightarrow> mach \<Rightarrow> (int \<times> mach) option" where
  "SPISlaveSendData spiNum pInData inLen s =
    (case pInData of
       None \<Rightarrow> Some (- 1, s)
     | Some vs \<Rightarrow>
         map_option (\<lambda>s. (0, SET_PERI_REG_MASK (SPI_CMD spiNum) SPI_USR s))
           (load_slave_buffer spiNum 0 (unat inLen) vs s))"

definition SPISlaveRecvData :: "u32 \<Rightarrow> mach \<Rightarrow> int \<times> mach" where
  "SPISlaveRecvData spiNum s =
    (if spiNum > SpiNum_HSPI then (- 1, s)
     else (0, SET_PERI_REG_MASK (SPI_CMD spiNum) SPI_USR s))"

section \<open>Status transfers\<close>

definition SPIMasterSendStatus :: "u32 \<Rightarrow> u8 \<Rightarrow> mach \<Rightarrow> mach option" where
  "SPIMasterSendStatus spiNum dat s =
    (if spiNum > SpiNum_HSPI then Some s
     else
       map_option (\<lambda>s.
           let s = SET_PERI_REG_MASK (SPI_USER spiNum) SPI_USR_MOSI s;
               s = CLEAR_PERI_REG_MASK (SPI_USER spiNum) (SPI_USR_MISO OR SPI_USR_DUMMY OR SPI_USR_ADDR) s;
               s = WRITE_PERI_REG (SPI_USER2 spiNum)
                     (push_bit SPI_USR_COMMAND_BITLEN_S (7 AND SPI_USR_COMMAND_BITLEN)
                      OR MASTER_WRITE_STATUS_TO_SLAVE_CMD) s;
               s = SET_PERI_REG_BITS (SPI_USER1 spiNum) SPI_USR_MOSI_BITLEN (push_bit 3 1 - 1) SPI_USR_MOSI_BITLEN_S s;
               s = WRITE_PERI_REG (SPI_W0 spiNum) (ucast dat) s
           in SET_PERI_REG_MASK (SPI_CMD spiNum) SPI_USR s)
         (wait_spi spiNum s))"

definition SPIMasterRecvStatus :: "u32 \<Rightarrow> mach \<Rightarrow> (int \<times> mach) option" where
  "SPIMasterRecvStatus spiNum s =
    (if spiNum > SpiNum_HSPI then Some (- 1, s)
     else
       Option.bind (wait_spi spiNum s) (\<lambda>s.
         let s = SET_PERI_REG_MASK (SPI_USER spiNum) SPI_USR_MISO s;
             s = CLEAR_PERI_REG_MASK (SPI_USER spiNum) (SPI_USR_MOSI OR SPI_USR_DUMMY OR SPI_USR_ADDR) s;
             s = WRITE_PERI_REG (SPI_USER2 spiNum)
                   (push_bit SPI_USR_COMMAND_BITLEN_S (7 AND SPI_USR_COMMAND_BITLEN)
                    OR MASTER_READ_STATUS_FROM_SLAVE_CMD) s;
             s = SET_PERI_REG_BITS (SPI_USER1 spiNum) SPI_USR_MISO_BITLEN 7 SPI_USR_MISO_BITLEN_S s;
             s = SET_PERI_REG_MASK (SPI_CMD spiNum) SPI_USR s
         in map_option (\<lambda>s.
              case READ_PERI_REG (SPI_W0 spiNum) s of (dat, s) \<Rightarrow>
                case READ_PERI_REG (SPI_W0 spiNum) s of (v, s) \<Rightarrow> (uint (ucast (v AND 0xff) :: u8), s))
              (wait_spi spiNum s)))"

section \<open>Chip select and interrupt sources\<close>

definition SpiPinCS_0 :: u32 where "SpiPinCS_0 = 1"
definition SpiPinCS_1 :: u32 where "SpiPinCS_1 = 2"
definition SpiPinCS_2 :: u32 where "SpiPinCS_2 = 4"

definition SPICsPinSelect :: "u32 \<Rightarrow> u32 \<Rightarrow> mach \<Rightarrow> mach" where
  "SPICsPinSelect spiNum pinCs s =
    (if spiNum > SpiNum_HSPI then s
     else SET_PERI_REG_MASK (SPI_PIN spiNum) pinCs (SET_PERI_REG_BITS (SPI_PIN spiNum) 3 0 0 s))"

definition SPIIntEnable :: "u32 \<Rightarrow> u32 \<Rightarrow> mach \<Rightarrow> mach" where
  "SPIIntEnable spiNum intSrc s =
    (if spiNum > SpiNum_HSPI then s
     else SET_PERI_REG_MASK (SPI_SLAVE spiNum) (push_bit 5 intSrc) s)"

definition SPIIntDisable :: "u32 \<Rightarrow> u32 \<Rightarrow> mach \<Rightarrow> mach" where
  "SPIIntDisable spiNum intSrc s =
    (if spiNum > SpiNum_HSPI then s
     else CLEAR_PERI_REG_MASK (SPI_SLAVE spiNum) intSrc s)"

definition SPIIntClear :: "u32 \<Rightarrow> mach \<Rightarrow> mach" where
  "SPIIntClear spiNum s =
    (if spiNum > SpiNum_HSPI then s
     else CLEAR_PERI_REG_MASK (SPI_SLAVE spiNum)
            (SPI_TRANS_DONE OR SPI_SLV_WR_STA_DONE OR SPI_SLV_RD_STA_DONE
             OR SPI_SLV_WR_BUF_DONE OR SPI_SLV_RD_BUF_DONE) s)"

text \<open>\<open>isr_addr\<close> is the address at which the handler was linked; it is only printed.\<close>

definition SPIIntCfg :: "u32 \<Rightarrow> u32 \<Rightarrow> SpiIntInfo option \<Rightarrow> mach \<Rightarrow> mach" where
  "SPIIntCfg isr_addr spiNum pIntInfo s =
    (case pIntInfo of
       None \<Rightarrow> s
     | Some info \<Rightarrow>
         if spiNum > SpiNum_HSPI then s
         else
           (let s = CLEAR_PERI_REG_MASK (SPI_SLAVE spiNum) 0x3FF s;
                s = SPIIntEnable spiNum (src info) s;
                s = emit (Print ''src=%x,isrFunc=%x'' [uint (push_bit 5 (src info)), uint isr_addr]) s;
                s = emit (IsrAttach ETS_SPI_INUM (isrFunc info)) s
            in ETS_INTR_ENABLE ETS_SPI_INUM s))"

section \<open>Set-up of a master\<close>

text \<open>The fields of the clock register, and the division of the 80 MHz clock they make.\<close>

definition clk_div :: "u32 \<Rightarrow> nat" where
  "clk_div c = (unat (take_bit 13 (drop_bit 18 c)) + 1) * (unat (take_bit 6 (drop_bit 12 c)) + 1)"

definition clk_high :: "u32 \<Rightarrow> nat" where "clk_high c = unat (take_bit 6 (drop_bit 6 c)) + 1"
definition clk_low :: "u32 \<Rightarrow> nat" where "clk_low c = unat (take_bit 6 c) + 1"

lemma speed_split_div:
  assumes "sp \<in> set SpiSpeed"
  shows "\<exists>i k. speed_split sp = Some (i, k) \<and> clk_div (clock_word i k) = unat sp
    \<and> clk_high (clock_word i k) * 2 = clk_low (clock_word i k)
    \<and> \<not> bit (clock_word i k) 31 \<and> 1 < sp"
proof -
  have "sp = 160 \<or> sp = 80 \<or> sp = 40 \<or> sp = 16 \<or> sp = 10 \<or> sp = 8"
    using assms by (simp add: SpiSpeed_def)
  then show ?thesis
    by (elim disjE) (simp_all add: speed_split_def clock_word_def reg_simps clk_div_def clk_high_def clk_low_def)
qed

lemma cur_clear_data_buffer:
  "cur (clear_data_buffer n s) =
     (\<lambda>p. if \<exists>i < 16. p = Reg (SPI_W0 n + 4 * of_nat i) then 0 else cur s p)"
proof -
  have "cur (fold (\<lambda>i. WRITE_PERI_REG (REG_SPI_BASE n + 0x40 + of_nat i * 4) 0) [0..<k] s) =
     (\<lambda>p. if \<exists>i < k. p = Reg (SPI_W0 n + 4 * of_nat i) then 0 else cur s p)" for k
    by (induction k) (auto simp: SPI_W0_def less_Suc_eq algebra_simps fun_eq_iff)
  then show ?thesis by (simp add: clear_data_buffer_def)
qed

lemma clear_data_buffer_simps:
  "spi_words n 16 (clear_data_buffer n s) = replicate 16 0"
  "peri (clear_data_buffer n s) (SPI_CLOCK n) = peri s (SPI_CLOCK n)"
  "peri (clear_data_buffer n s) (SPI_PIN n) = peri s (SPI_PIN n)"
  "peri (clear_data_buffer n s) (SPI_USER n) = peri s (SPI_USER n)"
  "peri (clear_data_buffer n s) (SPI_SLAVE n) = peri s (SPI_SLAVE n)"
proof -
  show "spi_words n 16 (clear_data_buffer n s) = replicate 16 0"
    by (rule nth_equalityI) (auto simp: spi_words_def cur_clear_data_buffer)
qed (auto simp: cur_clear_data_buffer dest: w_index_ne [THEN not_sym] w_index_ne)

lemma set_sub_mode_simps:
  assumes "quiet s"
  shows "quiet (set_sub_mode n m s)"
    and "bit (peri (set_sub_mode n m s) (SPI_PIN n)) 29 \<longleftrightarrow> m = 2 \<or> m = 3"
    and "bit (peri (set_sub_mode n m s) (SPI_USER n)) 7 \<longleftrightarrow> m = 1 \<or> m = 2"
  using assms
  by (simp_all add: set_sub_mode_def SpiSubMode_1_def SpiSubMode_2_def SpiSubMode_3_def spi_reg_defs
      bit_or_iff bit_and_iff bit_not_iff bit_BIT reg_simps)

lemma set_bit_order_simps:
  assumes "quiet s"
  shows "quiet (set_bit_order n m s)"
    and "peri (set_bit_order n m s) (SPI_PIN n) = peri s (SPI_PIN n)"
    and "peri (set_bit_order n m s) (SPI_USER n) = peri s (SPI_USER n)"
  using assms by (simp_all add: set_bit_order_def spi_reg_defs)

text \<open>
  Set-up as master, on a register file that keeps what is written: for each of the six
  speeds of the enumeration the clock register divides 80 MHz by exactly the value of the
  speed, with equal high and low phases; idle level and sampling edge are those of the mode
  number read as two bits CPOL, CPHA (the edge bit being their difference); flash operation
  and slave mode are off, MOSI is on and the sixteen data words are cleared.
\<close>

theorem spi_init_master:
  fixes cpol cpha :: bool
  assumes "quiet s" and "spiNum \<le> 1" and "mode a = SpiMode_Master" and "speed a \<in> set SpiSpeed"
    and "subMode a = 2 * of_bool cpol + of_bool cpha"
  shows "\<exists>t. SPIInit spiNum (Some a) s = Some t
    \<and> clk_div (peri t (SPI_CLOCK spiNum)) = unat (speed a)
    \<and> clk_high (peri t (SPI_CLOCK spiNum)) * 2 = clk_low (peri t (SPI_CLOCK spiNum))
    \<and> \<not> bit (peri t (SPI_CLOCK spiNum)) 31
    \<and> bit (peri t (SPI_PIN spiNum)) 29 = cpol
    \<and> bit (peri t (SPI_USER spiNum)) 7 = (cpol \<noteq> cpha)
    \<and> \<not> bit (peri t (SPI_USER spiNum)) 2 \<and> bit (peri t (SPI_USER spiNum)) 27
    \<and> \<not> bit (peri t (SPI_SLAVE spiNum)) 30
    \<and> spi_words spiNum 16 t = replicate 16 0"
proof -
  let ?n = spiNum
  define s1 where "s1 = set_bit_order ?n (bitOrder a) (set_sub_mode ?n (subMode a) s)"
  note q0 = set_sub_mode_simps [OF assms(1), of ?n "subMode a"]
  note q1 = set_bit_order_simps [OF q0(1), of ?n "bitOrder a", folded s1_def]
  have pin: "bit (peri s1 (SPI_PIN ?n)) 29 = cpol" and user: "bit (peri s1 (SPI_USER ?n)) 7 = (cpol \<noteq> cpha)"
    using q0 q1 assms(5) by (cases cpol; cases cpha; simp)+
  from speed_split_div [OF assms(4)] obtain i k where
    ik: "speed_split (speed a) = Some (i, k)" "clk_div (clock_word i k) = unat (speed a)"
      "clk_high (clock_word i k) * 2 = clk_low (clock_word i k)"
      "\<not> bit (clock_word i k) 31" "1 < speed a" by auto
  show ?thesis
    using assms(2,3) q1(1) pin user ik
    by (simp add: SPIInit_def Let_def not_less [symmetric] SpiNum_HSPI_def s1_def [symmetric]
        set_mode_def set_speed_def clear_data_buffer_simps)
      (simp add: spi_reg_defs bit_or_iff bit_and_iff bit_not_iff bit_BIT reg_simps)
qed

theorem spi_init_master_witness:
  "\<exists>t. SPIInit 1 (Some \<lparr>mode = SpiMode_Master, subMode = 3, speed = 16, bitOrder = 0\<rparr>) mach0 = Some t
    \<and> clk_div (peri t (SPI_CLOCK (1 :: u32))) = 16"
  using spi_init_master [of mach0 1 "\<lparr>mode = SpiMode_Master, subMode = 3, speed = 16, bitOrder = 0\<rparr>" True True]
  by (auto simp: SpiSpeed_def)

section \<open>Sending and receiving\<close>

text \<open>The length fields of a transfer, in bits.\<close>

definition mosi_bits :: "u32 \<Rightarrow> mach \<Rightarrow> nat" where
  "mosi_bits n s = unat (take_bit 9 (drop_bit 17 (peri s (SPI_USER1 n)))) + 1"
definition miso_bits :: "u32 \<Rightarrow> mach \<Rightarrow> nat" where
  "miso_bits n s = unat (take_bit 9 (drop_bit 8 (peri s (SPI_USER1 n)))) + 1"
definition addr_bits :: "u32 \<Rightarrow> mach \<Rightarrow> nat" where
  "addr_bits n s = unat (take_bit 6 (drop_bit 26 (peri s (SPI_USER1 n)))) + 1"
definition cmd_bits :: "u32 \<Rightarrow> mach \<Rightarrow> nat" where
  "cmd_bits n s = unat (take_bit 4 (drop_bit 28 (peri s (SPI_USER2 n)))) + 1"
definition cmd_value :: "u32 \<Rightarrow> mach \<Rightarrow> u32" where
  "cmd_value n s = take_bit 16 (peri s (SPI_USER2 n))"

lemma unat_bit_len: "k \<noteq> 0 \<Longrightarrow> unat (bit_len k) + 1 = 8 * unat k"
proof -
  assume "k \<noteq> 0"
  then have "0 < unat k" by (simp add: unat_gt_0)
  moreover have "push_bit 3 (ucast k :: u32) = of_nat (8 * unat k)"
    by (simp add: push_bit_eq_mult)
  moreover have "unat (of_nat (8 * unat k) :: u32) = 8 * unat k"
    using unat_u8_less [of k] by (intro unat_of_nat_small) simp
  ultimately show ?thesis
    using unat_minus_of_nat [of 1 "of_nat (8 * unat k) :: u32"] by (simp add: bit_len_def)
qed

lemma bit_len_fits:
  assumes "k \<noteq> 0" and "8 * unat k \<le> 2 ^ w"
  shows "take_bit w (bit_len k) = bit_len k"
  using unat_bit_len [OF assms(1)] assms(2) by (intro take_bit_word_less) linarith

text \<open>
  What a transfer may find: every register of the controller keeps what is written, but for
  the slave register and the command register, which the hardware changes.
\<close>

definition spi_calm :: "u32 \<Rightarrow> mach \<Rightarrow> bool" where
  "spi_calm n s \<longleftrightarrow> (\<forall>a. a \<noteq> SPI_SLAVE n \<and> a \<noteq> SPI_CMD n \<longrightarrow> still (Reg a) s)"

lemma spi_calm_still [simp]: "spi_calm n s \<Longrightarrow> a \<noteq> SPI_SLAVE n \<Longrightarrow> a \<noteq> SPI_CMD n \<Longrightarrow> still (Reg a) s"
  by (simp add: spi_calm_def)

lemma spi_calm_ops [simp]:
  assumes "spi_calm n s"
  shows "spi_calm n (WRITE_PERI_REG a v s)" "spi_calm n (SET_PERI_REG_MASK a m s)"
    "spi_calm n (CLEAR_PERI_REG_MASK a m s)" "spi_calm n (SET_PERI_REG_BITS a m v k s)"
  using assms by (simp_all add: spi_calm_def)

lemma set_command_effect:
  assumes "spi_calm n s" and "n \<le> 1" and "unat (cmdLen d) \<le> 2"
  defines "t \<equiv> set_command n d s"
  shows "spi_calm n t" and "feed t = feed s"
    and "\<And>p. p \<noteq> Reg (SPI_USER n) \<Longrightarrow> p \<noteq> Reg (SPI_USER2 n) \<Longrightarrow> cur t p = cur s p"
    and "bit (peri t (SPI_USER n)) 31 \<longleftrightarrow> cmdLen d \<noteq> 0"
    and "cmdLen d \<noteq> 0 \<Longrightarrow> cmd_bits n t = 8 * unat (cmdLen d) \<and> cmd_value n t = ucast (cmd d)"
proof -
  have st: "still (Reg (SPI_USER n)) s" "still (Reg (SPI_USER2 n)) s"
    and ne: "SPI_USER n \<noteq> SPI_USER2 n"
    using assms(1) by (simp_all add: spi_calm_def spi_reg_defs)
  have le: "\<not> SpiNum_HSPI < n" using assms(2) by (simp add: SpiNum_HSPI_def not_less)
  show "spi_calm n t" using assms(1) le by (simp add: t_def set_command_def SPIMasterCfgCmd_def)
  show "feed t = feed s" using st le by (simp add: t_def set_command_def SPIMasterCfgCmd_def)
  show "p \<noteq> Reg (SPI_USER n) \<Longrightarrow> p \<noteq> Reg (SPI_USER2 n) \<Longrightarrow> cur t p = cur s p" for p
    using st le by (simp add: t_def set_command_def SPIMasterCfgCmd_def)
  show "bit (peri t (SPI_USER n)) 31 \<longleftrightarrow> cmdLen d \<noteq> 0"
    using st le ne
    by (simp add: t_def set_command_def SPIMasterCfgCmd_def SPI_USR_COMMAND_def bit_or_iff bit_and_iff bit_not_iff bit_BIT)
  assume c: "cmdLen d \<noteq> 0"
  have fit: "take_bit 4 (bit_len (cmdLen d)) = bit_len (cmdLen d)"
    using assms(3) by (intro bit_len_fits c) simp
  have f16: "take_bit 16 (ucast (cmd d) :: u32) = ucast (cmd d)"
    by (rule bit_word_eqI) (auto simp: bit_simps dest: bit_imp_le_length)
  let ?x = "peri s (SPI_USER2 n) AND NOT (push_bit 28 (mask 4)) OR push_bit 28 (bit_len (cmdLen d))"
  have t2: "peri t (SPI_USER2 n) = (?x AND NOT (push_bit 0 (mask 16))) OR push_bit 0 (ucast (cmd d))"
    using st le ne c by (simp add: t_def set_command_def SPIMasterCfgCmd_def spi_field_masks
        SPI_USR_COMMAND_BITLEN_S_def SPI_USR_COMMAND_VALUE_S_def)
  have xf: "take_bit 4 (drop_bit 28 ?x) = bit_len (cmdLen d)"
    by (subst field_insert) (simp_all add: fit)
  have "take_bit 4 (drop_bit 28 (peri t (SPI_USER2 n))) = bit_len (cmdLen d)"
    unfolding t2 by (subst field_keep [OF f16]) (simp, rule xf)
  moreover have "take_bit 16 (drop_bit 0 (peri t (SPI_USER2 n))) = ucast (cmd d)"
    unfolding t2 by (subst field_insert) (simp_all add: f16)
  ultimately show "cmd_bits n t = 8 * unat (cmdLen d) \<and> cmd_value n t = ucast (cmd d)"
    using unat_bit_len [OF c] by (simp add: cmd_bits_def cmd_value_def)
qed

lemma set_address_effect:
  assumes "spi_calm n s" and "n \<le> 1" and "unat (addrLen d) \<le> 4"
    and ok: "set_address n d s = (True, t)"
  shows "spi_calm n t" and "feed t = feed s"
    and "\<And>p. p \<noteq> Reg (SPI_USER n) \<Longrightarrow> p \<noteq> Reg (SPI_USER1 n) \<Longrightarrow> p \<noteq> Reg (SPI_ADDR n) \<Longrightarrow> cur t p = cur s p"
    and "k \<noteq> 30 \<Longrightarrow> k < 32 \<Longrightarrow> bit (peri t (SPI_USER n)) k = bit (peri s (SPI_USER n)) k"
    and "bit (peri t (SPI_USER n)) 30 \<longleftrightarrow> addrLen d \<noteq> 0"
    and "addrLen d \<noteq> 0 \<Longrightarrow> addr_bits n t = 8 * unat (addrLen d) \<and> addr d = Some (peri t (SPI_ADDR n))"
proof -
  have st: "still (Reg (SPI_USER n)) s" "still (Reg (SPI_USER1 n)) s"
    and ne: "SPI_USER n \<noteq> SPI_USER1 n" "SPI_USER n \<noteq> SPI_ADDR n" "SPI_USER1 n \<noteq> SPI_ADDR n"
    using assms(1) by (simp_all add: spi_calm_def spi_reg_defs)
  have le: "\<not> SpiNum_HSPI < n" using assms(2) by (simp add: SpiNum_HSPI_def not_less)
  note def = set_address_def SPIMasterCfgAddr_def Let_def
  show "spi_calm n t" "feed t = feed s" using assms(1) st le ok by (auto simp: def split: if_splits option.splits)
  show "p \<noteq> Reg (SPI_USER n) \<Longrightarrow> p \<noteq> Reg (SPI_USER1 n) \<Longrightarrow> p \<noteq> Reg (SPI_ADDR n) \<Longrightarrow> cur t p = cur s p" for p
    using st le ok by (auto simp: def split: if_splits option.splits)
  show "k \<noteq> 30 \<Longrightarrow> k < 32 \<Longrightarrow> bit (peri t (SPI_USER n)) k = bit (peri s (SPI_USER n)) k"
    using st le ok ne
    by (auto simp: def SPI_USR_ADDR_def bit_or_iff bit_and_iff bit_not_iff bit_BIT split: if_splits option.splits)
  show "bit (peri t (SPI_USER n)) 30 \<longleftrightarrow> addrLen d \<noteq> 0"
    using st le ok ne
    by (auto simp: def SPI_USR_ADDR_def bit_or_iff bit_and_iff bit_not_iff bit_BIT split: if_splits option.splits)
  assume c: "addrLen d \<noteq> 0"
  have fit: "take_bit 6 (bit_len (addrLen d)) = bit_len (addrLen d)"
    using assms(3) by (intro bit_len_fits c) simp
  have t1: "peri t (SPI_USER1 n) = (peri s (SPI_USER1 n) AND NOT (push_bit 26 (mask 6))) OR push_bit 26 (bit_len (addrLen d))"
    using st le ok ne c by (auto simp: def spi_field_masks SPI_USR_ADDR_BITLEN_S_def split: option.splits)
  have "take_bit 6 (drop_bit 26 (peri t (SPI_USER1 n))) = bit_len (addrLen d)"
    unfolding t1 by (subst field_insert) (simp_all add: fit)
  moreover have "addr d = Some (peri t (SPI_ADDR n))"
    using st le ok ne c by (auto simp: def split: option.splits)
  ultimately show "addr_bits n t = 8 * unat (addrLen d) \<and> addr d = Some (peri t (SPI_ADDR n))"
    using unat_bit_len [OF c] by (simp add: addr_bits_def)
qed

lemma word_count_bounds:
  assumes "k \<noteq> 0" and "unat k \<le> 64"
  shows "0 < word_count k" and "word_count k \<le> 16"
proof -
  define m where "m = unat k"
  have "0 < m" "m \<le> 64" using assms by (simp_all add: m_def unat_gt_0)
  then have "0 < m div 4 + (if m mod 4 \<noteq> 0 then 1 else 0)" "m div 4 + (if m mod 4 \<noteq> 0 then 1 else 0) \<le> 16"
    by presburger+
  then show "0 < word_count k" "word_count k \<le> 16" by (simp_all add: word_count_def m_def)
qed

lemma cur_CLEAR_other: "p \<noteq> Reg a \<Longrightarrow> cur (CLEAR_PERI_REG_MASK a m s) p = cur s p"
  by (auto simp: CLEAR_PERI_REG_MASK_def modify_reg_def READ_PERI_REG_def sample_def split: list.splits)

lemma set_address_ok:
  "addrLen d \<noteq> 0 \<longrightarrow> addr d \<noteq> None \<Longrightarrow> \<exists>a. set_address n d s = (True, a)"
  by (cases "addrLen d = 0") (auto simp: set_address_def Let_def)

lemma load_send_buffer_effect:
  assumes "n \<le> length vs" and "idx = of_nat i" and "i < n" and "n \<le> 64"
  shows "\<exists>t. load_send_buffer c n idx (drop i vs) s = Some t \<and> feed t = feed s
    \<and> (\<forall>j. i \<le> j \<and> j < n \<longrightarrow> peri t (SPI_W0 c + 4 * of_nat j) = vs ! j)
    \<and> (\<forall>p. (\<forall>j. i \<le> j \<and> j < n \<longrightarrow> p \<noteq> Reg (SPI_W0 c + 4 * of_nat j)) \<longrightarrow> cur t p = cur s p)"
  using assms
proof (induction "n - i" arbitrary: i idx s)
  case 0
  then show ?case by simp
next
  case (Suc k)
  have d: "drop i vs = vs ! i # drop (Suc i) vs"
    using Suc.prems by (intro Cons_nth_drop_Suc [symmetric]) simp
  have ix: "(ucast idx :: u32) = of_nat i"
    using Suc.prems by (simp add: unsigned_of_nat take_bit_nat_eq_self)
  have u: "unat (idx + 1) = Suc i"
    using Suc.prems unat_of_nat_small [of "Suc i", where 'a = 8] by (simp add: add.commute)
  let ?s = "WRITE_PERI_REG (SPI_W0 c + 4 * of_nat i) (vs ! i) s"
  show ?case
  proof (cases "Suc i < n")
    case True
    have e: "idx + 1 = of_nat (Suc i)" using Suc.prems(2) by (simp add: add.commute)
    have k: "k = n - Suc i" using Suc.hyps(2) by simp
    obtain t where
      t: "load_send_buffer c n (idx + 1) (drop (Suc i) vs) ?s = Some t" "feed t = feed s"
        "\<forall>j. Suc i \<le> j \<and> j < n \<longrightarrow> peri t (SPI_W0 c + 4 * of_nat j) = vs ! j"
        "\<forall>p. (\<forall>j. Suc i \<le> j \<and> j < n \<longrightarrow> p \<noteq> Reg (SPI_W0 c + 4 * of_nat j)) \<longrightarrow> cur t p = cur ?s p"
      using Suc.hyps(1) [OF k Suc.prems(1) e True Suc.prems(4), of ?s] by auto
    have "peri t (SPI_W0 c + 4 * of_nat i) = vs ! i"
      using t(4) w_index_inj [of i _ c] Suc.prems by auto
    moreover have "i \<le> j \<and> j < n \<longleftrightarrow> j = i \<or> (Suc i \<le> j \<and> j < n)" for j using True by auto
    ultimately show ?thesis
      using t True u ix by (auto simp: d push_bit_eq_mult mult.commute)
  next
    case False
    with Suc.prems have "n = Suc i" by simp
    with u ix show ?thesis by (auto simp: d push_bit_eq_mult mult.commute less_Suc_eq_le)
  qed
qed

text \<open>The data phase of sending, the start of the transfer and the wait for its end.\<close>

definition send_tail :: "u32 \<Rightarrow> SpiData \<Rightarrow> u32 list \<Rightarrow> mach \<Rightarrow> (int \<times> mach) option" where
  "send_tail n d vs s =
     Option.bind
       (map_option
         (SET_PERI_REG_BITS (SPI_USER1 n) SPI_USR_MOSI_BITLEN (bit_len (dataLen d)) SPI_USR_MOSI_BITLEN_S)
         (load_send_buffer n (word_count (dataLen d)) 0 vs
           (CLEAR_PERI_REG_MASK (SPI_USER n) SPI_USR_MISO (SET_PERI_REG_MASK (SPI_USER n) SPI_USR_MOSI s))))
       (\<lambda>s. map_option (\<lambda>s. (0, CLEAR_PERI_REG_MASK (SPI_SLAVE n) SPI_TRANS_DONE s))
          (wait_reg (SPI_SLAVE n) (\<lambda>v. v AND SPI_TRANS_DONE \<noteq> 0) (SET_PERI_REG_MASK (SPI_CMD n) SPI_USR s)))"

lemma ctl_ne:
  "SPI_USER n \<noteq> SPI_USER1 n" "SPI_USER n \<noteq> SPI_USER2 n" "SPI_USER n \<noteq> SPI_ADDR n"
  "SPI_USER1 n \<noteq> SPI_USER2 n" "SPI_USER1 n \<noteq> SPI_ADDR n" "SPI_USER2 n \<noteq> SPI_ADDR n"
  "SPI_CMD n \<noteq> SPI_USER n" "SPI_CMD n \<noteq> SPI_USER1 n" "SPI_CMD n \<noteq> SPI_USER2 n" "SPI_CMD n \<noteq> SPI_ADDR n"
  "SPI_SLAVE n \<noteq> SPI_USER n" "SPI_SLAVE n \<noteq> SPI_USER1 n" "SPI_SLAVE n \<noteq> SPI_USER2 n"
  "SPI_SLAVE n \<noteq> SPI_ADDR n" "SPI_SLAVE n \<noteq> SPI_CMD n"
  by (simp_all add: spi_reg_defs)

lemma load_buffer:
  assumes "0 < N" and "N \<le> 16" and "N \<le> length vs"
  obtains l where "load_send_buffer n N 0 vs b = Some l" "feed l = feed b"
      "\<And>j. j < N \<Longrightarrow> peri l (SPI_W0 n + 4 * of_nat j) = vs ! j"
      "\<And>i. N \<le> i \<Longrightarrow> i < 16 \<Longrightarrow> peri l (SPI_W0 n + 4 * of_nat i) = peri b (SPI_W0 n + 4 * of_nat i)"
      "\<And>r. (\<And>i. i < 16 \<Longrightarrow> SPI_W0 n + 4 * of_nat i \<noteq> r) \<Longrightarrow> peri l r = peri b r"
proof -
  from assms(2) have "N \<le> 64" by simp
  from load_send_buffer_effect [OF assms(3) _ assms(1) this, of 0 n b]
  obtain l where l: "load_send_buffer n N 0 vs b = Some l" "feed l = feed b"
      "\<forall>j. j < N \<longrightarrow> peri l (SPI_W0 n + 4 * of_nat j) = vs ! j"
      "\<And>p. \<forall>j. j < N \<longrightarrow> p \<noteq> Reg (SPI_W0 n + 4 * of_nat j) \<Longrightarrow> cur l p = cur b p"
    by auto
  have "peri l (SPI_W0 n + 4 * of_nat i) = peri b (SPI_W0 n + 4 * of_nat i)" if "N \<le> i" "i < 16" for i
    using that assms(2) w_index_inj [of i _ n] by (intro l(4)) auto
  moreover have "peri l r = peri b r" if "\<And>i. i < 16 \<Longrightarrow> SPI_W0 n + 4 * of_nat i \<noteq> r" for r
    using that assms(2) by (intro l(4)) (metis order_less_le_trans source.inject(1))
  ultimately show ?thesis using that [OF l(1,2)] l(3) by blast
qed

lemma send_tail_effect:
  assumes "spi_calm n a" and "dataLen d \<noteq> 0" and "unat (dataLen d) \<le> 64" and "word_count (dataLen d) \<le> length vs"
    and "wait_reg (SPI_SLAVE n) (\<lambda>v. v AND SPI_TRANS_DONE \<noteq> 0) a \<noteq> None"
    and "still (Reg (SPI_CMD n)) a"
  shows "\<exists>t. send_tail n d vs a = Some (0, t)
    \<and> spi_words n (word_count (dataLen d)) t = take (word_count (dataLen d)) vs
    \<and> (\<forall>i < 16. word_count (dataLen d) \<le> i \<longrightarrow> peri t (SPI_W0 n + 4 * of_nat i) = peri a (SPI_W0 n + 4 * of_nat i))
    \<and> mosi_bits n t = 8 * unat (dataLen d)
    \<and> (\<forall>k < 32. bit (peri t (SPI_USER n)) k = (k = 27 \<or> k \<noteq> 28 \<and> bit (peri a (SPI_USER n)) k))
    \<and> addr_bits n t = addr_bits n a \<and> peri t (SPI_USER2 n) = peri a (SPI_USER2 n)
    \<and> peri t (SPI_ADDR n) = peri a (SPI_ADDR n) \<and> bit (peri t (SPI_CMD n)) 18"
proof -
  let ?N = "word_count (dataLen d)" and ?U1 = "SPI_USER1 n"
  note N = word_count_bounds [OF assms(2,3)] and ne = ctl_ne [of n]
  define b where "b = CLEAR_PERI_REG_MASK (SPI_USER n) SPI_USR_MISO (SET_PERI_REG_MASK (SPI_USER n) SPI_USR_MOSI a)"
  have fb: "feed b = feed a"
    and cb: "cur b = (cur a)(Reg (SPI_USER n) := (peri a (SPI_USER n) OR SPI_USR_MOSI) AND NOT SPI_USR_MISO)"
    using assms(1) ne by (simp_all add: b_def)
  obtain l where l: "load_send_buffer n ?N 0 vs b = Some l" "feed l = feed b"
      "\<And>j. j < ?N \<Longrightarrow> peri l (SPI_W0 n + 4 * of_nat j) = vs ! j"
      "\<And>i. ?N \<le> i \<Longrightarrow> i < 16 \<Longrightarrow> peri l (SPI_W0 n + 4 * of_nat i) = peri b (SPI_W0 n + 4 * of_nat i)"
      "\<And>r. (\<And>i. i < 16 \<Longrightarrow> SPI_W0 n + 4 * of_nat i \<noteq> r) \<Longrightarrow> peri l r = peri b r"
    using load_buffer [OF N assms(4), of n b] by metis
  define f where "f = SET_PERI_REG_MASK (SPI_CMD n) SPI_USR
    (SET_PERI_REG_BITS ?U1 SPI_USR_MOSI_BITLEN (bit_len (dataLen d)) SPI_USR_MOSI_BITLEN_S l)"
  have ff: "feed f = feed a"
    and cf: "cur f = (cur l)(Reg ?U1 := (peri l ?U1 AND NOT (push_bit 17 (mask 9))) OR push_bit 17 (bit_len (dataLen d)),
        Reg (SPI_CMD n) := peri l (SPI_CMD n) OR SPI_USR)"
    using assms(1,6) ne l(2) fb
    by (simp_all add: f_def spi_field_masks SPI_USR_MOSI_BITLEN_S_def spi_calm_def still_def)
  have "peri f (SPI_SLAVE n) = peri a (SPI_SLAVE n)"
    using ne l(5) [OF w_index_ne(5)] by (simp add: cf cb)
  with assms(5) ff have "wait_reg (SPI_SLAVE n) (\<lambda>v. v AND SPI_TRANS_DONE \<noteq> 0) f \<noteq> None"
    by (simp only: wait_reg_ends)
  then obtain g where g: "wait_reg (SPI_SLAVE n) (\<lambda>v. v AND SPI_TRANS_DONE \<noteq> 0) f = Some g" by auto
  let ?t = "CLEAR_PERI_REG_MASK (SPI_SLAVE n) SPI_TRANS_DONE g"
  have ct: "cur ?t p = cur f p" if "p \<noteq> Reg (SPI_SLAVE n)" for p
    using wait_reg_SomeD [OF g] that by (simp add: cur_CLEAR_other)
  have len: "take_bit 9 (bit_len (dataLen d)) = bit_len (dataLen d)"
    using assms(3) by (intro bit_len_fits assms(2)) simp
  have u1: "peri ?t ?U1 = (peri a ?U1 AND NOT (push_bit 17 (mask 9))) OR push_bit 17 (bit_len (dataLen d))"
    using ne l(5) [OF w_index_ne(3)] by (simp add: ct cf cb)
  have "mosi_bits n ?t = 8 * unat (dataLen d)"
    unfolding mosi_bits_def u1 using unat_bit_len [OF assms(2)] by (subst field_insert) (simp_all add: len)
  moreover have "addr_bits n ?t = addr_bits n a"
    unfolding addr_bits_def u1 by (subst field_keep [OF len]) simp_all
  moreover have "send_tail n d vs a = Some (0, ?t)"
    using l(1) g by (simp add: send_tail_def b_def [symmetric] f_def [symmetric])
  moreover have "peri ?t (SPI_USER n) = (peri a (SPI_USER n) OR BIT 27) AND NOT (BIT 28)"
    using ne l(5) [OF w_index_ne(2)] by (simp add: ct cf cb SPI_USR_MOSI_def SPI_USR_MISO_def)
  moreover have tw: "peri ?t (SPI_W0 n + 4 * of_nat i) = peri l (SPI_W0 n + 4 * of_nat i)"
    and "peri b (SPI_W0 n + 4 * of_nat i) = peri a (SPI_W0 n + 4 * of_nat i)" if "i < 16" for i
    using w_index_ne [OF that, of n] by (simp_all add: ct cf cb)
  moreover have "spi_words n ?N ?t = take ?N vs"
    using tw l(3) N(2) assms(4) by (auto simp: spi_words_def intro!: nth_equalityI)
  ultimately show ?thesis
    using ne l(4) l(5) [OF w_index_ne(4)] l(5) [OF w_index_ne(6)]
    by (intro exI [of _ ?t])
      (auto simp: ct cf cb bit_or_iff bit_and_iff bit_not_iff bit_BIT SPI_USR_def)
qed

text \<open>
  C17. Sending, on a controller that is idle and will report the end of the transfer: 1 to 64
  bytes of data are loaded, rounded up to whole words, into W0 onwards and no further; the
  length fields hold the numbers of bits of data, command and address, the command and address
  phases are on exactly when their lengths are not 0, the transfer is started and 0 returned.
\<close>

theorem spi_send_loads_transfer:
  assumes "spi_calm n s" and "n \<le> 1" and "still (Reg (SPI_CMD n)) s \<and> \<not> bit (peri s (SPI_CMD n)) 18"
    and "wait_reg (SPI_SLAVE n) (\<lambda>v. v AND SPI_TRANS_DONE \<noteq> 0) s \<noteq> None"
    and "0 < dataLen d" and "dataLen d \<le> 64" and "data d = Some vs" and "word_count (dataLen d) \<le> length vs"
    and "unat (cmdLen d) \<le> 2" and "unat (addrLen d) \<le> 4" and "addrLen d \<noteq> 0 \<longrightarrow> addr d \<noteq> None"
  shows "\<exists>t. SPIMasterSendData n (Some d) s = Some (0, t)
    \<and> spi_words n (word_count (dataLen d)) t = take (word_count (dataLen d)) vs
    \<and> (\<forall>i < 16. word_count (dataLen d) \<le> i \<longrightarrow> peri t (SPI_W0 n + 4 * of_nat i) = peri s (SPI_W0 n + 4 * of_nat i))
    \<and> mosi_bits n t = 8 * unat (dataLen d)
    \<and> bit (peri t (SPI_USER n)) 27 \<and> \<not> bit (peri t (SPI_USER n)) 28
    \<and> bit (peri t (SPI_USER n)) 31 = (cmdLen d \<noteq> 0) \<and> bit (peri t (SPI_USER n)) 30 = (addrLen d \<noteq> 0)
    \<and> (cmdLen d \<noteq> 0 \<longrightarrow> cmd_bits n t = 8 * unat (cmdLen d) \<and> cmd_value n t = ucast (cmd d))
    \<and> (addrLen d \<noteq> 0 \<longrightarrow> addr_bits n t = 8 * unat (addrLen d) \<and> addr d = Some (peri t (SPI_ADDR n)))
    \<and> bit (peri t (SPI_CMD n)) 18"
proof -
  note ne = ctl_ne [of n]
  have d0: "dataLen d \<noteq> 0" and l64: "unat (dataLen d) \<le> 64"
    using assms(5,6) by (auto simp: word_le_nat_alt)
  define c where "c = set_command n d s"
  note c = set_command_effect [OF assms(1,2,9), folded c_def]
  obtain a where a: "set_address n d c = (True, a)"
    using set_address_ok assms(11) by blast
  note ad = set_address_effect [OF c(1) assms(2,10) a]
  have "peri a (SPI_SLAVE n) = peri s (SPI_SLAVE n)"
    using ne ad(3) [of "Reg (SPI_SLAVE n)"] c(3) [of "Reg (SPI_SLAVE n)"] by simp
  with assms(4) ad(2) c(2) have w: "wait_reg (SPI_SLAVE n) (\<lambda>v. v AND SPI_TRANS_DONE \<noteq> 0) a \<noteq> None"
    by (simp only: wait_reg_ends)
  have cmd: "still (Reg (SPI_CMD n)) a" using assms(3) ad(2) c(2) by (simp add: still_def)
  from send_tail_effect [OF ad(1) d0 l64 assms(8) w cmd] obtain t where t: "send_tail n d vs a = Some (0, t)"
    "spi_words n (word_count (dataLen d)) t = take (word_count (dataLen d)) vs"
    "\<forall>i < 16. word_count (dataLen d) \<le> i \<longrightarrow> peri t (SPI_W0 n + 4 * of_nat i) = peri a (SPI_W0 n + 4 * of_nat i)"
    "mosi_bits n t = 8 * unat (dataLen d)"
    "\<forall>k < 32. bit (peri t (SPI_USER n)) k = (k = 27 \<or> k \<noteq> 28 \<and> bit (peri a (SPI_USER n)) k)"
    "addr_bits n t = addr_bits n a" "peri t (SPI_USER2 n) = peri a (SPI_USER2 n)"
    "peri t (SPI_ADDR n) = peri a (SPI_ADDR n)" "bit (peri t (SPI_CMD n)) 18" by metis
  have w0: "wait_spi n s = Some s"
    using assms(3) by (intro wait_spi_idle) simp_all
  have le: "\<not> SpiNum_HSPI < n" "\<not> 64 < dataLen d"
    using assms(2,6) by (simp_all add: SpiNum_HSPI_def not_less)
  have res: "SPIMasterSendData n (Some d) s = Some (0, t)"
    using w0 le a assms(7) d0 t(1) by (simp add: SPIMasterSendData_def send_tail_def c_def [symmetric])
  have W: "peri a (SPI_W0 n + 4 * of_nat i) = peri s (SPI_W0 n + 4 * of_nat i)" if "i < 16" for i
    using w_index_ne [OF that, of n] ad(3) c(3) by simp
  have "peri a (SPI_USER2 n) = peri c (SPI_USER2 n)"
    using ne ad(3) [of "Reg (SPI_USER2 n)"] by simp
  with res t W ad(4) [of 31] ad(5,6) c(4,5) show ?thesis
    by (auto simp: cmd_bits_def cmd_value_def)
qed

definition send_frame :: SpiData where
  "send_frame = \<lparr>cmd = 2, cmdLen = 1, addr = Some 0, addrLen = 1, data = Some [0x04030201, 5], dataLen = 5\<rparr>"

definition hspi_done :: mach where
  "hspi_done = mach0\<lparr>cur := (cur mach0)(Reg (SPI_SLAVE (1 :: u32)) := 0x10)\<rparr>"

theorem spi_send_loads_transfer_witness:
  "\<exists>t. SPIMasterSendData 1 (Some send_frame) hspi_done = Some (0, t) \<and> mosi_bits 1 t = 40
     \<and> spi_words (1 :: u32) 2 t = [0x04030201, 5]"
proof -
  have wc: "word_count 5 = 2" by (simp add: word_count_def)
  have "still (Reg a) hspi_done" for a by (simp add: hspi_done_def still_def)
  then have "spi_calm 1 hspi_done" and "wait_reg (SPI_SLAVE (1 :: u32)) (\<lambda>v. v AND SPI_TRANS_DONE \<noteq> 0) hspi_done \<noteq> None"
    by (simp_all add: spi_calm_def wait_reg_still SPI_TRANS_DONE_def BIT_and_eq_0_iff) (simp add: hspi_done_def)
  moreover have "still (Reg (SPI_CMD (1 :: u32))) hspi_done \<and> \<not> bit (peri hspi_done (SPI_CMD (1 :: u32))) 18"
    by (simp add: hspi_done_def spi_reg_defs still_def)
  ultimately show ?thesis
    using spi_send_loads_transfer [of 1 hspi_done send_frame "[0x04030201, 5]"] wc
    by (auto simp: send_frame_def)
qed

lemma read_recv_buffer_effect:
  assumes "\<forall>j. i \<le> j \<and> j < word_count len \<longrightarrow> still (Reg (SPI_W0 c + 4 * of_nat j)) s"
    and "idx = of_nat i" and "i < word_count len" and "word_count len \<le> length buf"
  shows "read_recv_buffer c len idx buf s =
    Some (take i buf @ map (\<lambda>j. peri s (SPI_W0 c + 4 * of_nat j)) [i..<word_count len] @ drop (word_count len) buf, s)"
  using assms
proof (induction "word_count len - i" arbitrary: i idx buf)
  case 0
  then show ?case by simp
next
  case (Suc k)
  note le = word_count_le [of len]
  have ix: "(ucast idx :: u32) = of_nat i"
    using Suc.prems le by (simp add: unsigned_of_nat take_bit_nat_eq_self)
  have u: "unat idx = i" "unat (idx + 1) = Suc i"
    using Suc.prems le unat_of_nat_small [of "Suc i", where 'a = 8] unat_of_nat_small [of i, where 'a = 8]
    by (simp_all add: add.commute)
  let ?v = "peri s (SPI_W0 c + 4 * of_nat i)"
  have st: "still (Reg (SPI_W0 c + of_nat i * 4)) s" using Suc.prems by (simp add: mult.commute)
  have up: "[i..<word_count len] = i # [Suc i..<word_count len]" using Suc.prems(3) by (simp add: upt_conv_Cons)
  have tk: "take (Suc i) (buf[i := ?v]) = take i buf @ [?v]"
    using Suc.prems(3,4) by (simp add: take_Suc_conv_app_nth)
  show ?case
  proof (cases "Suc i < word_count len")
    case True
    have e: "idx + 1 = of_nat (Suc i)" using Suc.prems(2) by (simp add: add.commute)
    have "k = word_count len - Suc i" using Suc.hyps(2) by simp
    from Suc.hyps(1) [OF this _ e True, of "buf[i := ?v]"] Suc.prems(1,4) tk
    have "read_recv_buffer c len (idx + 1) (buf[i := ?v]) s = Some (take i buf @ [?v] @
        map (\<lambda>j. peri s (SPI_W0 c + 4 * of_nat j)) [Suc i..<word_count len] @ drop (word_count len) buf, s)"
      using True by simp
    with True u ix st up Suc.prems show ?thesis
      by (subst read_recv_buffer.simps) (simp add: push_bit_eq_mult mult.commute)
  next
    case False
    with Suc.prems have "word_count len = Suc i" by simp
    with u ix st Suc.prems(4) tk show ?thesis
      by (subst read_recv_buffer.simps) (simp add: push_bit_eq_mult mult.commute upd_conv_take_nth_drop)
  qed
qed

text \<open>The registers as the data phase of receiving leaves them before the transfer starts.\<close>

definition recv_setup :: "u32 \<Rightarrow> SpiData \<Rightarrow> mach \<Rightarrow> mach" where
  "recv_setup n d s =
     SET_PERI_REG_BITS (SPI_USER1 n) SPI_USR_MISO_BITLEN (bit_len (dataLen d)) SPI_USR_MISO_BITLEN_S
       (SET_PERI_REG_MASK (SPI_USER n) SPI_USR_MISO (CLEAR_PERI_REG_MASK (SPI_USER n) SPI_USR_MOSI s))"

lemma recv_setup_effect:
  assumes "spi_calm n s" and "dataLen d \<noteq> 0" and "unat (dataLen d) \<le> 64"
  defines "t \<equiv> recv_setup n d s"
  shows "spi_calm n t" and "feed t = feed s"
    and "\<And>p. p \<noteq> Reg (SPI_USER n) \<Longrightarrow> p \<noteq> Reg (SPI_USER1 n) \<Longrightarrow> cur t p = cur s p"
    and "miso_bits n t = 8 * unat (dataLen d)"
    and "bit (peri t (SPI_USER n)) 28" and "\<not> bit (peri t (SPI_USER n)) 27"
proof -
  note ne = ctl_ne [of n]
  show "spi_calm n t" using assms(1) by (simp add: t_def recv_setup_def)
  show "feed t = feed s" "bit (peri t (SPI_USER n)) 28" "\<not> bit (peri t (SPI_USER n)) 27"
    using assms(1) ne
    by (simp_all add: t_def recv_setup_def bit_or_iff bit_and_iff bit_not_iff bit_BIT SPI_USR_MISO_def SPI_USR_MOSI_def)
  show "p \<noteq> Reg (SPI_USER n) \<Longrightarrow> p \<noteq> Reg (SPI_USER1 n) \<Longrightarrow> cur t p = cur s p" for p
    using assms(1) ne by (simp add: t_def recv_setup_def)
  have len: "take_bit 9 (bit_len (dataLen d)) = bit_len (dataLen d)"
    using assms(3) by (intro bit_len_fits assms(2)) simp
  have u1: "peri t (SPI_USER1 n) =
      (peri s (SPI_USER1 n) AND NOT (push_bit 8 (mask 9))) OR push_bit 8 (bit_len (dataLen d))"
    using assms(1) ne by (simp add: t_def recv_setup_def spi_field_masks SPI_USR_MISO_BITLEN_S_def)
  show "miso_bits n t = 8 * unat (dataLen d)"
    unfolding miso_bits_def u1 using unat_bit_len [OF assms(2)] by (subst field_insert) (simp_all add: len)
qed

text \<open>Starting the transfer and waiting for its end, when the command register shows busy for a while.\<close>

lemma start_and_wait:
  assumes "feed s (Reg (SPI_CMD n)) = c1 # busy @ [c2]" and "\<not> bit c2 18"
  shows "\<exists>t. wait_spi n (SET_PERI_REG_MASK (SPI_CMD n) SPI_USR s) = Some t
    \<and> (\<forall>p. p \<noteq> Reg (SPI_CMD n) \<longrightarrow> cur t p = cur s p \<and> feed t p = feed s p)"
proof -
  let ?s = "SET_PERI_REG_MASK (SPI_CMD n) SPI_USR s"
  have f: "feed ?s (Reg (SPI_CMD n)) = busy @ [c2]"
    and o: "\<And>p. p \<noteq> Reg (SPI_CMD n) \<Longrightarrow> cur ?s p = cur s p \<and> feed ?s p = feed s p"
    using assms(1) by (simp_all add: SET_PERI_REG_MASK_def modify_reg_def READ_PERI_REG_def sample_feed)
  have "wait_reg (SPI_CMD n) (\<lambda>v. v AND SPI_USR = 0) ?s \<noteq> None"
    unfolding wait_reg_ends using f assms(2) by (simp add: SPI_USR_def BIT_and_eq_0_iff)
  then obtain t where t: "wait_reg (SPI_CMD n) (\<lambda>v. v AND SPI_USR = 0) ?s = Some t" by auto
  with wait_reg_SomeD [OF t] o show ?thesis by (auto simp: wait_spi_def)
qed

text \<open>
  Receiving 1 to 64 bytes, on a controller that is idle, then busy for any number of
  polls, then idle again: the call returns 0 and the buffer starts with the words of the data
  registers, one for each four bytes begun, the rest of the buffer being as before; only the
  buffer of the package changes. Reading back what the send function loaded gives
  the data sent.
\<close>

theorem spi_recv_reads_words:
  assumes "spi_calm n s" and "n \<le> 1" and "feed s (Reg (SPI_CMD n)) = c0 # c1 # busy @ [c2]"
    and "\<not> bit c0 18" and "\<not> bit c2 18"
    and "0 < dataLen d" and "dataLen d \<le> 64" and "data d = Some buf" and "word_count (dataLen d) \<le> length buf"
    and "unat (cmdLen d) \<le> 2" and "unat (addrLen d) \<le> 4" and "addrLen d \<noteq> 0 \<longrightarrow> addr d \<noteq> None"
  shows "\<exists>t. SPIMasterRecvData n (Some d) s =
      Some (0, Some (d\<lparr>data := Some (spi_words n (word_count (dataLen d)) s @ drop (word_count (dataLen d)) buf)\<rparr>), t)
    \<and> miso_bits n t = 8 * unat (dataLen d)
    \<and> bit (peri t (SPI_USER n)) 28 \<and> \<not> bit (peri t (SPI_USER n)) 27"
proof -
  note ne = ctl_ne [of n]
  have d0: "dataLen d \<noteq> 0" and l64: "unat (dataLen d) \<le> 64"
    using assms(6,7) by (auto simp: word_le_nat_alt)
  note N = word_count_bounds [OF d0 l64]
  define s1 where "s1 = s\<lparr>cur := (cur s)(Reg (SPI_CMD n) := c0), feed := (feed s)(Reg (SPI_CMD n) := c1 # busy @ [c2])\<rparr>"
  have w0: "wait_spi n s = Some s1"
    using wait_reg_feed [OF assms(3), of "\<lambda>v. v AND SPI_USR = 0"] assms(4)
    by (simp add: wait_spi_def s1_def SPI_USR_def BIT_and_eq_0_iff)
  have calm1: "spi_calm n s1" using assms(1) by (simp add: s1_def spi_calm_def still_def)
  define c where "c = set_command n d s1"
  note c = set_command_effect [OF calm1 assms(2,10), folded c_def]
  obtain a where a: "set_address n d c = (True, a)"
    using set_address_ok assms(12) by blast
  note ad = set_address_effect [OF c(1) assms(2,11) a]
  note b = recv_setup_effect [OF ad(1) d0 l64]
  have "feed (recv_setup n d a) (Reg (SPI_CMD n)) = c1 # busy @ [c2]"
    using b(2) ad(2) c(2) by (simp add: s1_def)
  from start_and_wait [OF this assms(5)] obtain t where
    t: "wait_spi n (SET_PERI_REG_MASK (SPI_CMD n) SPI_USR (recv_setup n d a)) = Some t"
      "\<forall>p. p \<noteq> Reg (SPI_CMD n) \<longrightarrow> cur t p = cur (recv_setup n d a) p \<and> feed t p = feed (recv_setup n d a) p"
    by auto
  have W: "peri t (SPI_W0 n + 4 * of_nat i) = peri s (SPI_W0 n + 4 * of_nat i)
      \<and> still (Reg (SPI_W0 n + 4 * of_nat i)) t" if "i < 16" for i
    using w_index_ne [OF that, of n] t(2) b(3) ad(3) c(3) b(1)
    by (simp add: s1_def still_def spi_calm_def)
  have "read_recv_buffer n (dataLen d) 0 buf t =
      Some (spi_words n (word_count (dataLen d)) s @ drop (word_count (dataLen d)) buf, t)"
    using read_recv_buffer_effect [of 0 "dataLen d" n t 0 buf] W N assms(9) by (simp add: spi_words_def)
  moreover have "\<not> SpiNum_HSPI < n" using assms(2) by (simp add: SpiNum_HSPI_def not_less)
  ultimately have "SPIMasterRecvData n (Some d) s =
      Some (0, Some (d\<lparr>data := Some (spi_words n (word_count (dataLen d)) s @ drop (word_count (dataLen d)) buf)\<rparr>), t)"
    using w0 a d0 assms(8) t(1)
    by (simp add: SPIMasterRecvData_def c_def [symmetric] recv_setup_def [symmetric])
  with b(4-6) t(2) ne show ?thesis by (simp add: miso_bits_def)
qed

definition hspi_answering :: mach where
  "hspi_answering = mach0\<lparr>cur := (cur mach0)(Reg (SPI_W0 (1 :: u32)) := 0x2A),
     feed := (feed mach0)(Reg (SPI_CMD (1 :: u32)) := [0, 0, SPI_USR, SPI_USR, 0])\<rparr>"

theorem spi_recv_reads_words_witness:
  "\<exists>t. SPIMasterRecvData 1
        (Some \<lparr>cmd = 3, cmdLen = 1, addr = None, addrLen = 0, data = Some [7, 7], dataLen = 3\<rparr>) hspi_answering
     = Some (0, Some \<lparr>cmd = 3, cmdLen = 1, addr = None, addrLen = 0, data = Some [0x2A, 7], dataLen = 3\<rparr>, t)"
proof -
  let ?d = "\<lparr>cmd = 3, cmdLen = 1, addr = None, addrLen = 0, data = Some [7, 7], dataLen = 3\<rparr>"
  have "spi_calm 1 hspi_answering" by (simp add: spi_calm_def hspi_answering_def still_def)
  moreover have "feed hspi_answering (Reg (SPI_CMD (1 :: u32))) = 0 # 0 # [SPI_USR, SPI_USR] @ [0]"
    by (simp add: hspi_answering_def)
  moreover have "word_count 3 = 1" by (simp add: word_count_def)
  moreover have "spi_words (1 :: u32) 1 hspi_answering = [0x2A]" by (simp add: spi_words_def hspi_answering_def)
  ultimately show ?thesis
    using spi_recv_reads_words [of 1 hspi_answering 0 0 "[SPI_USR, SPI_USR]" 0 ?d "[7, 7]"] by auto
qed

section \<open>What the interrupt and chip select functions do\<close>

text \<open>
  Disabling an interrupt source clears the source flag itself and not the enable bit five
  positions higher, so that a source that was enabled stays enabled.
\<close>

lemma int_disable_keeps_enable_bit:
  assumes "quiet s" and "n \<le> 1" and "k < 5"
  shows "bit (peri (SPIIntDisable n (BIT k) (SPIIntEnable n (BIT k) s)) (SPI_SLAVE n)) (k + 5)"
  using assms
  by (simp add: SPIIntDisable_def SPIIntEnable_def not_less [symmetric] SpiNum_HSPI_def
      bit_and_iff bit_or_iff bit_not_iff bit_BIT bit_push_bit_iff)

text \<open>
  Selecting a chip select line clears the bits of lines 0 and 1 before it sets the bit of the
  new line, but never that of line 2.
\<close>

lemma cs_2_stays:
  assumes "quiet s" and "n \<le> 1"
  shows "take_bit 3 (peri (SPICsPinSelect n SpiPinCS_0 (SPICsPinSelect n SpiPinCS_2 s)) (SPI_PIN n)) = 5"
proof -
  have "k < 3 \<longleftrightarrow> k = 0 \<or> k = 1 \<or> k = (2 :: nat)" for k by auto
  then show ?thesis
    using assms
    by (intro bit_word_eqI)
      (auto simp: SPICsPinSelect_def not_less [symmetric] SpiNum_HSPI_def SpiPinCS_0_def SpiPinCS_2_def
        bit_and_iff bit_or_iff bit_not_iff bit_take_bit_iff)
qed

end
