(* ===== verification/SpiOverlap.thy ===== *)
theory SpiOverlap
  imports Spi
begin

text \<open>
  The overlap driver (driver/spi_overlap.c): the HSPI controller shares the pins of the flash
  with up to two more devices or serves a device of its own; one of the four is selected at a
  time, and the flash can be read through it.
\<close>

section \<open>State (spi_overlap.h)\<close>

definition HOST_INF_SEL :: u32 where [reg_simps]: "HOST_INF_SEL = 0x3ff00028"
definition reg_cspi_overlap :: u32 where [reg_simps]: "reg_cspi_overlap = BIT 7"
definition FUNC_SPI_CS1 :: u32 where "FUNC_SPI_CS1 = 1"
definition FUNC_SPI_CS2 :: u32 where "FUNC_SPI_CS2 = 1"
definition SPI_FLASH_BYTES_LEN :: nat where "SPI_FLASH_BYTES_LEN = 24"
definition SPI_BUFF_BYTE_NUM :: u32 where "SPI_BUFF_BYTE_NUM = 32"
definition SPI_FLASH_READ_MODE_MASK :: u32 where "SPI_FLASH_READ_MODE_MASK = 0x196000"

definition HSPI_CS_DEV :: u8 where "HSPI_CS_DEV = 0"
definition SPI_CS1_DEV :: u8 where "SPI_CS1_DEV = 1"
definition SPI_CS2_DEV :: u8 where "SPI_CS2_DEV = 2"
definition SPI_CS0_FLASH :: u8 where "SPI_CS0_FLASH = 3"
definition HSPI_IDLE :: u8 where "HSPI_IDLE = 4"

lemmas dev_defs = HSPI_CS_DEV_def SPI_CS1_DEV_def SPI_CS2_DEV_def SPI_CS0_FLASH_def HSPI_IDLE_def

record hspi_device_config =
  active :: bool
  clk_polar :: bool
  clk_div :: u8

record hspi_device_register =
  hspi_flash_reg_backup :: "u32 list"
  hspi_dev_reg_backup :: "u32 list"
  hspi_dev_conf :: "hspi_device_config list"
  selected_dev_num :: u8
  spi_io_80m :: bool
  hspi_reg_backup_flag :: bool

record overlap =
  hspi_dev_reg :: hspi_device_register
  ovl_hw :: mach

section \<open>Macros\<close>

text \<open>
  \<open>WAIT_HSPI_IDLE\<close> polls two registers; the second is read only when the first is 0. It never
  ends when the value that keeps it busy is the last one its register shows.
\<close>

function WAIT_HSPI_IDLE :: "mach \<Rightarrow> mach option" where
  "WAIT_HSPI_IDLE s =
     (case READ_PERI_REG (SPI_EXT2 HSPI) s of (v, s1) \<Rightarrow>
        if v \<noteq> 0 then
          (if still (Reg (SPI_EXT2 HSPI)) s then None else WAIT_HSPI_IDLE s1)
        else
          (case READ_PERI_REG (SPI_CMD HSPI) s1 of (w, s2) \<Rightarrow>
             if w AND 0xfffc0000 \<noteq> 0 then
               (if still (Reg (SPI_EXT2 HSPI)) s \<and> still (Reg (SPI_CMD HSPI)) s then None
                else WAIT_HSPI_IDLE s2)
             else Some s2))"
  by pat_completeness auto

lemma read_feed:
  "READ_PERI_REG a s = (v, s') \<Longrightarrow> feed s' (Reg a) = tl (feed s (Reg a)) \<and> (\<forall>p. p \<noteq> Reg a \<longrightarrow> feed s' p = feed s p)"
  by (auto simp: READ_PERI_REG_def sample_def split: list.splits)

lemma ext2_ne_cmd: "SPI_EXT2 n \<noteq> SPI_CMD n"
  by (simp add: spi_reg_defs)

definition busy_polls :: "mach \<Rightarrow> nat" where
  "busy_polls s = length (feed s (Reg (SPI_EXT2 HSPI))) + length (feed s (Reg (SPI_CMD HSPI)))"

lemma polls_ext2:
  assumes "(v, s1) = READ_PERI_REG (SPI_EXT2 HSPI) s" and "\<not> still (Reg (SPI_EXT2 HSPI)) s"
  shows "busy_polls s1 < busy_polls s"
  using read_feed [OF assms(1) [symmetric]] assms(2) ext2_ne_cmd [of HSPI]
  by (auto simp: busy_polls_def still_def)

lemma polls_cmd:
  assumes "(v, s1) = READ_PERI_REG (SPI_EXT2 HSPI) s" and "(w, s2) = READ_PERI_REG (SPI_CMD HSPI) s1"
    and "\<not> (still (Reg (SPI_EXT2 HSPI)) s \<and> still (Reg (SPI_CMD HSPI)) s)"
  shows "busy_polls s2 < busy_polls s"
  using read_feed [OF assms(1) [symmetric]] read_feed [OF assms(2) [symmetric]] assms(3) ext2_ne_cmd [of HSPI]
  by (cases "feed s (Reg (SPI_EXT2 HSPI))"; cases "feed s (Reg (SPI_CMD HSPI))") (auto simp: busy_polls_def still_def)

termination WAIT_HSPI_IDLE
  by (relation "measure busy_polls") (auto intro: polls_ext2 polls_cmd)

declare WAIT_HSPI_IDLE.simps [simp del]

definition CONF_HSPI_CLK_DIV :: "u8 \<Rightarrow> mach \<Rightarrow> mach" where
  "CONF_HSPI_CLK_DIV dv s =
     WRITE_PERI_REG (SPI_CLOCK HSPI)
       (push_bit 12 (push_bit 1 (ucast dv) + 1) + push_bit 6 (ucast dv) + push_bit 1 (ucast dv) + 1) s"

definition HSPI_FALLING_EDGE_SAMPLE :: "mach \<Rightarrow> mach" where
  "HSPI_FALLING_EDGE_SAMPLE s = SET_PERI_REG_MASK (SPI_USER HSPI) SPI_CK_OUT_EDGE s"

definition HSPI_RISING_EDGE_SAMPLE :: "mach \<Rightarrow> mach" where
  "HSPI_RISING_EDGE_SAMPLE s = CLEAR_PERI_REG_MASK (SPI_USER HSPI) SPI_CK_OUT_EDGE s"

definition ACTIVE_HSPI_CS0 :: "mach \<Rightarrow> mach" where
  "ACTIVE_HSPI_CS0 s =
     SET_PERI_REG_MASK (SPI_PIN HSPI) (SPI_CS1_DIS OR SPI_CS2_DIS) (CLEAR_PERI_REG_MASK (SPI_PIN HSPI) SPI_CS0_DIS s)"

definition ACTIVE_HSPI_CS1 :: "mach \<Rightarrow> mach" where
  "ACTIVE_HSPI_CS1 s =
     SET_PERI_REG_MASK (SPI_PIN HSPI) (SPI_CS0_DIS OR SPI_CS2_DIS) (CLEAR_PERI_REG_MASK (SPI_PIN HSPI) SPI_CS1_DIS s)"

definition ACTIVE_HSPI_CS2 :: "mach \<Rightarrow> mach" where
  "ACTIVE_HSPI_CS2 s =
     SET_PERI_REG_MASK (SPI_PIN HSPI) (SPI_CS0_DIS OR SPI_CS1_DIS) (CLEAR_PERI_REG_MASK (SPI_PIN HSPI) SPI_CS2_DIS s)"

definition ENABLE_HSPI_DEV_CS :: "mach \<Rightarrow> mach" where
  "ENABLE_HSPI_DEV_CS s = PIN_FUNC_SELECT PERIPHS_IO_MUX_MTDO_U 2 s"

definition DISABLE_HSPI_DEV_CS :: "mach \<Rightarrow> mach" where
  "DISABLE_HSPI_DEV_CS s = PIN_FUNC_SELECT PERIPHS_IO_MUX_MTDO_U FUNC_GPIO15 (GPIO_OUTPUT_SET 15 1 s)"

section \<open>Overlap mode, back-up and recovery\<close>

definition hspi_overlap_init :: "mach \<Rightarrow> mach" where
  "hspi_overlap_init s =
    (let s = SET_PERI_REG_MASK HOST_INF_SEL reg_cspi_overlap s;
         s = SET_PERI_REG_MASK (SPI_EXT3 SPI) 0x1 s;
         s = SET_PERI_REG_MASK (SPI_EXT3 HSPI) 0x3 s
     in SET_PERI_REG_MASK (SPI_USER HSPI) (BIT 5) s)"

definition hspi_overlap_deinit :: "mach \<Rightarrow> mach" where
  "hspi_overlap_deinit s =
    (let s = CLEAR_PERI_REG_MASK HOST_INF_SEL reg_cspi_overlap s;
         s = CLEAR_PERI_REG_MASK (SPI_EXT3 SPI) 0x1 s;
         s = CLEAR_PERI_REG_MASK (SPI_EXT3 HSPI) 0x3 s
     in CLEAR_PERI_REG_MASK (SPI_USER HSPI) (BIT 5) s)"

text \<open>The nine words, at the indices PERIPHS_IO_MUX_BACKUP to SPI_SLAVE_BACKUP.\<close>

definition backup_regs :: "u8 \<Rightarrow> u32 list" where
  "backup_regs spi_no =
     [PERIPHS_IO_MUX, SPI_USER spi_no, SPI_CTRL spi_no, SPI_CLOCK spi_no, SPI_USER1 spi_no,
      SPI_USER2 spi_no, SPI_CMD spi_no, SPI_PIN spi_no, SPI_SLAVE spi_no]"

fun read_all :: "u32 list \<Rightarrow> mach \<Rightarrow> u32 list \<times> mach" where
  "read_all [] s = ([], s)"
| "read_all (a # as) s =
     (case READ_PERI_REG a s of (v, s) \<Rightarrow> case read_all as s of (vs, s) \<Rightarrow> (v # vs, s))"

definition spi_reg_backup :: "u8 \<Rightarrow> u32 list \<Rightarrow> mach \<Rightarrow> u32 list \<times> mach" where
  "spi_reg_backup spi_no backup_mem s =
    (if spi_no > 1 then (backup_mem, s) else read_all (backup_regs spi_no) s)"

definition spi_reg_recover :: "u8 \<Rightarrow> u32 list \<Rightarrow> mach \<Rightarrow> mach" where
  "spi_reg_recover spi_no backup_mem s =
    (if spi_no > 1 then s
     else
       (let s = WRITE_PERI_REG (SPI_USER spi_no) (backup_mem ! 1) s;
            s = WRITE_PERI_REG (SPI_CTRL spi_no) (backup_mem ! 2) s;
            s = WRITE_PERI_REG (SPI_CLOCK spi_no) (backup_mem ! 3) s;
            s = WRITE_PERI_REG (SPI_USER1 spi_no) (backup_mem ! 4) s;
            s = WRITE_PERI_REG (SPI_USER2 spi_no) (backup_mem ! 5) s;
            s = WRITE_PERI_REG (SPI_CMD spi_no) (backup_mem ! 6) s
        in WRITE_PERI_REG (SPI_PIN spi_no) (backup_mem ! 7) s))"

section \<open>Devices\<close>

definition on_ovl :: "(mach \<Rightarrow> mach) \<Rightarrow> overlap \<Rightarrow> overlap" where
  "on_ovl f st = st\<lparr>ovl_hw := f (ovl_hw st)\<rparr>"

text \<open>The first call copies the flash configuration and keeps both register images.\<close>

definition first_dev_init :: "overlap \<Rightarrow> overlap" where
  "first_dev_init st =
    (let r = hspi_dev_reg st;
         (v, s) = READ_PERI_REG PERIPHS_IO_MUX (ovl_hw st);
         (r, s) = (if v AND BIT 8 \<noteq> 0
                   then (r\<lparr>spi_io_80m := True\<rparr>, SET_PERI_REG_MASK (SPI_CLOCK HSPI) SPI_CLK_EQU_SYSCLK s)
                   else (r\<lparr>spi_io_80m := False\<rparr>, CLEAR_PERI_REG_MASK (SPI_CLOCK HSPI) SPI_CLK_EQU_SYSCLK s));
         (w, s) = READ_PERI_REG (SPI_CTRL SPI) s;
         regtemp = w AND SPI_FLASH_READ_MODE_MASK;
         s = CLEAR_PERI_REG_MASK (SPI_CTRL HSPI) SPI_FLASH_READ_MODE_MASK s;
         s = SET_PERI_REG_MASK (SPI_CTRL HSPI) regtemp s;
         (fb, s) = spi_reg_backup HSPI (hspi_flash_reg_backup r) s;
         s = spi_master_init HSPI s;
         (db, s) = spi_reg_backup HSPI (hspi_dev_reg_backup r) s
     in \<lparr>hspi_dev_reg = r\<lparr>hspi_flash_reg_backup := fb, hspi_dev_reg_backup := db,
           hspi_reg_backup_flag := True, selected_dev_num := HSPI_IDLE\<rparr>, ovl_hw = s\<rparr>)"

definition dev_pins :: "u8 \<Rightarrow> bool \<Rightarrow> mach \<Rightarrow> mach" where
  "dev_pins dev_no io80 s =
    (if dev_no = HSPI_CS_DEV then
       (let s = PIN_FUNC_SELECT PERIPHS_IO_MUX_MTDI_U 2 s;
            s = PIN_FUNC_SELECT PERIPHS_IO_MUX_MTCK_U 2 s;
            s = PIN_FUNC_SELECT PERIPHS_IO_MUX_MTMS_U 2 s;
            s = PIN_FUNC_SELECT PERIPHS_IO_MUX_MTDO_U 2 s
        in CLEAR_PERI_REG_MASK PERIPHS_IO_MUX (BIT 9) s)
     else if dev_no = SPI_CS1_DEV then
       (let s = PIN_FUNC_SELECT PERIPHS_IO_MUX_U0TXD_U FUNC_SPI_CS1 s
        in if io80 then emit (Print ''SPI CS1 device must work at 80Mhz'' []) s else s)
     else if dev_no = SPI_CS2_DEV then
       (let s = PIN_FUNC_SELECT PERIPHS_IO_MUX_GPIO0_U FUNC_SPI_CS2 s
        in if io80 then emit (Print ''SPI CS2 device must work at 80Mhz'' []) s else s)
     else s)"

definition hspi_master_dev_init :: "u8 \<Rightarrow> u8 \<Rightarrow> u8 \<Rightarrow> overlap \<Rightarrow> overlap option" where
  "hspi_master_dev_init dev_no polar dv st =
    (if dev_no > 3 \<or> polar > 1 \<or> dv > 0x1f then
       Some (on_ovl (emit (Print ''hspi_master_dev_init parameter is out of range!'' [])) st)
     else
       map_option (\<lambda>s.
           let st = st\<lparr>ovl_hw := s\<rparr>;
               st = (if hspi_reg_backup_flag (hspi_dev_reg st) then st else first_dev_init st);
               r = hspi_dev_reg st;
               r = r\<lparr>hspi_dev_conf := (hspi_dev_conf r)[unat dev_no :=
                      \<lparr>active = True, clk_polar = (polar \<noteq> 0), clk_div = dv\<rparr>]\<rparr>
           in \<lparr>hspi_dev_reg = r, ovl_hw = dev_pins dev_no (spi_io_80m r) (ovl_hw st)\<rparr>)
         (WAIT_HSPI_IDLE (ovl_hw st)))"

section \<open>Selection\<close>

definition sel_conf :: "hspi_device_register \<Rightarrow> u8 \<Rightarrow> hspi_device_config" where
  "sel_conf r dev_no = hspi_dev_conf r ! unat dev_no"

definition sel_edge :: "hspi_device_register \<Rightarrow> u8 \<Rightarrow> mach \<Rightarrow> mach" where
  "sel_edge r dev_no s =
    (if clk_polar (sel_conf r dev_no) then HSPI_FALLING_EDGE_SAMPLE s else HSPI_RISING_EDGE_SAMPLE s)"

text \<open>The clock of a device on the flash pins: the system clock when the flash runs at 80 MHz.\<close>

definition sel_clock :: "hspi_device_register \<Rightarrow> u8 \<Rightarrow> mach \<Rightarrow> mach" where
  "sel_clock r dev_no s =
    (if spi_io_80m r then SET_PERI_REG_MASK (SPI_CLOCK HSPI) SPI_CLK_EQU_SYSCLK s
     else CONF_HSPI_CLK_DIV (clk_div (sel_conf r dev_no)) s)"

definition flash_clock :: "hspi_device_register \<Rightarrow> mach \<Rightarrow> mach" where
  "flash_clock r s =
    (if spi_io_80m r then SET_PERI_REG_MASK (SPI_CLOCK HSPI) SPI_CLK_EQU_SYSCLK s else s)"

definition sel_cs :: "u8 \<Rightarrow> mach \<Rightarrow> mach" where
  "sel_cs dev_no s = (if dev_no = SPI_CS1_DEV then ACTIVE_HSPI_CS1 s else ACTIVE_HSPI_CS2 s)"

abbreviation is_cs12 :: "u8 \<Rightarrow> bool" where
  "is_cs12 d \<equiv> d = SPI_CS1_DEV \<or> d = SPI_CS2_DEV"

definition from_hspi_dev :: "hspi_device_register \<Rightarrow> u8 \<Rightarrow> mach \<Rightarrow> mach option" where
  "from_hspi_dev r d s =
    (if is_cs12 d then
       map_option (\<lambda>s. sel_cs d (sel_edge r d (sel_clock r d (hspi_overlap_init (DISABLE_HSPI_DEV_CS s)))))
         (WAIT_HSPI_IDLE s)
     else if d = SPI_CS0_FLASH then
       map_option (\<lambda>s. ACTIVE_HSPI_CS0 (HSPI_RISING_EDGE_SAMPLE (flash_clock r
           (spi_reg_recover HSPI (hspi_flash_reg_backup r) (hspi_overlap_init (DISABLE_HSPI_DEV_CS s))))))
         (WAIT_HSPI_IDLE s)
     else Some s)"

text \<open>From one of the devices on the flash pins; \<open>other\<close> is the second of them.\<close>

definition from_cs12 :: "hspi_device_register \<Rightarrow> u8 \<Rightarrow> u8 \<Rightarrow> mach \<Rightarrow> mach option" where
  "from_cs12 r other d s =
    (if d = other then
       map_option (\<lambda>s. sel_cs d (sel_edge r d
           (if \<not> spi_io_80m r then CONF_HSPI_CLK_DIV (clk_div (sel_conf r d)) s else s)))
         (WAIT_HSPI_IDLE s)
     else if d = SPI_CS0_FLASH then
       map_option (\<lambda>s. ACTIVE_HSPI_CS0 (HSPI_RISING_EDGE_SAMPLE
           (spi_reg_recover HSPI (hspi_flash_reg_backup r) s))) (WAIT_HSPI_IDLE s)
     else if d = HSPI_CS_DEV then
       map_option (\<lambda>s. ACTIVE_HSPI_CS0 (sel_edge r d (CONF_HSPI_CLK_DIV (clk_div (sel_conf r d))
           (hspi_overlap_deinit (ENABLE_HSPI_DEV_CS s))))) (WAIT_HSPI_IDLE s)
     else Some s)"

definition to_hspi_dev :: "hspi_device_register \<Rightarrow> u8 \<Rightarrow> mach \<Rightarrow> mach option" where
  "to_hspi_dev r d s =
     map_option (\<lambda>s. ACTIVE_HSPI_CS0 (sel_edge r d (CONF_HSPI_CLK_DIV (clk_div (sel_conf r d))
         (spi_reg_recover HSPI (hspi_dev_reg_backup r) (hspi_overlap_deinit (ENABLE_HSPI_DEV_CS s))))))
       (WAIT_HSPI_IDLE s)"

definition from_flash :: "hspi_device_register \<Rightarrow> u8 \<Rightarrow> mach \<Rightarrow> mach option" where
  "from_flash r d s =
    (if is_cs12 d then
       map_option (\<lambda>s. sel_cs d (sel_edge r d (sel_clock r d (spi_reg_recover HSPI (hspi_dev_reg_backup r) s))))
         (WAIT_HSPI_IDLE s)
     else if d = HSPI_CS_DEV then to_hspi_dev r d s
     else Some s)"

definition from_idle :: "hspi_device_register \<Rightarrow> u8 \<Rightarrow> mach \<Rightarrow> mach option" where
  "from_idle r d s =
    (if is_cs12 d then
       map_option (\<lambda>s. sel_cs d (sel_edge r d (sel_clock r d
           (spi_reg_recover HSPI (hspi_dev_reg_backup r) (hspi_overlap_init (DISABLE_HSPI_DEV_CS s))))))
         (WAIT_HSPI_IDLE s)
     else if d = SPI_CS0_FLASH then
       map_option (\<lambda>s. ACTIVE_HSPI_CS0 (HSPI_RISING_EDGE_SAMPLE (flash_clock r
           (spi_reg_recover HSPI (hspi_flash_reg_backup r) (hspi_overlap_init (DISABLE_HSPI_DEV_CS s))))))
         (WAIT_HSPI_IDLE s)
     else if d = HSPI_CS_DEV then to_hspi_dev r d s
     else Some s)"

definition sel_switch :: "hspi_device_register \<Rightarrow> u8 \<Rightarrow> mach \<Rightarrow> mach option" where
  "sel_switch r d s =
    (let c = selected_dev_num r in
     if c = HSPI_CS_DEV then from_hspi_dev r d s
     else if c = SPI_CS1_DEV then from_cs12 r SPI_CS2_DEV d s
     else if c = SPI_CS2_DEV then from_cs12 r SPI_CS1_DEV d s
     else if c = SPI_CS0_FLASH then from_flash r d s
     else from_idle r d s)"

definition hspi_dev_sel :: "u8 \<Rightarrow> overlap \<Rightarrow> overlap option" where
  "hspi_dev_sel dev_no st =
    (if dev_no > 3 then
       Some (on_ovl (emit (Print ''hspi_dev_sel parameter is out of range!'' [])) st)
     else if \<not> active (sel_conf (hspi_dev_reg st) dev_no) then
       Some (on_ovl (emit (Print ''device%d has not been initialized!'' [uint dev_no])) st)
     else
       map_option (\<lambda>s. \<lparr>hspi_dev_reg = (hspi_dev_reg st)\<lparr>selected_dev_num := dev_no\<rparr>, ovl_hw = s\<rparr>)
         (sel_switch (hspi_dev_reg st) dev_no (ovl_hw st)))"

section \<open>Reading the flash\<close>

datatype SpiFlashOpResult = SPI_FLASH_RESULT_OK | SPI_FLASH_RESULT_ERR

text \<open>
  The destination is the list of words stored so far; \<open>temp_length\<close> is a signed 32 bit number,
  read through \<open>sint\<close>.
\<close>

definition read_words :: "nat \<Rightarrow> u32 list \<Rightarrow> mach \<Rightarrow> u32 list \<times> mach" where
  "read_words n dest s =
     fold (\<lambda>i (dest, s). case READ_PERI_REG (SPI_W0 HSPI + of_nat i * 4) s of (v, s) \<Rightarrow> (dest @ [v], s))
       [0..<n] (dest, s)"

definition flash_fetch :: "u32 \<Rightarrow> u32 \<Rightarrow> mach \<Rightarrow> mach option" where
  "flash_fetch a n s =
    (let s = WRITE_PERI_REG (SPI_ADDR HSPI) (a OR push_bit SPI_FLASH_BYTES_LEN n) s;
         s = WRITE_PERI_REG (SPI_CMD HSPI) SPI_FLASH_READ s
     in wait_reg (SPI_CMD HSPI) (\<lambda>v. v = 0) s)"

definition remain_word_num :: "u32 \<Rightarrow> u8" where
  "remain_word_num n = ucast (if n AND 3 = 0 then drop_bit 2 n else drop_bit 2 n + 1)"

function flash_read_loop :: "u32 \<Rightarrow> u32 \<Rightarrow> u32 list \<Rightarrow> mach \<Rightarrow> (u32 list \<times> mach) option" where
  "flash_read_loop temp_addr temp_length dest s =
    (if 0 < sint temp_length then
       (if sint temp_length \<ge> 32 then
          Option.bind (flash_fetch temp_addr SPI_BUFF_BYTE_NUM s) (\<lambda>s.
            case read_words (unat (drop_bit 2 SPI_BUFF_BYTE_NUM)) dest s of (dest, s) \<Rightarrow>
              flash_read_loop (temp_addr + SPI_BUFF_BYTE_NUM) (temp_length - SPI_BUFF_BYTE_NUM) dest s)
        else
          map_option (\<lambda>s. read_words (unat (remain_word_num temp_length)) dest s)
            (flash_fetch temp_addr temp_length s))
     else Some (dest, s))"
  by pat_completeness auto

lemma sint_eq_uint_pos: "0 \<le> sint (n :: u32) \<Longrightarrow> sint n = uint n"
  using uint_sint [of n] sint_lt [of n] by (simp add: take_bit_int_eq_self)

lemma sint_eq_unat:
  assumes "unat (n :: u32) < 2147483648"
  shows "sint n = int (unat n)"
proof -
  have u: "uint n = int (unat n)" by (rule uint_nat)
  with assms have "uint n < 2147483648" by linarith
  moreover have "- 2147483648 \<le> uint n" using uint_ge_0 [of n] by linarith
  ultimately have "signed_take_bit 31 (uint n) = uint n" by (intro signed_take_bit_int_eq_self) simp_all
  then show ?thesis by (simp add: sint_uint)
qed

lemma unat_minus_32:
  assumes "32 \<le> sint (n :: u32)"
  shows "unat (n - SPI_BUFF_BYTE_NUM) = unat n - 32" and "32 \<le> unat n"
proof -
  have "uint n = int (unat n)" by (rule uint_nat)
  with sint_eq_uint_pos [of n] assms show le: "32 \<le> unat n" by linarith
  from unat_minus_of_nat [OF le] show "unat (n - SPI_BUFF_BYTE_NUM) = unat n - 32"
    by (simp add: SPI_BUFF_BYTE_NUM_def)
qed

lemma flash_step_less: "32 \<le> sint (n :: u32) \<Longrightarrow> unat (n - SPI_BUFF_BYTE_NUM) < unat n"
  using unat_minus_32 [of n] by linarith

termination flash_read_loop
  by (relation "measure (\<lambda>(_, n, _, _). unat n)") (simp_all add: flash_step_less)

declare flash_read_loop.simps [simp del]

definition hspi_overlap_read_flash_data ::
  "u32 \<Rightarrow> u32 \<Rightarrow> u32 \<Rightarrow> overlap \<Rightarrow> (SpiFlashOpResult \<times> u32 list \<times> overlap) option" where
  "hspi_overlap_read_flash_data chip_size flash_addr byte_length st =
     Option.bind (hspi_dev_sel SPI_CS0_FLASH st) (\<lambda>st.
       if flash_addr + byte_length > chip_size then Some (SPI_FLASH_RESULT_ERR, [], st)
       else
         map_option (\<lambda>(dest, s). (SPI_FLASH_RESULT_OK, dest, st\<lparr>ovl_hw := s\<rparr>))
           (flash_read_loop flash_addr byte_length [] (ovl_hw st)))"

definition hspi_overlap_flash_init :: "overlap \<Rightarrow> overlap option" where
  "hspi_overlap_flash_init st =
     map_option (on_ovl (emit (FlashReadFunc C_hspi_overlap_read_flash_data)))
       (hspi_master_dev_init SPI_CS0_FLASH 0 0 st)"

section \<open>Routing\<close>

text \<open>
  What the pins of the controller look like when device \<open>d\<close> is the selected one: only the
  chip select of the device is enabled (line 0 for the flash and for the device of its own), and
  the controller is laid over the flash pins unless it serves the device of its own, whose chip
  select pin (MTDO) is then under its control and otherwise an ordinary output.
\<close>

definition cs_line :: "u8 \<Rightarrow> nat" where
  "cs_line d = (if d = SPI_CS1_DEV then 1 else if d = SPI_CS2_DEV then 2 else 0)"

definition mtdo_func :: "mach \<Rightarrow> u32" where
  "mtdo_func s = peri s PERIPHS_IO_MUX_MTDO_U AND push_bit 4 PERIPHS_IO_MUX_FUNC"

definition overlapped :: "mach \<Rightarrow> bool" where
  "overlapped s \<longleftrightarrow> bit (peri s HOST_INF_SEL) 7"

definition routed :: "u8 \<Rightarrow> mach \<Rightarrow> bool" where
  "routed d s \<longleftrightarrow>
     (\<forall>k < 3. bit (peri s (SPI_PIN HSPI)) k = (k \<noteq> cs_line d))
     \<and> overlapped s = (d \<noteq> HSPI_CS_DEV)
     \<and> mtdo_func s = pin_func_bits (if d = HSPI_CS_DEV then 2 else FUNC_GPIO15)"

definition idle_hspi :: "mach \<Rightarrow> bool" where
  "idle_hspi s \<longleftrightarrow> quiet s \<and> peri s (SPI_EXT2 HSPI) = 0 \<and> peri s (SPI_CMD HSPI) AND 0xfffc0000 = 0"

lemma wait_idle: "idle_hspi s \<Longrightarrow> WAIT_HSPI_IDLE s = Some s"
  by (subst WAIT_HSPI_IDLE.simps) (simp add: idle_hspi_def)

text \<open>The invariant of the driver.\<close>

definition image_ok :: "u32 list \<Rightarrow> bool" where
  "image_ok b \<longleftrightarrow> length b = 9 \<and> b ! 6 AND 0xfffc0000 = 0"

definition ovl_inv :: "overlap \<Rightarrow> bool" where
  "ovl_inv st \<longleftrightarrow>
     idle_hspi (ovl_hw st) \<and> length (hspi_dev_conf (hspi_dev_reg st)) = 4
     \<and> image_ok (hspi_flash_reg_backup (hspi_dev_reg st)) \<and> image_ok (hspi_dev_reg_backup (hspi_dev_reg st))
     \<and> (selected_dev_num (hspi_dev_reg st) \<le> 3 \<longrightarrow> routed (selected_dev_num (hspi_dev_reg st)) (ovl_hw st))"

text \<open>
  The effect of each step of a selection on the registers the invariant speaks of; a step that
  has no equation for a register leaves it alone.
\<close>

definition frame_regs :: "mach \<Rightarrow> mach \<Rightarrow> u32 list \<Rightarrow> bool" where
  "frame_regs s t rs \<longleftrightarrow> quiet t \<and> (\<forall>a \<in> set rs. peri t a = peri s a)"

lemmas ovl_addrs = spi_reg_defs HSPI_def SPI_def reg_simps

lemma step_frames:
  assumes "quiet s"
  shows "frame_regs s (CONF_HSPI_CLK_DIV v s) [SPI_PIN HSPI, HOST_INF_SEL, PERIPHS_IO_MUX_MTDO_U, SPI_EXT2 HSPI, SPI_CMD HSPI, SPI_USER HSPI]"
    and "frame_regs s (HSPI_FALLING_EDGE_SAMPLE s) [SPI_PIN HSPI, HOST_INF_SEL, PERIPHS_IO_MUX_MTDO_U, SPI_EXT2 HSPI, SPI_CMD HSPI]"
    and "frame_regs s (HSPI_RISING_EDGE_SAMPLE s) [SPI_PIN HSPI, HOST_INF_SEL, PERIPHS_IO_MUX_MTDO_U, SPI_EXT2 HSPI, SPI_CMD HSPI]"
    and "frame_regs s (ACTIVE_HSPI_CS0 s) [HOST_INF_SEL, PERIPHS_IO_MUX_MTDO_U, SPI_EXT2 HSPI, SPI_CMD HSPI, SPI_USER HSPI]"
    and "frame_regs s (ACTIVE_HSPI_CS1 s) [HOST_INF_SEL, PERIPHS_IO_MUX_MTDO_U, SPI_EXT2 HSPI, SPI_CMD HSPI, SPI_USER HSPI]"
    and "frame_regs s (ACTIVE_HSPI_CS2 s) [HOST_INF_SEL, PERIPHS_IO_MUX_MTDO_U, SPI_EXT2 HSPI, SPI_CMD HSPI, SPI_USER HSPI]"
    and "frame_regs s (ENABLE_HSPI_DEV_CS s) [SPI_PIN HSPI, HOST_INF_SEL, SPI_EXT2 HSPI, SPI_CMD HSPI]"
    and "frame_regs s (DISABLE_HSPI_DEV_CS s) [SPI_PIN HSPI, HOST_INF_SEL, SPI_EXT2 HSPI, SPI_CMD HSPI]"
    and "frame_regs s (hspi_overlap_init s) [SPI_PIN HSPI, PERIPHS_IO_MUX_MTDO_U, SPI_EXT2 HSPI, SPI_CMD HSPI]"
    and "frame_regs s (hspi_overlap_deinit s) [SPI_PIN HSPI, PERIPHS_IO_MUX_MTDO_U, SPI_EXT2 HSPI, SPI_CMD HSPI]"
    and "frame_regs s (SET_PERI_REG_MASK (SPI_CLOCK HSPI) m s) [SPI_PIN HSPI, HOST_INF_SEL, PERIPHS_IO_MUX_MTDO_U, SPI_EXT2 HSPI, SPI_CMD HSPI, SPI_USER HSPI]"
    and "frame_regs s (spi_reg_recover HSPI b s) [HOST_INF_SEL, PERIPHS_IO_MUX_MTDO_U, SPI_EXT2 HSPI]"
  using assms
  by (simp_all add: frame_regs_def CONF_HSPI_CLK_DIV_def HSPI_FALLING_EDGE_SAMPLE_def HSPI_RISING_EDGE_SAMPLE_def
      ACTIVE_HSPI_CS0_def ACTIVE_HSPI_CS1_def ACTIVE_HSPI_CS2_def ENABLE_HSPI_DEV_CS_def DISABLE_HSPI_DEV_CS_def
      hspi_overlap_init_def hspi_overlap_deinit_def spi_reg_recover_def GPIO_OUTPUT_SET_def ovl_addrs)

lemmas step_frame = step_frames [unfolded frame_regs_def, simplified, THEN conjunct2]
lemmas step_quiet = step_frames [unfolded frame_regs_def, THEN conjunct1]

lemma step_values:
  assumes "quiet s"
  shows "overlapped (hspi_overlap_init s)" and "\<not> overlapped (hspi_overlap_deinit s)"
    and "mtdo_func (ENABLE_HSPI_DEV_CS s) = pin_func_bits 2"
    and "mtdo_func (DISABLE_HSPI_DEV_CS s) = pin_func_bits FUNC_GPIO15"
    and "k < 3 \<Longrightarrow> bit (peri (ACTIVE_HSPI_CS0 s) (SPI_PIN HSPI)) k = (k \<noteq> 0)"
    and "k < 3 \<Longrightarrow> bit (peri (ACTIVE_HSPI_CS1 s) (SPI_PIN HSPI)) k = (k \<noteq> 1)"
    and "k < 3 \<Longrightarrow> bit (peri (ACTIVE_HSPI_CS2 s) (SPI_PIN HSPI)) k = (k \<noteq> 2)"
    and "bit (peri (HSPI_FALLING_EDGE_SAMPLE s) (SPI_USER HSPI)) 7"
    and "\<not> bit (peri (HSPI_RISING_EDGE_SAMPLE s) (SPI_USER HSPI)) 7"
    and "peri (spi_reg_recover HSPI b s) (SPI_CMD HSPI) = b ! 6"
proof -
  have k3: "k < 3 \<longleftrightarrow> k = 0 \<or> k = 1 \<or> k = (2 :: nat)" for k by auto
  have m: "pin_func_bits 2 AND push_bit 4 PERIPHS_IO_MUX_FUNC = pin_func_bits 2"
    "pin_func_bits FUNC_GPIO15 AND push_bit 4 PERIPHS_IO_MUX_FUNC = pin_func_bits FUNC_GPIO15"
    by (simp_all add: pin_func_bits_def reg_simps)
  show "mtdo_func (ENABLE_HSPI_DEV_CS s) = pin_func_bits 2"
    "mtdo_func (DISABLE_HSPI_DEV_CS s) = pin_func_bits FUNC_GPIO15"
    using assms by (simp_all add: mtdo_func_def ENABLE_HSPI_DEV_CS_def DISABLE_HSPI_DEV_CS_def
        GPIO_OUTPUT_SET_def and_not_or_and [OF m(1)] and_not_or_and [OF m(2)] del: bit.conj_disj_distrib2)
  show "overlapped (hspi_overlap_init s)" "\<not> overlapped (hspi_overlap_deinit s)"
    using assms by (simp_all add: overlapped_def hspi_overlap_init_def hspi_overlap_deinit_def ovl_addrs
        bit_or_iff bit_and_iff bit_not_iff bit_BIT)
  show "k < 3 \<Longrightarrow> bit (peri (ACTIVE_HSPI_CS0 s) (SPI_PIN HSPI)) k = (k \<noteq> 0)"
    "k < 3 \<Longrightarrow> bit (peri (ACTIVE_HSPI_CS1 s) (SPI_PIN HSPI)) k = (k \<noteq> 1)"
    "k < 3 \<Longrightarrow> bit (peri (ACTIVE_HSPI_CS2 s) (SPI_PIN HSPI)) k = (k \<noteq> 2)"
    using assms by (auto simp: k3 ACTIVE_HSPI_CS0_def ACTIVE_HSPI_CS1_def ACTIVE_HSPI_CS2_def
        SPI_CS0_DIS_def SPI_CS1_DIS_def SPI_CS2_DIS_def bit_or_iff bit_and_iff bit_not_iff bit_BIT)
  show "bit (peri (HSPI_FALLING_EDGE_SAMPLE s) (SPI_USER HSPI)) 7"
    "\<not> bit (peri (HSPI_RISING_EDGE_SAMPLE s) (SPI_USER HSPI)) 7"
    using assms by (simp_all add: HSPI_FALLING_EDGE_SAMPLE_def HSPI_RISING_EDGE_SAMPLE_def SPI_CK_OUT_EDGE_def
        bit_or_iff bit_and_iff bit_not_iff bit_BIT)
  show "peri (spi_reg_recover HSPI b s) (SPI_CMD HSPI) = b ! 6"
    by (simp add: spi_reg_recover_def ovl_addrs)
qed

lemma sel_steps:
  assumes "quiet s"
  shows "quiet (sel_edge r d s)" "quiet (sel_clock r d s)" "quiet (flash_clock r s)" "quiet (sel_cs d s)"
    and "frame_regs s (sel_edge r d s) [SPI_PIN HSPI, HOST_INF_SEL, PERIPHS_IO_MUX_MTDO_U, SPI_EXT2 HSPI, SPI_CMD HSPI]"
    and "frame_regs s (sel_clock r d s) [SPI_PIN HSPI, HOST_INF_SEL, PERIPHS_IO_MUX_MTDO_U, SPI_EXT2 HSPI, SPI_CMD HSPI, SPI_USER HSPI]"
    and "frame_regs s (flash_clock r s) [SPI_PIN HSPI, HOST_INF_SEL, PERIPHS_IO_MUX_MTDO_U, SPI_EXT2 HSPI, SPI_CMD HSPI, SPI_USER HSPI]"
    and "frame_regs s (sel_cs d s) [HOST_INF_SEL, PERIPHS_IO_MUX_MTDO_U, SPI_EXT2 HSPI, SPI_CMD HSPI, SPI_USER HSPI]"
    and "is_cs12 d \<Longrightarrow> k < 3 \<Longrightarrow> bit (peri (sel_cs d s) (SPI_PIN HSPI)) k = (k \<noteq> cs_line d)"
    and "bit (peri (sel_edge r d s) (SPI_USER HSPI)) 7 = clk_polar (sel_conf r d)"
  using assms step_quiet [OF assms] step_frame [OF assms] step_values [OF assms]
  by (auto simp: sel_edge_def sel_clock_def flash_clock_def sel_cs_def frame_regs_def cs_line_def SPI_CS1_DEV_def SPI_CS2_DEV_def)

lemmas sel_frame = sel_steps(5-8) [unfolded frame_regs_def, simplified, THEN conjunct2]

lemmas sel_simps = step_quiet step_frame step_values [unfolded overlapped_def mtdo_func_def]
  sel_steps(1-4,9,10) sel_frame

text \<open>Routing depends on three registers only.\<close>

lemma routed_cong:
  "\<lbrakk>peri t (SPI_PIN HSPI) = peri s (SPI_PIN HSPI); peri t HOST_INF_SEL = peri s HOST_INF_SEL;
    peri t PERIPHS_IO_MUX_MTDO_U = peri s PERIPHS_IO_MUX_MTDO_U\<rbrakk> \<Longrightarrow> routed d t = routed d s"
  by (simp add: routed_def overlapped_def mtdo_func_def)

text \<open>What a switch to device \<open>d\<close> establishes.\<close>

definition sel_edge_of :: "hspi_device_register \<Rightarrow> u8 \<Rightarrow> bool" where
  "sel_edge_of r d \<longleftrightarrow> d \<noteq> SPI_CS0_FLASH \<and> clk_polar (sel_conf r d)"

definition sel_post :: "hspi_device_register \<Rightarrow> u8 \<Rightarrow> mach option \<Rightarrow> bool" where
  "sel_post r d res \<longleftrightarrow>
     (\<exists>t. res = Some t \<and> idle_hspi t \<and> routed d t \<and> bit (peri t (SPI_USER HSPI)) 7 = sel_edge_of r d)"

definition images_ok :: "hspi_device_register \<Rightarrow> bool" where
  "images_ok r \<longleftrightarrow> image_ok (hspi_flash_reg_backup r) \<and> image_ok (hspi_dev_reg_backup r)"

lemmas sel_ctx = sel_post_def idle_hspi_def routed_def overlapped_def mtdo_func_def sel_edge_of_def images_ok_def
  image_ok_def

lemma u8_le_3: "d \<le> 3 \<longleftrightarrow> d = 0 \<or> d = 1 \<or> d = 2 \<or> d = (3 :: u8)"
proof
  assume "d \<le> 3"
  then have "unat d = 0 \<or> unat d = 1 \<or> unat d = 2 \<or> unat d = 3" by (simp add: word_le_nat_alt) arith
  then show "d = 0 \<or> d = 1 \<or> d = 2 \<or> d = 3" by (auto simp: word_unat_eq_iff)
qed auto

lemma from_hspi_dev_post:
  assumes "idle_hspi s" and "images_ok r" and "d = SPI_CS1_DEV \<or> d = SPI_CS2_DEV \<or> d = SPI_CS0_FLASH"
  shows "sel_post r d (from_hspi_dev r d s)"
  using assms wait_idle [OF assms(1)]
  by (elim disjE) (simp_all add: from_hspi_dev_def sel_ctx sel_simps, simp_all add: dev_defs cs_line_def)

lemma from_cs12_post:
  assumes "idle_hspi s" and "images_ok r" and "is_cs12 other" and "is_cs12 c" and "routed c s"
    and "d = other \<or> d = HSPI_CS_DEV \<or> d = SPI_CS0_FLASH"
  shows "sel_post r d (from_cs12 r other d s)"
proof -
  have "overlapped s" and "mtdo_func s = pin_func_bits FUNC_GPIO15"
    using assms(4,5) by (auto simp: routed_def dev_defs)
  with assms(1-3,6) wait_idle [OF assms(1)] show ?thesis
    by (elim disjE)
      (simp_all add: from_cs12_def sel_ctx sel_simps, simp_all add: dev_defs cs_line_def sel_simps)
qed

lemma to_hspi_dev_post:
  assumes "idle_hspi s" and "images_ok r" and "d = HSPI_CS_DEV"
  shows "sel_post r d (to_hspi_dev r d s)"
  using assms wait_idle [OF assms(1)]
  by (simp add: to_hspi_dev_def sel_ctx sel_simps) (simp add: dev_defs cs_line_def)

lemma from_flash_post:
  assumes "idle_hspi s" and "images_ok r" and "routed SPI_CS0_FLASH s" and "is_cs12 d \<or> d = HSPI_CS_DEV"
  shows "sel_post r d (from_flash r d s)"
proof (cases "d = HSPI_CS_DEV")
  case True
  with to_hspi_dev_post [OF assms(1,2)] show ?thesis
    by (simp add: from_flash_def) (simp add: dev_defs)
next
  case False
  have "overlapped s" and "mtdo_func s = pin_func_bits FUNC_GPIO15"
    using assms(3) by (auto simp: routed_def dev_defs)
  with False assms(1,2,4) wait_idle [OF assms(1)] show ?thesis
    by (elim disjE)
      (simp_all add: from_flash_def sel_ctx sel_simps, simp_all add: dev_defs cs_line_def sel_simps)
qed

lemma from_idle_post:
  assumes "idle_hspi s" and "images_ok r" and "d \<le> 3"
  shows "sel_post r d (from_idle r d s)"
proof (cases "d = HSPI_CS_DEV")
  case True
  with to_hspi_dev_post [OF assms(1,2)] show ?thesis
    by (simp add: from_idle_def) (simp add: dev_defs)
next
  case False
  with assms(3) have "d = SPI_CS1_DEV \<or> d = SPI_CS2_DEV \<or> d = SPI_CS0_FLASH"
    by (auto simp: u8_le_3 dev_defs)
  with assms(1,2) wait_idle [OF assms(1)] show ?thesis
    by (elim disjE)
      (simp_all add: from_idle_def sel_ctx sel_simps, simp_all add: dev_defs cs_line_def sel_simps)
qed

text \<open>A switch to the device that is selected already changes nothing.\<close>

lemma sel_switch_same: "d \<le> 3 \<Longrightarrow> selected_dev_num r = d \<Longrightarrow> sel_switch r d s = Some s"
  by (auto simp: u8_le_3 sel_switch_def Let_def dev_defs from_hspi_dev_def from_cs12_def from_flash_def)

lemma sel_switch_post:
  assumes "idle_hspi s" and "images_ok r" and "d \<le> 3" and "selected_dev_num r \<noteq> d"
    and "selected_dev_num r \<le> 3 \<longrightarrow> routed (selected_dev_num r) s"
  shows "sel_post r d (sel_switch r d s)"
proof -
  note d = u8_le_3 [THEN iffD1, OF assms(3)]
  consider "selected_dev_num r = HSPI_CS_DEV" | "selected_dev_num r = SPI_CS1_DEV"
    | "selected_dev_num r = SPI_CS2_DEV" | "selected_dev_num r = SPI_CS0_FLASH"
    | "\<not> selected_dev_num r \<le> 3"
    by (auto simp: u8_le_3 dev_defs)
  then show ?thesis
  proof cases
    case 1
    with d assms(4) from_hspi_dev_post [OF assms(1,2), of d] show ?thesis
      by (auto simp: sel_switch_def Let_def dev_defs)
  next
    case 2
    with d assms(4,5) from_cs12_post [OF assms(1,2), of SPI_CS2_DEV SPI_CS1_DEV d] show ?thesis
      by (auto simp: sel_switch_def Let_def dev_defs)
  next
    case 3
    with d assms(4,5) from_cs12_post [OF assms(1,2), of SPI_CS1_DEV SPI_CS2_DEV d] show ?thesis
      by (auto simp: sel_switch_def Let_def dev_defs)
  next
    case 4
    with d assms(4,5) from_flash_post [OF assms(1,2), of d] show ?thesis
      by (auto simp: sel_switch_def Let_def dev_defs)
  next
    case 5
    with from_idle_post [OF assms(1-3)] show ?thesis
      by (auto simp: sel_switch_def Let_def dev_defs)
  qed
qed

text \<open>
  C6. Selection keeps the routing right: in a state that satisfies the invariant of the driver
  every call of the selection function returns and keeps the invariant; when the device exists
  and was initialised it is the selected one afterwards, with its chip select alone enabled, the
  controller on the flash pins unless the device has pins of its own, and after a change the
  sampling edge of its configuration; any other call changes no register.
\<close>

theorem hspi_dev_sel_routes:
  assumes "ovl_inv st"
  shows "\<exists>st'. hspi_dev_sel d st = Some st' \<and> ovl_inv st'
    \<and> (if d \<le> 3 \<and> active (sel_conf (hspi_dev_reg st) d)
       then selected_dev_num (hspi_dev_reg st') = d \<and> routed d (ovl_hw st')
         \<and> (selected_dev_num (hspi_dev_reg st) \<noteq> d \<longrightarrow>
              bit (peri (ovl_hw st') (SPI_USER HSPI)) 7 = sel_edge_of (hspi_dev_reg st) d)
       else hspi_dev_reg st' = hspi_dev_reg st \<and> cur (ovl_hw st') = cur (ovl_hw st))"
proof -
  let ?r = "hspi_dev_reg st" and ?s = "ovl_hw st"
  have inv: "idle_hspi ?s" "images_ok ?r" "selected_dev_num ?r \<le> 3 \<longrightarrow> routed (selected_dev_num ?r) ?s"
    using assms by (simp_all add: ovl_inv_def images_ok_def)
  consider "\<not> (d \<le> 3 \<and> active (sel_conf ?r d))" | "d \<le> 3" "active (sel_conf ?r d)" "selected_dev_num ?r = d"
    | "d \<le> 3" "active (sel_conf ?r d)" "selected_dev_num ?r \<noteq> d" by blast
  then show ?thesis
  proof cases
    case 1
    with assms show ?thesis
      by (auto simp: hspi_dev_sel_def not_less [symmetric] on_ovl_def ovl_inv_def idle_hspi_def routed_def
          overlapped_def mtdo_func_def)
  next
    case 2
    with assms sel_switch_same [of d ?r ?s] show ?thesis
      by (auto simp: hspi_dev_sel_def not_less [symmetric] ovl_inv_def)
  next
    case 3
    with sel_switch_post [OF inv(1,2) 3(1,3) inv(3)] assms show ?thesis
      by (auto simp: sel_post_def hspi_dev_sel_def not_less [symmetric] ovl_inv_def)
  qed
qed

definition sample_ovl :: overlap where
  "sample_ovl = \<lparr>hspi_dev_reg = \<lparr>hspi_flash_reg_backup = replicate 9 0, hspi_dev_reg_backup = replicate 9 0,
       hspi_dev_conf = replicate 4 \<lparr>active = True, clk_polar = True, clk_div = 3\<rparr>,
       selected_dev_num = HSPI_IDLE, spi_io_80m = False, hspi_reg_backup_flag = True\<rparr>,
     ovl_hw = mach0\<rparr>"

theorem hspi_dev_sel_routes_witness:
  "\<exists>st'. hspi_dev_sel SPI_CS1_DEV sample_ovl = Some st' \<and> routed SPI_CS1_DEV (ovl_hw st')"
proof -
  have "ovl_inv sample_ovl"
    by (simp add: ovl_inv_def sample_ovl_def idle_hspi_def image_ok_def dev_defs)
  then show ?thesis
    using hspi_dev_sel_routes [of sample_ovl SPI_CS1_DEV]
    by (auto simp: sample_ovl_def sel_conf_def dev_defs)
qed

section \<open>Initialisation\<close>

text \<open>The static variable before the first call, over some hardware.\<close>

definition ovl_zero :: "mach \<Rightarrow> overlap" where
  "ovl_zero s = \<lparr>hspi_dev_reg = \<lparr>hspi_flash_reg_backup = replicate 9 0, hspi_dev_reg_backup = replicate 9 0,
       hspi_dev_conf = replicate 4 \<lparr>active = False, clk_polar = False, clk_div = 0\<rparr>,
       selected_dev_num = 0, spi_io_80m = False, hspi_reg_backup_flag = False\<rparr>, ovl_hw = s\<rparr>"

lemma read_all_quiet: "quiet s \<Longrightarrow> read_all as s = (map (peri s) as, s)"
  by (induction as) simp_all

lemma backup_quiet: "quiet s \<Longrightarrow> spi_reg_backup HSPI m s = (map (peri s) (backup_regs HSPI), s)"
  by (simp add: spi_reg_backup_def read_all_quiet HSPI_def)

lemma idle_hspi_step:
  assumes "idle_hspi s"
  shows "a \<noteq> SPI_EXT2 HSPI \<Longrightarrow> a \<noteq> SPI_CMD HSPI \<Longrightarrow> idle_hspi (SET_PERI_REG_MASK a m s)"
    and "a \<noteq> SPI_EXT2 HSPI \<Longrightarrow> a \<noteq> SPI_CMD HSPI \<Longrightarrow> idle_hspi (CLEAR_PERI_REG_MASK a m s)"
    and "a \<noteq> SPI_EXT2 HSPI \<Longrightarrow> a \<noteq> SPI_CMD HSPI \<Longrightarrow> idle_hspi (WRITE_PERI_REG a m s)"
    and "a \<noteq> SPI_EXT2 HSPI \<Longrightarrow> a \<noteq> SPI_CMD HSPI \<Longrightarrow> idle_hspi (PIN_FUNC_SELECT a m s)"
    and "idle_hspi (emit e s)"
  using assms by (simp_all add: idle_hspi_def)

lemma idle_dev_pins: "idle_hspi s \<Longrightarrow> idle_hspi (dev_pins d io s)"
  by (simp add: dev_pins_def Let_def idle_hspi_step ovl_addrs)

lemma idle_spi_master_init: "idle_hspi s \<Longrightarrow> idle_hspi (spi_master_init HSPI s)"
  by (simp add: spi_master_init_def Let_def idle_hspi_step ovl_addrs)

lemma backup_image_ok:
  assumes "idle_hspi s"
  shows "image_ok (map (peri s) (backup_regs HSPI))"
  using assms by (simp add: image_ok_def backup_regs_def idle_hspi_def)

lemma first_dev_init_eq:
  assumes "idle_hspi s"
  obtains t u where "idle_hspi t" "idle_hspi u"
    "first_dev_init (ovl_zero s) = \<lparr>hspi_dev_reg = (hspi_dev_reg (ovl_zero s))\<lparr>
        hspi_flash_reg_backup := map (peri t) (backup_regs HSPI), hspi_dev_reg_backup := map (peri u) (backup_regs HSPI),
        spi_io_80m := bit (peri s PERIPHS_IO_MUX) 8, hspi_reg_backup_flag := True, selected_dev_num := HSPI_IDLE\<rparr>,
      ovl_hw = u\<rparr>"
proof -
  let ?b = "bit (peri s PERIPHS_IO_MUX) 8"
  define s1 where "s1 = (if ?b then SET_PERI_REG_MASK (SPI_CLOCK HSPI) SPI_CLK_EQU_SYSCLK s
      else CLEAR_PERI_REG_MASK (SPI_CLOCK HSPI) SPI_CLK_EQU_SYSCLK s)"
  define t where "t = SET_PERI_REG_MASK (SPI_CTRL HSPI) (peri s1 (SPI_CTRL SPI) AND SPI_FLASH_READ_MODE_MASK)
      (CLEAR_PERI_REG_MASK (SPI_CTRL HSPI) SPI_FLASH_READ_MODE_MASK s1)"
  have 1: "idle_hspi s1" using assms by (simp add: s1_def idle_hspi_step ovl_addrs)
  have t: "idle_hspi t" using 1 by (simp add: t_def idle_hspi_step ovl_addrs)
  have u: "idle_hspi (spi_master_init HSPI t)" by (rule idle_spi_master_init [OF t])
  have q: "quiet s" "quiet s1" "quiet t" "quiet (spi_master_init HSPI t)"
    using assms 1 t u by (simp_all add: idle_hspi_def)
  have "first_dev_init (ovl_zero s) = \<lparr>hspi_dev_reg = (hspi_dev_reg (ovl_zero s))\<lparr>
        hspi_flash_reg_backup := map (peri t) (backup_regs HSPI),
        hspi_dev_reg_backup := map (peri (spi_master_init HSPI t)) (backup_regs HSPI),
        spi_io_80m := ?b, hspi_reg_backup_flag := True, selected_dev_num := HSPI_IDLE\<rparr>,
      ovl_hw = spi_master_init HSPI t\<rparr>"
  proof (cases ?b)
    case True
    then show ?thesis
      using q by (simp add: first_dev_init_def Let_def ovl_zero_def BIT_and_eq_0_iff s1_def t_def backup_quiet)
  next
    case False
    then show ?thesis
      using q by (simp add: first_dev_init_def Let_def ovl_zero_def BIT_and_eq_0_iff s1_def t_def backup_quiet)
  qed
  with t u that show ?thesis by blast
qed

text \<open>
  The first initialisation of a device, on idle hardware, establishes the invariant of the
  driver: both register images are taken, no device is selected yet, the flash speed flag is
  the bit of the pin multiplexer, and exactly that device is marked as initialised, with the
  polarity and divider asked for.
\<close>

theorem hspi_first_init:
  assumes "idle_hspi s" and "d \<le> 3" and "p \<le> 1" and "v \<le> 0x1f"
  shows "\<exists>st. hspi_master_dev_init d p v (ovl_zero s) = Some st \<and> ovl_inv st
    \<and> hspi_reg_backup_flag (hspi_dev_reg st) \<and> selected_dev_num (hspi_dev_reg st) = HSPI_IDLE
    \<and> spi_io_80m (hspi_dev_reg st) = bit (peri s PERIPHS_IO_MUX) 8
    \<and> (\<forall>e \<le> 3. active (sel_conf (hspi_dev_reg st) e) = (e = d))
    \<and> clk_polar (sel_conf (hspi_dev_reg st) d) = (p = 1) \<and> clk_div (sel_conf (hspi_dev_reg st) d) = v"
proof -
  from assms(1) obtain t u where tu: "idle_hspi t" "idle_hspi u"
    "first_dev_init (ovl_zero s) = \<lparr>hspi_dev_reg = (hspi_dev_reg (ovl_zero s))\<lparr>
        hspi_flash_reg_backup := map (peri t) (backup_regs HSPI), hspi_dev_reg_backup := map (peri u) (backup_regs HSPI),
        spi_io_80m := bit (peri s PERIPHS_IO_MUX) 8, hspi_reg_backup_flag := True, selected_dev_num := HSPI_IDLE\<rparr>,
      ovl_hw = u\<rparr>"
    by (rule first_dev_init_eq)
  have p: "p \<noteq> 0 \<longleftrightarrow> p = 1"
    using assms(3) by (auto simp: word_le_nat_alt word_unat_eq_iff)
  have w: "WAIT_HSPI_IDLE (ovl_hw (ovl_zero s)) = Some s"
    by (simp add: ovl_zero_def wait_idle assms(1))
  have conf: "(\<forall>e \<le> 3. active ((replicate 4 c)[unat d := c'] ! unat e) = (e = d)) \<and> (replicate 4 c)[unat d := c'] ! unat d = c'"
    if "\<not> active c" "active c'" for c c'
    using assms(2) that by (auto simp: nth_list_update word_le_nat_alt word_unat_eq_iff)
  have "ovl_zero s\<lparr>ovl_hw := s\<rparr> = ovl_zero s" by (simp add: ovl_zero_def)
  then show ?thesis
    using tu(3) w conf [of "\<lparr>active = False, clk_polar = False, clk_div = 0\<rparr>" "\<lparr>active = True, clk_polar = (p = 1), clk_div = v\<rparr>"]
      assms(2-4) p backup_image_ok [OF tu(1)] backup_image_ok [OF tu(2)]
    by (auto simp: hspi_master_dev_init_def not_less [symmetric] Let_def sel_conf_def ovl_inv_def idle_dev_pins tu(2)
        ovl_zero_def dev_defs)
qed

theorem hspi_first_init_witness:
  "\<exists>st. hspi_master_dev_init SPI_CS2_DEV 1 4 (ovl_zero mach0) = Some st \<and> ovl_inv st"
  using hspi_first_init [of mach0 SPI_CS2_DEV 1 4]
  by (auto simp: idle_hspi_def dev_defs)

section \<open>What reading the flash does\<close>

text \<open>
  The flash is a function from addresses to words. The controller answers the \<open>j\<close>-th fetch of 32
  bytes from \<open>a\<close> on with the words of that block in W0 to W7, and shows a busy command register
  for any number of polls before each answer.
\<close>

abbreviation W :: "nat \<Rightarrow> u32" where
  "W i \<equiv> SPI_W0 HSPI + of_nat i * 4"

definition flash_src :: "(nat \<Rightarrow> u32) \<Rightarrow> nat \<Rightarrow> nat \<Rightarrow> mach \<Rightarrow> bool" where
  "flash_src f a m s \<longleftrightarrow> (\<forall>i < 8. feed s (Reg (W i)) = map (\<lambda>j. f (a + 32 * j + 4 * i)) [0..<m])"

definition poll_src :: "u32 list list \<Rightarrow> mach \<Rightarrow> bool" where
  "poll_src ps s \<longleftrightarrow> (\<forall>b \<in> set ps. 0 \<notin> set b) \<and> feed s (Reg (SPI_CMD HSPI)) = concat (map (\<lambda>b. b @ [0]) ps)"

text \<open>The fetches issued so far: address and number of bytes of each command.\<close>

fun fetch_of :: "event \<Rightarrow> (nat \<times> nat) list" where
  "fetch_of (Wr a v) = (if a = SPI_ADDR HSPI then [(unat (take_bit 24 v), unat (drop_bit 24 v))] else [])"
| "fetch_of _ = []"

definition fetches :: "mach \<Rightarrow> (nat \<times> nat) list" where
  "fetches s = concat (map fetch_of (trace s))"

fun chunks :: "nat \<Rightarrow> nat \<Rightarrow> (nat \<times> nat) list" where
  "chunks a n = (if n = 0 then [] else if 32 \<le> n then (a, 32) # chunks (a + 32) (n - 32) else [(a, n)])"

declare chunks.simps [simp del]

lemma chunks_tile: "concat (map (\<lambda>(a, n). [a..<a + n]) (chunks a n)) = [a..<a + n]"
proof (induction a n rule: chunks.induct)
  case (1 a n)
  show ?case
  proof (cases "32 \<le> n")
    case True
    then have "[a..<a + n] = [a..<a + 32] @ [a + 32..<a + 32 + (n - 32)]"
      using upt_add_eq_append [of a "a + 32" "n - 32"] by simp
    with 1 True show ?thesis by (subst chunks.simps) simp
  next
    case False
    then show ?thesis by (subst chunks.simps) simp
  qed
qed

lemma chunks_small: "(b, k) \<in> set (chunks a n) \<Longrightarrow> 0 < k \<and> k \<le> 32"
proof (induction a n rule: chunks.induct)
  case (1 a n)
  then show ?case by (subst (asm) (2) chunks.simps) (auto split: if_splits)
qed

lemma addr_word:
  fixes a n :: u32
  assumes "unat a < 2 ^ 24" and "unat n < 2 ^ 8"
  shows "take_bit 24 (a OR push_bit 24 n) = a" and "drop_bit 24 (a OR push_bit 24 n) = n"
proof -
  have a: "\<not> bit a k" if "24 \<le> k" for k
    using take_bit_word_less [of a 24] assms(1) that by (metis bit_take_bit_iff not_less)
  have n: "\<not> bit n k" if "8 \<le> k" for k
    using take_bit_word_less [of n 8] assms(2) that by (metis bit_take_bit_iff not_less)
  show "take_bit 24 (a OR push_bit 24 n) = a"
    using a by (intro bit_word_eqI) (auto simp: bit_simps)
  show "drop_bit 24 (a OR push_bit 24 n) = n"
  proof (rule bit_word_eqI)
    fix k
    assume "k < LENGTH(32)"
    show "bit (drop_bit 24 (a OR push_bit 24 n)) k = bit n k"
      using a [of "24 + k"] n [of k] by (cases "k < 8") (auto simp: bit_simps)
  qed
qed

lemma W_ne: "i < 8 \<Longrightarrow> W i \<noteq> SPI_ADDR HSPI" "i < 8 \<Longrightarrow> W i \<noteq> SPI_CMD HSPI"
  using w_index_ne [of i HSPI] by (simp_all add: mult.commute)

lemma W_inj: "i < 8 \<Longrightarrow> j < 8 \<Longrightarrow> W i = W j \<longleftrightarrow> i = j"
  using w_index_inj [of i j HSPI] by (simp add: mult.commute)

lemma flash_fetch_effect:
  assumes "poll_src (b # ps) s" and "unat a < 2 ^ 24" and "unat n < 2 ^ 8"
  shows "\<exists>t. flash_fetch a n s = Some t \<and> poll_src ps t \<and> (\<forall>i < 8. feed t (Reg (W i)) = feed s (Reg (W i)))
    \<and> fetches t = fetches s @ [(unat a, unat n)]"
proof -
  let ?s = "WRITE_PERI_REG (SPI_CMD HSPI) SPI_FLASH_READ
      (WRITE_PERI_REG (SPI_ADDR HSPI) (a OR push_bit SPI_FLASH_BYTES_LEN n) s)"
  have "feed ?s (Reg (SPI_CMD HSPI)) = b @ 0 # concat (map (\<lambda>b. b @ [0]) ps)" and "\<forall>x \<in> set b. x \<noteq> 0"
    using assms(1) by (auto simp: poll_src_def)
  from wait_reg_prefix [OF this(1), of "\<lambda>v. v = 0"] this(2)
  have "flash_fetch a n s = Some (?s\<lparr>cur := (cur ?s)(Reg (SPI_CMD HSPI) := 0),
      feed := (feed ?s)(Reg (SPI_CMD HSPI) := concat (map (\<lambda>b. b @ [0]) ps))\<rparr>)"
    by (simp add: flash_fetch_def)
  moreover have "SPI_CMD HSPI \<noteq> SPI_ADDR HSPI" by (simp add: spi_reg_defs)
  ultimately show ?thesis
    using assms W_ne by (auto simp: poll_src_def fetches_def addr_word SPI_FLASH_BYTES_LEN_def
        simp del: take_bit_or drop_bit_or)
qed

lemma read_words_effect:
  assumes "\<forall>i < n. feed s (Reg (W i)) = g i # gs i" and "n \<le> 8"
  shows "\<exists>t. read_words n dest s = (dest @ map g [0..<n], t) \<and> trace t = trace s
    \<and> (\<forall>i < n. feed t (Reg (W i)) = gs i) \<and> (\<forall>p. (\<forall>i < n. p \<noteq> Reg (W i)) \<longrightarrow> feed t p = feed s p)"
  using assms
proof (induction n)
  case 0
  then show ?case by (simp add: read_words_def)
next
  case (Suc n)
  then obtain t where t: "read_words n dest s = (dest @ map g [0..<n], t)" "trace t = trace s"
    "\<forall>i < n. feed t (Reg (W i)) = gs i" "\<forall>p. (\<forall>i < n. p \<noteq> Reg (W i)) \<longrightarrow> feed t p = feed s p" by auto
  have "feed t (Reg (W n)) = feed s (Reg (W n))"
    using W_inj [of n] Suc.prems(2) by (intro t(4) [rule_format]) auto
  with Suc.prems(1) have "feed t (Reg (W n)) = g n # gs n" by simp
  then have r: "READ_PERI_REG (W n) t =
      (g n, t\<lparr>cur := (cur t)(Reg (W n) := g n), feed := (feed t)(Reg (W n) := gs n)\<rparr>)"
    by (simp add: READ_PERI_REG_def sample_feed)
  have "read_words (Suc n) dest s = (dest @ map g [0..<Suc n],
      t\<lparr>cur := (cur t)(Reg (W n) := g n), feed := (feed t)(Reg (W n) := gs n)\<rparr>)"
    using t(1) r by (simp add: read_words_def)
  then show ?case
    using t(2-4) W_inj Suc.prems(2) by (auto simp: less_Suc_eq)
qed

lemma read_words_flash:
  assumes "flash_src f a (Suc m) s" and "poll_src ps s" and "n \<le> 8"
  shows "\<exists>t. read_words n dest s = (dest @ map (\<lambda>k. f (a + 4 * k)) [0..<n], t) \<and> fetches t = fetches s
    \<and> poll_src ps t \<and> (n = 8 \<longrightarrow> flash_src f (a + 32) m t)"
proof -
  have up: "map (\<lambda>j. f (a + 32 * j + 4 * i)) [0..<Suc m]
      = f (a + 4 * i) # map (\<lambda>j. f (a + 32 + 32 * j + 4 * i)) [0..<m]" for i
    by (simp add: upt_conv_Cons map_Suc_upt [symmetric] comp_def algebra_simps del: upt_Suc)
  from assms(1,3) have "\<forall>i < n. feed s (Reg (W i)) = f (a + 4 * i) # map (\<lambda>j. f (a + 32 + 32 * j + 4 * i)) [0..<m]"
    unfolding flash_src_def up by simp
  from read_words_effect [OF this assms(3), of dest] obtain t where
    t: "read_words n dest s = (dest @ map (\<lambda>k. f (a + 4 * k)) [0..<n], t)" "trace t = trace s"
      "\<forall>i < n. feed t (Reg (W i)) = map (\<lambda>j. f (a + 32 + 32 * j + 4 * i)) [0..<m]"
      "\<forall>p. (\<forall>i < n. p \<noteq> Reg (W i)) \<longrightarrow> feed t p = feed s p" by auto
  have "feed t (Reg (SPI_CMD HSPI)) = feed s (Reg (SPI_CMD HSPI))"
    using W_ne(2) assms(3) by (intro t(4) [rule_format]) (metis less_le_trans source.inject(1))
  with t assms(2) show ?thesis by (auto simp: poll_src_def fetches_def flash_src_def)
qed

lemma remain_words:
  assumes "unat n < 32"
  shows "unat (remain_word_num n) = (unat n + 3) div 4"
proof -
  have "\<forall>k \<in> set [0..<32]. unat (remain_word_num (of_nat k)) = (k + 3) div 4"
    by code_simp
  with assms show ?thesis by (auto dest!: bspec [where x = "unat n"])
qed

text \<open>The words of a range are those of its first block and those of the rest.\<close>

lemma words_split:
  assumes "32 \<le> (n :: nat)"
  shows "map (\<lambda>k. g (a + 4 * k)) [0..<8] @ map (\<lambda>k. g (a + 32 + 4 * k)) [0..<(n - 32 + 3) div 4]
    = map (\<lambda>k. g (a + 4 * k)) [0..<(n + 3) div 4]"
proof -
  have e: "(n + 3) div 4 = 8 + (n - 32 + 3) div 4" using assms by presburger
  have "map (\<lambda>k. g (a + 4 * k)) [8..<8 + m] = map (\<lambda>k. g (a + 32 + 4 * k)) [0..<m]" for m
    by (rule nth_equalityI) (simp_all add: algebra_simps)
  with e upt_add_eq_append [of 0 8 "(n - 32 + 3) div 4"] show ?thesis by simp
qed

lemma flash_read_loop_effect:
  assumes "unat n < 2147483648" and "unat a + unat n \<le> 2 ^ 24"
    and "flash_src f (unat a) m s" and "poll_src ps s"
    and "(unat n + 31) div 32 \<le> m" and "(unat n + 31) div 32 \<le> length ps"
  shows "\<exists>t. flash_read_loop a n dest s = Some (dest @ map (\<lambda>k. f (unat a + 4 * k)) [0..<(unat n + 3) div 4], t)
    \<and> fetches t = fetches s @ chunks (unat a) (unat n)"
  using assms
proof (induction "unat n" arbitrary: n a m s ps dest rule: less_induct)
  case less
  have sn: "sint n = int (unat n)" by (rule sint_eq_unat [OF less.prems(1)])
  show ?case
  proof (cases "unat n = 0")
    case True
    with sn show ?thesis by (subst flash_read_loop.simps, subst chunks.simps) simp
  next
    case False
    then obtain m' where m': "m = Suc m'" using less.prems(5) by (cases m) auto
    obtain b ps' where ps: "ps = b # ps'" using less.prems(6) False by (cases ps) auto
    have a24: "unat a < 2 ^ 24" using False less.prems(2) by simp
    show ?thesis
    proof (cases "32 \<le> unat n")
      case True
      have "unat SPI_BUFF_BYTE_NUM < 2 ^ 8" by (simp add: SPI_BUFF_BYTE_NUM_def)
      from flash_fetch_effect [OF less.prems(4) [unfolded ps] a24 this] obtain s1 where
        s1: "flash_fetch a SPI_BUFF_BYTE_NUM s = Some s1" "poll_src ps' s1"
          "\<forall>i < 8. feed s1 (Reg (W i)) = feed s (Reg (W i))" "fetches s1 = fetches s @ [(unat a, 32)]"
        unfolding SPI_BUFF_BYTE_NUM_def by auto
      have "flash_src f (unat a) (Suc m') s1" using less.prems(3) s1(3) m' by (simp add: flash_src_def)
      from read_words_flash [OF this s1(2), of 8 dest] obtain s2 where
        s2: "read_words 8 dest s1 = (dest @ map (\<lambda>k. f (unat a + 4 * k)) [0..<8], s2)" "fetches s2 = fetches s1"
          "poll_src ps' s2" "flash_src f (unat a + 32) m' s2" by auto
      let ?n = "n - SPI_BUFF_BYTE_NUM" and ?a = "a + SPI_BUFF_BYTE_NUM"
      have n': "unat ?n = unat n - 32" using True sn by (intro unat_minus_32(1)) linarith
      have a': "unat ?a = unat a + 32"
        using unat_plus_of_nat [of a 32] True less.prems(2) by (simp add: SPI_BUFF_BYTE_NUM_def)
      have "unat ?n < unat n" "unat ?n < 2147483648" "unat ?a + unat ?n \<le> 2 ^ 24"
        "flash_src f (unat ?a) m' s2" "(unat ?n + 31) div 32 \<le> m'" "(unat ?n + 31) div 32 \<le> length ps'"
        using n' a' True less.prems(1,2,5,6) s2(4) m' ps by auto
      from less.hyps [OF this(1-4) s2(3) this(5-6), of "dest @ map (\<lambda>k. f (unat a + 4 * k)) [0..<8]"]
      obtain t where t: "flash_read_loop ?a ?n (dest @ map (\<lambda>k. f (unat a + 4 * k)) [0..<8]) s2 =
          Some ((dest @ map (\<lambda>k. f (unat a + 4 * k)) [0..<8]) @ map (\<lambda>k. f (unat ?a + 4 * k)) [0..<(unat ?n + 3) div 4], t)"
        "fetches t = fetches s2 @ chunks (unat ?a) (unat ?n)" by auto
      have "map (\<lambda>k. f (unat a + 4 * k)) [0..<8] @ map (\<lambda>k. f (unat ?a + 4 * k)) [0..<(unat ?n + 3) div 4]
          = map (\<lambda>k. f (unat a + 4 * k)) [0..<(unat n + 3) div 4]"
        unfolding n' a' by (rule words_split [OF True])
      moreover have "32 \<le> sint n" "0 < sint n" using True sn by linarith+
      ultimately show ?thesis
        using t s1 s2(1,2) True n' a'
        by (subst flash_read_loop.simps, subst chunks.simps) (simp add: SPI_BUFF_BYTE_NUM_def)
    next
      case small: False
      have "unat n < 2 ^ 8" using small by simp
      from flash_fetch_effect [OF less.prems(4) [unfolded ps] a24 this] obtain s1 where
        s1: "flash_fetch a n s = Some s1" "poll_src ps' s1"
          "\<forall>i < 8. feed s1 (Reg (W i)) = feed s (Reg (W i))" "fetches s1 = fetches s @ [(unat a, unat n)]"
        by auto
      have "flash_src f (unat a) (Suc m') s1" using less.prems(3) s1(3) m' by (simp add: flash_src_def)
      moreover have "(unat n + 3) div 4 \<le> 8" using small by presburger
      ultimately obtain s2 where "read_words ((unat n + 3) div 4) dest s1 =
          (dest @ map (\<lambda>k. f (unat a + 4 * k)) [0..<(unat n + 3) div 4], s2)" "fetches s2 = fetches s1"
        using read_words_flash [OF _ s1(2)] by metis
      moreover have "\<not> 32 \<le> sint n" "0 < sint n" using small False sn by linarith+
      ultimately show ?thesis
        using s1 small False remain_words [of n]
        by (subst flash_read_loop.simps, subst chunks.simps) simp
    qed
  qed
qed

text \<open>
  C4. Reading the flash: for a range that lies in the chip and a chip of at most 16 MB, the
  function returns OK, its commands fetch blocks of 1 to 32 bytes that tile the range from the
  first byte to the last, in order and without overlap, and the words stored are those of the
  flash from the start of the range on, one for each four bytes begun.
\<close>

theorem hspi_flash_read_correct:
  assumes "hspi_dev_sel SPI_CS0_FLASH st = Some st1"
    and "unat flash_addr + unat byte_length \<le> unat chip_size" and "unat chip_size \<le> 2 ^ 24"
    and "flash_src f (unat flash_addr) m (ovl_hw st1)" and "poll_src ps (ovl_hw st1)"
    and "(unat byte_length + 31) div 32 \<le> m" and "(unat byte_length + 31) div 32 \<le> length ps"
  shows "\<exists>st' bs. hspi_overlap_read_flash_data chip_size flash_addr byte_length st =
      Some (SPI_FLASH_RESULT_OK, map (\<lambda>k. f (unat flash_addr + 4 * k)) [0..<(unat byte_length + 3) div 4], st')
    \<and> fetches (ovl_hw st') = fetches (ovl_hw st1) @ bs
    \<and> concat (map (\<lambda>(a, n). [a..<a + n]) bs) = [unat flash_addr..<unat flash_addr + unat byte_length]
    \<and> (\<forall>(a, n) \<in> set bs. 0 < n \<and> n \<le> 32)"
proof -
  let ?a = flash_addr and ?n = byte_length
  have n: "unat ?n < 2147483648" and an: "unat ?a + unat ?n \<le> 2 ^ 24" using assms(2,3) by simp_all
  from flash_read_loop_effect [OF n an assms(4-7), of "[]"] obtain t where
    t: "flash_read_loop ?a ?n [] (ovl_hw st1) = Some (map (\<lambda>k. f (unat ?a + 4 * k)) [0..<(unat ?n + 3) div 4], t)"
      "fetches t = fetches (ovl_hw st1) @ chunks (unat ?a) (unat ?n)" by auto
  have "unat (?a + ?n) = unat ?a + unat ?n"
    using unat_plus_of_nat [of ?a "unat ?n"] an by simp
  with assms(2) have "\<not> chip_size < ?a + ?n" by (simp add: word_less_nat_alt)
  with assms(1) t(1) have "hspi_overlap_read_flash_data chip_size ?a ?n st =
      Some (SPI_FLASH_RESULT_OK, map (\<lambda>k. f (unat ?a + 4 * k)) [0..<(unat ?n + 3) div 4], st1\<lparr>ovl_hw := t\<rparr>)"
    by (simp add: hspi_overlap_read_flash_data_def)
  with t(2) chunks_tile [of "unat ?a" "unat ?n"] chunks_small [of _ _ "unat ?a" "unat ?n"] show ?thesis
    by (intro exI [of _ "st1\<lparr>ovl_hw := t\<rparr>"] exI [of _ "chunks (unat ?a) (unat ?n)"]) auto
qed

text \<open>A flash whose word at each address is the address, and a controller that serves 40 bytes from 64 on.\<close>

definition flash_mach :: mach where
  "flash_mach = mach0\<lparr>feed := (\<lambda>p. case p of
      Reg a \<Rightarrow> if a = SPI_CMD HSPI then [SPI_FLASH_READ, 0, 0]
               else map (\<lambda>j. of_nat (64 + 32 * j + unat (a - SPI_W0 HSPI))) [0..<2]
    | _ \<Rightarrow> [])\<rparr>"

definition flash_ovl :: overlap where
  "flash_ovl = \<lparr>hspi_dev_reg = (hspi_dev_reg sample_ovl)\<lparr>selected_dev_num := SPI_CS0_FLASH\<rparr>, ovl_hw = flash_mach\<rparr>"

theorem hspi_flash_read_correct_witness:
  "\<exists>st'. hspi_overlap_read_flash_data 0x400000 64 40 flash_ovl =
     Some (SPI_FLASH_RESULT_OK, [64, 68, 72, 76, 80, 84, 88, 92, 96, 100], st')"
proof -
  have sel: "hspi_dev_sel SPI_CS0_FLASH flash_ovl = Some flash_ovl"
    using sel_switch_same [of SPI_CS0_FLASH "hspi_dev_reg flash_ovl" flash_mach]
    by (simp add: hspi_dev_sel_def flash_ovl_def sample_ovl_def sel_conf_def dev_defs)
  have "unat (of_nat i * 4 :: u32) = 4 * i" if "i < 8" for i
    using that unat_of_nat_small [of "i * 4", where 'a = 32] by (simp add: mult.commute)
  then have "flash_src of_nat 64 2 flash_mach"
    using W_ne by (simp add: flash_src_def flash_mach_def)
  moreover have "poll_src [[SPI_FLASH_READ], []] flash_mach"
    by (simp add: poll_src_def flash_mach_def SPI_FLASH_READ_def BIT_def)
  ultimately show ?thesis
    using hspi_flash_read_correct [OF sel, of 64 40 "0x400000" of_nat 2 "[[SPI_FLASH_READ], []]"]
    by (auto simp: flash_ovl_def upt_rec)
qed

text \<open>
  The range check adds in 32 bits and the length is then read as a signed number, so a length of
  2 GB or more can pass the check and nothing is read, although the result is OK.
\<close>

lemma hspi_flash_read_huge_length:
  assumes "hspi_dev_sel SPI_CS0_FLASH st = Some st1"
  shows "hspi_overlap_read_flash_data 0x400000 0x1000 0xFFFFF000 st = Some (SPI_FLASH_RESULT_OK, [], st1)"
proof -
  have "sint (0xFFFFF000 :: u32) < 0" by simp
  with assms show ?thesis
    by (simp add: hspi_overlap_read_flash_data_def) (subst flash_read_loop.simps, simp)
qed

section \<open>Back-up and recovery\<close>

text \<open>
  Back-up and recovery are a round trip: whatever happened to the controller after a
  back-up, recovery puts the user, control, clock, command and pin registers back to what they
  were; the pin multiplexer and the slave register, which are saved too, are left as they are.
\<close>

theorem spi_backup_recover_roundtrip:
  assumes "quiet s" and "n \<le> 1" and "spi_reg_backup n mem s = (b, s1)"
    and "a \<in> {SPI_USER n, SPI_CTRL n, SPI_CLOCK n, SPI_USER1 n, SPI_USER2 n, SPI_CMD n, SPI_PIN n}"
  shows "peri (spi_reg_recover n b t) a = peri s a
    \<and> peri (spi_reg_recover n b t) (SPI_SLAVE n) = peri t (SPI_SLAVE n)
    \<and> peri (spi_reg_recover n b t) PERIPHS_IO_MUX = peri t PERIPHS_IO_MUX"
proof -
  have le: "\<not> 1 < n" using assms(2) by simp
  have b: "b = map (peri s) (backup_regs n)"
    using assms(3) le read_all_quiet [OF assms(1), of "backup_regs n"] by (auto simp: spi_reg_backup_def)
  have "n = 0 \<or> n = 1" using assms(2) by (auto simp: word_le_nat_alt word_unat_eq_iff)
  then have "PERIPHS_IO_MUX \<notin> set (tl (backup_regs n))"
    by (auto simp: backup_regs_def spi_reg_defs PERIPHS_IO_MUX_def)
  then show ?thesis
    using assms(4) le by (auto simp: spi_reg_recover_def b backup_regs_def spi_reg_defs)
qed

theorem spi_backup_recover_roundtrip_witness:
  "\<exists>b s1. spi_reg_backup HSPI [] mach0 = (b, s1)
     \<and> peri (spi_reg_recover HSPI b (WRITE_PERI_REG (SPI_CLOCK HSPI) 7 mach0)) (SPI_CLOCK HSPI) = 0"
proof -
  obtain b s1 where b: "spi_reg_backup HSPI [] mach0 = (b, s1)" by (meson surj_pair)
  from spi_backup_recover_roundtrip [OF quiet_mach0 _ b, of "SPI_CLOCK HSPI"] b show ?thesis
    by (auto simp: HSPI_def)
qed

end
