(* ===== verification/SlcReg.thy ===== *)
theory SlcReg
  imports Machine
begin

text \<open>
  The registers of the SDIO slave controller (slc_register.h) and the constants of sdio_slv.h
  and sdio_slv.c that the driver uses, and the status word it shares with the host: the union
  \<open>sdio_slave_status\<close> is the record of its bit fields with the two conversions between the
  record and the 32 bit word.
\<close>

section \<open>Registers\<close>

definition REG_SLC_BASE :: u32 where [reg_simps]: "REG_SLC_BASE = 0x60000B00"
definition SLC_CONF0 :: u32 where [reg_simps]: "SLC_CONF0 = REG_SLC_BASE + 0x0"
definition SLC_RXLINK_RST :: u32 where [reg_simps]: "SLC_RXLINK_RST = BIT 1"
definition SLC_TXLINK_RST :: u32 where [reg_simps]: "SLC_TXLINK_RST = BIT 0"
definition SLC_INT_STATUS :: u32 where [reg_simps]: "SLC_INT_STATUS = REG_SLC_BASE + 0x8"
definition SLC_INT_ENA :: u32 where [reg_simps]: "SLC_INT_ENA = REG_SLC_BASE + 0xC"
definition SLC_TX_DSCR_ERR_INT_ENA :: u32 where [reg_simps]: "SLC_TX_DSCR_ERR_INT_ENA = BIT 19"
definition SLC_RX_EOF_INT_ENA :: u32 where [reg_simps]: "SLC_RX_EOF_INT_ENA = BIT 17"
definition SLC_TX_EOF_INT_ENA :: u32 where [reg_simps]: "SLC_TX_EOF_INT_ENA = BIT 15"
definition SLC_RX_UDF_INT_ENA :: u32 where [reg_simps]: "SLC_RX_UDF_INT_ENA = BIT 10"
definition SLC_INT_CLR :: u32 where [reg_simps]: "SLC_INT_CLR = REG_SLC_BASE + 0x10"
definition SLC_RX_LINK :: u32 where [reg_simps]: "SLC_RX_LINK = REG_SLC_BASE + 0x24"
definition SLC_RXLINK_START :: u32 where [reg_simps]: "SLC_RXLINK_START = BIT 29"
definition SLC_RXLINK_DESCADDR_MASK :: u32 where [reg_simps]: "SLC_RXLINK_DESCADDR_MASK = 0x000FFFFF"
definition SLC_TX_LINK :: u32 where [reg_simps]: "SLC_TX_LINK = REG_SLC_BASE + 0x28"
definition SLC_TXLINK_START :: u32 where [reg_simps]: "SLC_TXLINK_START = BIT 29"
definition SLC_TXLINK_DESCADDR_MASK :: u32 where [reg_simps]: "SLC_TXLINK_DESCADDR_MASK = 0x000FFFFF"
definition SLC_INTVEC_TOHOST :: u32 where [reg_simps]: "SLC_INTVEC_TOHOST = REG_SLC_BASE + 0x2C"
definition SLC_RX_DSCR_CONF :: u32 where [reg_simps]: "SLC_RX_DSCR_CONF = REG_SLC_BASE + 0x5C"
definition SLC_RX_EOF_MODE :: u32 where [reg_simps]: "SLC_RX_EOF_MODE = BIT 19"
definition SLC_RX_FILL_MODE :: u32 where [reg_simps]: "SLC_RX_FILL_MODE = BIT 18"
definition SLC_TOKEN_NO_REPLACE :: u32 where [reg_simps]: "SLC_TOKEN_NO_REPLACE = BIT 16"
definition SLC_HOST_CONF_W2 :: u32 where [reg_simps]: "SLC_HOST_CONF_W2 = REG_SLC_BASE + 0x80 + 0x20"
definition SLC_HOST_INTR_CLR :: u32 where [reg_simps]: "SLC_HOST_INTR_CLR = REG_SLC_BASE + 0x80 + 0x30"
definition SLC_HOST_INTR_ENA :: u32 where [reg_simps]: "SLC_HOST_INTR_ENA = REG_SLC_BASE + 0x80 + 0x34"
definition SLC_HOST_TOHOST_BIT0_INT_ENA :: u32 where [reg_simps]: "SLC_HOST_TOHOST_BIT0_INT_ENA = BIT 0"

section \<open>Constants of the driver\<close>

definition RX_AVAILIBLE :: u32 where [reg_simps]: "RX_AVAILIBLE = 2"
definition TX_AVAILIBLE :: u32 where [reg_simps]: "TX_AVAILIBLE = 1"
definition INIT_STAGE :: u32 where [reg_simps]: "INIT_STAGE = 0"
definition SDIO_TOKEN_SIZE :: nat where "SDIO_TOKEN_SIZE = 0"
definition RX_BUFFER_SIZE :: nat where "RX_BUFFER_SIZE = 512"
definition RX_BUFFER_NUM :: nat where "RX_BUFFER_NUM = 4"
definition TX_BUFFER_SIZE :: nat where "TX_BUFFER_SIZE = 512"

definition SLC_INTEREST_EVENT :: u32 where
  "SLC_INTEREST_EVENT =
     SLC_TX_EOF_INT_ENA OR SLC_RX_EOF_INT_ENA OR SLC_RX_UDF_INT_ENA OR SLC_TX_DSCR_ERR_INT_ENA"

definition TRIG_TOHOST_INT :: "mach \<Rightarrow> mach" where
  "TRIG_TOHOST_INT s = SET_PERI_REG_MASK SLC_INTVEC_TOHOST (BIT 0) s"

section \<open>The status word\<close>

record sdio_slave_status_element =
  wr_busy :: u32
  rd_empty :: u32
  comm_cnt :: u32
  intr_no :: u32
  rx_length :: u32
  res :: u32

definition elm_value :: "u32 \<Rightarrow> sdio_slave_status_element" where
  "elm_value w =
     \<lparr>wr_busy = take_bit 1 w, rd_empty = take_bit 1 (drop_bit 1 w),
      comm_cnt = take_bit 3 (drop_bit 2 w), intr_no = take_bit 3 (drop_bit 5 w),
      rx_length = take_bit 16 (drop_bit 8 w), res = take_bit 8 (drop_bit 24 w)\<rparr>"

definition word_value :: "sdio_slave_status_element \<Rightarrow> u32" where
  "word_value e =
     take_bit 1 (wr_busy e) OR push_bit 1 (take_bit 1 (rd_empty e))
     OR push_bit 2 (take_bit 3 (comm_cnt e)) OR push_bit 5 (take_bit 3 (intr_no e))
     OR push_bit 8 (take_bit 16 (rx_length e)) OR push_bit 24 (take_bit 8 (res e))"

text \<open>What a record reads as once its fields have been cut to their widths.\<close>

definition cut_fields :: "sdio_slave_status_element \<Rightarrow> sdio_slave_status_element" where
  "cut_fields e =
     \<lparr>wr_busy = take_bit 1 (wr_busy e), rd_empty = take_bit 1 (rd_empty e),
      comm_cnt = take_bit 3 (comm_cnt e), intr_no = take_bit 3 (intr_no e),
      rx_length = take_bit 16 (rx_length e), res = take_bit 8 (res e)\<rparr>"

lemmas field_bits = bit_or_iff bit_push_bit_iff bit_take_bit_iff bit_drop_bit_eq comp_def

lemma field_at:
  fixes w :: u32
  assumes "\<And>n. n < k \<Longrightarrow> h + n < 32 \<and> bit w (h + n) = bit v n"
  shows "take_bit k (drop_bit h w) = take_bit k v"
  by (rule bit_word_eqI) (use assms in \<open>auto simp: field_bits\<close>)

lemma elm_word_value: "elm_value (word_value e) = cut_fields e"
proof -
  have "take_bit 1 (drop_bit 0 (word_value e)) = take_bit 1 (wr_busy e)"
    and "take_bit 1 (drop_bit 1 (word_value e)) = take_bit 1 (rd_empty e)"
    and "take_bit 3 (drop_bit 2 (word_value e)) = take_bit 3 (comm_cnt e)"
    and "take_bit 3 (drop_bit 5 (word_value e)) = take_bit 3 (intr_no e)"
    and "take_bit 16 (drop_bit 8 (word_value e)) = take_bit 16 (rx_length e)"
    and "take_bit 8 (drop_bit 24 (word_value e)) = take_bit 8 (res e)"
    unfolding word_value_def by (rule field_at; simp only: field_bits; simp)+
  then show ?thesis by (simp add: elm_value_def cut_fields_def del: take_bit_Suc)
qed

lemma word_elm_value: "word_value (elm_value w) = w"
proof (rule bit_word_eqI)
  fix n :: nat
  assume "n < LENGTH(32)"
  then have n: "n < 32" by simp
  have two: "Suc (Suc (n - 2)) = n" if "2 \<le> n" using that by simp
  consider "n = 0" | "n = 1" | "2 \<le> n \<and> n < 5" | "5 \<le> n \<and> n < 8" | "8 \<le> n \<and> n < 24" | "24 \<le> n"
    by linarith
  then show "bit (word_value (elm_value w)) n = bit w n"
    unfolding word_value_def elm_value_def sdio_slave_status_element.select_convs field_bits
    by cases (use n two in auto)
qed

text \<open>Reading the status word back gives the fields that were stored, and storing the fields of a word gives the word.\<close>

lemma status_conversions:
  "elm_value (word_value e) = cut_fields e" "word_value (elm_value w) = w"
  by (rule elm_word_value word_elm_value)+

lemma cut_elm_value [simp]: "cut_fields (elm_value w) = elm_value w"
  by (metis elm_word_value word_elm_value)

end
