(* ===== verification/SdioSlv.thy ===== *)
theory SdioSlv
  imports SlcReg "HOL-Library.Monad_Syntax"
begin

text \<open>
  The SDIO slave driver (driver/sdio_slv.c). Data for the host waits in a chain of buffers of
  512 bytes: the driver keeps the list of the buffers to send and the list of the free ones,
  both linked through the heap and both with a pointer to their last element, and hands the
  head of the first to the controller. Every dereference goes through the heap and fails on a
  null or wild pointer; the result of an operation that faults is \<open>None\<close>.

  \<open>SdioBufs\<close> treats the lists and the load loop, \<open>SdioInv\<close> the invariant and the properties.
\<close>

section \<open>State\<close>

text \<open>
  A node keeps its tail as an offset from its buffer. \<open>fresh p\<close> is what the memory at \<open>p\<close> holds
  when the allocator gives it out. The addresses of the global objects are fixed by the linker.
\<close>

record sdio_list =
  buffer :: "u8 list"
  tail :: nat
  nextp :: u32

record sdio_queue =
  blocksize :: u32
  datalen :: u32
  unused :: u32
  sub_sof :: u32
  eof :: u32
  owner :: u32
  buf_ptr :: u32
  next_link_ptr :: u32

record sdio =
  heap :: "u32 \<Rightarrow> sdio_list option"
  fresh :: "u32 \<Rightarrow> u8 list"
  sdio_recv_data_callback_ptr :: "cfun option"
  pHead_ToSend :: u32
  pTail_ToSend :: u32
  pHead_Sended :: u32
  pTail_Sended :: u32
  rx_que :: sdio_queue
  tx_que :: sdio_queue
  has_read :: bool
  adr_rx_que :: u32
  adr_tx_que :: u32
  adr_tx_buffer :: u32
  sd_hw :: mach

abbreviation NULL :: u32 where "NULL \<equiv> 0"

definition hw :: "(mach \<Rightarrow> mach) \<Rightarrow> sdio \<Rightarrow> sdio" where
  "hw f st = st\<lparr>sd_hw := f (sd_hw st)\<rparr>"

definition deref :: "u32 \<Rightarrow> sdio \<Rightarrow> sdio_list option" where
  "deref p st = (if p = NULL then None else heap st p)"

definition store :: "u32 \<Rightarrow> (sdio_list \<Rightarrow> sdio_list) \<Rightarrow> sdio \<Rightarrow> sdio option" where
  "store p f st = do { n \<leftarrow> deref p st; Some (st\<lparr>heap := (heap st)(p \<mapsto> f n)\<rparr>) }"

definition os_malloc :: "sdio \<Rightarrow> u32 \<times> sdio" where
  "os_malloc st =
     (case sample HeapPtr (sd_hw st) of
        (p, s) \<Rightarrow> (p, st\<lparr>heap := (heap st)(p \<mapsto> \<lparr>buffer = fresh st p, tail = 0, nextp = NULL\<rparr>), sd_hw := s\<rparr>))"

section \<open>Status word updates\<close>

definition rx_buff_read_done :: "sdio \<Rightarrow> sdio" where
  "rx_buff_read_done st =
     hw (\<lambda>s. case READ_PERI_REG SLC_HOST_CONF_W2 s of
        (w, s) \<Rightarrow>
          let e = elm_value w;
              e = e\<lparr>comm_cnt := take_bit 3 (comm_cnt e + 1)\<rparr>;
              e = e\<lparr>rd_empty := 1, rx_length := 0\<rparr>;
              e = e\<lparr>intr_no := intr_no e AND NOT RX_AVAILIBLE\<rparr>
          in WRITE_PERI_REG SLC_HOST_CONF_W2 (word_value e) s) st"

definition tx_buff_write_done :: "sdio \<Rightarrow> sdio" where
  "tx_buff_write_done st =
     hw (\<lambda>s. case READ_PERI_REG SLC_HOST_CONF_W2 s of
        (w, s) \<Rightarrow>
          let e = elm_value w;
              e = e\<lparr>comm_cnt := take_bit 3 (comm_cnt e + 1)\<rparr>;
              e = e\<lparr>wr_busy := 1\<rparr>;
              e = e\<lparr>intr_no := intr_no e AND NOT TX_AVAILIBLE\<rparr>
          in WRITE_PERI_REG SLC_HOST_CONF_W2 (word_value e) s) st"

definition tx_buff_handle_done :: "sdio \<Rightarrow> sdio" where
  "tx_buff_handle_done st =
    (let st = st\<lparr>tx_que := (tx_que st)\<lparr>blocksize := of_nat TX_BUFFER_SIZE, datalen := 0, eof := 0, owner := 1\<rparr>\<rparr>
     in hw (\<lambda>s. case READ_PERI_REG SLC_HOST_CONF_W2 s of
        (w, s) \<Rightarrow>
          let e = elm_value w;
              e = e\<lparr>wr_busy := 0\<rparr>;
              e = e\<lparr>intr_no := intr_no e OR TX_AVAILIBLE\<rparr>;
              s = SET_PERI_REG_MASK SLC_TX_LINK SLC_TXLINK_START s
          in WRITE_PERI_REG SLC_HOST_CONF_W2 (word_value e) s) st)"

text \<open>The length comes as a \<open>uint16\<close>; \<open>blocksize\<close> and \<open>datalen\<close> are bit fields of 12 bits.\<close>

definition rx_buff_load_done :: "u16 \<Rightarrow> sdio \<Rightarrow> u32 \<times> sdio" where
  "rx_buff_load_done rx_len st =
    (if rx_len = 0 then (0, st)
     else
       let rx_len = (if (ucast rx_len :: u32) > blocksize (rx_que st) then ucast (blocksize (rx_que st)) else rx_len);
           st = st\<lparr>rx_que := (rx_que st)\<lparr>blocksize := of_nat RX_BUFFER_SIZE,
                      datalen := take_bit 12 (ucast rx_len + of_nat SDIO_TOKEN_SIZE), eof := 1, owner := 1\<rparr>\<rparr>
       in (ucast rx_len,
           hw (\<lambda>s. case READ_PERI_REG SLC_HOST_CONF_W2 s of
             (w, s) \<Rightarrow>
               let e = elm_value w;
                   e = e\<lparr>rd_empty := 0\<rparr>;
                   e = e\<lparr>intr_no := intr_no e OR RX_AVAILIBLE\<rparr>;
                   e = e\<lparr>rx_length := ucast rx_len\<rparr>;
                   s = SET_PERI_REG_MASK SLC_RX_LINK SLC_RXLINK_START s
               in WRITE_PERI_REG SLC_HOST_CONF_W2 (word_value e) s) st))"

section \<open>Loading data and handing it to the controller\<close>

definition sdio_try_to_load :: "sdio \<Rightarrow> sdio option" where
  "sdio_try_to_load st =
    (if has_read st \<and> pHead_ToSend st \<noteq> NULL then do {
       let st = st\<lparr>rx_que := (rx_que st)\<lparr>buf_ptr := pHead_ToSend st\<rparr>\<rparr>;
       n \<leftarrow> deref (pHead_ToSend st) st;
       let st = snd (rx_buff_load_done (of_nat (tail n - SDIO_TOKEN_SIZE)) st);
       let st = st\<lparr>has_read := False\<rparr>;
       Some (hw TRIG_TOHOST_INT st)
     } else Some st)"

text \<open>\<open>os_memcpy(p->tail, data, k); p->tail += k\<close>: it must stay inside both arrays.\<close>

definition copy_tail :: "u32 \<Rightarrow> u8 list \<Rightarrow> nat \<Rightarrow> sdio \<Rightarrow> sdio option" where
  "copy_tail p data k st = do {
     n \<leftarrow> deref p st;
     if k \<le> length data \<and> tail n + k \<le> length (buffer n)
     then store p (\<lambda>n. n\<lparr>buffer := take (tail n) (buffer n) @ take k data @ drop (tail n + k) (buffer n),
                         tail := tail n + k\<rparr>) st
     else None }"

text \<open>The head of the free list, which is full, becomes the last buffer to send.\<close>

definition move_full :: "sdio \<Rightarrow> sdio option" where
  "move_full st = do {
     st \<leftarrow> (if pHead_ToSend st = NULL
           then Some (st\<lparr>pTail_ToSend := pHead_Sended st, pHead_ToSend := pHead_Sended st\<rparr>)
           else do {
             st \<leftarrow> store (pTail_ToSend st) (\<lambda>n. n\<lparr>nextp := pHead_Sended st\<rparr>) st;
             n \<leftarrow> deref (pTail_ToSend st) st;
             Some (st\<lparr>pTail_ToSend := nextp n\<rparr>) });
     n \<leftarrow> deref (pHead_Sended st) st;
     let st = st\<lparr>pHead_Sended := nextp n\<rparr>;
     store (pTail_ToSend st) (\<lambda>n. n\<lparr>nextp := NULL\<rparr>) st }"

text \<open>
  The loop \<open>while(len)\<close>. The counter \<open>data_len\<close> is an \<open>int32\<close> kept as a word; the branch that
  ends the loop adds \<open>len\<close> to it after clearing it, as the source does. \<open>None\<close> is a fault or a
  loop that does not end.
\<close>

partial_function (option) load_loop :: "u8 list \<Rightarrow> u32 \<Rightarrow> u32 \<Rightarrow> sdio \<Rightarrow> (u32 \<times> sdio) option" where
  [code]: "load_loop data len data_len st =
    (if len = 0 then Some (data_len, st)
     else do {
       n \<leftarrow> deref (pHead_Sended st) st;
       let left_len = (of_nat (RX_BUFFER_SIZE + SDIO_TOKEN_SIZE) - of_nat (tail n) :: u32);
       if len < left_len then do {
         st \<leftarrow> copy_tail (pHead_Sended st) data (unat len) st;
         let len = 0;
         load_loop data len (data_len + len) st
       } else do {
         st \<leftarrow> copy_tail (pHead_Sended st) data (unat left_len) st;
         let len = len - left_len;
         let data = drop (unat left_len) data;
         let data_len = data_len + left_len;
         st \<leftarrow> move_full st;
         if pHead_Sended st = NULL then Some (data_len, hw (emit (Print ''buf full'' [])) st)
         else load_loop data len data_len st } })"

text \<open>The first free buffer becomes the only buffer to send.\<close>

definition take_free_head :: "sdio \<Rightarrow> sdio option" where
  "take_free_head st = do {
     let st = st\<lparr>pTail_ToSend := pHead_Sended st\<rparr>;
     let st = st\<lparr>pHead_ToSend := pTail_ToSend st\<rparr>;
     n \<leftarrow> deref (pHead_Sended st) st;
     let st = st\<lparr>pHead_Sended := nextp n\<rparr>;
     store (pTail_ToSend st) (\<lambda>n. n\<lparr>nextp := NULL\<rparr>) st }"

definition sdio_load_data :: "u8 list \<Rightarrow> u32 \<Rightarrow> sdio \<Rightarrow> (u32 \<times> sdio) option" where
  "sdio_load_data data len st =
    (if pHead_Sended st = NULL then Some (0, hw (emit (Print ''no buf'' [])) st)
     else do {
       (data_len, st) \<leftarrow> load_loop data len 0 st;
       if pHead_ToSend st = NULL then do {
         st \<leftarrow> take_free_head st;
         st \<leftarrow> sdio_try_to_load st;
         Some (data_len, st)
       } else Some (data_len, st) })"

text \<open>Hands the head of the buffers to send to the controller, as both branches below do.\<close>

definition send_head :: "sdio \<Rightarrow> sdio option" where
  "send_head st = do {
     let st = st\<lparr>rx_que := (rx_que st)\<lparr>buf_ptr := pHead_ToSend st\<rparr>\<rparr>;
     n \<leftarrow> deref (pHead_ToSend st) st;
     let st = snd (rx_buff_load_done (of_nat (tail n - SDIO_TOKEN_SIZE)) st);
     Some (st\<lparr>has_read := False\<rparr>) }"

text \<open>The buffer the host has read goes, emptied, to the end of the free list.\<close>

definition recycle_head :: "sdio \<Rightarrow> sdio option" where
  "recycle_head st = do {
     st \<leftarrow> store (pHead_ToSend st) (\<lambda>n. n\<lparr>tail := SDIO_TOKEN_SIZE\<rparr>) st;
     st \<leftarrow> (if pHead_Sended st \<noteq> NULL then do {
              st \<leftarrow> store (pTail_Sended st) (\<lambda>n. n\<lparr>nextp := pHead_ToSend st\<rparr>) st;
              n \<leftarrow> deref (pTail_Sended st) st;
              Some (st\<lparr>pTail_Sended := nextp n\<rparr>)
            } else
              let st = st\<lparr>pTail_Sended := pHead_ToSend st\<rparr>
              in Some (st\<lparr>pHead_Sended := pTail_Sended st\<rparr>));
     n \<leftarrow> deref (pHead_ToSend st) st;
     let st = st\<lparr>pHead_ToSend := nextp n\<rparr>;
     store (pTail_Sended st) (\<lambda>n. n\<lparr>nextp := NULL\<rparr>) st }"

definition sdio_read_done_process :: "sdio \<Rightarrow> sdio option" where
  "sdio_read_done_process st = do {
     st \<leftarrow> recycle_head (st\<lparr>has_read := True\<rparr>);
     st \<leftarrow> (if pHead_ToSend st \<noteq> NULL then send_head st
           else if pHead_Sended st \<noteq> NULL then do {
             n \<leftarrow> deref (pHead_Sended st) st;
             if tail n \<noteq> SDIO_TOKEN_SIZE then do {
               st \<leftarrow> take_free_head st;
               send_head st
             } else Some st
           } else Some st);
     Some (hw TRIG_TOHOST_INT st) }"

definition sdio_register_recv_cb :: "cfun option \<Rightarrow> sdio \<Rightarrow> bool \<times> sdio" where
  "sdio_register_recv_cb cb st = (True, st\<lparr>sdio_recv_data_callback_ptr := cb\<rparr>)"

section \<open>The interrupt handler\<close>

text \<open>
  The handler is entered with whatever the controller has put into \<open>tx_que\<close> and the status
  register. The user callback is recorded with the address and the length it is given.
\<close>

definition sdio_slave_isr :: "sdio \<Rightarrow> sdio option" where
  "sdio_slave_isr st =
    (case READ_PERI_REG SLC_INT_STATUS (sd_hw st) of
      (slc_intr_status, s) \<Rightarrow>
        let st = st\<lparr>sd_hw := s\<rparr>
        in if slc_intr_status = 0 then Some st
           else do {
             let st = hw (WRITE_PERI_REG SLC_INT_CLR slc_intr_status) st;
             st \<leftarrow> (if slc_intr_status AND SLC_RX_EOF_INT_ENA \<noteq> 0
                   then sdio_read_done_process (rx_buff_read_done st)
                   else Some st);
             let st = (if slc_intr_status AND SLC_TX_EOF_INT_ENA \<noteq> 0
                   then let st = tx_buff_write_done st;
                            st = (case sdio_recv_data_callback_ptr st of
                                    Some cb \<Rightarrow> hw (emit (CallData cb (buf_ptr (tx_que st)) (datalen (tx_que st)))) st
                                  | None \<Rightarrow> st);
                            st = tx_buff_handle_done st
                        in hw TRIG_TOHOST_INT st
                   else st);
             Some (hw (\<lambda>s. case READ_PERI_REG SLC_INT_STATUS s of
                 (slc_intr_status, s) \<Rightarrow>
                   if slc_intr_status \<noteq> 0
                   then emit (Print ''slc_intr_status:0x%08x'' [uint slc_intr_status])
                          (WRITE_PERI_REG SLC_INT_CLR slc_intr_status s)
                   else s) st) })"

section \<open>Initialisation\<close>

primrec alloc_loop :: "nat \<Rightarrow> u32 \<Rightarrow> sdio \<Rightarrow> (u32 \<times> sdio) option" where
  "alloc_loop 0 p st = Some (p, st)"
| "alloc_loop (Suc loop) p st = do {
     (p, st) \<leftarrow> (if pHead_Sended st = NULL
                then case os_malloc st of (a, st) \<Rightarrow>
                  let st = st\<lparr>pHead_Sended := a\<rparr> in Some (pHead_Sended st, st)
                else case os_malloc st of (a, st) \<Rightarrow> do {
                  st \<leftarrow> store p (\<lambda>n. n\<lparr>nextp := a\<rparr>) st;
                  n \<leftarrow> deref p st;
                  Some (nextp n, st) });
     st \<leftarrow> store p (\<lambda>n. n\<lparr>tail := SDIO_TOKEN_SIZE\<rparr>) st;
     st \<leftarrow> store p (\<lambda>n. n\<lparr>nextp := NULL\<rparr>) st;
     alloc_loop loop p st }"

definition init_status :: u32 where
  "init_status = word_value
     \<lparr>wr_busy = 0, rd_empty = 1, comm_cnt = 7, intr_no = INIT_STAGE, rx_length = 0, res = 0\<rparr>"

definition sdio_reset_link :: "mach \<Rightarrow> mach" where
  "sdio_reset_link s =
    (let s = ETS_INTR_DISABLE ETS_SDIO_INUM s;
         s = SET_PERI_REG_MASK SLC_CONF0 (SLC_RXLINK_RST OR SLC_TXLINK_RST) s;
         s = CLEAR_PERI_REG_MASK SLC_CONF0 (SLC_RXLINK_RST OR SLC_TXLINK_RST) s;
         s = emit (Print ''RX&TX link reset!'' []) s;
         s = SET_PERI_REG_MASK SLC_RX_DSCR_CONF (SLC_RX_EOF_MODE OR SLC_RX_FILL_MODE) s;
         s = WRITE_PERI_REG SLC_HOST_INTR_CLR 0xffffffff s
     in SET_PERI_REG_MASK SLC_HOST_INTR_ENA SLC_HOST_TOHOST_BIT0_INT_ENA s)"

definition sdio_link_up :: "u32 \<Rightarrow> u32 \<Rightarrow> mach \<Rightarrow> mach" where
  "sdio_link_up rxq txq s =
    (let s = CLEAR_PERI_REG_MASK SLC_RX_LINK SLC_RXLINK_DESCADDR_MASK s;
         s = SET_PERI_REG_MASK SLC_RX_LINK (rxq AND SLC_RXLINK_DESCADDR_MASK) s;
         s = CLEAR_PERI_REG_MASK SLC_TX_LINK SLC_TXLINK_DESCADDR_MASK s;
         s = SET_PERI_REG_MASK SLC_TX_LINK (txq AND SLC_TXLINK_DESCADDR_MASK) s;
         s = SET_PERI_REG_MASK SLC_RX_DSCR_CONF SLC_TOKEN_NO_REPLACE s;
         s = SET_PERI_REG_MASK SLC_TX_LINK SLC_TXLINK_START s;
         s = WRITE_PERI_REG SLC_HOST_CONF_W2 init_status s;
         s = emit (IsrAttach ETS_SDIO_INUM C_sdio_slave_isr) s;
         s = WRITE_PERI_REG SLC_INT_ENA SLC_INTEREST_EVENT s;
         s = WRITE_PERI_REG SLC_INT_CLR 0xffffffff s
     in ETS_INTR_ENABLE ETS_SDIO_INUM s)"

definition sdio_slave_init :: "sdio \<Rightarrow> sdio option" where
  "sdio_slave_init st = do {
     let st = hw sdio_reset_link st;
     let st = st\<lparr>has_read := True, pHead_ToSend := NULL\<rparr>;
     (p, st) \<leftarrow> alloc_loop RX_BUFFER_NUM NULL st;
     let st = st\<lparr>pTail_Sended := p\<rparr>;
     n \<leftarrow> deref (pHead_Sended st) st;
     let st = st\<lparr>
       rx_que := \<lparr>blocksize = of_nat RX_BUFFER_SIZE, datalen = 0, unused = 0, sub_sof = 0, eof = 1,
                  owner = 1, buf_ptr = pHead_Sended st, next_link_ptr = 0\<rparr>,
       tx_que := \<lparr>blocksize = of_nat TX_BUFFER_SIZE, datalen = 0, unused = 0, sub_sof = 0, eof = 0,
                  owner = 1, buf_ptr = adr_tx_buffer st, next_link_ptr = 0\<rparr>\<rparr>;
     Some (hw (sdio_link_up (adr_rx_que st) (adr_tx_que st)) st) }"

end
