(* ===== verification/SdioBufs.thy ===== *)
theory SdioBufs
  imports SdioSlv
begin

text \<open>
  The two linked lists of the SDIO slave driver. \<open>links\<close> says that the four pointers of the
  driver describe two disjoint lists of nodes, \<open>dat\<close> what a node holds apart from its link. Each
  list operation keeps \<open>links\<close>, and the load loop appends to the stream of bytes in the buffers
  as much as fits (\<open>load_loop_ok\<close>).
\<close>

section \<open>Chains of buffers\<close>

primrec seg :: "(u32 \<Rightarrow> sdio_list option) \<Rightarrow> u32 \<Rightarrow> u32 list \<Rightarrow> u32 \<Rightarrow> bool" where
  "seg h p [] q \<longleftrightarrow> p = q"
| "seg h p (x # xs) q \<longleftrightarrow>
     p = x \<and> x \<noteq> NULL \<and> (case h x of None \<Rightarrow> False | Some n \<Rightarrow> seg h (nextp n) xs q)"

lemma seg_append: "seg h p (xs @ ys) q \<longleftrightarrow> (\<exists>r. seg h p xs r \<and> seg h r ys q)"
  by (induction xs arbitrary: p) (auto split: option.splits)

lemma seg_update: "x \<notin> set xs \<Longrightarrow> seg (h(x := v)) p xs q \<longleftrightarrow> seg h p xs q"
  by (induction xs arbitrary: p) (auto split: option.splits)

lemma seg_mem: "seg h p xs q \<Longrightarrow> x \<in> set xs \<Longrightarrow> x \<noteq> NULL \<and> (\<exists>n. h x = Some n)"
  by (induction xs arbitrary: p) (auto split: option.splits)

lemma seg_head_NULL: "seg h p xs NULL \<Longrightarrow> p = NULL \<longleftrightarrow> xs = []"
  by (cases xs) auto

lemma seg_keep_nextp:
  "h x = Some n \<Longrightarrow> nextp m = nextp n \<Longrightarrow> seg (h(x \<mapsto> m)) p xs q \<longleftrightarrow> seg h p xs q"
  by (induction xs arbitrary: p) (auto split: option.splits)

text \<open>Linking the new element \<open>y\<close> behind the last one.\<close>

lemma seg_snoc:
  assumes "seg h p xs NULL" "distinct xs" "y \<notin> set xs" "xs \<noteq> []" "y \<noteq> NULL"
    and "h (last xs) = Some n" "h y = Some m"
  shows "seg (h(last xs \<mapsto> n\<lparr>nextp := y\<rparr>, y \<mapsto> m\<lparr>nextp := NULL\<rparr>)) p (xs @ [y]) NULL"
proof -
  obtain zs l where xs: "xs = zs @ [l]" using assms(4) by (cases xs rule: rev_cases) auto
  then have "seg (h(l \<mapsto> n\<lparr>nextp := y\<rparr>, y \<mapsto> m\<lparr>nextp := NULL\<rparr>)) p zs l"
    using assms by (auto simp: seg_append seg_update split: option.splits)
  then show ?thesis using assms xs by (auto simp: seg_append)
qed

definition links :: "sdio \<Rightarrow> u32 list \<Rightarrow> u32 list \<Rightarrow> bool" where
  "links st ts ss \<longleftrightarrow>
     seg (heap st) (pHead_ToSend st) ts NULL \<and> seg (heap st) (pHead_Sended st) ss NULL \<and>
     distinct (ts @ ss) \<and>
     (ts \<noteq> [] \<longrightarrow> pTail_ToSend st = last ts) \<and> (ss \<noteq> [] \<longrightarrow> pTail_Sended st = last ss)"

text \<open>What a buffer holds, apart from its link.\<close>

definition dat :: "sdio \<Rightarrow> u32 \<Rightarrow> (u8 list \<times> nat) option" where
  "dat st p = map_option (\<lambda>n. (buffer n, tail n)) (heap st p)"

definition rest :: "sdio \<Rightarrow> bool \<times> sdio_queue \<times> sdio_queue \<times> cfun option \<times> mach" where
  "rest st = (has_read st, rx_que st, tx_que st, sdio_recv_data_callback_ptr st, sd_hw st)"

lemma links_heads:
  assumes "links st ts ss"
  shows "pHead_ToSend st = NULL \<longleftrightarrow> ts = []" "pHead_Sended st = NULL \<longleftrightarrow> ss = []"
    "ts \<noteq> [] \<Longrightarrow> pHead_ToSend st = hd ts" "ss \<noteq> [] \<Longrightarrow> pHead_Sended st = hd ss"
  using assms by (cases ts; cases ss; auto simp: links_def split: option.splits)+

lemma links_node: "links st ts ss \<Longrightarrow> p \<in> set (ts @ ss) \<Longrightarrow> p \<noteq> NULL \<and> (\<exists>n. heap st p = Some n)"
  by (auto simp: links_def dest: seg_mem)

lemmas heap_defs = deref_def store_def Let_def

lemma move_full_links:
  assumes "links st ts (x # ss)"
  shows "\<exists>st'. move_full st = Some st' \<and> links st' (ts @ [x]) ss \<and> dat st' = dat st \<and> rest st' = rest st"
proof -
  from links_node [OF assms, of x] obtain n where n: "heap st x = Some n" "x \<noteq> NULL" by auto
  have heads: "pHead_Sended st = x" "seg (heap st) (nextp n) ss NULL"
    using assms n by (auto simp: links_def)
  show ?thesis
  proof (cases "ts = []")
    case True
    then have "pHead_ToSend st = NULL" using assms by (simp add: links_heads)
    then show ?thesis
      using assms n heads True
      by (auto simp: move_full_def heap_defs links_def rest_def dat_def seg_update fun_eq_iff)
  next
    case False
    then have l: "pTail_ToSend st = last ts" "pHead_ToSend st \<noteq> NULL" "last ts \<noteq> x" "x \<notin> set ts" "last ts \<notin> set ss" "x \<notin> set ss"
    proof -
      show "pHead_ToSend st \<noteq> NULL" using assms False by (simp add: links_heads(1))
      obtain us l where "ts = us @ [l]" using False by (cases ts rule: rev_cases) auto
      then show "pTail_ToSend st = last ts" "last ts \<noteq> x" "x \<notin> set ts" "last ts \<notin> set ss" "x \<notin> set ss"
        using assms False by (auto simp: links_def)
    qed
    from links_node [OF assms, of "last ts"] False obtain m where m: "heap st (last ts) = Some m" "last ts \<noteq> NULL"
      by auto
    have seg: "seg ((heap st)(last ts \<mapsto> m\<lparr>nextp := x\<rparr>, x \<mapsto> n\<lparr>nextp := NULL\<rparr>)) (pHead_ToSend st) (ts @ [x]) NULL"
      using assms n m l False by (intro seg_snoc) (auto simp: links_def)
    from l m n heads show ?thesis
      using assms seg False
      by (auto simp: move_full_def heap_defs links_def rest_def dat_def seg_update fun_eq_iff)
  qed
qed

lemma take_free_head_eq: "pHead_ToSend st = NULL \<Longrightarrow> take_free_head st = move_full st"
  by (simp add: take_free_head_def move_full_def heap_defs)

lemma copy_tail_links:
  assumes "links st ts (x # ss)" "dat st x = Some (b, t)" "k \<le> length data" "t + k \<le> length b"
  shows "\<exists>st'. copy_tail (pHead_Sended st) data k st = Some st' \<and> links st' ts (x # ss) \<and>
    dat st' = (dat st)(x \<mapsto> (take t b @ take k data @ drop (t + k) b, t + k)) \<and> rest st' = rest st"
proof -
  from assms obtain n where n: "heap st x = Some n" "x \<noteq> NULL" "buffer n = b" "tail n = t" "pHead_Sended st = x"
    by (auto simp: dat_def links_def)
  then show ?thesis
    using assms
    by (auto simp: copy_tail_def heap_defs links_def rest_def dat_def seg_keep_nextp seg_update fun_eq_iff)
qed

lemma recycle_links:
  assumes "links st (x # ts) ss" "dat st x = Some (b, t)"
  shows "\<exists>st'. recycle_head st = Some st' \<and> links st' ts (ss @ [x]) \<and>
    dat st' = (dat st)(x \<mapsto> (b, 0)) \<and> rest st' = rest st"
proof -
  from assms obtain n where n: "heap st x = Some n" "x \<noteq> NULL" "buffer n = b" "tail n = t"
    and heads: "pHead_ToSend st = x" "seg (heap st) (nextp n) ts NULL"
    by (auto simp: dat_def links_def split: option.splits)
  show ?thesis
  proof (cases "ss = []")
    case True
    then have "pHead_Sended st = NULL" using assms by (simp add: links_heads)
    then show ?thesis
      using assms n heads True
      by (auto simp: recycle_head_def heap_defs links_def rest_def dat_def seg_update SDIO_TOKEN_SIZE_def fun_eq_iff)
  next
    case False
    obtain us l where "ss = us @ [l]" using False by (cases ss rule: rev_cases) auto
    then have l: "pTail_Sended st = last ss" "last ss \<noteq> x" "x \<notin> set ss" "last ss \<notin> set ts" "x \<notin> set ts"
      using assms False by (auto simp: links_def)
    have "pHead_Sended st \<noteq> NULL" using assms False by (simp add: links_heads(2))
    note l = l this
    from links_node [OF assms(1), of "last ss"] False obtain m where m: "heap st (last ss) = Some m" "last ss \<noteq> NULL"
      by auto
    have "seg ((heap st)(x \<mapsto> n\<lparr>tail := 0\<rparr>)) (pHead_Sended st) ss NULL"
      using assms l by (simp add: links_def seg_update)
    then have seg: "seg ((heap st)(x \<mapsto> n\<lparr>tail := 0\<rparr>, last ss \<mapsto> m\<lparr>nextp := x\<rparr>,
        x \<mapsto> n\<lparr>tail := 0, nextp := NULL\<rparr>)) (pHead_Sended st) (ss @ [x]) NULL"
      using assms n m l False
        seg_snoc [of "(heap st)(x \<mapsto> n\<lparr>tail := 0\<rparr>)" "pHead_Sended st" ss x m "n\<lparr>tail := 0\<rparr>"]
      by (auto simp: links_def)
    from l m n heads show ?thesis
      using assms seg False
      by (auto simp: recycle_head_def heap_defs links_def rest_def dat_def seg_update SDIO_TOKEN_SIZE_def fun_eq_iff)
  qed
qed

section \<open>Contents of the buffers\<close>

definition bytes :: "sdio \<Rightarrow> u32 \<Rightarrow> u8 list" where
  "bytes st p = (case dat st p of None \<Rightarrow> [] | Some (b, t) \<Rightarrow> take t b)"

definition stream :: "sdio \<Rightarrow> u32 list \<Rightarrow> u8 list" where
  "stream st ps = concat (map (bytes st) ps)"

definition room :: "sdio \<Rightarrow> u32 list \<Rightarrow> nat" where
  "room st ps = (\<Sum>p\<leftarrow>ps. RX_BUFFER_SIZE - length (bytes st p))"

definition node_ok :: "sdio \<Rightarrow> u32 \<Rightarrow> bool" where
  "node_ok st p \<longleftrightarrow> (case dat st p of None \<Rightarrow> False | Some (b, t) \<Rightarrow> length b = RX_BUFFER_SIZE \<and> t \<le> RX_BUFFER_SIZE)"

text \<open>Only the first free buffer may hold data, and it is not full.\<close>

definition data_ok :: "sdio \<Rightarrow> u32 list \<Rightarrow> u32 list \<Rightarrow> bool" where
  "data_ok st ts ss \<longleftrightarrow>
     (\<forall>p\<in>set (ts @ ss). node_ok st p) \<and>
     (ss \<noteq> [] \<longrightarrow> length (bytes st (hd ss)) < RX_BUFFER_SIZE) \<and> (\<forall>p\<in>set (tl ss). bytes st p = [])"

lemma stream_simps [simp]:
  "stream st [] = []" "stream st (x # xs) = bytes st x @ stream st xs"
  "stream st (xs @ ys) = stream st xs @ stream st ys"
  by (simp_all add: stream_def)

lemma stream_empty: "(\<And>p. p \<in> set ps \<Longrightarrow> bytes st p = []) \<Longrightarrow> stream st ps = []"
  by (auto simp: stream_def)

lemma dat_cong:
  "(\<And>p. p \<in> set ps \<Longrightarrow> dat st' p = dat st p) \<Longrightarrow> stream st' ps = stream st ps"
  "(\<And>p. p \<in> set ps \<Longrightarrow> dat st' p = dat st p) \<Longrightarrow> room st' ps = room st ps"
  by (auto simp: stream_def room_def bytes_def intro!: arg_cong [where f = concat] arg_cong [where f = sum_list])

lemma node_okE:
  assumes "node_ok st p"
  obtains b t where "dat st p = Some (b, t)" "length b = RX_BUFFER_SIZE" "t \<le> RX_BUFFER_SIZE"
    "bytes st p = take t b" "length (bytes st p) = t"
  using assms by (auto simp: node_ok_def bytes_def split: option.splits)

lemma bytes_tail: "dat st p = Some (b, t) \<Longrightarrow> bytes st p = take t b"
  by (simp add: bytes_def)

text \<open>States with the same heap, and states with the same contents.\<close>

lemma same_heap: "heap st' = heap st \<Longrightarrow> dat st' = dat st"
  by (simp add: fun_eq_iff dat_def)

lemma same_dat:
  assumes "dat st' = dat st"
  shows "bytes st' = bytes st" "node_ok st' = node_ok st" "stream st' = stream st" "room st' = room st"
    "data_ok st' = data_ok st"
proof -
  show b: "bytes st' = bytes st" and n: "node_ok st' = node_ok st"
    by (simp_all add: fun_eq_iff bytes_def node_ok_def assms)
  show "stream st' = stream st" "room st' = room st" "data_ok st' = data_ok st"
    by (intro ext; simp add: stream_def room_def data_ok_def b n)+
qed

lemma same_links:
  assumes "heap st' = heap st" "pHead_ToSend st' = pHead_ToSend st" "pTail_ToSend st' = pTail_ToSend st"
    "pHead_Sended st' = pHead_Sended st" "pTail_Sended st' = pTail_Sended st"
  shows "links st' ts ss = links st ts ss"
  using assms by (simp add: links_def)

text \<open>The effect of one copy on the buffer it fills.\<close>

lemma copy_step:
  assumes "links st ts (x # ss)" "data_ok st ts (x # ss)" "k \<le> length data"
    and "length (bytes st x) + k \<le> RX_BUFFER_SIZE"
  shows "\<exists>st'. copy_tail (pHead_Sended st) data k st = Some st' \<and> links st' ts (x # ss) \<and> rest st' = rest st \<and>
    bytes st' x = bytes st x @ take k data \<and> node_ok st' x \<and> (\<forall>p. p \<noteq> x \<longrightarrow> dat st' p = dat st p)"
proof -
  have "node_ok st x" using assms(2) by (simp add: data_ok_def)
  then obtain b t where b: "dat st x = Some (b, t)" "length b = RX_BUFFER_SIZE" "t \<le> RX_BUFFER_SIZE"
      "bytes st x = take t b" "length (bytes st x) = t"
    by (rule node_okE)
  with copy_tail_links [OF assms(1) b(1) assms(3)] assms(4) obtain st' where
    "copy_tail (pHead_Sended st) data k st = Some st'" "links st' ts (x # ss)" "rest st' = rest st"
    and d: "dat st' = (dat st)(x \<mapsto> (take t b @ take k data @ drop (t + k) b, t + k))"
    by auto
  moreover have "bytes st' x = bytes st x @ take k data" "node_ok st' x"
    using b d assms by (auto simp: bytes_def node_ok_def min_def)
  ultimately show ?thesis by (auto simp: d)
qed

section \<open>The load loop\<close>

text \<open>
  \<open>load_loop\<close> appends to the stream as many bytes as there are and as fit. Buffers only move
  from the free list to the list to send, in order, and those moved are full.
\<close>

definition loaded :: "nat \<Rightarrow> u8 list \<Rightarrow> u32 list \<Rightarrow> u32 list \<Rightarrow> sdio \<Rightarrow> sdio \<Rightarrow> u32 list \<Rightarrow> u32 list \<Rightarrow> bool" where
  "loaded n data ts ss st st' ts' ss' \<longleftrightarrow>
     links st' ts' ss' \<and> data_ok st' ts' ss' \<and> ts' @ ss' = ts @ ss \<and> length ts \<le> length ts' \<and>
     stream st' (ts @ ss) = stream st (ts @ ss) @ take (min n (room st ss)) data \<and>
     (\<forall>p\<in>set ts. dat st' p = dat st p) \<and>
     (\<forall>p\<in>set (drop (length ts) ts'). length (bytes st' p) = RX_BUFFER_SIZE) \<and>
     (length ts = length ts' \<longleftrightarrow> n < RX_BUFFER_SIZE - length (bytes st (hd ss))) \<and>
     (rest st' = rest st \<or> rest st' = rest (hw (emit (Print ''buf full'' [])) st))"

lemma loaded_nothing:
  assumes "links st ts ss" "data_ok st ts ss" "ss \<noteq> []"
  shows "loaded 0 data ts ss st st ts ss"
  using assms by (auto simp: loaded_def data_ok_def)

lemma loaded_partial:
  assumes "links st ts (x # ss)" "data_ok st ts (x # ss)" "n \<le> length data"
    and n: "n < RX_BUFFER_SIZE - length (bytes st x)"
  shows "\<exists>st'. copy_tail (pHead_Sended st) data n st = Some st' \<and> loaded n data ts (x # ss) st st' ts (x # ss)"
proof -
  from n have le: "length (bytes st x) + n \<le> RX_BUFFER_SIZE" by linarith
  from copy_step [OF assms(1,2,3) le] obtain st' where c: "copy_tail (pHead_Sended st) data n st = Some st'"
    and l: "links st' ts (x # ss)" and r: "rest st' = rest st" and b: "bytes st' x = bytes st x @ take n data"
    and ok: "node_ok st' x" and d: "\<And>p. p \<noteq> x \<Longrightarrow> dat st' p = dat st p"
    by auto
  have nx: "x \<notin> set ts" "x \<notin> set ss" using assms(1) by (auto simp: links_def)
  have same: "bytes st' p = bytes st p" "node_ok st' p = node_ok st p" if "p \<noteq> x" for p
    using d [OF that] by (simp_all add: bytes_def node_ok_def)
  have sm: "bytes st' p = bytes st p" "node_ok st' p = node_ok st p" if "p \<in> set ts \<union> set ss" for p
    using that nx same by (metis UnE)+
  have s: "stream st ss = []" "stream st' ss = []" "stream st' ts = stream st ts"
    using assms(2) sm by (auto simp: data_ok_def stream_def intro!: arg_cong [where f = concat])
  have ok': "data_ok st' ts (x # ss)"
    using assms(2,3) ok sm n b by (auto simp: data_ok_def)
  have m: "min n (room st (x # ss)) = n" using n by (simp add: room_def)
  have dts: "\<forall>p\<in>set ts. dat st' p = dat st p" using d nx by metis
  from c l r ok' s b dts m n show ?thesis by (auto simp: loaded_def)
qed

text \<open>A full buffer is filled, moved, and the rest of the loop goes on from there.\<close>

lemma loaded_full:
  assumes "links st ts (x # ss)" "data_ok st ts (x # ss)" "n \<le> length data"
    and k: "k = RX_BUFFER_SIZE - length (bytes st x)" "k \<le> n"
  shows "\<exists>st1 st2. copy_tail (pHead_Sended st) data k st = Some st1 \<and> move_full st1 = Some st2 \<and>
    links st2 (ts @ [x]) ss \<and> data_ok st2 (ts @ [x]) ss \<and> rest st2 = rest st \<and>
    bytes st2 x = bytes st x @ take k data \<and> (\<forall>p. p \<noteq> x \<longrightarrow> dat st2 p = dat st p)"
proof -
  have lt: "length (bytes st x) < RX_BUFFER_SIZE" using assms(2) by (simp add: data_ok_def)
  from k assms(3) have le: "k \<le> length data" "length (bytes st x) + k \<le> RX_BUFFER_SIZE" using lt by linarith+
  from copy_step [OF assms(1,2) le] obtain st1 where c: "copy_tail (pHead_Sended st) data k st = Some st1"
    and l: "links st1 ts (x # ss)" and r: "rest st1 = rest st" and b: "bytes st1 x = bytes st x @ take k data"
    and ok: "node_ok st1 x" and d: "\<And>p. p \<noteq> x \<Longrightarrow> dat st1 p = dat st p"
    by auto
  from move_full_links [OF l] obtain st2 where m: "move_full st1 = Some st2" "links st2 (ts @ [x]) ss"
    "dat st2 = dat st1" "rest st2 = rest st1"
    by auto
  have eq: "bytes st2 p = bytes st1 p" "node_ok st2 p = node_ok st1 p" for p
    using m by (simp_all add: bytes_def node_ok_def)
  have nx: "x \<notin> set ts" "x \<notin> set ss" using assms(1) by (auto simp: links_def)
  have sm: "bytes st2 p = bytes st p" "node_ok st2 p = node_ok st p" if "p \<in> set ts \<union> set ss" for p
  proof -
    have "p \<noteq> x" using that nx by auto
    then have "dat st1 p = dat st p" by (rule d)
    then show "bytes st2 p = bytes st p" "node_ok st2 p = node_ok st p" unfolding eq
      by (simp_all add: bytes_def node_ok_def)
  qed
  have "data_ok st2 (ts @ [x]) ss"
    using assms(2) sm eq ok by (cases ss) (auto simp: data_ok_def RX_BUFFER_SIZE_def)
  with c m r b d eq show ?thesis by auto
qed

lemma loaded_step:
  assumes "links st ts (x # ss)" "data_ok st ts (x # ss)" "n \<le> length data"
    and k: "k = RX_BUFFER_SIZE - length (bytes st x)" "k \<le> n"
    and two: "bytes st2 x = bytes st x @ take k data" "\<forall>p. p \<noteq> x \<longrightarrow> dat st2 p = dat st p" "rest st2 = rest st"
    and l: "links st' ts' ss'" "data_ok st' ts' ss'" "ts' @ ss' = ts @ x # ss" "length ts < length ts'"
    and s: "stream st' (ts @ x # ss) = stream st2 (ts @ x # ss) @ take (min (n - k) (room st2 ss)) (drop k data)"
    and d: "\<forall>p\<in>set (ts @ [x]). dat st' p = dat st2 p"
    and f: "\<forall>p\<in>set (drop (length (ts @ [x])) ts'). length (bytes st' p) = RX_BUFFER_SIZE"
    and r: "rest st' = rest st2 \<or> rest st' = rest (hw (emit (Print ''buf full'' [])) st2)"
  shows "loaded n data ts (x # ss) st st' ts' ss'"
proof -
  have nx: "x \<notin> set ts" "x \<notin> set ss" using assms(1) by (auto simp: links_def)
  have sm: "dat st2 p = dat st p" if "p \<in> set ts \<union> set ss" for p
  proof -
    have "p \<noteq> x" using that nx by auto
    then show ?thesis using two(2) by simp
  qed
  have e: "stream st2 ts = stream st ts" "stream st2 ss = stream st ss" "room st2 ss = room st ss"
    using sm by (intro dat_cong; simp)+
  have "stream st ss = []" using assms(2) by (intro stream_empty) (auto simp: data_ok_def)
  with e two have "stream st2 (ts @ x # ss) = stream st (ts @ x # ss) @ take k data" by simp
  moreover have "room st (x # ss) = k + room st ss" using k by (simp add: room_def)
  then have "min n (room st (x # ss)) = k + min (n - k) (room st ss)" using k(2) by linarith
  ultimately have s': "stream st' (ts @ x # ss) = stream st (ts @ x # ss) @ take (min n (room st (x # ss))) data"
    using s e by (simp add: take_add)
  obtain us where us: "ts' = ts @ us" "us @ ss' = x # ss"
    using l(3,4) by (auto simp: append_eq_append_conv2)
  then obtain vs where "us = x # vs" using l(4) by (cases us) auto
  with us have xd: "drop (length ts) ts' = x # drop (length (ts @ [x])) ts'" by simp
  have "length (bytes st' x) = length (bytes st2 x)" using d by (simp add: bytes_def)
  also have "\<dots> = RX_BUFFER_SIZE"
    using two k assms(2,3) by (simp add: data_ok_def)
  finally have lx: "length (bytes st' x) = RX_BUFFER_SIZE" .
  have dts: "\<forall>p\<in>set ts. dat st' p = dat st p" using d sm by auto
  have "rest (hw (emit (Print ''buf full'' [])) st2) = rest (hw (emit (Print ''buf full'' [])) st)"
    using two by (simp add: rest_def hw_def)
  with r two have r': "rest st' = rest st \<or> rest st' = rest (hw (emit (Print ''buf full'' [])) st)" by simp
  from l s' dts xd lx f r' k show ?thesis by (auto simp: loaded_def)
qed

lemma free_head_node:
  assumes "links st ts (x # ss)" "data_ok st ts (x # ss)"
  shows "\<exists>m. deref (pHead_Sended st) st = Some m \<and> tail m = length (bytes st x)"
proof -
  have "node_ok st x" using assms(2) by (simp add: data_ok_def)
  then obtain b t where "dat st x = Some (b, t)" "length (bytes st x) = t" by (rule node_okE)
  then show ?thesis using assms(1) by (auto simp: deref_def links_def dat_def)
qed

lemma unat_left:
  assumes "t < RX_BUFFER_SIZE"
  shows "unat (of_nat (RX_BUFFER_SIZE + SDIO_TOKEN_SIZE) - of_nat t :: u32) = RX_BUFFER_SIZE - t"
  using assms unat_minus_of_nat [of t "512 :: u32"] by (simp add: RX_BUFFER_SIZE_def SDIO_TOKEN_SIZE_def)

text \<open>One round of the loop.\<close>

definition room_left :: "nat \<Rightarrow> u32" where
  "room_left t = of_nat (RX_BUFFER_SIZE + SDIO_TOKEN_SIZE) - of_nat t"

lemma load_loop_round:
  assumes "len \<noteq> 0" "deref (pHead_Sended st) st = Some m" "tail m = t"
  shows "load_loop data len r st =
    (if len < room_left t
     then do { st \<leftarrow> copy_tail (pHead_Sended st) data (unat len) st; load_loop data 0 r st }
     else do {
       st \<leftarrow> copy_tail (pHead_Sended st) data (unat (room_left t)) st;
       st \<leftarrow> move_full st;
       if pHead_Sended st = NULL
       then Some (r + room_left t, hw (emit (Print ''buf full'' [])) st)
       else load_loop (drop (unat (room_left t)) data) (len - room_left t) (r + room_left t) st })"
  using assms
  by (subst load_loop.simps) (simp only: room_left_def Let_def if_False bind.bind_lunit add_0_right assms)

lemma load_loop_0: "load_loop data 0 r st = Some (r, st)"
  by (subst load_loop.simps) simp

lemma load_loop_ok:
  assumes "links st ts ss" "data_ok st ts ss" "ss \<noteq> []" "unat len \<le> length data"
  shows "\<exists>r' st' ts' ss'. load_loop data len r st = Some (r', st') \<and> loaded (unat len) data ts ss st st' ts' ss'"
  using assms
proof (induction ss arbitrary: ts st data len r)
  case Nil
  then show ?case by simp
next
  case (Cons x ss)
  have t: "length (bytes st x) < RX_BUFFER_SIZE" using Cons.prems(2) by (simp add: data_ok_def)
  define k where "k = RX_BUFFER_SIZE - length (bytes st x)"
  define left where "left = room_left (length (bytes st x))"
  have left: "unat left = k" unfolding left_def room_left_def k_def using t by (rule unat_left)
  from free_head_node [OF Cons.prems(1,2)] obtain m where
    m: "deref (pHead_Sended st) st = Some m" "tail m = length (bytes st x)" by auto
  show ?case
  proof (cases "len = 0")
    case True
    with loaded_nothing [OF Cons.prems(1,2)] show ?thesis by (auto simp: load_loop_0)
  next
    case len: False
    note round = load_loop_round [OF len m, of data r, folded left_def, unfolded left]
    show ?thesis
    proof (cases "len < left")
      case True
      then have "unat len < RX_BUFFER_SIZE - length (bytes st x)"
        using left by (simp add: word_less_nat_alt k_def)
      from loaded_partial [OF Cons.prems(1,2,4) this] obtain st' where
        c: "copy_tail (pHead_Sended st) data (unat len) st = Some st'"
        and ld: "loaded (unat len) data ts (x # ss) st st' ts (x # ss)" by auto
      have "load_loop data len r st = Some (r, st')"
        by (simp add: round True c load_loop_0)
      with ld show ?thesis by auto
    next
      case False
      then have kn: "k \<le> unat len" using left by (simp add: word_less_nat_alt)
      from loaded_full [OF Cons.prems(1,2,4) k_def kn] obtain st1 st2 where
        c: "copy_tail (pHead_Sended st) data k st = Some st1" "move_full st1 = Some st2"
        and l2: "links st2 (ts @ [x]) ss" "data_ok st2 (ts @ [x]) ss"
        and two: "bytes st2 x = bytes st x @ take k data" "\<forall>p. p \<noteq> x \<longrightarrow> dat st2 p = dat st p" "rest st2 = rest st"
        by auto
      note step = loaded_step [OF Cons.prems(1,2,4) k_def kn two]
      show ?thesis
      proof (cases "ss = []")
        case True
        define st' where "st' = hw (emit (Print ''buf full'' [])) st2"
        have "pHead_Sended st2 = NULL" using l2 True by (simp add: links_heads(2))
        then have "load_loop data len r st = Some (r + left, st')"
          by (simp add: round False c st'_def)
        moreover have d': "dat st' = dat st2" by (rule same_heap) (simp add: hw_def st'_def)
        have l': "links st' (ts @ [x]) ss" "data_ok st' (ts @ [x]) ss"
        proof -
          show "links st' (ts @ [x]) ss"
            using l2 same_links [of st' st2] by (simp add: st'_def hw_def)
          show "data_ok st' (ts @ [x]) ss" using l2 by (simp add: same_dat(5) [OF d'])
        qed
        have "loaded (unat len) data ts (x # ss) st st' (ts @ [x]) []"
          by (rule step) (use l' True d' in \<open>simp_all add: same_dat(1-3) [OF d'] room_def, simp add: st'_def\<close>)
        ultimately show ?thesis by auto
      next
        case ss: False
        have n': "unat (len - left) = unat len - k"
          using False left by (simp add: unat_sub)
        then have "unat (len - left) \<le> length (drop k data)" using Cons.prems(4) by simp
        from Cons.IH [OF l2 ss this, of "r + left"] obtain r' st' ts' ss' where
          e: "load_loop (drop k data) (len - left) (r + left) st2 = Some (r', st')"
          and ld: "loaded (unat (len - left)) (drop k data) (ts @ [x]) ss st2 st' ts' ss'"
          by auto
        have "pHead_Sended st2 \<noteq> NULL" using l2 ss by (simp add: links_heads(2))
        then have "load_loop data len r st = Some (r', st')"
          by (simp add: round False c e)
        moreover have "loaded (unat len) data ts (x # ss) st st' ts' ss'"
          using ld n' by (intro step) (auto simp: loaded_def)
        ultimately show ?thesis by auto
      qed
    qed
  qed
qed

end
