(* ===== verification/SdioInv.thy ===== *)
theory SdioInv
  imports SdioBufs
begin

text \<open>
  The invariant of the SDIO slave driver and its properties: no sequence of loads and interrupts
  faults, the buffers are never lost or shared, and the bytes the host takes from the controller
  are the bytes that were loaded, in order. Two ways in which the driver stalls are shown at the
  end.
\<close>

section \<open>The invariant of the driver\<close>

text \<open>The lists of buffers, walked through the heap from their head pointers.\<close>

primrec chain :: "nat \<Rightarrow> (u32 \<Rightarrow> sdio_list option) \<Rightarrow> u32 \<Rightarrow> u32 list" where
  "chain 0 h p = []"
| "chain (Suc k) h p =
     (if p = NULL then [] else case h p of None \<Rightarrow> [] | Some n \<Rightarrow> p # chain k h (nextp n))"

definition to_send :: "sdio \<Rightarrow> u32 list" where
  "to_send st = chain RX_BUFFER_NUM (heap st) (pHead_ToSend st)"

definition free_bufs :: "sdio \<Rightarrow> u32 list" where
  "free_bufs st = chain RX_BUFFER_NUM (heap st) (pHead_Sended st)"

lemma seg_chain: "seg h p xs NULL \<Longrightarrow> length xs \<le> k \<Longrightarrow> chain k h p = xs"
proof (induction xs arbitrary: p k)
  case Nil
  then show ?case by (cases k) auto
next
  case (Cons x xs)
  then show ?case by (cases k) (auto split: option.splits)
qed

text \<open>
  While a transfer is under way, the descriptor names the first buffer to send and its length;
  nothing is kept back when there is nothing to send.
\<close>

definition sd_inv :: "sdio \<Rightarrow> u32 list \<Rightarrow> u32 list \<Rightarrow> bool" where
  "sd_inv st ts ss \<longleftrightarrow>
     links st ts ss \<and> data_ok st ts ss \<and> length (ts @ ss) = RX_BUFFER_NUM \<and>
     blocksize (rx_que st) = of_nat RX_BUFFER_SIZE \<and>
     (\<forall>p\<in>set ts. bytes st p \<noteq> []) \<and> (ts = [] \<longrightarrow> (\<forall>p\<in>set ss. bytes st p = [])) \<and>
     (\<not> has_read st \<longrightarrow> ts \<noteq> [] \<and> buf_ptr (rx_que st) = hd ts \<and>
        unat (datalen (rx_que st)) = length (bytes st (hd ts)))"

definition sd_ok :: "sdio \<Rightarrow> bool" where
  "sd_ok st \<longleftrightarrow> sd_inv st (to_send st) (free_bufs st)"

lemma sd_inv_lists: "sd_inv st ts ss \<Longrightarrow> to_send st = ts \<and> free_bufs st = ss"
  by (auto simp: sd_inv_def links_def to_send_def free_bufs_def intro!: seg_chain)

lemma sd_inv_ok: "sd_inv st ts ss \<Longrightarrow> sd_ok st"
  using sd_inv_lists by (auto simp: sd_ok_def)

text \<open>What the host takes from the controller: the bytes the descriptor names.\<close>

definition host_chunk :: "sdio \<Rightarrow> u8 list" where
  "host_chunk st =
    (case heap st (buf_ptr (rx_que st)) of None \<Rightarrow> []
     | Some n \<Rightarrow> take (unat (datalen (rx_que st))) (buffer n))"

lemma host_chunk_eq:
  assumes "sd_inv st ts ss" "\<not> has_read st"
  shows "host_chunk st = bytes st (hd ts)"
proof -
  have "node_ok st (hd ts)" using assms by (auto simp: sd_inv_def data_ok_def)
  then obtain b t where b: "dat st (hd ts) = Some (b, t)" "length b = RX_BUFFER_SIZE" "t \<le> RX_BUFFER_SIZE"
      "bytes st (hd ts) = take t b" "length (bytes st (hd ts)) = t"
    by (rule node_okE)
  then obtain n where "heap st (hd ts) = Some n" "buffer n = b" by (auto simp: dat_def)
  with assms b show ?thesis by (simp add: sd_inv_def host_chunk_def)
qed

lemma unat_len: "t \<le> RX_BUFFER_SIZE \<Longrightarrow> unat (of_nat t :: u32) = t"
  by (intro unat_of_nat_small) (simp add: RX_BUFFER_SIZE_def)

lemma load_len:
  assumes "0 < t" "t \<le> RX_BUFFER_SIZE"
  shows "(of_nat t :: u16) \<noteq> 0" "(ucast (of_nat t :: u16) :: u32) = of_nat t"
    "\<not> (of_nat t :: u32) > of_nat RX_BUFFER_SIZE" "take_bit 12 (of_nat t :: u32) = of_nat t"
proof -
  have u: "unat (of_nat t :: u16) = t" using assms by (intro unat_of_nat_small) (simp add: RX_BUFFER_SIZE_def)
  then show "(of_nat t :: u16) \<noteq> 0" using assms(1) by auto
  show "(ucast (of_nat t :: u16) :: u32) = of_nat t"
    by (rule iffD2 [OF word_unat_eq_iff]) (use u unat_len [OF assms(2)] assms(2) in \<open>simp add: unsigned_ucast_eq take_bit_nat_eq_self_iff RX_BUFFER_SIZE_def\<close>)
  show "\<not> (of_nat t :: u32) > of_nat RX_BUFFER_SIZE" "take_bit 12 (of_nat t :: u32) = of_nat t"
    using assms(2) unat_len [OF assms(2)]
    by (simp_all add: word_less_nat_alt RX_BUFFER_SIZE_def take_bit_word_less)
qed

lemma load_done_ok:
  assumes "0 < t" "t \<le> RX_BUFFER_SIZE" "blocksize (rx_que st) = of_nat RX_BUFFER_SIZE"
  shows "\<exists>s. snd (rx_buff_load_done (of_nat t) st) =
    st\<lparr>rx_que := (rx_que st)\<lparr>blocksize := of_nat RX_BUFFER_SIZE, datalen := of_nat t, eof := 1, owner := 1\<rparr>, sd_hw := s\<rparr>"
  using load_len [OF assms(1,2)] assms(3)
  by (auto simp: rx_buff_load_done_def Let_def hw_def SDIO_TOKEN_SIZE_def)

lemma send_head_ok:
  assumes l: "links st ts ss" and d: "data_ok st ts ss" and "length (ts @ ss) = RX_BUFFER_NUM"
    and "blocksize (rx_que st) = of_nat RX_BUFFER_SIZE" and ne: "\<forall>p\<in>set ts. bytes st p \<noteq> []" "ts \<noteq> []"
  shows "\<exists>st'. send_head st = Some st' \<and> sd_inv st' ts ss \<and> \<not> has_read st' \<and> dat st' = dat st"
proof -
  have "node_ok st (hd ts)" using d ne by (simp add: data_ok_def)
  then obtain b t where b: "dat st (hd ts) = Some (b, t)" "length b = RX_BUFFER_SIZE" "t \<le> RX_BUFFER_SIZE"
      "bytes st (hd ts) = take t b" "length (bytes st (hd ts)) = t"
    by (rule node_okE)
  then obtain n where n: "heap st (hd ts) = Some n" "tail n = t" "buffer n = b" by (auto simp: dat_def)
  have p: "pHead_ToSend st = hd ts" "hd ts \<noteq> NULL" using l ne by (simp_all add: links_heads links_node)
  have t: "0 < t" using b(5) ne(1) [rule_format, of "hd ts"] ne(2) by (cases t) auto
  let ?st1 = "st\<lparr>rx_que := (rx_que st)\<lparr>buf_ptr := pHead_ToSend st\<rparr>\<rparr>"
  from load_done_ok [of t ?st1] t b(3) assms(4) n p obtain st2 where
    e: "send_head st = Some st2" and h: "heap st2 = heap st" "\<not> has_read st2"
      "pHead_ToSend st2 = pHead_ToSend st" "pTail_ToSend st2 = pTail_ToSend st"
      "pHead_Sended st2 = pHead_Sended st" "pTail_Sended st2 = pTail_Sended st"
      "blocksize (rx_que st2) = of_nat RX_BUFFER_SIZE" "buf_ptr (rx_que st2) = hd ts" "datalen (rx_que st2) = of_nat t"
    by (auto simp: send_head_def deref_def Let_def SDIO_TOKEN_SIZE_def)
  have dat: "dat st2 = dat st" by (rule same_heap) (rule h)
  have "sd_inv st2 ts ss"
    using assms b h unat_len [OF b(3)] same_links [of st2 st] by (simp add: sd_inv_def same_dat [OF dat])
  with e dat h show ?thesis by auto
qed

section \<open>Every operation keeps the invariant\<close>

lemma hw_same [simp]:
  "heap (hw f st) = heap st" "has_read (hw f st) = has_read st" "rx_que (hw f st) = rx_que st"
  "pHead_ToSend (hw f st) = pHead_ToSend st" "pTail_ToSend (hw f st) = pTail_ToSend st"
  "pHead_Sended (hw f st) = pHead_Sended st" "pTail_Sended (hw f st) = pTail_Sended st"
  "sd_hw (hw f st) = f (sd_hw st)" "tx_que (hw f st) = tx_que st"
  "sdio_recv_data_callback_ptr (hw f st) = sdio_recv_data_callback_ptr st"
  by (simp_all add: hw_def)

lemma sd_inv_cong:
  assumes "heap st' = heap st" "pHead_ToSend st' = pHead_ToSend st" "pTail_ToSend st' = pTail_ToSend st"
    "pHead_Sended st' = pHead_Sended st" "pTail_Sended st' = pTail_Sended st"
    "has_read st' = has_read st" "rx_que st' = rx_que st"
  shows "sd_inv st' ts ss = sd_inv st ts ss"
  using same_links [OF assms(1-5)] assms(6,7) by (simp add: sd_inv_def same_dat [OF same_heap [OF assms(1)]])

lemma sd_inv_hw [simp]: "sd_inv (hw f st) ts ss = sd_inv st ts ss"
  by (rule sd_inv_cong) simp_all

lemma dat_hw [simp]: "dat (hw f st) = dat st"
  by (rule same_heap) simp

lemma host_chunk_hw [simp]: "host_chunk (hw f st) = host_chunk st"
  by (simp add: host_chunk_def split: option.split)

lemma hw_update [simp]:
  "host_chunk (st\<lparr>sd_hw := s\<rparr>) = host_chunk st" "dat (st\<lparr>sd_hw := s\<rparr>) = dat st"
  "sd_inv (st\<lparr>sd_hw := s\<rparr>) ts ss = sd_inv st ts ss"
  by (simp add: host_chunk_def split: option.split) (rule same_heap sd_inv_cong; simp)+

lemma has_read_rest: "rest st' = rest st \<or> rest st' = rest (hw f st) \<Longrightarrow>
    has_read st' = has_read st \<and> rx_que st' = rx_que st"
  by (auto simp: rest_def)

lemma room_Nil [simp]: "room st [] = 0"
  by (simp add: room_def)

text \<open>What a call of \<open>sdio_load_data\<close> has to achieve.\<close>

definition load_post :: "nat \<Rightarrow> u8 list \<Rightarrow> u32 list \<Rightarrow> u32 list \<Rightarrow> sdio \<Rightarrow> sdio \<Rightarrow> u32 list \<Rightarrow> u32 list \<Rightarrow> bool" where
  "load_post n data ts ss st st' ts' ss' \<longleftrightarrow>
     sd_inv st' ts' ss' \<and> ts' @ ss' = ts @ ss \<and>
     stream st' (ts' @ ss') = stream st (ts @ ss) @ take (min n (room st ss)) data \<and>
     (\<forall>p\<in>set ts. dat st' p = dat st p) \<and> ts' \<noteq> [] \<and>
     (has_read st' \<longleftrightarrow> has_read st \<and> (ts \<noteq> [] \<or> RX_BUFFER_SIZE \<le> n))"

lemma load_post_no_room:
  "sd_inv st ts [] \<Longrightarrow> load_post n data ts [] st (hw f st) ts []"
  by (auto simp: load_post_def sd_inv_def same_dat [OF dat_hw] same_links [of "hw f st" st] RX_BUFFER_NUM_def)

lemma load_post_queued:
  assumes inv: "sd_inv st ts ss" and ss: "ss \<noteq> []" and n: "0 < n"
    and ld: "loaded n data ts ss st st' ts' ss'" and ne: "ts' \<noteq> []"
  shows "load_post n data ts ss st st' ts' ss'"
proof -
  have r: "has_read st' = has_read st" "rx_que st' = rx_que st"
    using ld has_read_rest by (auto simp: loaded_def)
  obtain us where us: "ts' = ts @ us" using ld by (auto simp: loaded_def append_eq_append_conv2)
  have keep: "\<forall>p\<in>set ts. bytes st' p = bytes st p" using ld by (auto simp: loaded_def bytes_def)
  have idle: "has_read st" if "ts = []" using inv that by (auto simp: sd_inv_def)
  have "length (bytes st (hd ss)) = 0" if "ts = []" using inv that ss by (simp add: sd_inv_def)
  then have full: "RX_BUFFER_SIZE \<le> n" if "ts = []" using ld ne that by (auto simp: loaded_def)
  have new: "\<forall>p\<in>set us. bytes st' p \<noteq> []" using ld us by (auto simp: loaded_def RX_BUFFER_SIZE_def)
  have "hd ts' = hd ts" "bytes st' (hd ts) = bytes st (hd ts)" if "ts \<noteq> []"
    using us keep that by (simp_all add: hd_append)
  with inv r keep ld us new idle full ne show ?thesis
    by (auto simp: load_post_def sd_inv_def loaded_def simp del: length_append)
qed

text \<open>The other case: nothing waited, and less than a buffer came; it is sent at once.\<close>

lemma load_post_sent:
  assumes inv: "sd_inv st ts ss" and ss: "ss \<noteq> []" and n: "0 < n" "n \<le> length data"
    and ld: "loaded n data ts ss st st1 [] ss1"
  shows "\<exists>st' ts' ss'. (do { st2 \<leftarrow> take_free_head st1; sdio_try_to_load st2 }) = Some st' \<and>
    load_post n data ts ss st st' ts' ss'"
proof -
  have ts: "ts = []" "ss1 = ss" using ld by (auto simp: loaded_def)
  obtain x xs where x: "ss = x # xs" using ss by (cases ss) auto
  have r: "has_read st1 = has_read st" "rx_que st1 = rx_que st" using ld has_read_rest by (auto simp: loaded_def)
  have l1: "links st1 [] (x # xs)" "data_ok st1 [] (x # xs)" using ld ts x by (simp_all add: loaded_def)
  have "pHead_ToSend st1 = NULL" using l1 by (simp add: links_heads)
  with move_full_links [OF l1(1)] obtain st2 where m: "take_free_head st1 = Some st2" "links st2 [x] xs"
    "dat st2 = dat st1" "rest st2 = rest st1"
    by (auto simp: take_free_head_eq)
  have r2: "has_read st2" "rx_que st2 = rx_que st" using m r inv ts by (simp_all add: rest_def sd_inv_def)
  have d2: "data_ok st2 [x] xs"
    using l1(2) by (cases xs) (auto simp: same_dat [OF m(3)] data_ok_def RX_BUFFER_SIZE_def)
  have empty: "stream st (x # xs) = []" using inv ts x by (intro stream_empty) (auto simp: sd_inv_def)
  have room: "0 < room st (x # xs)"
    using inv ts x by (simp add: sd_inv_def room_def RX_BUFFER_SIZE_def)
  have s1: "stream st1 (x # xs) = take (min n (room st (x # xs))) data"
    using ld ts x empty by (simp add: loaded_def)
  moreover have "stream st1 xs = []" using l1(2) by (intro stream_empty) (simp add: data_ok_def)
  ultimately have bx: "bytes st1 x \<noteq> []" using n room by auto
  have "length ([x] @ xs) = RX_BUFFER_NUM" "blocksize (rx_que st2) = of_nat RX_BUFFER_SIZE"
    using inv ts x r2 by (simp_all add: sd_inv_def)
  from send_head_ok [OF m(2) d2 this] bx obtain st3 where
    s: "send_head st2 = Some st3" "sd_inv st3 [x] xs" "\<not> has_read st3" "dat st3 = dat st2"
    by (auto simp: same_dat [OF m(3)])
  have "sdio_try_to_load st2 = Some (hw TRIG_TOHOST_INT st3)"
    using s(1) r2 links_heads(1) [OF m(2)]
    by (auto simp: sdio_try_to_load_def send_head_def Let_def split: bind_splits)
  moreover have "load_post n data ts ss st (hw TRIG_TOHOST_INT st3) [x] xs"
    using s ts x s1 empty m ld
    by (auto simp: load_post_def same_dat [OF dat_hw] same_dat [OF s(4)] same_dat [OF m(3)] loaded_def)
  ultimately show ?thesis using m(1) by auto
qed

lemma sdio_load_ok:
  assumes inv: "sd_inv st ts ss" and n: "0 < unat len" "unat len \<le> length data"
  shows "\<exists>r' st' ts' ss'. sdio_load_data data len st = Some (r', st') \<and> load_post (unat len) data ts ss st st' ts' ss'"
proof (cases "ss = []")
  case True
  have "pHead_Sended st = NULL" using inv True by (auto simp: sd_inv_def links_heads)
  with load_post_no_room [of st ts] inv True show ?thesis by (fastforce simp: sdio_load_data_def)
next
  case False
  have h: "pHead_Sended st \<noteq> NULL" using inv False by (auto simp: sd_inv_def links_heads(2))
  from load_loop_ok [of st ts ss len data 0] inv n False obtain r1 st1 ts1 ss1 where
    e: "load_loop data len 0 st = Some (r1, st1)" and ld: "loaded (unat len) data ts ss st st1 ts1 ss1"
    by (auto simp: sd_inv_def)
  have null: "pHead_ToSend st1 = NULL \<longleftrightarrow> ts1 = []" 
    using ld links_heads(1) [of st1 ts1 ss1] by (simp add: loaded_def)
  show ?thesis
  proof (cases "ts1 = []")
    case True
    from load_post_sent [OF inv \<open>ss \<noteq> []\<close> n ld [unfolded True]] obtain st' ts' ss' where
      s: "(do { st2 \<leftarrow> take_free_head st1; sdio_try_to_load st2 }) = Some st'"
      and p: "load_post (unat len) data ts ss st st' ts' ss'"
      by blast
    from s obtain st2 where "take_free_head st1 = Some st2" "sdio_try_to_load st2 = Some st'"
      by (auto simp: bind_eq_Some_conv)
    then have "sdio_load_data data len st = Some (r1, st')"
      using null True by (simp add: sdio_load_data_def h e)
    with p show ?thesis by blast
  next
    case False
    then have "sdio_load_data data len st = Some (r1, st1)" using null by (simp add: sdio_load_data_def h e)
    with load_post_queued [OF inv \<open>ss \<noteq> []\<close> n(1) ld False] show ?thesis by blast
  qed
qed

text \<open>How many buffers hold data.\<close>

definition busy :: "sdio \<Rightarrow> u32 list \<Rightarrow> nat" where
  "busy st ps = length (filter (\<lambda>bs. bs \<noteq> []) (map (bytes st) ps))"

lemma same_busy:
  assumes "dat st' = dat st"
  shows "busy st' = busy st"
  by (intro ext) (simp add: busy_def same_dat(1) [OF assms])

text \<open>The first half of \<open>sdio_read_done_process\<close>: the buffer is emptied and freed.\<close>

lemma recycle_ok:
  assumes inv: "sd_inv st (x # ts) ss" and "\<not> has_read st"
  shows "\<exists>st1. recycle_head (st\<lparr>has_read := True\<rparr>) = Some st1 \<and> links st1 ts (ss @ [x]) \<and>
    data_ok st1 ts (ss @ [x]) \<and> has_read st1 \<and> blocksize (rx_que st1) = of_nat RX_BUFFER_SIZE \<and>
    (\<forall>p\<in>set ts. bytes st1 p \<noteq> []) \<and>
    stream st (x # ts @ ss) = host_chunk st @ stream st1 (ts @ ss @ [x]) \<and>
    busy st (x # ts @ ss) = Suc (busy st1 (ts @ ss @ [x]))"
proof -
  let ?st = "st\<lparr>has_read := True\<rparr>"
  have "node_ok st x" using inv by (simp add: sd_inv_def data_ok_def)
  then obtain b t where b: "dat st x = Some (b, t)" "length b = RX_BUFFER_SIZE" by (rule node_okE)
  have l: "links ?st (x # ts) ss" and d: "dat ?st x = Some (b, t)"
    using inv b same_links [of ?st st] same_heap [of ?st st] by (simp_all add: sd_inv_def)
  from recycle_links [OF l d] obtain st1 where c: "recycle_head ?st = Some st1" "links st1 ts (ss @ [x])"
    and d1: "dat st1 = (dat ?st)(x \<mapsto> (b, 0))" and r: "rest st1 = rest ?st"
    by auto
  have nx: "x \<notin> set ts" "x \<notin> set ss" using inv by (auto simp: sd_inv_def links_def)
  have x1: "bytes st1 x = []" "node_ok st1 x" using d1 b by (simp_all add: bytes_def node_ok_def)
  have sm: "bytes st1 p = bytes st p" "node_ok st1 p = node_ok st p" if "p \<in> set ts \<union> set ss" for p
  proof -
    have "p \<noteq> x" using that nx by auto
    then show "bytes st1 p = bytes st p" "node_ok st1 p = node_ok st p"
      using d1 same_heap [of ?st st] by (simp_all add: bytes_def node_ok_def)
  qed
  then have eq: "map (bytes st1) (ts @ ss) = map (bytes st) (ts @ ss)" by auto
  then have "stream st1 (ts @ ss) = stream st (ts @ ss)" by (simp only: stream_def)
  moreover have "bytes st x \<noteq> []" using inv by (simp add: sd_inv_def)
  then have "busy st (x # ts @ ss) = Suc (busy st1 (ts @ ss @ [x]))"
    using eq x1(1)
    by (auto simp: busy_def intro!: arg_cong2 [where f = "(+)"] arg_cong [where f = length] filter_cong)
  moreover have "host_chunk st = bytes st x" using host_chunk_eq [OF assms] by simp
  moreover have "data_ok st1 ts (ss @ [x])"
    using inv sm x1 by (cases ss) (auto simp: sd_inv_def data_ok_def RX_BUFFER_SIZE_def)
  ultimately show ?thesis
    using c r x1 sm inv by (auto simp: rest_def sd_inv_def)
qed

text \<open>The second half: the next buffer goes out, if one holds data.\<close>

lemma resume_ok:
  assumes l: "links st ts ss" "data_ok st ts ss" "length (ts @ ss) = RX_BUFFER_NUM" "ss \<noteq> []"
    and b: "blocksize (rx_que st) = of_nat RX_BUFFER_SIZE" "\<forall>p\<in>set ts. bytes st p \<noteq> []" "has_read st"
  shows "\<exists>st' ts' ss'.
    (if pHead_ToSend st \<noteq> NULL then send_head st
     else if pHead_Sended st \<noteq> NULL then do {
       n \<leftarrow> deref (pHead_Sended st) st;
       if tail n \<noteq> SDIO_TOKEN_SIZE then do { st \<leftarrow> take_free_head st; send_head st } else Some st }
     else Some st) = Some st' \<and> sd_inv st' ts' ss' \<and> ts' @ ss' = ts @ ss \<and> dat st' = dat st \<and>
    (has_read st' \<longrightarrow> ts' = [])"
proof (cases "ts = []")
  case False
  have "pHead_ToSend st \<noteq> NULL" using l False by (simp add: links_heads(1))
  with send_head_ok [OF l(1-3) b(1,2) False] show ?thesis by auto
next
  case True
  obtain x xs where ss: "ss = x # xs" using l(4) by (cases ss) auto
  have h: "pHead_ToSend st = NULL" "pHead_Sended st \<noteq> NULL"
    using l True links_heads(1,2) [of st ts ss] by auto
  from free_head_node [OF l(1,2) [unfolded ss]] obtain n where
    n: "deref (pHead_Sended st) st = Some n" "tail n = length (bytes st x)" by auto
  show ?thesis
  proof (cases "bytes st x = []")
    case True
    have "sd_inv st ts ss"
      using l b True \<open>ts = []\<close> ss by (auto simp: sd_inv_def data_ok_def)
    with h n True \<open>ts = []\<close> show ?thesis by (auto simp: SDIO_TOKEN_SIZE_def)
  next
    case False
    from move_full_links [OF l(1) [unfolded ss]] h True obtain st2 where
      m: "take_free_head st = Some st2" "links st2 [x] xs" "dat st2 = dat st" "rest st2 = rest st"
      by (auto simp: take_free_head_eq)
    have "data_ok st2 [x] xs"
      using l(2) ss True by (cases xs) (auto simp: same_dat [OF m(3)] data_ok_def RX_BUFFER_SIZE_def)
    with send_head_ok [OF m(2) this] l(3) b(1) ss True False m(3,4) obtain st3 where
      "send_head st2 = Some st3" "sd_inv st3 [x] xs" "dat st3 = dat st2" "\<not> has_read st3"
      by (auto simp: same_dat [OF m(3)] rest_def)
    with h n m ss True False show ?thesis
      by (intro exI [of _ st3] exI [of _ "[x]"] exI [of _ xs]) (simp add: SDIO_TOKEN_SIZE_def)
  qed
qed

lemma sdio_read_ok:
  assumes inv: "sd_inv st ts ss" and "\<not> has_read st"
  shows "\<exists>st' ts' ss'. sdio_read_done_process st = Some st' \<and> sd_inv st' ts' ss' \<and>
    set (ts' @ ss') = set (ts @ ss) \<and> stream st (ts @ ss) = host_chunk st @ stream st' (ts' @ ss') \<and>
    busy st (ts @ ss) = Suc (busy st' (ts' @ ss')) \<and> (has_read st' \<longrightarrow> ts' = [])"
proof -
  obtain x xs where ts: "ts = x # xs" using assms by (cases ts) (auto simp: sd_inv_def)
  from recycle_ok [OF inv [unfolded ts] assms(2)] obtain st1 where
    c: "recycle_head (st\<lparr>has_read := True\<rparr>) = Some st1" and l: "links st1 xs (ss @ [x])" "data_ok st1 xs (ss @ [x])"
    and b: "has_read st1" "blocksize (rx_que st1) = of_nat RX_BUFFER_SIZE" "\<forall>p\<in>set xs. bytes st1 p \<noteq> []"
    and s: "stream st (x # xs @ ss) = host_chunk st @ stream st1 (xs @ ss @ [x])"
      "busy st (x # xs @ ss) = Suc (busy st1 (xs @ ss @ [x]))"
    by auto
  have "length (xs @ ss @ [x]) = RX_BUFFER_NUM" using inv ts by (simp add: sd_inv_def)
  from resume_ok [OF l this _ b(2,3,1)] obtain st2 ts' ss' where
    r: "(if pHead_ToSend st1 \<noteq> NULL then send_head st1
     else if pHead_Sended st1 \<noteq> NULL then do {
       n \<leftarrow> deref (pHead_Sended st1) st1;
       if tail n \<noteq> SDIO_TOKEN_SIZE then do { st \<leftarrow> take_free_head st1; send_head st } else Some st1 }
     else Some st1) = Some st2"
    and i: "sd_inv st2 ts' ss'" "ts' @ ss' = xs @ ss @ [x]" "dat st2 = dat st1"
      "has_read st2 \<longrightarrow> ts' = []"
    by auto
  have "sdio_read_done_process st = Some (hw TRIG_TOHOST_INT st2)"
    unfolding sdio_read_done_process_def c bind.bind_lunit r by simp
  moreover have "stream st (ts @ ss) = host_chunk st @ stream st2 (ts' @ ss')"
    using s i ts by (simp add: same_dat [OF i(3)])
  moreover have "busy st (ts @ ss) = Suc (busy st2 (ts' @ ss'))"
    using s i(2) ts by (simp add: busy_def same_dat [OF i(3)])
  moreover have "set (ts' @ ss') = set (ts @ ss)" unfolding i(2) ts by auto
  ultimately show ?thesis using i(1,4) by (auto simp: busy_def same_dat [OF dat_hw])
qed

section \<open>The interrupt handler\<close>

lemma sd_inv_tx:
  "sd_inv (rx_buff_read_done st) ts ss = sd_inv st ts ss"
  "sd_inv (tx_buff_write_done st) ts ss = sd_inv st ts ss"
  "sd_inv (tx_buff_handle_done st) ts ss = sd_inv st ts ss"
  by (rule sd_inv_cong; simp add: rx_buff_read_done_def tx_buff_write_done_def tx_buff_handle_done_def Let_def)+

lemma dat_tx:
  "dat (rx_buff_read_done st) = dat st" "dat (tx_buff_write_done st) = dat st" "dat (tx_buff_handle_done st) = dat st"
  by (rule same_heap; simp add: rx_buff_read_done_def tx_buff_write_done_def tx_buff_handle_done_def Let_def)+

lemma has_read_tx:
  "has_read (rx_buff_read_done st) = has_read st" "has_read (tx_buff_write_done st) = has_read st"
  "has_read (tx_buff_handle_done st) = has_read st" "host_chunk (rx_buff_read_done st) = host_chunk st"
  by (simp_all add: rx_buff_read_done_def tx_buff_write_done_def tx_buff_handle_done_def Let_def host_chunk_def
      split: option.split)

text \<open>The part of the handler that serves the host's writes and looks at the status again.\<close>

definition isr_rest :: "u32 \<Rightarrow> sdio \<Rightarrow> sdio" where
  "isr_rest v st =
    (let st = (if v AND SLC_TX_EOF_INT_ENA \<noteq> 0
       then let st = tx_buff_write_done st;
                st = (case sdio_recv_data_callback_ptr st of
                        Some cb \<Rightarrow> hw (emit (CallData cb (buf_ptr (tx_que st)) (datalen (tx_que st)))) st
                      | None \<Rightarrow> st);
                st = tx_buff_handle_done st
            in hw TRIG_TOHOST_INT st
       else st)
     in hw (\<lambda>s. case READ_PERI_REG SLC_INT_STATUS s of
         (w, s) \<Rightarrow> if w \<noteq> 0
           then emit (Print ''slc_intr_status:0x%08x'' [uint w]) (WRITE_PERI_REG SLC_INT_CLR w s)
           else s) st)"

lemma sdio_isr_unfold:
  assumes "READ_PERI_REG SLC_INT_STATUS (sd_hw st) = (v, s)" "v \<noteq> 0"
  shows "sdio_slave_isr st =
    (let st = hw (WRITE_PERI_REG SLC_INT_CLR v) (st\<lparr>sd_hw := s\<rparr>)
     in map_option (isr_rest v) (if v AND SLC_RX_EOF_INT_ENA \<noteq> 0
          then sdio_read_done_process (rx_buff_read_done st) else Some st))"
  using assms
  by (auto simp: sdio_slave_isr_def isr_rest_def Let_def map_option_case split: option.splits bind_splits)

lemma isr_rest_inv:
  "sd_inv (isr_rest v st) ts ss = sd_inv st ts ss" "dat (isr_rest v st) = dat st" "has_read (isr_rest v st) = has_read st"
  by (simp_all add: isr_rest_def Let_def sd_inv_tx dat_tx has_read_tx split: option.split)

lemma isr_inv:
  assumes "sd_inv st ts ss" "READ_PERI_REG SLC_INT_STATUS (sd_hw st) = (v, s)"
    and rx: "v AND SLC_RX_EOF_INT_ENA \<noteq> 0 \<Longrightarrow> \<not> has_read st"
  shows "\<exists>st' ts' ss'. sdio_slave_isr st = Some st' \<and> sd_inv st' ts' ss' \<and> set (ts' @ ss') = set (ts @ ss) \<and>
    (if v AND SLC_RX_EOF_INT_ENA \<noteq> 0
     then stream st (ts @ ss) = host_chunk st @ stream st' (ts' @ ss') \<and>
       busy st (ts @ ss) = Suc (busy st' (ts' @ ss')) \<and> (has_read st' \<longrightarrow> ts' = [])
     else dat st' = dat st \<and> ts' = ts \<and> ss' = ss \<and> has_read st' = has_read st)"
proof (cases "v = 0")
  case True
  have "sd_inv (st\<lparr>sd_hw := s\<rparr>) ts ss" "dat (st\<lparr>sd_hw := s\<rparr>) = dat st"
    using assms(1) sd_inv_cong [of "st\<lparr>sd_hw := s\<rparr>" st ts ss] same_heap [of "st\<lparr>sd_hw := s\<rparr>" st] by simp_all
  then show ?thesis using assms(2) True by (auto simp: sdio_slave_isr_def)
next
  case False
  let ?st = "hw (WRITE_PERI_REG SLC_INT_CLR v) (st\<lparr>sd_hw := s\<rparr>)"
  have i: "sd_inv ?st ts ss" using assms(1) sd_inv_cong [of ?st st ts ss] by simp
  have d: "dat ?st = dat st" by (rule same_heap) simp
  note u = sdio_isr_unfold [OF assms(2) False]
  show ?thesis
  proof (cases "v AND SLC_RX_EOF_INT_ENA = 0")
    case True
    have "sdio_slave_isr st = Some (isr_rest v ?st)" by (simp add: u True)
    with i d True show ?thesis by (auto simp: isr_rest_inv)
  next
    case rx': False
    have "sd_inv (rx_buff_read_done ?st) ts ss" "\<not> has_read (rx_buff_read_done ?st)"
      using i rx rx' by (simp_all add: sd_inv_tx has_read_tx)
    from sdio_read_ok [OF this] obtain st1 ts' ss' where
      r: "sdio_read_done_process (rx_buff_read_done ?st) = Some st1" "sd_inv st1 ts' ss'" "set (ts' @ ss') = set (ts @ ss)"
        "stream st (ts @ ss) = host_chunk st @ stream st1 (ts' @ ss')"
        "busy st (ts @ ss) = Suc (busy st1 (ts' @ ss'))" "has_read st1 \<longrightarrow> ts' = []"
      unfolding same_dat(3) [OF dat_tx(1)] same_busy [OF dat_tx(1)] has_read_tx same_dat(3) [OF d] same_busy [OF d]
      by auto
    have "sdio_slave_isr st = Some (isr_rest v st1)" using r(1) rx' by (simp add: u)
    with r rx' show ?thesis
      by (intro exI [of _ "isr_rest v st1"] exI [of _ ts'] exI [of _ ss'])
        (simp add: isr_rest_inv same_dat(3) [OF isr_rest_inv(2)] same_busy [OF isr_rest_inv(2)])
  qed
qed

section \<open>Runs of the driver\<close>

text \<open>
  A run interleaves calls of \<open>sdio_load_data\<close> with interrupts: the host has taken the buffer the
  descriptor names (which it can do only while a transfer is under way), or has written data.
  The interrupt status then shows the event once. A run collects the bytes the driver had room
  for and the bytes the host took.
\<close>

datatype sd_op = Load "u8 list" | HostRead | HostWrite u32

definition irq :: "u32 \<Rightarrow> sdio \<Rightarrow> sdio" where
  "irq v st = st\<lparr>sd_hw := (sd_hw st)\<lparr>feed := (feed (sd_hw st))(Reg SLC_INT_STATUS := [v, 0])\<rparr>\<rparr>"

definition queued :: "sdio \<Rightarrow> u8 list" where
  "queued st = stream st (to_send st @ free_bufs st)"

definition accepted :: "u8 list \<Rightarrow> sdio \<Rightarrow> u8 list" where
  "accepted d st = take (room st (free_bufs st)) d"

fun sd_exec :: "sd_op list \<Rightarrow> sdio \<Rightarrow> u8 list \<Rightarrow> u8 list \<Rightarrow> (sdio \<times> u8 list \<times> u8 list) option" where
  "sd_exec [] st acc rd = Some (st, acc, rd)"
| "sd_exec (Load d # ops) st acc rd = do {
     (_, st') \<leftarrow> sdio_load_data d (of_nat (length d)) st;
     sd_exec ops st' (acc @ accepted d st) rd }"
| "sd_exec (HostRead # ops) st acc rd =
     (if has_read st then sd_exec ops st acc rd
      else do {
        st' \<leftarrow> sdio_slave_isr (irq SLC_RX_EOF_INT_ENA st);
        sd_exec ops st' acc (rd @ host_chunk st) })"
| "sd_exec (HostWrite n # ops) st acc rd = do {
     st' \<leftarrow> sdio_slave_isr (irq SLC_TX_EOF_INT_ENA (st\<lparr>tx_que := (tx_que st)\<lparr>datalen := n\<rparr>\<rparr>));
     sd_exec ops st' acc rd }"

fun loads_ok :: "sd_op list \<Rightarrow> bool" where
  "loads_ok [] = True"
| "loads_ok (Load d # ops) = (d \<noteq> [] \<and> length d < 2 ^ 32 \<and> loads_ok ops)"
| "loads_ok (_ # ops) = loads_ok ops"

lemma queued_eq: "sd_inv st ts ss \<Longrightarrow> queued st = stream st (ts @ ss)"
  using sd_inv_lists by (auto simp: queued_def)

lemma irq_status: "READ_PERI_REG SLC_INT_STATUS (sd_hw (irq v st)) =
    (v, (sd_hw (irq v st))\<lparr>cur := (cur (sd_hw st))(Reg SLC_INT_STATUS := v),
       feed := (feed (sd_hw st))(Reg SLC_INT_STATUS := [0])\<rparr>)"
  by (simp add: READ_PERI_REG_def irq_def sample_def fun_upd_def fun_eq_iff)

lemma irq_same [simp]:
  "sd_inv (irq v st) ts ss = sd_inv st ts ss" "dat (irq v st) = dat st" "has_read (irq v st) = has_read st"
  "host_chunk (irq v st) = host_chunk st"
  by (simp_all add: irq_def)

lemma tx_update_same [simp]:
  "sd_inv (st\<lparr>tx_que := q\<rparr>) ts ss = sd_inv st ts ss" "dat (st\<lparr>tx_que := q\<rparr>) = dat st"
  "has_read (st\<lparr>tx_que := q\<rparr>) = has_read st"
  by (rule sd_inv_cong same_heap | simp)+

lemma isr_read:
  assumes "sd_inv st ts ss" "\<not> has_read st"
  shows "\<exists>st' ts' ss'. sdio_slave_isr (irq SLC_RX_EOF_INT_ENA st) = Some st' \<and> sd_inv st' ts' ss' \<and>
    set (ts' @ ss') = set (ts @ ss) \<and> stream st (ts @ ss) = host_chunk st @ stream st' (ts' @ ss') \<and>
    busy st (ts @ ss) = Suc (busy st' (ts' @ ss')) \<and> (has_read st' \<longrightarrow> ts' = [])"
proof -
  have "SLC_RX_EOF_INT_ENA AND SLC_RX_EOF_INT_ENA \<noteq> 0" by (simp add: reg_simps BIT_def)
  with isr_inv [OF _ irq_status [of SLC_RX_EOF_INT_ENA st], of ts ss] assms show ?thesis
    by (simp add: same_dat(3) [OF irq_same(2)] same_busy [OF irq_same(2)])
qed

lemma isr_write:
  assumes "sd_inv st ts ss"
  shows "\<exists>st'. sdio_slave_isr (irq SLC_TX_EOF_INT_ENA (st\<lparr>tx_que := q\<rparr>)) = Some st' \<and> sd_inv st' ts ss \<and>
    dat st' = dat st \<and> has_read st' = has_read st"
proof -
  have "SLC_TX_EOF_INT_ENA AND SLC_RX_EOF_INT_ENA = 0" by (simp add: reg_simps BIT_def)
  with isr_inv [OF _ irq_status [of SLC_TX_EOF_INT_ENA "st\<lparr>tx_que := q\<rparr>"], of ts ss] assms show ?thesis
    by auto
qed

lemma accepted_eq: "sd_inv st ts ss \<Longrightarrow> accepted d st = take (min (length d) (room st ss)) d"
  using sd_inv_lists [of st ts ss] by (simp add: accepted_def min_def)

lemma load_exec:
  assumes "sd_inv st ts ss" "d \<noteq> []" "length d < 2 ^ 32"
  shows "\<exists>r' st' ts' ss'. sdio_load_data d (of_nat (length d)) st = Some (r', st') \<and>
    load_post (length d) d ts ss st st' ts' ss'"
proof -
  have "unat (of_nat (length d) :: u32) = length d" using assms(3) by (intro unat_of_nat_small) simp
  with sdio_load_ok [OF assms(1), of "of_nat (length d)" d] assms(2) show ?thesis by simp
qed

lemma sd_exec_ok:
  assumes "sd_inv st ts ss" "loads_ok ops"
  shows "\<exists>st' acc' rd' ts' ss'. sd_exec ops st acc rd = Some (st', acc @ acc', rd @ rd') \<and> sd_inv st' ts' ss' \<and>
    set (ts' @ ss') = set (ts @ ss) \<and> stream st (ts @ ss) @ acc' = rd' @ stream st' (ts' @ ss')"
  using assms
proof (induction ops st acc rd arbitrary: ts ss rule: sd_exec.induct)
  case (1 st acc rd)
  then show ?case by auto
next
  case (2 d ops st acc rd)
  then have d: "d \<noteq> []" "length d < 2 ^ 32" "loads_ok ops" by simp_all
  from load_exec [OF 2(2) d(1,2)] obtain r' st1 ts1 ss1 where
    l: "sdio_load_data d (of_nat (length d)) st = Some (r', st1)" "load_post (length d) d ts ss st st1 ts1 ss1"
    by auto
  then have i: "sd_inv st1 ts1 ss1" "ts1 @ ss1 = ts @ ss"
    and s: "stream st1 (ts1 @ ss1) = stream st (ts @ ss) @ accepted d st"
    unfolding load_post_def accepted_eq [OF 2(2)] by blast+
  from 2(1) [OF l(1) refl i(1) d(3)] obtain st' acc' rd' ts' ss' where
    e: "sd_exec ops st1 (acc @ accepted d st) rd = Some (st', (acc @ accepted d st) @ acc', rd @ rd')"
    and j: "sd_inv st' ts' ss'" "set (ts' @ ss') = set (ts1 @ ss1)"
      "stream st1 (ts1 @ ss1) @ acc' = rd' @ stream st' (ts' @ ss')"
    by blast
  have "sd_exec (Load d # ops) st acc rd = Some (st', acc @ (accepted d st @ acc'), rd @ rd')"
    using l(1) e by simp
  moreover have "stream st (ts @ ss) @ (accepted d st @ acc') = rd' @ stream st' (ts' @ ss')" using s j(3) by simp
  moreover have "set (ts' @ ss') = set (ts @ ss)" using i(2) j(2) by simp
  ultimately show ?case using j(1) by blast
next
  case (3 ops st acc rd)
  show ?case
  proof (cases "has_read st")
    case True
    with 3(1) [OF True 3(3)] 3(4) show ?thesis by simp
  next
    case False
    from isr_read [OF 3(3) False] obtain st1 ts1 ss1 where
      r: "sdio_slave_isr (irq SLC_RX_EOF_INT_ENA st) = Some st1" and i: "sd_inv st1 ts1 ss1"
      "set (ts1 @ ss1) = set (ts @ ss)" "stream st (ts @ ss) = host_chunk st @ stream st1 (ts1 @ ss1)"
      by blast
    from 3(2) [OF False r i(1)] 3(4) obtain st' acc' rd' ts' ss' where
      e: "sd_exec ops st1 acc (rd @ host_chunk st) = Some (st', acc @ acc', (rd @ host_chunk st) @ rd')"
      and j: "sd_inv st' ts' ss'" "set (ts' @ ss') = set (ts1 @ ss1)"
        "stream st1 (ts1 @ ss1) @ acc' = rd' @ stream st' (ts' @ ss')"
      by auto
    have "sd_exec (HostRead # ops) st acc rd = Some (st', acc @ acc', rd @ (host_chunk st @ rd'))"
      using False r e by simp
    moreover have "stream st (ts @ ss) @ acc' = (host_chunk st @ rd') @ stream st' (ts' @ ss')" using i j by simp
    ultimately show ?thesis using i(2) j(1,2) by blast
  qed
next
  case (4 n ops st acc rd)
  from isr_write [OF 4(2)] obtain st1 where
    r: "sdio_slave_isr (irq SLC_TX_EOF_INT_ENA (st\<lparr>tx_que := (tx_que st)\<lparr>datalen := n\<rparr>\<rparr>)) = Some st1"
      "sd_inv st1 ts ss" "dat st1 = dat st"
    by blast
  from 4(1) [OF r(1,2)] 4(3) r show ?case by (simp add: same_dat(3) [OF r(3)])
qed

section \<open>Initialisation\<close>

text \<open>The allocator gives out four different blocks, none of them null.\<close>

definition malloc_gives :: "u32 list \<Rightarrow> sdio \<Rightarrow> bool" where
  "malloc_gives ps st \<longleftrightarrow> feed (sd_hw st) HeapPtr = ps \<and> length ps = RX_BUFFER_NUM \<and> distinct ps \<and>
     NULL \<notin> set ps \<and> (\<forall>p\<in>set ps. length (fresh st p) = RX_BUFFER_SIZE)"

lemma feed_reset_link: "feed (sdio_reset_link s) HeapPtr = feed s HeapPtr"
  by (simp add: sdio_reset_link_def ETS_INTR_DISABLE_def Let_def)

definition new_node :: "sdio \<Rightarrow> u32 \<Rightarrow> sdio_list" where
  "new_node st p = \<lparr>buffer = fresh st p, tail = 0, nextp = NULL\<rparr>"

text \<open>The first round, and one further round.\<close>

lemma alloc_first:
  assumes "pHead_Sended st = NULL" "feed (sd_hw st) HeapPtr = a # f" "a \<noteq> NULL"
  shows "alloc_loop (Suc k) p st = alloc_loop k a
    (st\<lparr>sd_hw := snd (sample HeapPtr (sd_hw st)), pHead_Sended := a, heap := (heap st)(a \<mapsto> new_node st a)\<rparr>)"
  using assms by (simp add: os_malloc_def sample_def heap_defs new_node_def SDIO_TOKEN_SIZE_def)

lemma alloc_next:
  assumes "pHead_Sended st \<noteq> NULL" "feed (sd_hw st) HeapPtr = a # f" "a \<noteq> NULL"
    and "p \<noteq> NULL" "p \<noteq> a" "heap st p = Some n"
  shows "alloc_loop (Suc k) p st = alloc_loop k a
    (st\<lparr>sd_hw := snd (sample HeapPtr (sd_hw st)), heap := (heap st)(p \<mapsto> n\<lparr>nextp := a\<rparr>, a \<mapsto> new_node st a)\<rparr>)"
  using assms
  by (simp add: os_malloc_def sample_def heap_defs new_node_def SDIO_TOKEN_SIZE_def fun_upd_twist)

lemma alloc_rest:
  assumes "seg (heap st) (pHead_Sended st) xs NULL" "xs \<noteq> []" "feed (sd_hw st) HeapPtr = ps"
    and "distinct (xs @ ps)" "NULL \<notin> set ps" "\<forall>q\<in>set xs. dat st q = Some (fresh st q, 0)"
  shows "\<exists>st'. alloc_loop (length ps) (last xs) st = Some (last (xs @ ps), st') \<and>
    seg (heap st') (pHead_Sended st') (xs @ ps) NULL \<and> (\<forall>q\<in>set (xs @ ps). dat st' q = Some (fresh st q, 0)) \<and>
    pHead_ToSend st' = pHead_ToSend st \<and> has_read st' = has_read st"
  using assms
proof (induction ps arbitrary: xs st)
  case Nil
  then show ?case by auto
next
  case (Cons a ps)
  obtain ys l where xs: "xs = ys @ [l]" using Cons.prems(2) by (cases xs rule: rev_cases) auto
  from seg_mem [OF Cons.prems(1), of l] xs obtain n where n: "l \<noteq> NULL" "heap st l = Some n" by auto
  have nx: "a \<notin> set xs" "l \<noteq> a" "a \<noteq> NULL" using Cons.prems xs by auto
  have "pHead_Sended st \<noteq> NULL" using Cons.prems(1) seg_head_NULL [OF Cons.prems(1)] xs by simp
  note step = alloc_next [OF this Cons.prems(3) nx(3) n(1) nx(2) n(2)]
  let ?h = "(heap st)(a \<mapsto> new_node st a)"
  let ?st = "st\<lparr>sd_hw := snd (sample HeapPtr (sd_hw st)), heap := (heap st)(l \<mapsto> n\<lparr>nextp := a\<rparr>, a \<mapsto> new_node st a)\<rparr>"
  have "seg ?h (pHead_Sended st) xs NULL" using Cons.prems(1) nx by (simp add: seg_update)
  then have "seg (?h(last xs \<mapsto> n\<lparr>nextp := a\<rparr>, a \<mapsto> (new_node st a)\<lparr>nextp := NULL\<rparr>)) (pHead_Sended st) (xs @ [a]) NULL"
    using Cons.prems(2,4) n nx xs by (intro seg_snoc) auto
  moreover have "?h(last xs \<mapsto> n\<lparr>nextp := a\<rparr>, a \<mapsto> (new_node st a)\<lparr>nextp := NULL\<rparr>) = heap ?st"
    using xs nx by (auto simp: new_node_def fun_eq_iff)
  ultimately have sg: "seg (heap ?st) (pHead_Sended ?st) (xs @ [a]) NULL" by simp
  have "\<exists>st'. alloc_loop (length ps) (last (xs @ [a])) ?st = Some (last ((xs @ [a]) @ ps), st') \<and>
    seg (heap st') (pHead_Sended st') ((xs @ [a]) @ ps) NULL \<and> (\<forall>q\<in>set ((xs @ [a]) @ ps). dat st' q = Some (fresh ?st q, 0)) \<and>
    pHead_ToSend st' = pHead_ToSend ?st \<and> has_read st' = has_read ?st"
  proof (rule Cons.IH [OF sg])
    show "feed (sd_hw ?st) HeapPtr = ps" using Cons.prems(3) by (simp add: sample_def)
    show "\<forall>q\<in>set (xs @ [a]). dat ?st q = Some (fresh ?st q, 0)"
      using Cons.prems(6) n nx xs by (auto simp: dat_def new_node_def)
  qed (use Cons.prems in simp_all)
  then show ?case using step xs by simp
qed

lemma init_inv:
  assumes "malloc_gives ps st" "pHead_Sended st = NULL"
  shows "\<exists>st'. sdio_slave_init st = Some st' \<and> sd_inv st' [] ps \<and> has_read st' \<and> stream st' ps = []"
proof -
  obtain a qs where ps: "ps = a # qs" "length qs = 3"
    using assms(1) by (cases ps) (auto simp: malloc_gives_def RX_BUFFER_NUM_def)
  let ?st = "(hw sdio_reset_link st)\<lparr>has_read := True, pHead_ToSend := NULL\<rparr>"
  have m: "feed (sd_hw ?st) HeapPtr = a # qs" "distinct (a # qs)" "a \<noteq> NULL" "NULL \<notin> set qs" "pHead_Sended ?st = NULL"
    using assms ps by (auto simp: malloc_gives_def feed_reset_link)
  have len: "\<forall>p\<in>set ps. length (fresh ?st p) = RX_BUFFER_SIZE" using assms(1) by (simp add: malloc_gives_def hw_def)
  let ?st1 = "?st\<lparr>sd_hw := snd (sample HeapPtr (sd_hw ?st)), pHead_Sended := a, heap := (heap ?st)(a \<mapsto> new_node ?st a)\<rparr>"
  have "feed (sd_hw ?st1) HeapPtr = qs" using m(1) by (simp add: sample_def)
  with alloc_rest [of ?st1 "[a]" qs] m obtain st2 where
    al: "alloc_loop (length qs) a ?st1 = Some (last ps, st2)" and sg: "seg (heap st2) (pHead_Sended st2) ps NULL"
    and d: "\<forall>q\<in>set ps. dat st2 q = Some (fresh ?st1 q, 0)" and f: "pHead_ToSend st2 = NULL" "has_read st2"
    by (auto simp: ps dat_def new_node_def)
  have "alloc_loop RX_BUFFER_NUM NULL ?st = Some (last ps, st2)"
    using alloc_first [OF m(5,1,3), of 3 NULL] al ps(2) by (simp add: RX_BUFFER_NUM_def eval_nat_numeral)
  moreover obtain n where "pHead_Sended st2 = a" "heap st2 a = Some n"
    using sg ps by (auto split: option.splits)
  ultimately obtain st' where i: "sdio_slave_init st = Some st'" "has_read st'" "heap st' = heap st2"
    "pHead_ToSend st' = NULL" "pHead_Sended st' = pHead_Sended st2" "pTail_Sended st' = last ps"
    "blocksize (rx_que st') = of_nat RX_BUFFER_SIZE"
    using m(3) f by (auto simp: sdio_slave_init_def Let_def deref_def)
  have "dat st' = dat st2" by (rule same_heap) (rule i)
  then have b0: "bytes st' p = []" "node_ok st' p" if "p \<in> set ps" for p
    using that d len by (simp_all add: bytes_def node_ok_def)
  have "links st' [] ps" using i sg assms(1) by (simp add: links_def malloc_gives_def)
  moreover have "data_ok st' [] ps" using b0 ps by (auto simp: data_ok_def RX_BUFFER_SIZE_def)
  ultimately have "sd_inv st' [] ps" using i b0 assms(1) by (auto simp: sd_inv_def malloc_gives_def)
  moreover have "stream st' ps = []" using b0 by (auto intro!: stream_empty)
  ultimately show ?thesis using i by blast
qed

section \<open>Draining and stalling\<close>

lemma busy_0: "busy st ps = 0 \<Longrightarrow> stream st ps = []"
  by (auto simp: busy_def filter_empty_conv intro: stream_empty)

lemma busy_le: "busy st ps \<le> length ps"
  by (metis busy_def length_filter_le length_map)

lemma drain:
  assumes "sd_inv st ts ss" "has_read st \<longrightarrow> ts = []" "busy st (ts @ ss) \<le> k"
  shows "\<exists>st' ts' ss'. sd_exec (replicate k HostRead) st acc rd = Some (st', acc, rd @ stream st (ts @ ss)) \<and>
    sd_inv st' ts' ss' \<and> stream st' (ts' @ ss') = [] \<and> has_read st'"
  using assms
proof (induction k arbitrary: st ts ss rd)
  case 0
  have "has_read st"
  proof (rule ccontr)
    assume "\<not> has_read st"
    then obtain x xs where "ts = x # xs" "bytes st x \<noteq> []" using 0(1) by (cases ts) (auto simp: sd_inv_def)
    with 0(3) show False by (simp add: busy_def)
  qed
  with 0 busy_0 [of st "ts @ ss"] show ?case
    by (intro exI [of _ st] exI [of _ ts] exI [of _ ss]) simp
next
  case (Suc k)
  show ?case
  proof (cases "has_read st")
    case True
    with Suc.prems have "ts = []" "\<forall>p\<in>set ss. bytes st p = []" by (auto simp: sd_inv_def)
    then have "busy st (ts @ ss) = 0" by (simp add: busy_def)
    with Suc.IH [OF Suc.prems(1,2)] True show ?thesis by simp
  next
    case False
    from isr_read [OF Suc.prems(1) False] obtain st1 ts1 ss1 where
      r: "sdio_slave_isr (irq SLC_RX_EOF_INT_ENA st) = Some st1" "sd_inv st1 ts1 ss1"
        "stream st (ts @ ss) = host_chunk st @ stream st1 (ts1 @ ss1)"
        "busy st (ts @ ss) = Suc (busy st1 (ts1 @ ss1))" "has_read st1 \<longrightarrow> ts1 = []"
      by blast
    have "busy st1 (ts1 @ ss1) \<le> k" using r(4) Suc.prems(3) by simp
    from Suc.IH [OF r(2,5) this, of "rd @ host_chunk st"] r(1,3) False show ?thesis by simp
  qed
qed

text \<open>
  Once buffers wait while no transfer is under way, nothing ever starts one: later loads find
  the list to send non-empty and leave the controller alone.
\<close>

lemma stalled_forever:
  assumes "sd_inv st ts ss" "has_read st" "ts \<noteq> []" "loads_ok ops"
  shows "\<exists>st' acc'. sd_exec ops st acc rd = Some (st', acc', rd)"
  using assms
proof (induction ops st acc rd arbitrary: ts ss rule: sd_exec.induct)
  case (2 d ops st acc rd)
  then have d: "d \<noteq> []" "length d < 2 ^ 32" "loads_ok ops" by simp_all
  from load_exec [OF 2(2) d(1,2)] obtain r' st1 ts1 ss1 where
    l: "sdio_load_data d (of_nat (length d)) st = Some (r', st1)" "load_post (length d) d ts ss st st1 ts1 ss1"
    by auto
  then have "sd_inv st1 ts1 ss1" "has_read st1" "ts1 \<noteq> []"
    using 2(3,4) by (simp_all add: load_post_def)
  from 2(1) [OF l(1) refl this d(3)] l(1) show ?case by simp
next
  case (4 n ops st acc rd)
  from isr_write [OF 4(2)] obtain st1 where
    r: "sdio_slave_isr (irq SLC_TX_EOF_INT_ENA (st\<lparr>tx_que := (tx_que st)\<lparr>datalen := n\<rparr>\<rparr>)) = Some st1"
      "sd_inv st1 ts ss" "has_read st1 = has_read st"
    by blast
  from 4(1) [OF r(1,2)] 4 r show ?case by simp
qed auto

text \<open>
  A load that fills the first buffer of an idle driver stalls it: the bytes are queued, but the
  branch that starts the transfer is guarded by an empty list.
\<close>

lemma sdio_load_stalls:
  assumes "sd_ok st" "to_send st = []" "RX_BUFFER_SIZE \<le> length d" "length d < 2 ^ 32" "loads_ok ops"
  shows "\<exists>st' acc. sd_exec (Load d # ops) st [] [] = Some (st', acc, [])"
proof -
  have inv: "sd_inv st [] (free_bufs st)" using assms(1,2) by (simp add: sd_ok_def)
  have "d \<noteq> []" using assms(3) by (auto simp: RX_BUFFER_SIZE_def)
  from load_exec [OF inv this assms(4)] obtain r' st1 ts1 ss1 where
    l: "sdio_load_data d (of_nat (length d)) st = Some (r', st1)"
      "load_post (length d) d [] (free_bufs st) st st1 ts1 ss1"
    by auto
  have "has_read st" using inv by (auto simp: sd_inv_def)
  then have "sd_inv st1 ts1 ss1" "has_read st1" "ts1 \<noteq> []"
    using l(2) assms(3) by (simp_all add: load_post_def)
  from stalled_forever [OF this assms(5)] l(1) show ?thesis by simp
qed

text \<open>A second initialisation finds the free list in place and stores through a null pointer.\<close>

lemma sdio_init_twice:
  assumes "pHead_Sended st \<noteq> NULL"
  shows "sdio_slave_init st = None"
  using assms
  by (simp add: sdio_slave_init_def RX_BUFFER_NUM_def eval_nat_numeral os_malloc_def heap_defs split: prod.split)

section \<open>The status word\<close>

lemma cut_mono:
  fixes x y :: u32
  assumes "take_bit n x = x"
  shows "take_bit n (x AND y) = x AND y" "take_bit n y = y \<Longrightarrow> take_bit n (x OR y) = x OR y"
proof -
  have b: "bit x k \<longleftrightarrow> k < n \<and> bit x k" for k using arg_cong [OF assms, of "\<lambda>w. bit w k"] by (simp add: bit_simps)
  show "take_bit n (x AND y) = x AND y" by (rule bit_word_eqI) (use b in \<open>auto simp: bit_simps\<close>)
  show "take_bit n y = y \<Longrightarrow> take_bit n (x OR y) = x OR y" using assms by simp
qed

lemma elm_fields:
  assumes "e = elm_value w"
  shows "take_bit 1 (wr_busy e) = wr_busy e" "take_bit 1 (rd_empty e) = rd_empty e"
    "take_bit 3 (comm_cnt e) = comm_cnt e" "take_bit 3 (intr_no e) = intr_no e"
    "take_bit 16 (rx_length e) = rx_length e" "take_bit 8 (res e) = res e"
  unfolding assms elm_value_def by (simp_all only: sdio_slave_status_element.select_convs take_bit_take_bit min.idem)

lemmas elm_cut = elm_word_value cut_fields_def elm_fields cut_mono

section \<open>A concrete driver before its initialisation\<close>

definition sdio_boot :: sdio where
  "sdio_boot =
    \<lparr>heap = (\<lambda>_. None), fresh = (\<lambda>_. replicate RX_BUFFER_SIZE 0), sdio_recv_data_callback_ptr = None,
     pHead_ToSend = 0, pTail_ToSend = 0, pHead_Sended = 0, pTail_Sended = 0,
     rx_que = \<lparr>blocksize = 0, datalen = 0, unused = 0, sub_sof = 0, eof = 0, owner = 0, buf_ptr = 0, next_link_ptr = 0\<rparr>,
     tx_que = \<lparr>blocksize = 0, datalen = 0, unused = 0, sub_sof = 0, eof = 0, owner = 0, buf_ptr = 0, next_link_ptr = 0\<rparr>,
     has_read = False, adr_rx_que = 0x3FFE8000, adr_tx_que = 0x3FFE8010, adr_tx_buffer = 0x3FFE8020,
     sd_hw = mach0\<lparr>feed := (\<lambda>_. [])(HeapPtr := [0x3FFF0100, 0x3FFF0400, 0x3FFF0700, 0x3FFF0A00])\<rparr>\<rparr>"

lemma boot_malloc:
  "malloc_gives [0x3FFF0100, 0x3FFF0400, 0x3FFF0700, 0x3FFF0A00] sdio_boot" "pHead_Sended sdio_boot = NULL"
  by (simp_all add: malloc_gives_def sdio_boot_def RX_BUFFER_NUM_def)

lemma idle_exists: "\<exists>st ss. sd_inv st [] ss \<and> has_read st"
  using init_inv [OF boot_malloc] by blast

lemma sending_exists: "\<exists>st. sd_ok st \<and> \<not> has_read st"
proof -
  from idle_exists obtain st ss where "sd_inv st [] ss" by blast
  from load_exec [OF this, of "[1]"] show ?thesis
    by (auto simp: load_post_def RX_BUFFER_SIZE_def intro: sd_inv_ok)
qed

section \<open>Properties\<close>



text \<open>
  SDIO slave, invariant: the first initialisation, given four blocks by the allocator, does
  not fault and establishes the invariant with all four buffers free and nothing queued.
\<close>

theorem sdio_init_ok:
  assumes "malloc_gives ps st" "pHead_Sended st = NULL"
  shows "\<exists>st'. sdio_slave_init st = Some st' \<and> sd_ok st' \<and> to_send st' = [] \<and> free_bufs st' = ps \<and> queued st' = []"
  using init_inv [OF assms] sd_inv_lists sd_inv_ok queued_eq by fastforce

theorem sdio_init_ok_witness:
  "\<exists>st'. sdio_slave_init sdio_boot = Some st' \<and> sd_ok st' \<and> to_send st' = [] \<and>
    free_bufs st' = [0x3FFF0100, 0x3FFF0400, 0x3FFF0700, 0x3FFF0A00] \<and> queued st' = []"
  using sdio_init_ok [OF boot_malloc] .

text \<open>
  C16. SDIO slave, liveness: while a transfer is under way, four host reads deliver every queued
  byte, in order, and leave the driver idle with nothing queued.
\<close>

theorem sdio_drains:
  assumes "sd_ok st" "\<not> has_read st"
  shows "\<exists>st'. sd_exec (replicate RX_BUFFER_NUM HostRead) st [] [] = Some (st', [], queued st) \<and>
    sd_ok st' \<and> queued st' = [] \<and> has_read st'"
proof -
  have inv: "sd_inv st (to_send st) (free_bufs st)" using assms(1) by (simp add: sd_ok_def)
  then have "busy st (to_send st @ free_bufs st) \<le> RX_BUFFER_NUM"
    using busy_le [of st "to_send st @ free_bufs st"] by (simp add: sd_inv_def)
  from drain [OF inv _ this, of "[]" "[]"] assms(2) show ?thesis
    using sd_inv_ok queued_eq by (fastforce simp: queued_def)
qed

theorem sdio_drains_witness:
  "\<exists>st st'. sd_ok st \<and> sd_exec (replicate RX_BUFFER_NUM HostRead) st [] [] = Some (st', [], queued st) \<and> queued st' = []"
  using sending_exists sdio_drains by blast

text \<open>
  SDIO slave: each update of the status word that the host polls changes the fields it is
  meant to change and no others: a read by the host empties the receive side and counts, a
  write by the host marks it busy and counts, rearming marks it free and available, and loading
  announces the length.
\<close>

theorem sdio_status_word:
  assumes "still (Reg SLC_HOST_CONF_W2) (sd_hw st)" and "e = elm_value (peri (sd_hw st) SLC_HOST_CONF_W2)"
  shows "elm_value (peri (sd_hw (rx_buff_read_done st)) SLC_HOST_CONF_W2) =
      e\<lparr>comm_cnt := take_bit 3 (comm_cnt e + 1), rd_empty := 1, rx_length := 0, intr_no := intr_no e AND NOT RX_AVAILIBLE\<rparr> \<and>
    elm_value (peri (sd_hw (tx_buff_write_done st)) SLC_HOST_CONF_W2) =
      e\<lparr>comm_cnt := take_bit 3 (comm_cnt e + 1), wr_busy := 1, intr_no := intr_no e AND NOT TX_AVAILIBLE\<rparr> \<and>
    elm_value (peri (sd_hw (tx_buff_handle_done st)) SLC_HOST_CONF_W2) =
      e\<lparr>wr_busy := 0, intr_no := intr_no e OR TX_AVAILIBLE\<rparr> \<and>
    (\<forall>n. 0 < n \<longrightarrow> n \<le> RX_BUFFER_SIZE \<longrightarrow> blocksize (rx_que st) = of_nat RX_BUFFER_SIZE \<longrightarrow>
      elm_value (peri (sd_hw (snd (rx_buff_load_done (of_nat n) st))) SLC_HOST_CONF_W2) =
      e\<lparr>rd_empty := 0, intr_no := intr_no e OR RX_AVAILIBLE, rx_length := of_nat n\<rparr>)"
proof -
  note e = elm_fields [OF assms(2)]
  have i: "take_bit 3 (intr_no e AND m) = intr_no e AND m" for m by (rule cut_mono(1)) (rule e)
  have j: "take_bit 3 (intr_no e OR 1) = intr_no e OR 1" "take_bit 3 (intr_no e OR 2) = intr_no e OR 2"
    by (rule cut_mono(2); simp add: e)+
  note facts = elm_word_value cut_fields_def e e(1,2) [simplified] i i [of "- 3", simplified e take_bit_and, simplified]
    i [of "- 2", simplified e take_bit_and, simplified] j assms(2) [symmetric] READ_still [OF assms(1)]
  note defs = rx_buff_read_done_def tx_buff_write_done_def tx_buff_handle_done_def hw_def Let_def
    RX_AVAILIBLE_def TX_AVAILIBLE_def
  have "elm_value (peri (sd_hw (snd (rx_buff_load_done (of_nat n) st))) SLC_HOST_CONF_W2) =
      e\<lparr>rd_empty := 0, intr_no := intr_no e OR RX_AVAILIBLE, rx_length := of_nat n\<rparr>"
    if n: "0 < n" "n \<le> RX_BUFFER_SIZE" "blocksize (rx_que st) = of_nat RX_BUFFER_SIZE" for n
  proof -
    note u = load_len [OF n(1,2)]
    have "take_bit 16 (of_nat n :: u32) = of_nat n"
      using n(2) unat_len [OF n(2)] by (intro take_bit_word_less) (simp add: RX_BUFFER_SIZE_def)
    then show ?thesis
      using n(3) u by (simp add: rx_buff_load_done_def defs facts)
  qed
  then show ?thesis
    by (intro conjI allI impI) (simp_all add: facts defs)
qed

theorem sdio_status_word_witness:
  "elm_value (peri (sd_hw (tx_buff_handle_done sdio_boot)) SLC_HOST_CONF_W2) = (elm_value 0)\<lparr>wr_busy := 0, intr_no := intr_no (elm_value 0) OR TX_AVAILIBLE\<rparr>"
proof -
  have "still (Reg SLC_HOST_CONF_W2) (sd_hw sdio_boot)" "elm_value 0 = elm_value (peri (sd_hw sdio_boot) SLC_HOST_CONF_W2)"
    by (simp_all add: sdio_boot_def still_def mach0_def)
  from sdio_status_word [OF this] show ?thesis by blast
qed

end
