(* ===== verification/CFloat.thy ===== *)
theory CFloat
  imports Complex_Main "HOL-Library.Log_Nat"
begin

text \<open>
  The C floating point types as far as the sensor code uses them: a \<open>float\<close> or \<open>double\<close> is the
  rational number it stands for, and every operation rounds the exact result to the nearest
  number of 24 or 53 significant bits, ties to even (IEEE 754). The numbers of this program
  keep far from the limits of the exponent, which are left out; numbers below \<open>2 ^ -140\<close>, which
  the rounding function below does not resolve, do not occur. Conversion to \<open>int\<close> truncates.
\<close>

section \<open>Rounding\<close>

definition round_even :: "rat \<Rightarrow> int" where
  "round_even x =
    (let f = \<lfloor>x\<rfloor>; d = x - of_int f
     in if d < 1 / 2 then f else if 1 / 2 < d then f + 1 else if even f then f else f + 1)"

definition scale :: rat where "scale = 2 ^ 200"

text \<open>The unit in the last place of a positive number, in units of \<open>1 / scale\<close>.\<close>

definition ulp :: "nat \<Rightarrow> rat \<Rightarrow> rat" where
  "ulp p y = 2 ^ (floorlog 2 (nat \<lfloor>y * scale\<rfloor>) - p)"

definition fl_pos :: "nat \<Rightarrow> rat \<Rightarrow> rat" where
  "fl_pos p y = of_int (round_even (y * scale / ulp p y)) * ulp p y / scale"

definition fl :: "nat \<Rightarrow> rat \<Rightarrow> rat" where
  "fl p x = (if x = 0 then 0 else if 0 < x then fl_pos p x else - fl_pos p (- x))"

definition fl32 :: "rat \<Rightarrow> rat" where "fl32 = fl 24"
definition fl64 :: "rat \<Rightarrow> rat" where "fl64 = fl 53"

definition to_int :: "rat \<Rightarrow> int" where
  "to_int x = (if 0 \<le> x then \<lfloor>x\<rfloor> else \<lceil>x\<rceil>)"

section \<open>Laws of rounding\<close>

lemma round_even_error: "\<bar>of_int (round_even x) - x\<bar> \<le> 1 / 2"
proof -
  have "of_int \<lfloor>x\<rfloor> \<le> x" "x < of_int \<lfloor>x\<rfloor> + 1" using floor_correct [of x] by simp_all
  then show ?thesis
    unfolding round_even_def Let_def by (simp add: abs_if; linarith)
qed

lemma round_even_int: "round_even (of_int k) = k"
  by (simp add: round_even_def)

lemma round_even_near: "\<bar>x - of_int k\<bar> < 1 / 2 \<Longrightarrow> round_even x = k"
proof -
  assume d: "\<bar>x - of_int k\<bar> < 1 / 2"
  then have "\<lfloor>x\<rfloor> = k \<or> \<lfloor>x\<rfloor> = k - 1"
    by (cases "of_int k \<le> x") (auto simp: floor_eq_iff abs_if split: if_splits)
  then show ?thesis using d by (elim disjE) (auto simp: round_even_def Let_def abs_if split: if_splits)
qed

lemma scale_pos: "0 < scale" by (simp add: scale_def)

lemma ulp_pos: "0 < ulp p y" by (simp add: ulp_def)

text \<open>Half a unit in the last place is at most the \<open>2 ^ p\<close>-th part of the number.\<close>

lemma ulp_le:
  assumes z: "2 ^ p \<le> y * scale"
  shows "ulp p y / 2 \<le> y * scale / 2 ^ p"
proof -
  define m where "m = nat \<lfloor>y * scale\<rfloor>"
  define n where "n = floorlog 2 m"
  have "of_nat (2 ^ p) \<le> y * scale" using z by simp
  then have "int (2 ^ p) \<le> \<lfloor>y * scale\<rfloor>" by (metis le_floor_iff of_int_of_nat_eq)
  then have m: "2 ^ p \<le> m" unfolding m_def
    by (subst le_nat_iff) (use order_trans [OF of_nat_0_le_iff] in blast)+
  then have "0 < m" by (rule less_le_trans [rotated]) simp
  then have b: "2 ^ (n - 1) \<le> m" "m < 2 ^ n" using floorlog_bounds [of m 2] by (simp_all add: n_def)
  have "p < n"
  proof (rule ccontr)
    assume "\<not> p < n"
    then have "(2 :: nat) ^ n \<le> 2 ^ p" by (intro power_increasing) simp_all
    with b(2) m show False by simp
  qed
  then have "(2 :: nat) ^ (n - p) * 2 ^ p = 2 * 2 ^ (n - 1)"
    by (simp flip: power_add power_Suc)
  also have "\<dots> \<le> 2 * m" using b(1) by simp
  finally have "of_nat (2 ^ (n - p) * 2 ^ p) \<le> (of_nat (2 * m) :: rat)" by (rule of_nat_mono)
  then have "(2 :: rat) ^ (n - p) * 2 ^ p \<le> 2 * of_nat m" by simp
  also have "of_nat m \<le> y * scale"
    unfolding m_def by (rule of_nat_floor) (rule order_trans [OF _ z], simp)
  finally have "(2 :: rat) ^ (n - p) * 2 ^ p \<le> 2 * (y * scale)" by simp
  moreover have "ulp p y = 2 ^ (n - p)" by (simp add: ulp_def n_def m_def)
  ultimately show ?thesis by (simp add: field_simps)
qed

lemma fl_pos_error:
  assumes "2 ^ p \<le> y * scale"
  shows "\<bar>fl_pos p y - y\<bar> \<le> y / 2 ^ p"
proof -
  let ?x = "y * scale / ulp p y"
  have "fl_pos p y - y = (of_int (round_even ?x) - ?x) * ulp p y / scale"
    using ulp_pos [of p y] scale_pos by (simp add: fl_pos_def field_simps)
  then have "\<bar>fl_pos p y - y\<bar> = \<bar>of_int (round_even ?x) - ?x\<bar> * ulp p y / scale"
    using ulp_pos [of p y] scale_pos by (simp add: abs_mult)
  also have "\<dots> \<le> 1 / 2 * ulp p y / scale"
    using ulp_pos [of p y] scale_pos round_even_error by (intro divide_right_mono mult_right_mono) simp_all
  also have "\<dots> \<le> (y * scale / 2 ^ p) / scale"
    using ulp_le [OF assms] scale_pos by (intro divide_right_mono) simp_all
  finally show ?thesis using scale_pos by simp
qed

lemma fl_neg: "fl p (- x) = - fl p x"
  by (simp add: fl_def)

lemma to_int_neg: "to_int (- x) = - to_int x"
  by (auto simp: to_int_def ceiling_def)

text \<open>The relative error of a rounding is at most \<open>2 ^ -p\<close>.\<close>

lemma fl_error:
  assumes "1 / 2 ^ 100 \<le> x" "p \<le> 53"
  shows "\<bar>fl p x - x\<bar> \<le> x / 2 ^ p"
proof -
  have "(0 :: rat) < 1 / 2 ^ 100" by simp
  then have pos: "0 < x" using assms(1) by linarith
  have "(2 :: rat) ^ p \<le> 2 ^ 100" using assms(2) by (intro power_increasing) simp_all
  also have "\<dots> = 1 / 2 ^ 100 * scale" by (simp add: scale_def)
  also have "\<dots> \<le> x * scale" using assms(1) scale_pos by (intro mult_right_mono) simp_all
  finally show ?thesis using fl_pos_error pos by (simp add: fl_def)
qed

text \<open>Integers of at most \<open>p\<close> bits are exact.\<close>

lemma fl_nat:
  assumes "k < 2 ^ p" "p \<le> 200"
  shows "fl p (of_nat k) = of_nat k"
proof (cases "k = 0")
  case True
  then show ?thesis by (simp add: fl_def)
next
  case False
  have "of_nat k * scale = of_int (int (k * 2 ^ 200))" by (simp add: scale_def)
  then have "\<lfloor>of_nat k * scale\<rfloor> = int (k * 2 ^ 200)" by (simp only: floor_of_int)
  then have m: "nat \<lfloor>of_nat k * scale\<rfloor> = k * 2 ^ 200" by simp
  have "k * 2 ^ 200 < 2 ^ (p + 200)" using assms(1) by (simp add: power_add)
  then have "floorlog 2 (k * 2 ^ 200) \<le> p + 200"
    using floorlog_le_iff [of 2 "k * 2 ^ 200" "p + 200"] by simp
  then obtain j where j: "floorlog 2 (k * 2 ^ 200) - p + j = 200" using assms(2) by (metis add.commute le_diff_conv le_iff_add)
  have u: "ulp p (of_nat k) = 2 ^ (floorlog 2 (k * 2 ^ 200) - p)" by (simp only: ulp_def m)
  have s: "scale = ulp p (of_nat k) * 2 ^ j" unfolding u scale_def by (simp only: j flip: power_add)
  have nz: "ulp p (of_nat k) \<noteq> 0" using ulp_pos [of p "of_nat k"] by simp
  with s have "of_nat k * scale / ulp p (of_nat k) = of_int (int (k * 2 ^ j))"
    by (simp add: field_simps)
  then have "fl_pos p (of_nat k) = of_int (int (k * 2 ^ j)) * ulp p (of_nat k) / scale"
    by (simp only: fl_pos_def round_even_int)
  also have "\<dots> = of_nat k" using s nz scale_pos by (simp add: field_simps)
  finally show ?thesis using False by (simp add: fl_def)
qed

text \<open>Evaluation at a concrete number, given the position of its first bit.\<close>

lemma fl_eval:
  assumes "2 ^ e \<le> y * scale" "y * scale < 2 ^ Suc e"
  shows "fl p y = of_int (round_even (y * scale / 2 ^ (Suc e - p))) * 2 ^ (Suc e - p) / scale"
proof -
  define m where "m = nat \<lfloor>y * scale\<rfloor>"
  have z: "0 \<le> y * scale" by (rule order_trans [OF _ assms(1)]) simp
  have "of_nat (2 ^ e) \<le> y * scale" using assms(1) by simp
  then have "int (2 ^ e) \<le> \<lfloor>y * scale\<rfloor>" by (metis le_floor_iff of_int_of_nat_eq)
  then have lo: "2 ^ e \<le> m" unfolding m_def
    by (subst le_nat_iff) (use order_trans [OF of_nat_0_le_iff] in blast)+
  have "\<lfloor>y * scale\<rfloor> < int (2 ^ Suc e)" using assms(2) by (simp add: floor_less_iff)
  then have hi: "m < 2 ^ Suc e" unfolding m_def by (subst nat_less_iff) (use z in auto)
  have "m \<noteq> 0" using lo by (metis not_less zero_less_numeral zero_less_power)
  have "floorlog 2 m = Suc e"
    by (rule antisym) (use floorlog_le_iff [of 2 m "Suc e"] floorlog_ge_SucI [of 2 e m] lo hi \<open>m \<noteq> 0\<close> in simp_all)
  then have "ulp p y = 2 ^ (Suc e - p)" by (simp only: ulp_def flip: m_def)
  moreover have "0 < y * scale" by (rule less_le_trans [OF _ assms(1)]) simp
  then have "0 < y" using scale_pos by (simp add: zero_less_mult_iff)
  ultimately show ?thesis by (simp add: fl_def fl_pos_def)
qed

end
