(* ===== verification/AppState.thy ===== *)
theory AppState
  imports Machine CFloat
begin

text \<open>
  The state of the application of development/user: the global and static objects of its
  files, one record for the whole program because its parts share the machine, with the
  enumerations and records of dht.h, hcsr04.h and uni-sensor.h, the espconn control blocks, and
  the C library functions the program uses (\<open>sprintf\<close> of integers, \<open>strstr\<close>).
\<close>

section \<open>Sensor handlers (uni-sensor.h, dht.h, hcsr04.h)\<close>

datatype SensorSts_t = IDLE | MEAS | PREP | COMPL | ERR

definition DHT_DRIVER_SOURCE :: u32 where "DHT_DRIVER_SOURCE = 1"
definition HCSR04_DRIVER_SOURCE :: u32 where "HCSR04_DRIVER_SOURCE = 2"
definition DHT_PIN :: nat where "DHT_PIN = 14"
definition DHT_TIMEOUT :: u8 where "DHT_TIMEOUT = 10"
definition HC_INPUT :: nat where "HC_INPUT = 4"
definition HC_OUTPUT :: nat where "HC_OUTPUT = 13"

record DhtHandler =
  state :: SensorSts_t
  DhtTemp :: rat
  DhtHum :: rat

record Hcsr04Handler_t =
  hc_state :: SensorSts_t
  result :: rat

text \<open>The free running microsecond counter.\<close>

definition WDEW_ADDR :: u32 where "WDEW_ADDR = 0x3ff20c00"

definition WDEW_NOW :: "mach \<Rightarrow> u32 \<times> mach" where
  "WDEW_NOW s = READ_PERI_REG WDEW_ADDR s"

section \<open>Network control blocks\<close>

datatype espconn_type = ESPCONN_TCP | ESPCONN_UDP

text \<open>\<open>proto\<close> is \<open>None\<close> while the pointer to the protocol block is null.\<close>

record esp_proto =
  remote_port :: int
  local_port :: int
  remote_ip :: "u8 list"

record espconn =
  conn_type :: "espconn_type option"
  proto :: "esp_proto option"
  recv_callback :: "cfun option"

section \<open>The program\<close>

text \<open>
  \<open>stack_junk\<close> is what the stack holds below the local buffer of \<open>daemonHandleAnswer\<close> when it
  is entered. The addresses of the two handlers are fixed by the linker.
\<close>

record app =
  DhtTimeOffset :: u32
  DhtResultIdx :: u8
  DhtResult :: "u32 list"
  DhtTimeout :: u8
  DhtHandle :: DhtHandler
  adr_DhtHandle :: u32
  TimerOffset :: u32
  UltraSensorResult :: u32
  UltraSensSts :: u8
  Hcsr04 :: Hcsr04Handler_t
  adr_Hcsr04 :: u32
  led_state :: u8
  asd :: u32
  HeartBeatConn :: espconn
  daemonHandler :: espconn
  daemonSts :: u8
  stack_junk :: string
  printbuf :: string
  g_value :: u32
  tm_offset :: u32
  user_cb :: "cfun option"
  hw :: mach

text \<open>The program as it is loaded, with the machine at rest.\<close>

definition espconn0 :: espconn where
  "espconn0 = \<lparr>conn_type = None, proto = None, recv_callback = None\<rparr>"

definition app0 :: app where
  "app0 =
    \<lparr>DhtTimeOffset = 0, DhtResultIdx = 0, DhtResult = replicate 42 0, DhtTimeout = 0,
     DhtHandle = \<lparr>state = IDLE, DhtTemp = 0, DhtHum = 0\<rparr>, adr_DhtHandle = 0x3FFE9000,
     TimerOffset = 0, UltraSensorResult = 0, UltraSensSts = 0,
     Hcsr04 = \<lparr>hc_state = IDLE, result = 0\<rparr>, adr_Hcsr04 = 0x3FFE9010,
     led_state = 0, asd = 0, HeartBeatConn = espconn0, daemonHandler = espconn0, daemonSts = 0,
     stack_junk = [], printbuf = [], g_value = 0, tm_offset = 0, user_cb = None, hw = mach0\<rparr>"

definition on :: "(mach \<Rightarrow> mach) \<Rightarrow> app \<Rightarrow> app" where
  "on f st = st\<lparr>hw := f (hw st)\<rparr>"

definition say :: "string \<Rightarrow> int list \<Rightarrow> app \<Rightarrow> app" where
  "say fmt args = on (emit (Print fmt args))"

lemma on_simps [simp]: "hw (on f st) = f (hw st)"
  "DhtTimeOffset (on f st) = DhtTimeOffset st" "DhtResultIdx (on f st) = DhtResultIdx st"
  "DhtResult (on f st) = DhtResult st" "DhtTimeout (on f st) = DhtTimeout st" "DhtHandle (on f st) = DhtHandle st"
  "adr_DhtHandle (on f st) = adr_DhtHandle st" "TimerOffset (on f st) = TimerOffset st"
  "UltraSensorResult (on f st) = UltraSensorResult st" "UltraSensSts (on f st) = UltraSensSts st"
  "Hcsr04 (on f st) = Hcsr04 st" "adr_Hcsr04 (on f st) = adr_Hcsr04 st"
  by (simp_all add: on_def)

section \<open>What the trace says\<close>

text \<open>The messages posted so far. Register and pin operations leave these and the timers alone.\<close>

definition posts :: "mach \<Rightarrow> event list" where
  "posts s = filter (\<lambda>e. case e of Post _ _ _ \<Rightarrow> True | _ \<Rightarrow> False) (trace s)"

lemma posts_simps [simp]:
  "posts (emit e s) = posts s @ (case e of Post _ _ _ \<Rightarrow> [e] | _ \<Rightarrow> [])"
  "posts (WRITE_PERI_REG a v s) = posts s"
  by (simp_all add: posts_def split: event.split)

lemma WRITE_history [simp]:
  "armed t (WRITE_PERI_REG a v s) = armed t s" "pin_intr p (WRITE_PERI_REG a v s) = pin_intr p s"
  by (simp_all add: armed_def pin_intr_def)

lemma posts_upd [simp]: "posts (s\<lparr>cur := c, feed := f\<rparr>) = posts s"
  by (simp add: posts_def)

lemma sample_history:
  "sample src s = (v, s') \<Longrightarrow> posts s' = posts s \<and> armed t s' = armed t s \<and> pin_intr p s' = pin_intr p s"
  by (auto simp: posts_def dest: sample_trace trace_cong)

lemma WDEW_history:
  "WDEW_NOW s = (v, s') \<Longrightarrow> posts s' = posts s \<and> armed t s' = armed t s \<and> pin_intr p s' = pin_intr p s"
  by (simp add: WDEW_NOW_def READ_PERI_REG_def sample_history)

lemma GPIO_history [simp]:
  "posts (GPIO_OUTPUT_SET n v s) = posts s" "posts (GPIO_DIS_OUTPUT n s) = posts s"
  "armed t (GPIO_OUTPUT_SET n v s) = armed t s" "armed t (GPIO_DIS_OUTPUT n s) = armed t s"
  by (simp_all add: GPIO_OUTPUT_SET_def GPIO_DIS_OUTPUT_def)

lemma modify_history:
  "posts (modify_reg a f s) = posts s" "armed t (modify_reg a f s) = armed t s"
  "pin_intr p (modify_reg a f s) = pin_intr p s"
  by (auto simp: modify_reg_def READ_PERI_REG_def sample_history split: prod.split)

lemma more_history [simp]:
  "posts (PIN_FUNC_SELECT a x s) = posts s" "armed t (PIN_FUNC_SELECT a x s) = armed t s"
  "pin_intr p (PIN_FUNC_SELECT a x s) = pin_intr p s"
  "posts (SET_PERI_REG_MASK a x s) = posts s" "armed t (SET_PERI_REG_MASK a x s) = armed t s"
  "pin_intr p (GPIO_OUTPUT_SET n v s) = pin_intr p s" "pin_intr p (GPIO_DIS_OUTPUT n s) = pin_intr p s"
  "posts (GPIO_REG_WRITE a v s) = posts s" "armed t (GPIO_REG_WRITE a v s) = armed t s"
  "pin_intr p (GPIO_REG_WRITE a v s) = pin_intr p s"
  "posts (ETS_INTR_ENABLE n s) = posts s" "armed t (ETS_INTR_ENABLE n s) = armed t s"
  "pin_intr p (ETS_INTR_ENABLE n s) = pin_intr p s"
  by (simp_all add: PIN_FUNC_SELECT_def SET_PERI_REG_MASK_def modify_history GPIO_OUTPUT_SET_def GPIO_DIS_OUTPUT_def
      GPIO_REG_WRITE_def ETS_INTR_ENABLE_def)

section \<open>C library\<close>

text \<open>The decimal digits of a number, and what the conversion \<open>d\<close> of \<open>sprintf\<close> writes.\<close>

fun digits :: "nat \<Rightarrow> string" where
  "digits n = (if n < 10 then [char_of (48 + n)] else digits (n div 10) @ [char_of (48 + n mod 10)])"

declare digits.simps [simp del]

lemma length_digits: "n < 10 ^ Suc k \<Longrightarrow> length (digits n) \<le> Suc k"
proof (induction k arbitrary: n)
  case 0
  then show ?case by (subst digits.simps) simp
next
  case (Suc k)
  then have "length (digits (n div 10)) \<le> Suc k" by (intro Suc.IH) simp
  then show ?case by (subst digits.simps) simp
qed

lemma digits_no_zero: "CHR 0x00 \<notin> set (digits n)"
proof (induction n rule: digits.induct)
  case (1 n)
  have nz: "CHR 0x00 \<noteq> char_of (48 + m)" if "m < 10" for m :: nat
  proof
    assume "CHR 0x00 = char_of (48 + m)"
    then have "(of_char (char_of (48 + m) :: char) :: nat) = of_char (CHR 0x00)" by simp
    then show False using that by simp
  qed
  have "CHR 0x00 \<noteq> char_of (48 + n mod 10)" by (rule nz) simp
  then show ?case using 1 nz [of n] by (subst digits.simps) (simp del: char_of_eq_iff)
qed

definition fmt_d :: "int \<Rightarrow> string" where
  "fmt_d i = (if i < 0 then ''-'' @ digits (nat (- i)) else digits (nat i))"

text \<open>\<open>strstr(s, pat) != NULL\<close>.\<close>

fun strstr :: "string \<Rightarrow> string \<Rightarrow> bool" where
  "strstr [] pat = (pat = [])"
| "strstr (c # s) pat = (take (length pat) (c # s) = pat \<or> strstr s pat)"

lemma strstr_iff: "strstr s pat \<longleftrightarrow> (\<exists>pre post. s = pre @ pat @ post)"
proof (induction s)
  case Nil
  then show ?case by auto
next
  case (Cons c s)
  show ?case
  proof
    assume "strstr (c # s) pat"
    then consider "take (length pat) (c # s) = pat" | "strstr s pat" by auto
    then show "\<exists>pre post. c # s = pre @ pat @ post"
    proof cases
      case 1
      then have "c # s = [] @ pat @ drop (length pat) (c # s)" by (metis append_Nil append_take_drop_id)
      then show ?thesis by blast
    next
      case 2
      with Cons.IH obtain pre post where "s = pre @ pat @ post" by blast
      then have "c # s = (c # pre) @ pat @ post" by simp
      then show ?thesis by blast
    qed
  next
    assume "\<exists>pre post. c # s = pre @ pat @ post"
    then obtain pre post where e: "c # s = pre @ pat @ post" by blast
    show "strstr (c # s) pat"
    proof (cases pre)
      case Nil
      then have "take (length pat) (c # s) = pat" using e by simp
      then show ?thesis by simp
    next
      case (Cons d pre')
      then have "s = pre' @ pat @ post" using e by simp
      with Cons.IH show ?thesis by auto
    qed
  qed
qed

end
