(* ===== verification/Supervise.thy ===== *)
theory Supervise
  imports AppState
begin

text \<open>
  Supervision of a reading, as an interface. Both applications start a reading of the DHT22 by
  arming a repeating timer, count its expiries and give up after ten: they report to the main
  task, which starts the next reading. What follows from that contract is proved here once; the
  two drivers and the two main tasks are its instances.
\<close>

locale supervised_reading =
  fixes start :: "'s \<Rightarrow> 's" and expire :: "'s \<Rightarrow> 's" and count :: "'s \<Rightarrow> u8" and limit :: u8
    and world :: "'s \<Rightarrow> mach" and timer :: timer
    and waiting :: "'s \<Rightarrow> bool" and failed :: "'s \<Rightarrow> bool" and report :: "'s \<Rightarrow> event"
  assumes limit_fits: "unat limit < 255"
    and start_law: "count (start s) = 0" "waiting (start s)" "armed timer (world (start s))"
      "posts (world (start s)) = posts (world s)" "report (start s) = report s"
    and expire_law: "count (expire s) = count s + 1"
      "posts (world (expire s)) = posts (world s) @ (if limit < count s + 1 then [report s] else [])"
      "armed timer (world (expire s)) \<longleftrightarrow> armed timer (world s) \<and> \<not> limit < count s + 1"
      "limit < count s + 1 \<Longrightarrow> failed (expire s)" "\<not> limit < count s + 1 \<Longrightarrow> waiting s \<Longrightarrow> waiting (expire s)"
      "report (expire s) = report s"
begin

lemma in_time:
  "n \<le> unat limit \<Longrightarrow> count ((expire ^^ n) (start s)) = of_nat n \<and> waiting ((expire ^^ n) (start s)) \<and>
    armed timer (world ((expire ^^ n) (start s))) \<and> posts (world ((expire ^^ n) (start s))) = posts (world s) \<and>
    report ((expire ^^ n) (start s)) = report s"
proof (induction n)
  case 0
  then show ?case by (simp add: start_law)
next
  case (Suc n)
  have "unat (of_nat n + 1 :: u8) = Suc n"
    using Suc.prems limit_fits unat_of_nat_small [of "Suc n", where 'a = 8] by (simp add: add.commute)
  then have "\<not> limit < of_nat n + 1" using Suc.prems by (simp add: word_less_nat_alt)
  with Suc show ?case by (simp add: expire_law)
qed

lemma too_late:
  fixes s :: 's
  defines "t \<equiv> (expire ^^ Suc (unat limit)) (start s)"
  shows "failed t" "\<not> armed timer (world t)" "posts (world t) = posts (world s) @ [report s]" "report t = report s"
proof -
  let ?u = "(expire ^^ unat limit) (start s)"
  have u: "count ?u = limit" "posts (world ?u) = posts (world s)" "report ?u = report s"
    using in_time [of "unat limit" s] by simp_all
  have "unat (limit + 1) = Suc (unat limit)"
    using limit_fits unat_of_nat_small [of "Suc (unat limit)", where 'a = 8] by (simp add: add.commute)
  then have "limit < count ?u + 1" unfolding u by (simp add: word_less_nat_alt)
  then show "failed t" "\<not> armed timer (world t)" "posts (world t) = posts (world s) @ [report s]" "report t = report s"
    by (simp_all add: t_def expire_law u)
qed

end

text \<open>A main task that answers the report of a failure with a new start.\<close>

locale retried_reading = supervised_reading +
  fixes task :: "event \<Rightarrow> 's \<Rightarrow> 's option" and known :: "event \<Rightarrow> bool"
  assumes task_law: "failed s \<Longrightarrow> known (report s) \<Longrightarrow>
    \<exists>s'. task (report s) s = Some s' \<and> armed timer (world s') \<and> count s' = 0 \<and> waiting s'"
begin

lemma retried:
  assumes "known (report s)"
  shows "\<exists>s'. last (posts (world ((expire ^^ Suc (unat limit)) (start s)))) = report s \<and>
    task (report s) ((expire ^^ Suc (unat limit)) (start s)) = Some s' \<and>
    armed timer (world s') \<and> count s' = 0 \<and> waiting s'"
  using task_law [OF too_late(1), of s] assms unfolding too_late(3,4) by simp

end

end
