(* ===== verification/Dht.thy ===== *)
theory Dht
  imports Supervise "HOL-Library.Monad_Syntax"
begin

text \<open>
  The DHT22 temperature and humidity sensor (user/dht.c): the start pulse, the timer that
  supervises it, the interrupt that stamps the falling edges, and the decoding of the 40 bits.
\<close>

section \<open>Operations\<close>

definition DhtInit :: "app \<Rightarrow> app" where
  "DhtInit st =
    (let st = on (PIN_FUNC_SELECT PERIPHS_IO_MUX_MTMS_U FUNC_GPIO14) st;
         st = on (GPIO_OUTPUT_SET DHT_PIN 1) st;
         st = st\<lparr>DhtHandle := (DhtHandle st)\<lparr>state := PREP\<rparr>\<rparr>
     in st\<lparr>DhtTimeout := 0\<rparr>)"

definition DhtReadStart :: "app \<Rightarrow> app" where
  "DhtReadStart st =
    (let st = on (GPIO_OUTPUT_SET DHT_PIN 1) st;
         st = on (emit (DelayUs 200)) st;
         st = on (GPIO_OUTPUT_SET DHT_PIN 0) st;
         st = on (emit (TimerDisarm T_DhtTimer)) st;
         st = on (emit (TimerSetfn T_DhtTimer C_DhtTimerCbk)) st;
         st = on (emit (TimerArm T_DhtTimer 20 True)) st
     in say ''Dht Starting measure'' [] st)"

definition DhtGpioCbkSetup :: "app \<Rightarrow> app" where
  "DhtGpioCbkSetup st =
    (let st = on (GPIO_DIS_OUTPUT DHT_PIN) st;
         st = on (emit (IsrAttach ETS_GPIO_INUM C_GpioUniCbk)) st;
         st = on (emit (GpioRegSet (GPIO_PIN_ADDR (of_nat DHT_PIN)) gpio_pin_input_conf)) st;
         st = on (GPIO_REG_WRITE GPIO_STATUS_W1TC_ADDRESS (BIT DHT_PIN)) st;
         st = on (emit (PinIntr (of_nat DHT_PIN) GPIO_PIN_INTR_NEGEDGE)) st;
         st = on (ETS_INTR_ENABLE ETS_GPIO_INUM) st;
         st = st\<lparr>DhtResultIdx := 0\<rparr>;
         st = st\<lparr>DhtResult := replicate 42 0\<rparr>
     in case WDEW_NOW (hw st) of (v, s) \<Rightarrow> st\<lparr>DhtTimeOffset := v, hw := s\<rparr>)"

text \<open>
  The decoding loop: from bit position \<open>bits\<close>, eight intervals become a byte, the first its
  highest bit. An interval of more than 100 microseconds is a one.
\<close>

definition decode_byte :: "u32 list \<Rightarrow> nat \<Rightarrow> u8" where
  "decode_byte res bits =
     fst (fold (\<lambda>temp (r, bits). (if res ! bits > 100 then r OR push_bit temp 1 else r, bits + 1))
            (rev [0..<8]) (0, bits))"

definition decode_result :: "u32 list \<Rightarrow> u8 list" where
  "decode_result res =
     fst (fold (\<lambda>_ (result, bits). (result @ [decode_byte res bits], bits + 8)) [0..<5] ([], 2))"

text \<open>The temperature and the humidity as the two branches of the code compute them.\<close>

definition raw16 :: "u8 \<Rightarrow> u8 \<Rightarrow> u16" where
  "raw16 hi lo = push_bit 8 (ucast hi) OR ucast lo"

definition dht_temp :: "u16 \<Rightarrow> rat" where
  "dht_temp rawtemperature =
    (if rawtemperature AND 0x8000 \<noteq> 0
     then fl32 (fl64 (fl32 (fl64 (of_nat (unat (rawtemperature AND 0x7FFF)) / 10)) * - 1))
     else fl32 (fl64 (fl32 (of_nat (unat rawtemperature)) / 10)))"

definition dht_hum :: "u16 \<Rightarrow> rat" where
  "dht_hum rawhumidity = fl32 (fl64 (fl32 (of_nat (unat rawhumidity)) / 10))"

definition DhtProcess :: "app \<Rightarrow> app" where
  "DhtProcess st =
    (let result = decode_result (DhtResult st);
         st = say ''Result: %d, %d, %d ,%d, %d'' (map uint result) st;
         st = (if uint (result ! 0) + uint (result ! 1) + uint (result ! 2) + uint (result ! 3) = uint (result ! 4)
               then say ''parity_ok!!'' [] st
               else let st = say ''parity_NOK!!'' [] st;
                        st = st\<lparr>DhtHandle := (DhtHandle st)\<lparr>state := ERR\<rparr>\<rparr>
                    in on (emit (Post 0 DHT_DRIVER_SOURCE (adr_DhtHandle st))) st);
         rawhumidity = raw16 (result ! 0) (result ! 1);
         rawtemperature = raw16 (result ! 2) (result ! 3);
         st = st\<lparr>DhtHandle := (DhtHandle st)\<lparr>DhtTemp := dht_temp rawtemperature\<rparr>\<rparr>
     in st\<lparr>DhtHandle := (DhtHandle st)\<lparr>DhtHum := dht_hum rawhumidity\<rparr>\<rparr>)"

text \<open>The store \<open>DhtResult[DhtResultIdx++]\<close> faults outside the 42 entries.\<close>

definition DhtGpioCbk :: "app \<Rightarrow> app option" where
  "DhtGpioCbk st =
    (case GPIO_REG_READ GPIO_STATUS_ADDRESS (hw st) of
      (gpio_status, s) \<Rightarrow>
        let st = st\<lparr>hw := s\<rparr>;
            st = st\<lparr>DhtHandle := (DhtHandle st)\<lparr>state := MEAS\<rparr>\<rparr>
        in if gpio_status AND BIT DHT_PIN \<noteq> 0
           then case WDEW_NOW (hw st) of (now, s) \<Rightarrow>
             let st = st\<lparr>hw := s\<rparr>; i = unat (DhtResultIdx st)
             in if length (DhtResult st) \<le> i then None
                else
                  let st = st\<lparr>DhtResult := (DhtResult st)[i := now - DhtTimeOffset st], DhtResultIdx := DhtResultIdx st + 1\<rparr>
                  in case WDEW_NOW (hw st) of (now, s) \<Rightarrow>
                    let st = st\<lparr>DhtTimeOffset := now, hw := s\<rparr>;
                        st = (if DhtResultIdx st > 41
                          then let st = DhtProcess st;
                                   st = on (emit (PinIntr (of_nat DHT_PIN) GPIO_PIN_INTR_DISABLE)) st;
                                   st = on (GPIO_REG_WRITE GPIO_STATUS_W1TC_ADDRESS (gpio_status AND BIT DHT_PIN)) st;
                                   st = on (emit (TimerDisarm T_DhtTimer)) st;
                                   st = st\<lparr>DhtHandle := (DhtHandle st)\<lparr>state := COMPL\<rparr>\<rparr>
                               in on (emit (Post 0 DHT_DRIVER_SOURCE (adr_DhtHandle st))) st
                          else st)
                    in Some (on (GPIO_REG_WRITE GPIO_STATUS_W1TC_ADDRESS (gpio_status AND BIT DHT_PIN)) st)
           else Some st)"

definition DhtTimerCbk :: "app \<Rightarrow> app" where
  "DhtTimerCbk st =
    (let st = on (GPIO_OUTPUT_SET DHT_PIN 1) st;
         st = on (GPIO_DIS_OUTPUT DHT_PIN) st;
         st = st\<lparr>DhtTimeout := DhtTimeout st + 1\<rparr>;
         st = (if DHT_TIMEOUT < DhtTimeout st
               then let st = st\<lparr>DhtHandle := (DhtHandle st)\<lparr>state := ERR\<rparr>\<rparr>;
                        st = say ''DhTTimeout!!'' [] st;
                        st = on (emit (TimerDisarm T_DhtTimer)) st
                    in on (emit (Post 0 DHT_DRIVER_SOURCE (adr_DhtHandle st))) st
               else st)
     in DhtGpioCbkSetup st)"

definition DhtTestSeq :: "app \<Rightarrow> app" where
  "DhtTestSeq st = DhtReadStart (DhtInit st)"

section \<open>Decoding\<close>

definition decode_step :: "u32 list \<Rightarrow> nat \<Rightarrow> u8 \<times> nat \<Rightarrow> u8 \<times> nat" where
  "decode_step res temp = (\<lambda>(r, bits). (if res ! bits > 100 then r OR push_bit temp 1 else r, bits + 1))"

lemma decode_fold:
  "\<exists>r'. fold (decode_step res) (rev [0..<n]) (r, b) = (r', b + n) \<and>
    (\<forall>k. bit r' k \<longleftrightarrow> bit r k \<or> k < n \<and> k < 8 \<and> res ! (b + (n - 1 - k)) > 100)"
proof (induction n arbitrary: r b)
  case 0
  then show ?case by simp
next
  case (Suc n)
  define r1 where "r1 = (if res ! b > 100 then r OR push_bit n 1 else r)"
  from Suc.IH [of r1 "b + 1"] obtain r' where
    f: "fold (decode_step res) (rev [0..<n]) (r1, b + 1) = (r', b + 1 + n)"
    and bits: "\<And>k. bit r' k \<longleftrightarrow> bit r1 k \<or> k < n \<and> k < 8 \<and> res ! (b + 1 + (n - 1 - k)) > 100"
    by blast
  have "decode_step res n (r, b) = (r1, b + 1)" by (simp add: decode_step_def r1_def)
  with f have "fold (decode_step res) (rev [0..<Suc n]) (r, b) = (r', b + Suc n)" by simp
  moreover have "bit r' k \<longleftrightarrow> bit r k \<or> k < Suc n \<and> k < 8 \<and> res ! (b + (Suc n - 1 - k)) > 100" for k
  proof (cases "k < n")
    case True
    then have "b + 1 + (n - 1 - k) = b + (Suc n - 1 - k)" by simp
    moreover have "bit r1 k = bit r k" using True by (simp add: r1_def bit_simps)
    ultimately show ?thesis using True by (simp add: bits)
  next
    case False
    then have "bit r1 k \<longleftrightarrow> bit r k \<or> k = n \<and> k < 8 \<and> res ! b > 100" by (auto simp: r1_def bit_simps)
    then show ?thesis using False by (auto simp: bits less_Suc_eq)
  qed
  ultimately show ?case by blast
qed

lemma bit_decode_byte: "bit (decode_byte res b) k \<longleftrightarrow> k < 8 \<and> res ! (b + (7 - k)) > 100"
proof -
  obtain r' where f: "fold (decode_step res) (rev [0..<8]) (0, b) = (r', b + 8)"
    and bits: "\<forall>k. bit r' k \<longleftrightarrow> bit (0 :: u8) k \<or> k < 8 \<and> k < 8 \<and> res ! (b + (8 - 1 - k)) > 100"
    using decode_fold [of res 8 0 b] by blast
  have "decode_byte res b = r'" using f unfolding decode_byte_def decode_step_def by (simp only: fst_conv)
  then show ?thesis using bits by simp
qed

lemma decode_result_eq: "decode_result res = map (\<lambda>i. decode_byte res (2 + 8 * i)) [0..<5]"
  by (simp add: decode_result_def upt_rec flip: numeral_2_eq_2)

text \<open>
  The sensor sends five bytes, each with its highest bit first, as the intervals from the third
  on: more than 100 microseconds for a one.
\<close>

definition bits_msb :: "u8 \<Rightarrow> bool list" where
  "bits_msb w = map (bit w) [7, 6, 5, 4, 3, 2, 1, 0]"

definition frame_of :: "u8 list \<Rightarrow> u32 list \<Rightarrow> bool" where
  "frame_of bs iv \<longleftrightarrow> length bs = 5 \<and> length iv = 42 \<and>
     map (\<lambda>x. x > 100) (drop 2 iv) = concat (map bits_msb bs)"

lemma concat_nth8:
  "\<forall>xs\<in>set xss. length xs = 8 \<Longrightarrow> i < length xss \<Longrightarrow> j < 8 \<Longrightarrow> concat xss ! (8 * i + j) = xss ! i ! j"
proof (induction xss arbitrary: i)
  case Nil
  then show ?case by simp
next
  case (Cons xs xss)
  then show ?case by (cases i) (auto simp: nth_append)
qed

lemma bits_msb_nth: "k < 8 \<Longrightarrow> bits_msb w ! (7 - k) = bit w k"
  by (auto simp: bits_msb_def less_Suc_eq numeral_eq_Suc)

lemma frame_bit:
  assumes "frame_of bs iv" "i < 5" "k < 8"
  shows "iv ! (2 + 8 * i + (7 - k)) > 100 \<longleftrightarrow> bit (bs ! i) k"
proof -
  have j: "8 * i + (7 - k) < 40" using assms(2,3) by simp
  have "concat (map bits_msb bs) ! (8 * i + (7 - k)) = map bits_msb bs ! i ! (7 - k)"
    using assms by (intro concat_nth8) (auto simp: frame_of_def bits_msb_def)
  also have "\<dots> = bit (bs ! i) k" using assms by (simp add: frame_of_def bits_msb_nth)
  finally have "map (\<lambda>x. x > 100) (drop 2 iv) ! (8 * i + (7 - k)) = bit (bs ! i) k"
    using assms(1) by (simp only: frame_of_def)
  moreover have "length iv = 42" using assms(1) by (simp add: frame_of_def)
  ultimately show ?thesis
    using j by (simp only: nth_map length_drop nth_drop add.assoc)
qed

lemma decode_frame:
  assumes "frame_of bs iv"
  shows "decode_result iv = bs"
proof (rule nth_equalityI)
  show "length (decode_result iv) = length bs" using assms by (simp add: decode_result_eq frame_of_def)
  fix i
  assume "i < length (decode_result iv)"
  then have i: "i < 5" by (simp add: decode_result_eq)
  have "decode_byte iv (2 + 8 * i) = bs ! i"
  proof (rule bit_word_eqI)
    fix k
    assume "k < LENGTH(8)"
    then have "k < 8" by simp
    then show "bit (decode_byte iv (2 + 8 * i)) k = bit (bs ! i) k"
      unfolding bit_decode_byte using frame_bit [OF assms i] by blast
  qed
  then show "decode_result iv ! i = bs ! i" using i by (simp add: decode_result_eq)
qed

section \<open>A whole frame\<close>

primrec dht_edges :: "nat \<Rightarrow> app \<Rightarrow> app option" where
  "dht_edges 0 st = Some st"
| "dht_edges (Suc n) st = do { st \<leftarrow> dht_edges n st; DhtGpioCbk st }"

text \<open>
  The counter is read twice in each interrupt: \<open>a\<close> for the interval that ends, \<open>b\<close> for the start
  of the next.
\<close>

fun intervals :: "u32 \<Rightarrow> (u32 \<times> u32) list \<Rightarrow> u32 list" where
  "intervals t [] = []"
| "intervals t ((a, b) # ts) = (a - t) # intervals b ts"

fun clock_reads :: "(u32 \<times> u32) list \<Rightarrow> u32 list" where
  "clock_reads [] = []"
| "clock_reads ((a, b) # ts) = a # b # clock_reads ts"

definition edge_pending :: "mach \<Rightarrow> bool" where
  "edge_pending s \<longleftrightarrow> still (Reg (GPIO_BASE + GPIO_STATUS_ADDRESS)) s \<and>
     peri s (GPIO_BASE + GPIO_STATUS_ADDRESS) AND BIT DHT_PIN \<noteq> 0"

lemma length_intervals [simp]: "length (intervals t ts) = length ts"
  by (induction t ts rule: intervals.induct) simp_all

lemma WDEW_feed:
  assumes "feed s (Reg WDEW_ADDR) = v # vs"
  shows "WDEW_NOW s = (v, s\<lparr>cur := (cur s)(Reg WDEW_ADDR := v), feed := (feed s)(Reg WDEW_ADDR := vs)\<rparr>)"
  using assms by (simp add: WDEW_NOW_def READ_PERI_REG_def sample_feed)

lemma addr_neq [simp]: "WDEW_ADDR \<noteq> GPIO_BASE + GPIO_STATUS_ADDRESS"
    "GPIO_BASE + GPIO_STATUS_ADDRESS \<noteq> GPIO_BASE + GPIO_STATUS_W1TC_ADDRESS"
    "WDEW_ADDR \<noteq> GPIO_BASE + GPIO_STATUS_W1TC_ADDRESS" "GPIO_STATUS_ADDRESS \<noteq> GPIO_STATUS_W1TC_ADDRESS"
    "GPIO_BASE + GPIO_STATUS_ADDRESS \<noteq> WDEW_ADDR" "GPIO_BASE + GPIO_STATUS_W1TC_ADDRESS \<noteq> WDEW_ADDR"
  by (simp_all add: WDEW_ADDR_def reg_simps)

lemma edge_step:
  assumes "edge_pending (hw st)" "feed (hw st) (Reg WDEW_ADDR) = a # b # f"
    and "DhtResultIdx st = of_nat n" "n < 41" "length (DhtResult st) = 42"
  shows "\<exists>st'. DhtGpioCbk st = Some st' \<and> edge_pending (hw st') \<and> feed (hw st') (Reg WDEW_ADDR) = f \<and>
    DhtResultIdx st' = of_nat (Suc n) \<and> DhtResult st' = (DhtResult st)[n := a - DhtTimeOffset st] \<and>
    DhtTimeOffset st' = b \<and> posts (hw st') = posts (hw st) \<and> adr_DhtHandle st' = adr_DhtHandle st"
proof -
  have u: "unat (of_nat n :: u8) = n" "unat (of_nat (Suc n) :: u8) = Suc n"
    using assms(4) by (intro unat_of_nat_small; simp)+
  then have le: "\<not> (1 + of_nat n :: u8) > 41"
    using assms(4) by (simp add: word_less_nat_alt take_bit_eq_mod)
  show ?thesis
    using assms u le
    by (simp add: DhtGpioCbk_def GPIO_REG_READ_def GPIO_REG_WRITE_def edge_pending_def WDEW_feed still_def Let_def add.commute
        cong: if_cong)
qed

text \<open>The sum the code compares is taken in \<open>int\<close>, not modulo 256.\<close>

definition checksum_ok :: "u8 list \<Rightarrow> bool" where
  "checksum_ok bs \<longleftrightarrow> uint (bs ! 0) + uint (bs ! 1) + uint (bs ! 2) + uint (bs ! 3) = uint (bs ! 4)"

lemma DhtProcess_effect:
  fixes st :: app
  defines "bs \<equiv> decode_result (DhtResult st)"
  shows "posts (hw (DhtProcess st)) = posts (hw st) @ (if checksum_ok bs then [] else [Post 0 DHT_DRIVER_SOURCE (adr_DhtHandle st)])"
    "DhtTemp (DhtHandle (DhtProcess st)) = dht_temp (raw16 (bs ! 2) (bs ! 3))"
    "DhtHum (DhtHandle (DhtProcess st)) = dht_hum (raw16 (bs ! 0) (bs ! 1))"
    "DhtResult (DhtProcess st) = DhtResult st" "adr_DhtHandle (DhtProcess st) = adr_DhtHandle st"
    "feed (hw (DhtProcess st)) = feed (hw st)" "cur (hw (DhtProcess st)) = cur (hw st)"
    "DhtResultIdx (DhtProcess st) = DhtResultIdx st"
  by (simp_all add: DhtProcess_def Let_def say_def checksum_ok_def bs_def)

lemma edge_last:
  assumes "edge_pending (hw st)" "feed (hw st) (Reg WDEW_ADDR) = a # b # f"
    and "DhtResultIdx st = 41" "length (DhtResult st) = 42"
    and iv: "iv = (DhtResult st)[41 := a - DhtTimeOffset st]" and "decode_result iv = bs"
  shows "\<exists>st'. DhtGpioCbk st = Some st' \<and> DhtResult st' = iv \<and> DhtResultIdx st' = 42 \<and>
    state (DhtHandle st') = COMPL \<and> DhtTemp (DhtHandle st') = dht_temp (raw16 (bs ! 2) (bs ! 3)) \<and>
    DhtHum (DhtHandle st') = dht_hum (raw16 (bs ! 0) (bs ! 1)) \<and>
    pin_intr (of_nat DHT_PIN) (hw st') = GPIO_PIN_INTR_DISABLE \<and> \<not> armed T_DhtTimer (hw st') \<and>
    posts (hw st') = posts (hw st) @
      (if checksum_ok bs then [] else [Post 0 DHT_DRIVER_SOURCE (adr_DhtHandle st)]) @
      [Post 0 DHT_DRIVER_SOURCE (adr_DhtHandle st)]"
  using assms
  by (simp add: DhtGpioCbk_def GPIO_REG_READ_def GPIO_REG_WRITE_def edge_pending_def WDEW_feed still_def Let_def
      DhtProcess_effect)

lemma length_dht_list: "length ts = 42 \<Longrightarrow> \<exists>us a b. ts = us @ [(a, b)] \<and> length us = 41"
  by (cases ts rule: rev_cases) auto

lemma intervals_append: "intervals t (us @ [(a, b)]) = intervals t us @ [a - (if us = [] then t else snd (last us))]"
  by (induction t us rule: intervals.induct) simp_all

lemma clock_reads_append: "clock_reads (us @ vs) = clock_reads us @ clock_reads vs"
  by (induction us rule: clock_reads.induct) simp_all

text \<open>The first \<open>n\<close> edges fill the first \<open>n\<close> entries.\<close>

lemma edges_fill:
  assumes "edge_pending (hw st)" "feed (hw st) (Reg WDEW_ADDR) = clock_reads us @ f"
    and "DhtResultIdx st = 0" "length (DhtResult st) = 42" "length us \<le> 41"
  shows "\<exists>st'. dht_edges (length us) st = Some st' \<and> edge_pending (hw st') \<and> feed (hw st') (Reg WDEW_ADDR) = f \<and>
    DhtResultIdx st' = of_nat (length us) \<and>
    DhtResult st' = intervals (DhtTimeOffset st) us @ drop (length us) (DhtResult st) \<and>
    DhtTimeOffset st' = (if us = [] then DhtTimeOffset st else snd (last us)) \<and>
    posts (hw st') = posts (hw st) \<and> adr_DhtHandle st' = adr_DhtHandle st"
  using assms
proof (induction us arbitrary: f rule: rev_induct)
  case Nil
  then show ?case by simp
next
  case (snoc p us)
  obtain a b where p: "p = (a, b)" by (cases p)
  from snoc.IH [of "a # b # f"] snoc.prems obtain st1 where
    e: "dht_edges (length us) st = Some st1" "edge_pending (hw st1)" "feed (hw st1) (Reg WDEW_ADDR) = a # b # f"
      "DhtResultIdx st1 = of_nat (length us)"
    and r: "DhtResult st1 = intervals (DhtTimeOffset st) us @ drop (length us) (DhtResult st)"
      "DhtTimeOffset st1 = (if us = [] then DhtTimeOffset st else snd (last us))"
      "posts (hw st1) = posts (hw st)" "adr_DhtHandle st1 = adr_DhtHandle st"
    by (auto simp: p clock_reads_append)
  have len: "length (DhtResult st1) = 42" "length us < 41" using r(1) snoc.prems by simp_all
  from edge_step [OF e(2-4) len(2,1)] obtain st2 where
    s: "DhtGpioCbk st1 = Some st2" "edge_pending (hw st2)" "feed (hw st2) (Reg WDEW_ADDR) = f"
      "DhtResultIdx st2 = of_nat (Suc (length us))" "DhtResult st2 = (DhtResult st1)[length us := a - DhtTimeOffset st1]"
      "DhtTimeOffset st2 = b" "posts (hw st2) = posts (hw st1)" "adr_DhtHandle st2 = adr_DhtHandle st1"
    by blast
  have "drop (length us) (DhtResult st) = DhtResult st ! length us # drop (Suc (length us)) (DhtResult st)"
    using snoc.prems(4) len(2) by (simp add: Cons_nth_drop_Suc)
  then have "DhtResult st2 = intervals (DhtTimeOffset st) (us @ [p]) @ drop (length (us @ [p])) (DhtResult st)"
    using r s(5) by (simp add: p intervals_append list_update_append)
  then show ?case using e(1) r(3,4) s by (simp add: p)
qed

lemma edges_decode:
  assumes "edge_pending (hw st)" "feed (hw st) (Reg WDEW_ADDR) = clock_reads ts" "length ts = 42"
    and "DhtResultIdx st = 0" "length (DhtResult st) = 42" "frame_of bs (intervals (DhtTimeOffset st) ts)"
  shows "\<exists>st'. dht_edges 42 st = Some st' \<and> DhtResult st' = intervals (DhtTimeOffset st) ts \<and>
    DhtResultIdx st' = 42 \<and>
    state (DhtHandle st') = COMPL \<and> DhtTemp (DhtHandle st') = dht_temp (raw16 (bs ! 2) (bs ! 3)) \<and>
    DhtHum (DhtHandle st') = dht_hum (raw16 (bs ! 0) (bs ! 1)) \<and>
    pin_intr (of_nat DHT_PIN) (hw st') = GPIO_PIN_INTR_DISABLE \<and> \<not> armed T_DhtTimer (hw st') \<and>
    posts (hw st') = posts (hw st) @
      replicate (if checksum_ok bs then 1 else 2) (Post 0 DHT_DRIVER_SOURCE (adr_DhtHandle st))"
proof -
  from length_dht_list [OF assms(3)] obtain us a b where ts: "ts = us @ [(a, b)]" "length us = 41" by blast
  have "feed (hw st) (Reg WDEW_ADDR) = clock_reads us @ [a, b]" using assms(2) ts by (simp add: clock_reads_append)
  from edges_fill [OF assms(1) this assms(4,5)] ts(2) obtain st1 where
    e: "dht_edges 41 st = Some st1" "edge_pending (hw st1)" "feed (hw st1) (Reg WDEW_ADDR) = [a, b]" "DhtResultIdx st1 = 41"
    and r: "DhtResult st1 = intervals (DhtTimeOffset st) us @ drop 41 (DhtResult st)"
      "DhtTimeOffset st1 = (if us = [] then DhtTimeOffset st else snd (last us))"
      "posts (hw st1) = posts (hw st)" "adr_DhtHandle st1 = adr_DhtHandle st"
    by auto
  have "drop 41 (DhtResult st) = [DhtResult st ! 41]"
    using assms(5) Cons_nth_drop_Suc [of 41 "DhtResult st"] by simp
  then have iv: "intervals (DhtTimeOffset st) ts = (DhtResult st1)[41 := a - DhtTimeOffset st1]"
    and len: "length (DhtResult st1) = 42"
    using r(1,2) ts by (simp_all add: intervals_append list_update_append)
  from edge_last [OF e(2,3,4) len iv decode_frame [OF assms(6)]] obtain st' where
    l: "DhtGpioCbk st1 = Some st'" "DhtResult st' = intervals (DhtTimeOffset st) ts" "DhtResultIdx st' = 42" "state (DhtHandle st') = COMPL"
      "DhtTemp (DhtHandle st') = dht_temp (raw16 (bs ! 2) (bs ! 3))" "DhtHum (DhtHandle st') = dht_hum (raw16 (bs ! 0) (bs ! 1))"
      "pin_intr (of_nat DHT_PIN) (hw st') = GPIO_PIN_INTR_DISABLE" "\<not> armed T_DhtTimer (hw st')"
      "posts (hw st') = posts (hw st1) @ (if checksum_ok bs then [] else [Post 0 DHT_DRIVER_SOURCE (adr_DhtHandle st1)]) @
        [Post 0 DHT_DRIVER_SOURCE (adr_DhtHandle st1)]"
    by blast
  have "dht_edges 42 st = Some st'"
    using e(1) l(1) dht_edges.simps(2) [of 41 st] by simp
  then show ?thesis using l r by (auto simp: numeral_2_eq_2)
qed

lemma edge_length: "DhtGpioCbk st = Some st' \<Longrightarrow> length (DhtResult st') = length (DhtResult st)"
  by (auto simp: DhtGpioCbk_def Let_def DhtProcess_effect split: prod.splits if_splits)

lemma dht_edges_length: "dht_edges n st = Some st' \<Longrightarrow> length (DhtResult st') = length (DhtResult st)"
  by (induction n arbitrary: st') (auto simp: bind_eq_Some_conv dest: edge_length)

lemma edge_adr: "DhtGpioCbk st = Some st' \<Longrightarrow> adr_DhtHandle st' = adr_DhtHandle st"
  by (auto simp: DhtGpioCbk_def Let_def DhtProcess_effect split: prod.splits if_splits)

lemma dht_edges_adr: "dht_edges n st = Some st' \<Longrightarrow> adr_DhtHandle st' = adr_DhtHandle st"
  by (induction n arbitrary: st') (auto simp: bind_eq_Some_conv dest: edge_adr)

section \<open>The supervising timer\<close>

lemma setup_effect:
  "DhtResultIdx (DhtGpioCbkSetup st) = 0" "DhtResult (DhtGpioCbkSetup st) = replicate 42 0"
  "DhtTimeout (DhtGpioCbkSetup st) = DhtTimeout st" "DhtHandle (DhtGpioCbkSetup st) = DhtHandle st"
  "adr_DhtHandle (DhtGpioCbkSetup st) = adr_DhtHandle st" "posts (hw (DhtGpioCbkSetup st)) = posts (hw st)"
  "armed t (hw (DhtGpioCbkSetup st)) = armed t (hw st)"
  "pin_intr (of_nat DHT_PIN) (hw (DhtGpioCbkSetup st)) = GPIO_PIN_INTR_NEGEDGE"
  by (auto simp: DhtGpioCbkSetup_def Let_def ETS_INTR_ENABLE_def GPIO_REG_WRITE_def WDEW_history split: prod.split)

lemma timer_cbk_effect:
  fixes st :: app
  defines "late \<equiv> DHT_TIMEOUT < DhtTimeout st + 1"
  shows "DhtTimeout (DhtTimerCbk st) = DhtTimeout st + 1"
    "posts (hw (DhtTimerCbk st)) = posts (hw st) @ (if late then [Post 0 DHT_DRIVER_SOURCE (adr_DhtHandle st)] else [])"
    "armed T_DhtTimer (hw (DhtTimerCbk st)) \<longleftrightarrow> armed T_DhtTimer (hw st) \<and> \<not> late"
    "state (DhtHandle (DhtTimerCbk st)) = (if late then ERR else state (DhtHandle st))"
    "adr_DhtHandle (DhtTimerCbk st) = adr_DhtHandle st"
    "DhtResultIdx (DhtTimerCbk st) = 0" "DhtResult (DhtTimerCbk st) = replicate 42 0"
    "pin_intr (of_nat DHT_PIN) (hw (DhtTimerCbk st)) = GPIO_PIN_INTR_NEGEDGE"
  by (simp_all add: DhtTimerCbk_def Let_def setup_effect late_def say_def)

lemma test_seq_effect:
  "DhtTimeout (DhtTestSeq st) = 0" "posts (hw (DhtTestSeq st)) = posts (hw st)"
  "armed T_DhtTimer (hw (DhtTestSeq st))" "state (DhtHandle (DhtTestSeq st)) = PREP"
  "adr_DhtHandle (DhtTestSeq st) = adr_DhtHandle st"
proof -
  show "DhtTimeout (DhtTestSeq st) = 0" "posts (hw (DhtTestSeq st)) = posts (hw st)"
    "armed T_DhtTimer (hw (DhtTestSeq st))" "state (DhtHandle (DhtTestSeq st)) = PREP"
    "adr_DhtHandle (DhtTestSeq st) = adr_DhtHandle st"
    by (simp_all add: DhtTestSeq_def DhtReadStart_def DhtInit_def Let_def say_def)
qed

text \<open>A reading after whose start the sensor stays silent for \<open>n\<close> expiries of the timer.\<close>

definition dht_silent :: "nat \<Rightarrow> app \<Rightarrow> app" where
  "dht_silent n st = (DhtTimerCbk ^^ n) (DhtTestSeq st)"

abbreviation dht_report :: "app \<Rightarrow> event" where
  "dht_report st \<equiv> Post 0 DHT_DRIVER_SOURCE (adr_DhtHandle st)"

interpretation dht: supervised_reading DhtTestSeq DhtTimerCbk DhtTimeout DHT_TIMEOUT hw T_DhtTimer
  "\<lambda>st. state (DhtHandle st) = PREP" "\<lambda>st. state (DhtHandle st) = ERR" dht_report
  by unfold_locales (simp_all add: test_seq_effect timer_cbk_effect DHT_TIMEOUT_def)

lemma dht_limit: "unat DHT_TIMEOUT = 10" "Suc (unat DHT_TIMEOUT) = 11"
  by (simp_all add: DHT_TIMEOUT_def)

lemmas dht_in_time = dht.in_time [unfolded dht_limit, folded dht_silent_def]
lemmas dht_too_late = dht.too_late [unfolded dht_limit, folded dht_silent_def]

section \<open>Properties\<close>

text \<open>
  C7. DHT22, functional: when 42 falling edges arrive whose intervals carry the five bytes
  \<open>bs\<close>, the interrupt handler stamps them without leaving its array, and after the last one the
  handler object holds the temperature and the humidity of \<open>bs\<close> and the state COMPL, the pin
  interrupt is off, the timer is disarmed and the main task is posted: once, or twice when the
  sum of the bytes differs from the checksum. In that case too the state the task finds is COMPL.
\<close>

theorem dht_frame_decodes:
  assumes "edge_pending (hw st)" "feed (hw st) (Reg WDEW_ADDR) = clock_reads ts" "length ts = 42"
    and "DhtResultIdx st = 0" "length (DhtResult st) = 42" "frame_of bs (intervals (DhtTimeOffset st) ts)"
  shows "\<exists>st'. dht_edges 42 st = Some st' \<and> DhtResult st' = intervals (DhtTimeOffset st) ts \<and>
    state (DhtHandle st') = COMPL \<and> DhtTemp (DhtHandle st') = dht_temp (raw16 (bs ! 2) (bs ! 3)) \<and>
    DhtHum (DhtHandle st') = dht_hum (raw16 (bs ! 0) (bs ! 1)) \<and>
    pin_intr (of_nat DHT_PIN) (hw st') = GPIO_PIN_INTR_DISABLE \<and> \<not> armed T_DhtTimer (hw st') \<and>
    posts (hw st') = posts (hw st) @
      replicate (if checksum_ok bs then 1 else 2) (Post 0 DHT_DRIVER_SOURCE (adr_DhtHandle st))"
  using edges_decode [OF assms] by blast

definition example_times :: "(u32 \<times> u32) list" where
  "example_times = (80, 0) # (160, 0) # map (\<lambda>b. (if b then 120 else 80, 0))
     (concat (map bits_msb [2, 140, 1, 95, 238]))"

definition dht_example :: app where
  "dht_example = app0\<lparr>hw := mach0\<lparr>
     cur := (cur mach0)(Reg (GPIO_BASE + GPIO_STATUS_ADDRESS) := BIT DHT_PIN),
     feed := (feed mach0)(Reg WDEW_ADDR := clock_reads example_times)\<rparr>\<rparr>"

lemma intervals_zero: "intervals 0 (map (\<lambda>b. (g b, 0)) bs) = map g bs"
  by (induction bs) simp_all

lemma dht_example_hyps:
  "edge_pending (hw dht_example)" "feed (hw dht_example) (Reg WDEW_ADDR) = clock_reads example_times"
  "length example_times = 42" "DhtResultIdx dht_example = 0" "length (DhtResult dht_example) = 42"
  "frame_of [2, 140, 1, 95, 238] (intervals (DhtTimeOffset dht_example) example_times)"
proof -
  show "edge_pending (hw dht_example)"
    by (simp add: edge_pending_def dht_example_def still_def DHT_PIN_def BIT_def)
  show "feed (hw dht_example) (Reg WDEW_ADDR) = clock_reads example_times" by (simp add: dht_example_def)
  show "length example_times = 42" by (simp add: example_times_def bits_msb_def)
  show "DhtResultIdx dht_example = 0" "length (DhtResult dht_example) = 42" by (simp_all add: dht_example_def app0_def)
  have "map (\<lambda>x. x > (100 :: u32)) (map (\<lambda>b. if b then 120 else 80) bs) = bs" for bs
    by (simp add: comp_def map_idI)
  then have "frame_of [2, 140, 1, 95, 238] (intervals 0 example_times)"
    by (simp only: frame_of_def example_times_def intervals.simps intervals_zero) (simp add: bits_msb_def)
  moreover have "DhtTimeOffset dht_example = 0" by (simp add: dht_example_def app0_def)
  ultimately show "frame_of [2, 140, 1, 95, 238] (intervals (DhtTimeOffset dht_example) example_times)" by simp
qed

theorem dht_frame_decodes_witness:
  "\<exists>st'. dht_edges 42 dht_example = Some st' \<and> state (DhtHandle st') = COMPL \<and>
    DhtTemp (DhtHandle st') = dht_temp (raw16 1 95) \<and> DhtHum (DhtHandle st') = dht_hum (raw16 2 140)"
  using dht_frame_decodes [OF dht_example_hyps] by auto

text \<open>
  C25. DHT22, termination: a reading that gets no answer ends. After the start sequence the timer
  keeps the receiver ready through ten expiries; the eleventh reports ERR to the main task once
  and stops the timer.
\<close>

theorem dht_times_out:
  assumes "n \<le> 10"
  shows "armed T_DhtTimer (hw (dht_silent n st)) \<and> posts (hw (dht_silent n st)) = posts (hw st) \<and>
    state (DhtHandle (dht_silent n st)) = PREP \<and>
    \<not> armed T_DhtTimer (hw (dht_silent 11 st)) \<and> state (DhtHandle (dht_silent 11 st)) = ERR \<and>
    posts (hw (dht_silent 11 st)) = posts (hw st) @ [Post 0 DHT_DRIVER_SOURCE (adr_DhtHandle st)]"
  using dht_in_time [OF assms, of st] dht_too_late [of st] by simp

theorem dht_times_out_witness:
  "state (DhtHandle (dht_silent 11 app0)) = ERR \<and> \<not> armed T_DhtTimer (hw (dht_silent 11 app0))"
  using dht_times_out [of 0 app0] by simp

end
