(* ===== verification/Hcsr04.thy ===== *)
theory Hcsr04
  imports Dht
begin

text \<open>
  The HC-SR04 ultrasonic sensor (user/hcsr04.c) and the common GPIO interrupt handler
  (user/uni-sensor.c): the trigger pulse, the measurement of the echo pulse by two interrupts
  and the distance it stands for.
\<close>

section \<open>Operations\<close>

definition ultrasensorInit :: "app \<Rightarrow> app" where
  "ultrasensorInit st =
    (let st = on (GPIO_OUTPUT_SET HC_OUTPUT (of_nat HC_INPUT)) st;
         st = on (GPIO_DIS_OUTPUT HC_INPUT) st;
         st = on (PIN_FUNC_SELECT PERIPHS_IO_MUX_GPIO4_U FUNC_GPIO4) st;
         st = on (emit (IsrAttach ETS_GPIO_INUM C_GpioUniCbk)) st;
         st = on (emit (GpioRegSet (GPIO_PIN_ADDR (of_nat HC_INPUT)) gpio_pin_input_conf)) st;
         st = on (GPIO_REG_WRITE GPIO_STATUS_W1TC_ADDRESS (BIT HC_INPUT)) st;
         st = on (emit (PinIntr (of_nat HC_INPUT) GPIO_PIN_INTR_POSEDGE)) st;
         st = on (ETS_INTR_ENABLE ETS_GPIO_INUM) st;
         st = st\<lparr>Hcsr04 := (Hcsr04 st)\<lparr>hc_state := MEAS\<rparr>\<rparr>
     in st\<lparr>UltraSensSts := 0\<rparr>)"

definition ultrasensorStartMeasure :: "app \<Rightarrow> app" where
  "ultrasensorStartMeasure st =
    (let st = on (PIN_FUNC_SELECT PERIPHS_IO_MUX_MTCK_U FUNC_GPIO13) st;
         st = on (GPIO_OUTPUT_SET HC_OUTPUT 0) st;
         st = on (emit (DelayUs 100)) st;
         st = on (GPIO_OUTPUT_SET HC_OUTPUT 1) st;
         st = on (emit (DelayUs 10)) st
     in on (GPIO_OUTPUT_SET HC_OUTPUT 0) st)"

text \<open>\<open>(float) UltraSensorResult*0.034 /2.0\<close>, stored in a float.\<close>

definition hc_distance :: "u32 \<Rightarrow> rat" where
  "hc_distance raw = fl32 (fl64 (fl64 (fl32 (of_nat (unat raw)) * fl64 (34 / 1000)) / 2))"

definition hcsr04GpioIntCbk :: "app \<Rightarrow> app" where
  "hcsr04GpioIntCbk st =
    (case GPIO_REG_READ GPIO_STATUS_ADDRESS (hw st) of
      (gpio_status, s) \<Rightarrow>
        let st = st\<lparr>hw := s\<rparr>
        in if gpio_status AND BIT HC_INPUT \<noteq> 0
           then if UltraSensSts st = 0
                then case WDEW_NOW (hw st) of (now, s) \<Rightarrow>
                  let st = st\<lparr>TimerOffset := now, hw := s\<rparr>;
                      st = on (emit (PinIntr (of_nat HC_INPUT) GPIO_PIN_INTR_NEGEDGE)) st;
                      st = on (GPIO_REG_WRITE GPIO_STATUS_W1TC_ADDRESS (gpio_status AND BIT HC_INPUT)) st
                  in st\<lparr>UltraSensSts := UltraSensSts st + 1\<rparr>
                else if UltraSensSts st = 1
                then case WDEW_NOW (hw st) of (now, s) \<Rightarrow>
                  let st = st\<lparr>UltraSensorResult := now - TimerOffset st, hw := s\<rparr>;
                      st = on (emit (PinIntr (of_nat HC_INPUT) GPIO_PIN_INTR_DISABLE)) st;
                      st = on (GPIO_REG_WRITE GPIO_STATUS_W1TC_ADDRESS (gpio_status AND BIT HC_INPUT)) st;
                      st = st\<lparr>Hcsr04 := (Hcsr04 st)\<lparr>hc_state := COMPL\<rparr>\<rparr>;
                      st = st\<lparr>Hcsr04 := (Hcsr04 st)\<lparr>result := hc_distance (UltraSensorResult st)\<rparr>\<rparr>;
                      st = say ''Finished HCSR04 measureument raw: %d'' [sint (UltraSensorResult st)] st
                  in on (emit (Post 0 HCSR04_DRIVER_SOURCE (adr_Hcsr04 st))) st
                else st
           else st)"

definition Hcsr04Start :: "app \<Rightarrow> app" where
  "Hcsr04Start st = ultrasensorStartMeasure (ultrasensorInit (say ''Starting HCSR04 measurement'' [] st))"

definition GpioUniCbk :: "app \<Rightarrow> app" where
  "GpioUniCbk st = hcsr04GpioIntCbk st"

section \<open>Laws\<close>

text \<open>How relative errors add up along a chain of roundings.\<close>

lemma fl_chain:
  assumes "\<bar>a - b\<bar> \<le> b * e" "0 \<le> e" "1 / 2 ^ 100 \<le> a" "p \<le> 53"
  shows "\<bar>fl p a - b\<bar> \<le> b * (e + (1 + e) / 2 ^ p)"
proof -
  have "\<bar>fl p a - a\<bar> \<le> a / 2 ^ p" using fl_error [OF assms(3,4)] .
  moreover have "a \<le> b * (1 + e)" using assms(1) by (simp add: abs_le_iff field_simps)
  then have "a / 2 ^ p \<le> b * (1 + e) / 2 ^ p" by (intro divide_right_mono) simp_all
  ultimately have "\<bar>fl p a - b\<bar> \<le> b * (1 + e) / 2 ^ p + b * e" using assms(1) by linarith
  then show ?thesis by (simp add: field_simps)
qed

definition echo_pending :: "mach \<Rightarrow> bool" where
  "echo_pending s \<longleftrightarrow> still (Reg (GPIO_BASE + GPIO_STATUS_ADDRESS)) s \<and>
     peri s (GPIO_BASE + GPIO_STATUS_ADDRESS) AND BIT HC_INPUT \<noteq> 0"

lemma start_effect:
  "UltraSensSts (Hcsr04Start st) = 0" "adr_Hcsr04 (Hcsr04Start st) = adr_Hcsr04 st"
  "pin_intr (of_nat HC_INPUT) (hw (Hcsr04Start st)) = GPIO_PIN_INTR_POSEDGE"
  by (simp_all add: Hcsr04Start_def ultrasensorInit_def ultrasensorStartMeasure_def Let_def say_def)

text \<open>The first edge starts the measurement, the second ends it.\<close>

lemma echo_rise:
  assumes "echo_pending (hw st)" "feed (hw st) (Reg WDEW_ADDR) = a # f" "UltraSensSts st = 0"
  shows "echo_pending (hw (GpioUniCbk st))" "feed (hw (GpioUniCbk st)) (Reg WDEW_ADDR) = f"
    "UltraSensSts (GpioUniCbk st) = 1" "TimerOffset (GpioUniCbk st) = a"
    "pin_intr (of_nat HC_INPUT) (hw (GpioUniCbk st)) = GPIO_PIN_INTR_NEGEDGE"
    "posts (hw (GpioUniCbk st)) = posts (hw st)" "adr_Hcsr04 (GpioUniCbk st) = adr_Hcsr04 st"
  using assms
  by (simp_all add: GpioUniCbk_def hcsr04GpioIntCbk_def GPIO_REG_READ_def GPIO_REG_WRITE_def echo_pending_def
      WDEW_feed still_def Let_def)

lemma echo_fall:
  assumes "echo_pending (hw st)" "feed (hw st) (Reg WDEW_ADDR) = b # f" "UltraSensSts st = 1"
  shows "UltraSensorResult (GpioUniCbk st) = b - TimerOffset st" "hc_state (Hcsr04 (GpioUniCbk st)) = COMPL"
    "result (Hcsr04 (GpioUniCbk st)) = hc_distance (b - TimerOffset st)"
    "pin_intr (of_nat HC_INPUT) (hw (GpioUniCbk st)) = GPIO_PIN_INTR_DISABLE"
    "posts (hw (GpioUniCbk st)) = posts (hw st) @ [Post 0 HCSR04_DRIVER_SOURCE (adr_Hcsr04 st)]"
  using assms
  by (simp_all add: GpioUniCbk_def hcsr04GpioIntCbk_def GPIO_REG_READ_def GPIO_REG_WRITE_def echo_pending_def
      WDEW_feed still_def Let_def say_def)

text \<open>
  An echo sensor, as an interface: one interrupt routine serves both edges and remembers which it
  is waiting for. The two applications have a driver each.
\<close>

locale echo_sensor =
  fixes start :: "'s \<Rightarrow> 's" and edge :: "'s \<Rightarrow> 's" and sts :: "'s \<Rightarrow> u8" and since :: "'s \<Rightarrow> u32"
    and raw :: "'s \<Rightarrow> u32" and world :: "'s \<Rightarrow> mach" and report :: "'s \<Rightarrow> event"
  assumes start_law: "sts (start s) = 0" "pin_intr (of_nat HC_INPUT) (world (start s)) = GPIO_PIN_INTR_POSEDGE"
      "report (start s) = report s"
    and rise_law: "\<lbrakk>echo_pending (world s); feed (world s) (Reg WDEW_ADDR) = a # f; sts s = 0\<rbrakk> \<Longrightarrow>
      echo_pending (world (edge s)) \<and> feed (world (edge s)) (Reg WDEW_ADDR) = f \<and> sts (edge s) = 1 \<and>
      since (edge s) = a \<and> pin_intr (of_nat HC_INPUT) (world (edge s)) = GPIO_PIN_INTR_NEGEDGE \<and>
      posts (world (edge s)) = posts (world s) \<and> report (edge s) = report s"
    and fall_law: "\<lbrakk>echo_pending (world s); feed (world s) (Reg WDEW_ADDR) = b # f; sts s = 1\<rbrakk> \<Longrightarrow>
      raw (edge s) = b - since s \<and> pin_intr (of_nat HC_INPUT) (world (edge s)) = GPIO_PIN_INTR_DISABLE \<and>
      posts (world (edge s)) = posts (world s) @ [report s]"
begin

lemma measured:
  assumes "echo_pending (world (start s))" "feed (world (start s)) (Reg WDEW_ADDR) = a # b # f"
  shows "raw (edge (edge (start s))) = b - a" "posts (world (edge (edge (start s)))) = posts (world (start s)) @ [report s]"
    "pin_intr (of_nat HC_INPUT) (world (edge (edge (start s)))) = GPIO_PIN_INTR_DISABLE"
    "pin_intr (of_nat HC_INPUT) (world (edge (start s))) = GPIO_PIN_INTR_NEGEDGE"
  using rise_law [OF assms start_law(1)] fall_law [of "edge (start s)" b f] start_law(3) by auto

end

interpretation hc: echo_sensor Hcsr04Start GpioUniCbk UltraSensSts TimerOffset UltraSensorResult hw
  "\<lambda>st. Post 0 HCSR04_DRIVER_SOURCE (adr_Hcsr04 st)"
  by unfold_locales (simp_all add: start_effect echo_rise echo_fall)

section \<open>Accuracy of the distance\<close>

lemma rel_mult:
  fixes a b c d e f :: rat
  assumes "\<bar>a - b\<bar> \<le> b * e" "\<bar>c - d\<bar> \<le> d * f" "0 \<le> b" "0 \<le> d" "0 \<le> e" "0 \<le> f"
  shows "\<bar>a * c - b * d\<bar> \<le> (b * d) * (e + f + e * f)"
proof -
  have "a * c - b * d = (a - b) * (c - d) + (a - b) * d + b * (c - d)" by (simp add: algebra_simps)
  then have "\<bar>a * c - b * d\<bar> \<le> \<bar>a - b\<bar> * \<bar>c - d\<bar> + \<bar>a - b\<bar> * d + b * \<bar>c - d\<bar>"
    using assms(3,4) abs_triangle_ineq [of "(a - b) * (c - d) + (a - b) * d" "b * (c - d)"]
      abs_triangle_ineq [of "(a - b) * (c - d)" "(a - b) * d"]
    by (simp add: abs_mult)
  also have "\<dots> \<le> (b * e) * (d * f) + (b * e) * d + b * (d * f)"
    using assms by (intro add_mono mult_mono mult_left_mono mult_right_mono) simp_all
  finally show ?thesis by (simp add: algebra_simps)
qed

lemma rel_lower:
  fixes a b e :: rat
  assumes "\<bar>a - b\<bar> \<le> b * e" "1 / 1000 \<le> b" "e \<le> 1 / 2"
  shows "1 / 2 ^ 100 \<le> a"
proof -
  have "b * e \<le> b * (1 / 2)" using assms by (intro mult_left_mono) simp_all
  moreover have "b - a \<le> b * e" using assms(1) by (simp add: abs_le_iff)
  ultimately have "1 / 2000 \<le> a" using assms(2) by linarith
  moreover have "(1 :: rat) / 2 ^ 100 \<le> 1 / 2000" by simp
  ultimately show ?thesis by linarith
qed

lemma rel_half: "\<bar>a - b\<bar> \<le> b * e \<Longrightarrow> \<bar>a / 2 - b / 2\<bar> \<le> b / 2 * (e :: rat)"
  by (simp add: abs_le_iff field_simps)

lemma hc_distance_error:
  "\<bar>hc_distance raw - of_nat (unat raw) * 17 / 1000\<bar> \<le> of_nat (unat raw) * 17 / 1000 / 2 ^ 22"
proof (cases "raw = 0")
  case True
  then show ?thesis by (simp add: hc_distance_def fl32_def fl64_def fl_def)
next
  case False
  define r :: rat where "r = of_nat (unat raw)"
  have "1 \<le> unat raw" using False by (simp add: Suc_le_eq unat_gt_0)
  then have r: "1 \<le> r" unfolding r_def by (metis of_nat_1 of_nat_mono)
  have c: "\<bar>fl64 (34 / 1000) - 34 / 1000\<bar> \<le> 34 / 1000 * (1 / 2 ^ 53)"
    using fl_error [of "34 / 1000" 53] by (simp add: fl64_def)
  have x: "\<bar>fl32 r - r\<bar> \<le> r * (1 / 2 ^ 24)"
    using fl_error [of r 24] rel_lower [of r r 0] r by (simp add: fl32_def)
  define e :: rat where "e = 1 / 2 ^ 24 + 1 / 2 ^ 53 + 1 / 2 ^ 24 * (1 / 2 ^ 53)"
  define e1 :: rat where "e1 = e + (1 + e) / 2 ^ 53"
  define e2 :: rat where "e2 = e1 + (1 + e1) / 2 ^ 53"
  have small: "0 \<le> e" "e \<le> 1 / 2" "0 \<le> e1" "e1 \<le> 1 / 2" "0 \<le> e2" "e2 \<le> 1 / 2" "e2 + (1 + e2) / 2 ^ 24 \<le> 1 / 2 ^ 22"
    by (simp_all add: e2_def e1_def e_def)
  let ?b = "r * (34 / 1000)"
  have b: "1 / 1000 \<le> ?b" "1 / 1000 \<le> ?b / 2" using r by simp_all
  have 1: "\<bar>fl32 r * fl64 (34 / 1000) - ?b\<bar> \<le> ?b * e"
    unfolding e_def using x c r by (intro rel_mult) simp_all
  have 2: "\<bar>fl64 (fl32 r * fl64 (34 / 1000)) - ?b\<bar> \<le> ?b * e1"
    unfolding e1_def
    using fl_chain [OF 1 small(1) rel_lower [OF 1 b(1) small(2)], of 53] by (simp add: fl64_def)
  note 3 = rel_half [OF 2]
  have 4: "\<bar>fl64 (fl64 (fl32 r * fl64 (34 / 1000)) / 2) - ?b / 2\<bar> \<le> ?b / 2 * e2"
    unfolding e2_def using fl_chain [OF 3 small(3) rel_lower [OF 3 b(2) small(4)], of 53] by (simp add: fl64_def)
  have "\<bar>hc_distance raw - ?b / 2\<bar> \<le> ?b / 2 * (e2 + (1 + e2) / 2 ^ 24)"
    using fl_chain [OF 4 small(5) rel_lower [OF 4 b(2) small(6)], of 24]
    unfolding hc_distance_def r_def [symmetric] by (simp add: fl32_def)
  also have "\<dots> \<le> ?b / 2 * (1 / 2 ^ 22)" using small(7) b(2) by (intro mult_left_mono) simp_all
  finally show ?thesis unfolding r_def [symmetric] by simp
qed

section \<open>Properties\<close>

text \<open>
  C28. HC-SR04, functional: after the start sequence the pin waits for the rising edge; the two
  interrupts of an echo that lasts from \<open>a\<close> to \<open>b\<close> (the counter may wrap around between)
  leave COMPL and the distance in the handler, within \<open>2 ^ -22\<close> of 0.017 cm per microsecond, report to
  the main task exactly once and switch the pin interrupt off.
\<close>

theorem hcsr04_measures:
  fixes st :: app
  assumes "echo_pending (hw (Hcsr04Start st))" "feed (hw (Hcsr04Start st)) (Reg WDEW_ADDR) = [a, b]"
  shows "pin_intr (of_nat HC_INPUT) (hw (Hcsr04Start st)) = GPIO_PIN_INTR_POSEDGE \<and>
    pin_intr (of_nat HC_INPUT) (hw (GpioUniCbk (Hcsr04Start st))) = GPIO_PIN_INTR_NEGEDGE \<and>
    hc_state (Hcsr04 (GpioUniCbk (GpioUniCbk (Hcsr04Start st)))) = COMPL \<and>
    \<bar>result (Hcsr04 (GpioUniCbk (GpioUniCbk (Hcsr04Start st)))) - of_nat (unat (b - a)) * 17 / 1000\<bar>
      \<le> of_nat (unat (b - a)) * 17 / 1000 / 2 ^ 22 \<and>
    posts (hw (GpioUniCbk (GpioUniCbk (Hcsr04Start st)))) =
      posts (hw (Hcsr04Start st)) @ [Post 0 HCSR04_DRIVER_SOURCE (adr_Hcsr04 st)] \<and>
    pin_intr (of_nat HC_INPUT) (hw (GpioUniCbk (GpioUniCbk (Hcsr04Start st)))) = GPIO_PIN_INTR_DISABLE"
proof -
  note rise = echo_rise [OF assms start_effect(1)]
  note fall = echo_fall [OF rise(1,2,3)]
  show ?thesis
    using hc.measured [OF assms] fall(2,3) rise(4) hc_distance_error [of "b - a"] hc.start_law by simp
qed

definition hc_example :: app where
  "hc_example = app0\<lparr>hw := mach0\<lparr>
     cur := (cur mach0)(Reg (GPIO_BASE + GPIO_STATUS_ADDRESS) := BIT HC_INPUT),
     feed := (feed mach0)(Reg WDEW_ADDR := [4294967000, 5000])\<rparr>\<rparr>"

theorem hcsr04_measures_witness:
  "hc_state (Hcsr04 (GpioUniCbk (GpioUniCbk (Hcsr04Start hc_example)))) = COMPL \<and>
    \<bar>result (Hcsr04 (GpioUniCbk (GpioUniCbk (Hcsr04Start hc_example)))) - 5296 * 17 / 1000\<bar> \<le> 5296 * 17 / 1000 / 2 ^ 22"
proof -
  have f: "feed (hw (Hcsr04Start hc_example)) (Reg WDEW_ADDR) = [4294967000, 5000]"
    and e: "echo_pending (hw (Hcsr04Start hc_example))"
    by (simp_all add: Hcsr04Start_def ultrasensorInit_def ultrasensorStartMeasure_def Let_def say_def hc_example_def
        GPIO_OUTPUT_SET_def GPIO_DIS_OUTPUT_def GPIO_REG_WRITE_def ETS_INTR_ENABLE_def WDEW_ADDR_def reg_simps
        echo_pending_def still_def HC_INPUT_def BIT_def)
  have "unat (5000 - 4294967000 :: u32) = 5296" by simp
  with hcsr04_measures [OF e f] show ?thesis by simp
qed

end
