(* ===== verification/UserNet.thy ===== *)
theory UserNet
  imports AppState "HOL-Library.Monad_Syntax"
begin

text \<open>
  The network side of the application: user/utils.c (pins, station set-up, the blinking LED),
  user/utils-heartbeat.c (the UDP heart beat) and user/daemon-handle.c (the TCP connection to
  the daemon). The espconn library is not in the repository: a call is recorded with its
  arguments and returns the next status the environment has for it.
\<close>

section \<open>Calls of the espconn library\<close>

definition esp_status :: "app \<Rightarrow> u8 \<times> app" where
  "esp_status st = (case sample EspStatus (hw st) of (v, s) \<Rightarrow> (ucast v, st\<lparr>hw := s\<rparr>))"

definition esp_call :: "string \<Rightarrow> int list \<Rightarrow> string \<Rightarrow> app \<Rightarrow> u8 \<times> app" where
  "esp_call name nums bytes st = esp_status (on (emit (Net name nums bytes)) st)"

definition esp_regist :: "string \<Rightarrow> cfun \<Rightarrow> app \<Rightarrow> u8 \<times> app" where
  "esp_regist name f st = esp_status (on (emit (EspRegist name f)) st)"

text \<open>\<open>if(status != 0) DEBUG(msg);\<close> The messages have a conversion but no argument.\<close>

definition complain :: "string \<Rightarrow> u8 \<times> app \<Rightarrow> app" where
  "complain msg r = (case r of (status, st) \<Rightarrow> if status \<noteq> 0 then say msg [] st else st)"

definition os_zalloc :: "app \<Rightarrow> u32 \<times> app" where
  "os_zalloc st = (case sample HeapPtr (hw st) of (p, s) \<Rightarrow> (p, st\<lparr>hw := s\<rparr>))"

definition daemon_ip :: "u8 list" where "daemon_ip = [192, 168, 1, 235]"

section \<open>user/utils.c\<close>

definition FUNC_U0CTS :: u32 where "FUNC_U0CTS = 4"
definition LED_GPIO :: nat where "LED_GPIO = 4"
definition DELAY :: u32 where "DELAY = 1000"
definition SSID :: string where "SSID = ''navtah10''"
definition PASSWORD :: string where "PASSWORD = ''qwas1234''"

definition switchUart1 :: "app \<Rightarrow> app" where
  "switchUart1 st =
    (let st = on (PIN_FUNC_SELECT PERIPHS_IO_MUX_MTCK_U FUNC_U0CTS) st;
         st = on (PIN_FUNC_SELECT PERIPHS_IO_MUX_MTDO_U FUNC_U0RTS) st
     in on (SET_PERI_REG_MASK 0x3ff00028 (BIT 2)) st)"

text \<open>An array of \<open>n\<close> characters initialised with a shorter string.\<close>

definition padded :: "nat \<Rightarrow> string \<Rightarrow> string" where
  "padded n s = s @ replicate (n - length s) (CHR 0x00)"

definition connSetup :: "app \<Rightarrow> app" where
  "connSetup st =
    (let st = on (emit (Net ''wifi_set_opmode'' [1] [])) st;
         st = on (emit (Net ''wifi_softap_dhcps_stop'' [] [])) st
     in on (emit (Net ''wifi_station_set_config'' [0] (padded 32 SSID @ padded 64 PASSWORD))) st)"

definition heartBeatCbkGpio :: "app \<Rightarrow> app" where
  "heartBeatCbkGpio st =
    (let st = on (GPIO_OUTPUT_SET LED_GPIO (ucast (led_state st))) st;
         st = st\<lparr>led_state := led_state st XOR 1\<rparr>;
         st = say ''lol %d'' [sint (asd st)] st
     in st\<lparr>asd := asd st + 1\<rparr>)"

definition initHeartBeat :: "app \<Rightarrow> app" where
  "initHeartBeat st =
    (let st = st\<lparr>asd := 0\<rparr>;
         st = on (PIN_FUNC_SELECT PERIPHS_IO_MUX_GPIO4_U FUNC_GPIO4) st;
         st = on (emit (TimerDisarm T_blink_timer)) st;
         st = on (emit (TimerSetfn T_blink_timer C_heartBeatCbkGpio)) st
     in on (emit (TimerArm T_blink_timer DELAY True)) st)"

section \<open>user/daemon-handle.c\<close>

definition daemonRequest :: "app \<Rightarrow> app" where
  "daemonRequest st =
    (if daemonSts st = 0
     then complain ''EspConn send TCP Fail, code %d'' (esp_call ''espconn_send'' [10] ''DAEMON_ASK'' st)
     else st)"

text \<open>
  The answer is copied into a local buffer of 64 bytes, without a test of its length, and then
  searched up to the first zero byte, which the copy does not write. \<open>None\<close> is a write or a read
  outside the buffer and the stack that is known.
\<close>

definition daemonHandleAnswer :: "string \<Rightarrow> nat \<Rightarrow> app \<Rightarrow> app option" where
  "daemonHandleAnswer pdata len st =
    (let mem = take len pdata @ drop len (stack_junk st)
     in if len > 64 \<or> len > length pdata \<or> CHR 0x00 \<notin> set mem then None
        else if strstr (takeWhile (\<lambda>c. c \<noteq> CHR 0x00) mem) ''DHT_GET'' then Some (say ''Got DhT'' [] st)
        else Some st)"

definition daemonConnCbk :: "app \<Rightarrow> app" where
  "daemonConnCbk st = daemonRequest (say ''daemon Connect cbk'' [] st)"

definition daemonConRecvCbk :: "string \<Rightarrow> nat \<Rightarrow> app \<Rightarrow> app option" where
  "daemonConRecvCbk pdata len st = daemonHandleAnswer pdata len (say ''daemon receive cbk'' [] st)"

definition daemonReconnCbk :: "app \<Rightarrow> app" where
  "daemonReconnCbk st =
    (let st = say ''daemon ReConnect cbk'' [] st
     in complain ''EspConn send TCP Fail, code %d'' (esp_call ''espconn_send'' [8] ''TCPHELLO'' st))"

definition daemonDiscCbk :: "app \<Rightarrow> app" where
  "daemonDiscCbk st = say ''daemon DisConnect cbk'' [] st"

definition daemonWriteFinishCbk :: "app \<Rightarrow> app" where
  "daemonWriteFinishCbk st = say ''daemon writefinish cbk'' [] st"

definition daemonConInit :: "app \<Rightarrow> app option" where
  "daemonConInit st =
    (case os_zalloc st of (p, st) \<Rightarrow>
      if p = 0 then None
      else
        let st = st\<lparr>daemonHandler := (daemonHandler st)\<lparr>
                   proto := Some \<lparr>remote_port = 13001, local_port = 13001, remote_ip = daemon_ip\<rparr>\<rparr>\<rparr>;
            st = st\<lparr>daemonHandler := (daemonHandler st)\<lparr>conn_type := Some ESPCONN_TCP\<rparr>\<rparr>;
            st = complain ''EspConn Create ConnCbk Fail, code %d'' (esp_regist ''espconn_regist_connectcb'' C_daemonConnCbk st);
            st = complain ''EspConn Create recvCbk Fail, code %d'' (esp_regist ''espconn_regist_recvcb'' C_daemonConRecvCbk st);
            st = complain ''EspConn Create ReconnCbk Fail, code %d'' (esp_regist ''espconn_regist_reconcb'' C_daemonReconnCbk st);
            st = complain ''EspConn Create DiscCbk Fail, code %d'' (esp_regist ''espconn_regist_disconcb'' C_daemonDiscCbk st);
            st = complain ''EspConn Create FinishCbk Fail, code %d'' (esp_regist ''espconn_regist_write_finish'' C_daemonWriteFinishCbk st);
            st = complain ''EspConn Create TCP Fail, code %d'' (esp_call ''espconn_connect'' [] [] st);
            st = st\<lparr>daemonSts := 0\<rparr>
        in Some (say ''TcpDaemonCallbackInitDone'' [] st))"

section \<open>user/utils-heartbeat.c\<close>

text \<open>The messages of this file are compiled out.\<close>

definition HeartBeatConnCbk :: "app \<Rightarrow> app" where
  "HeartBeatConnCbk st = snd (esp_call ''espconn_get_connection_info'' [0] [] st)"

definition HeartBeatReconCbk :: "app \<Rightarrow> app" where
  "HeartBeatReconCbk st = st"

definition udpHeartBeat :: "app \<Rightarrow> app" where
  "udpHeartBeat st =
    (let st = snd (esp_call ''espconn_create'' [] [] st)
     in snd (esp_call ''espconn_sendto'' [10] ''Helloworld'' st))"

definition initUdpHeartbeat :: "app \<Rightarrow> app option" where
  "initUdpHeartbeat st =
    (let st = st\<lparr>HeartBeatConn := (HeartBeatConn st)\<lparr>recv_callback := Some C_HeartBeatConnCbk\<rparr>\<rparr>
     in case os_zalloc st of (p, st) \<Rightarrow>
      if p = 0 then None
      else
        let st = st\<lparr>HeartBeatConn := (HeartBeatConn st)\<lparr>
                   proto := Some \<lparr>remote_port = 13000, local_port = 13000, remote_ip = daemon_ip\<rparr>\<rparr>\<rparr>;
            st = st\<lparr>HeartBeatConn := (HeartBeatConn st)\<lparr>conn_type := Some ESPCONN_UDP\<rparr>\<rparr>;
            st = snd (esp_regist ''espconn_regist_recvcb'' C_HeartBeatConnCbk st);
            st = snd (esp_regist ''espconn_regist_reconcb'' C_HeartBeatReconCbk st);
            st = on (emit (TimerSetfn T_heartbeatTimer C_udpHeartBeat)) st
        in Some (on (emit (TimerArm T_heartbeatTimer 1000 True)) st))"

definition initSockets :: "app \<Rightarrow> app option" where
  "initSockets st = do { st \<leftarrow> initUdpHeartbeat st; daemonConInit st }"

section \<open>Properties\<close>

text \<open>An answer longer than the buffer overwrites the stack.\<close>

lemma answer_overflow: "64 < len \<Longrightarrow> daemonHandleAnswer pdata len st = None"
  by (simp add: daemonHandleAnswer_def)

text \<open>
  C40. Daemon connection, error behaviour: an answer of at most 64 bytes that brings its own zero
  byte is handled without leaving the buffer, whatever the stack holds, and the request is
  recognised exactly when the text before the zero byte contains DHT_GET.
\<close>

theorem daemon_answer_checked:
  assumes "len \<le> 64" "length pdata = len" "pdata = msg @ CHR 0x00 # pad" "CHR 0x00 \<notin> set msg"
  shows "daemonConRecvCbk pdata len st =
    Some ((if \<exists>pre post. msg = pre @ ''DHT_GET'' @ post then say ''Got DhT'' [] else id)
      (say ''daemon receive cbk'' [] st))"
proof -
  have t: "takeWhile (\<lambda>c. c \<noteq> CHR 0x00) (msg @ CHR 0x00 # pad @ ys) = msg" for ys
    using assms(4) by (induction msg) auto
  show ?thesis
    using assms(1-3) by (auto simp: daemonConRecvCbk_def daemonHandleAnswer_def t strstr_iff Let_def)
qed

theorem daemon_answer_checked_witness:
  "daemonConRecvCbk (''x DHT_GET'' @ [CHR 0x00]) 10 app0 = Some (say ''Got DhT'' [] (say ''daemon receive cbk'' [] app0))"
proof -
  have "\<exists>pre post. ''x DHT_GET'' = pre @ ''DHT_GET'' @ post"
    by (intro exI [of _ "''x ''"] exI [of _ "[]"]) simp
  with daemon_answer_checked [of 10 "''x DHT_GET'' @ [CHR 0x00]" "''x DHT_GET''" "[]" app0] show ?thesis by simp
qed

end
