(* ===== verification/UserMain.thy ===== *)
theory UserMain
  imports Hcsr04 UserNet HwTimer
begin

text \<open>
  The main program of development/user: user_main.c (start-up, the main task that receives the
  messages of the sensors), tasktest.c (the task priority experiment) and time_measure.c (the
  hardware timer experiment).
\<close>

section \<open>user/user_main.c\<close>

definition MAIN_TASK_PRIO :: nat where "MAIN_TASK_PRIO = 0"
definition MAIN_TASK_Q_SIZE :: nat where "MAIN_TASK_Q_SIZE = 3"

definition FLASH_SIZE_4M_MAP_256_256 :: u32 where "FLASH_SIZE_4M_MAP_256_256 = 0"
definition FLASH_SIZE_2M :: u32 where "FLASH_SIZE_2M = 1"
definition FLASH_SIZE_8M_MAP_512_512 :: u32 where "FLASH_SIZE_8M_MAP_512_512 = 2"
definition FLASH_SIZE_16M_MAP_512_512 :: u32 where "FLASH_SIZE_16M_MAP_512_512 = 3"
definition FLASH_SIZE_32M_MAP_512_512 :: u32 where "FLASH_SIZE_32M_MAP_512_512 = 4"
definition FLASH_SIZE_16M_MAP_1024_1024 :: u32 where "FLASH_SIZE_16M_MAP_1024_1024 = 5"
definition FLASH_SIZE_32M_MAP_1024_1024 :: u32 where "FLASH_SIZE_32M_MAP_1024_1024 = 6"

definition user_rf_cal_sector_set :: "app \<Rightarrow> u32 \<times> app" where
  "user_rf_cal_sector_set st =
    (case sample FlashMap (hw st) of (size_map, s) \<Rightarrow>
      (if size_map = FLASH_SIZE_4M_MAP_256_256 then 128 - 5
       else if size_map = FLASH_SIZE_8M_MAP_512_512 then 256 - 5
       else if size_map = FLASH_SIZE_16M_MAP_512_512 \<or> size_map = FLASH_SIZE_16M_MAP_1024_1024 then 512 - 5
       else if size_map = FLASH_SIZE_32M_MAP_512_512 \<or> size_map = FLASH_SIZE_32M_MAP_1024_1024 then 1024 - 5
       else 0, st\<lparr>hw := s\<rparr>))"

text \<open>\<open>(int)(x)\<close> and \<open>(int)((x - (int)x)*100)\<close> for a float \<open>x\<close>.\<close>

definition whole :: "rat \<Rightarrow> int" where
  "whole x = to_int x"

definition hundredths :: "rat \<Rightarrow> int" where
  "hundredths x = to_int (fl32 (fl32 (x - fl32 (of_int (to_int x))) * 100))"

definition print_float :: "string \<Rightarrow> rat \<Rightarrow> app \<Rightarrow> app" where
  "print_float fmt x st =
    (let st = st\<lparr>printbuf := fmt_d (whole x) @ ''.'' @ fmt_d (hundredths x)\<rparr>
     in on (emit (PrintStr fmt (printbuf st))) st)"

text \<open>A message parameter is null or the address of the sender's handler; any other is a wild pointer.\<close>

definition mainTask :: "u32 \<Rightarrow> u32 \<Rightarrow> app \<Rightarrow> app option" where
  "mainTask sig par st =
    (let st = say ''mainTask signal: %d, '' [sint sig] st
     in if sig = DHT_DRIVER_SOURCE
        then if par = 0 then Some st
             else if par \<noteq> adr_DhtHandle st then None
             else if state (DhtHandle st) = COMPL
             then let st = print_float ''DhtTemp: %s'' (DhtTemp (DhtHandle st)) st;
                      st = print_float ''DhtHum: %s'' (DhtHum (DhtHandle st)) st
                  in Some (st\<lparr>DhtHandle := (DhtHandle st)\<lparr>state := IDLE\<rparr>\<rparr>)
             else if state (DhtHandle st) = ERR
             then let st = st\<lparr>printbuf := ''ERR in DHT reading, recall''\<rparr>;
                      st = on (emit (PrintStr ''%s'' (printbuf st))) st
                  in Some (DhtTestSeq st)
             else Some st
        else if sig = HCSR04_DRIVER_SOURCE
        then if par = 0 then Some st
             else if par \<noteq> adr_Hcsr04 st then None
             else if hc_state (Hcsr04 st) = COMPL
             then Some (print_float ''Hcsr04: %s'' (result (Hcsr04 st)) st)
             else Some (say ''unhandled state in Hcsr04 sensortask'' [] st)
        else Some (say ''MainTask no handled command'' [] st))"

definition TestLaterSeq :: "app \<Rightarrow> app" where
  "TestLaterSeq st = Hcsr04Start st"


definition user_init :: "app \<Rightarrow> app" where
  "user_init st =
    (let st = on (GPIO_OUTPUT_SET DHT_PIN 1) st;
         st = initHeartBeat st;
         st = connSetup st;
         st = on (emit (DivModify 0 (UART_CLK_FREQ div 115200))) st;
         st = say ''**************************************************************'' [] st;
         st = say ''Helloworld'' [] st;
         st = say ''SDK version:%s'' [] st;
         st = on (emit (TaskCreate C_mainTask MAIN_TASK_PRIO MAIN_TASK_Q_SIZE)) st;
         st = on (emit (TimerSetfn T_dummyTimer C_initSockets)) st
     in on (emit (TimerArm T_dummyTimer 5000 False)) st)"

section \<open>user/tasktest.c\<close>

definition MY_TASK_PRIORITY :: nat where "MY_TASK_PRIORITY = 0"
definition MY_QUEUE_SIZE :: nat where "MY_QUEUE_SIZE = 1"

definition run_task :: "app \<Rightarrow> app" where
  "run_task st = say ''init loller'' [] (on (emit (Post MY_TASK_PRIORITY 0 0)) st)"

text \<open>\<open>while(x--)\<close> from 10.\<close>

primrec task1_loop :: "nat \<Rightarrow> app \<Rightarrow> app" where
  "task1_loop 0 st = st"
| "task1_loop (Suc x) st =
    (let st = say ''x: %d'' [int x] st;
         st = (if x = 6 then on (emit (Post 2 0 0)) st else st)
     in task1_loop x st)"

definition task1 :: "app \<Rightarrow> app" where
  "task1 st = task1_loop 10 st"

definition task2 :: "app \<Rightarrow> app" where
  "task2 st = say ''hoppp!'' [] st"

definition my_task :: "app \<Rightarrow> app" where
  "my_task st =
    (let st = st\<lparr>g_value := g_value st + 1\<rparr>;
         st = say ''loller'' [] st
     in on (emit (TimerArm T_task_start_timer 5000 False)) st)"

definition task_demonstrate :: "app \<Rightarrow> app" where
  "task_demonstrate st =
    (let st = on (emit (TaskCreate C_task1 1 MY_QUEUE_SIZE)) st;
         st = on (emit (TaskCreate C_task2 2 MY_QUEUE_SIZE)) st;
         st = on (emit (Post 1 0 0)) st;
         st = on (emit (TimerSetfn T_blink_timer3 C_task1)) st
     in on (emit (TimerArm T_blink_timer3 200 True)) st)"

section \<open>user/time_measure.c\<close>

definition with_timer :: "(hwt \<Rightarrow> hwt) \<Rightarrow> app \<Rightarrow> app" where
  "with_timer f st =
    (let t = f \<lparr>user_hw_timer_cb = user_cb st, ht_hw = hw st\<rparr>
     in st\<lparr>user_cb := user_hw_timer_cb t, hw := ht_hw t\<rparr>)"

definition hw_test_timer_cb :: "app \<Rightarrow> app" where
  "hw_test_timer_cb st = st"

definition hw_timer_test_init :: "app \<Rightarrow> app" where
  "hw_timer_test_init st =
    (let st = with_timer (hw_timer_init FRC1_SOURCE 0) st;
         st = with_timer (hw_timer_set_func (Some C_hw_test_timer_cb)) st
     in case WDEW_NOW (hw st) of (v, s) \<Rightarrow>
       let st = st\<lparr>tm_offset := v, hw := s\<rparr>;
           st = with_timer (hw_timer_arm 10000) st;
           st = on (emit (DelayUs 30)) st
       in case WDEW_NOW (hw st) of (v, s) \<Rightarrow>
         let temp = v - tm_offset st
         in say ''time passed: %x'' [uint temp] (st\<lparr>hw := s\<rparr>))"

section \<open>Printing of the sensor values\<close>

lemma fl32_small:
  assumes "a \<le> d" "d \<le> b" "1 / 1000 \<le> a" "b \<le> 128"
  shows "\<bar>fl32 d - d\<bar> \<le> 1 / 2 ^ 17"
proof -
  have "(1 :: rat) / 2 ^ 100 \<le> 1 / 1000" by simp
  then have "1 / 2 ^ 100 \<le> d" using assms by linarith
  then have "\<bar>fl32 d - d\<bar> \<le> d / 2 ^ 24" using fl_error [of d 24] by (simp add: fl32_def)
  also have "\<dots> \<le> 1 / 2 ^ 17" using assms by simp
  finally show ?thesis .
qed

text \<open>
  A number of tenths, known to \<open>2 ^ -22\<close> and exactly when it is whole, is printed with the
  right integer part and with hundredths that are right or one too small.
\<close>

lemma prints_tenths:
  fixes x :: rat
  assumes err: "\<bar>x - of_nat n / 10\<bar> \<le> of_nat n / 10 * (1 / 2 ^ 22)" and n: "n < 65536"
    and whole: "n mod 10 = 0 \<Longrightarrow> x = of_nat (n div 10)"
  shows "whole x = int (n div 10)" "hundredths x = 10 * int (n mod 10) \<or> n mod 10 \<noteq> 0 \<and> hundredths x = 10 * int (n mod 10) - 1"
proof -
  define q where "q = n div 10"
  define r where "r = n mod 10"
  have nq: "of_nat n = (10 * of_nat q + of_nat r :: rat)" unfolding q_def r_def
    by (metis mult_div_mod_eq of_nat_add of_nat_mult of_nat_numeral)
  have q: "q < 6554" and r: "r < 10" using n by (simp_all add: q_def r_def)
  have fq: "fl32 (of_nat q) = of_nat q" using fl_nat [of q 24] q by (simp add: fl32_def)
  show "whole x = int q" "hundredths x = 10 * int r \<or> r \<noteq> 0 \<and> hundredths x = 10 * int r - 1"
  proof (atomize (full), cases "r = 0")
    case True
    then have "x = of_nat q" using whole by (simp add: q_def r_def)
    then show "whole x = int q \<and> (hundredths x = 10 * int r \<or> r \<noteq> 0 \<and> hundredths x = 10 * int r - 1)"
      using fq True by (simp add: whole_def hundredths_def to_int_def fl32_def fl_def)
  next
    case False
    have "of_nat n \<le> (65535 :: rat)" using n by (simp flip: of_nat_le_iff)
    then have e: "\<bar>x - (of_nat q + of_nat r / 10)\<bar> \<le> 1 / 500" using err nq by (simp add: field_simps abs_le_iff)
    have r1: "(1 :: rat) \<le> of_nat r" "of_nat r \<le> (9 :: rat)"
      using r False by (simp_all add: Suc_le_eq flip: of_nat_le_iff)
    have d: "of_nat r / 10 - 1 / 500 \<le> x - of_nat q" "x - of_nat q \<le> of_nat r / 10 + 1 / 500"
      using abs_le_D1 [OF e] abs_le_D2 [OF e] by linarith+
    have "(0 :: rat) \<le> of_nat q" by simp
    with d r1 have pos: "0 \<le> x" by linarith
    have "\<lfloor>x\<rfloor> = int q"
      by (rule floor_unique) (use d r1 in \<open>simp_all add: field_simps\<close>)
    then have t: "to_int x = int q" using pos by (simp add: to_int_def)
    define d1 where "d1 = fl32 (x - of_nat q)"
    have e1: "\<bar>d1 - (x - of_nat q)\<bar> \<le> 1 / 2 ^ 17"
      unfolding d1_def using d r1 by (intro fl32_small [of "of_nat r / 10 - 1 / 500" _ "of_nat r / 10 + 1 / 500"]) simp_all
    have small: "(1 :: rat) / 2 ^ 17 \<le> 1 / 8192" by simp
    have d1: "of_nat r * 10 - 1 / 4 \<le> d1 * 100" "d1 * 100 \<le> of_nat r * 10 + 1 / 4"
      using d abs_le_D1 [OF e1] abs_le_D2 [OF e1] small by linarith+
    have e2: "\<bar>fl32 (d1 * 100) - d1 * 100\<bar> \<le> 1 / 2 ^ 17"
      using d1 r1 by (intro fl32_small [of "of_nat r * 10 - 1 / 4" _ "of_nat r * 10 + 1 / 4"]) simp_all
    have d2: "of_nat r * 10 - 1 / 2 \<le> fl32 (d1 * 100)" "fl32 (d1 * 100) \<le> of_nat r * 10 + 1 / 2"
      using d1 abs_le_D1 [OF e2] abs_le_D2 [OF e2] small by linarith+
    have "hundredths x = to_int (fl32 (d1 * 100))" by (simp add: hundredths_def t fq d1_def)
    also have "\<dots> = \<lfloor>fl32 (d1 * 100)\<rfloor>" using d2 r1 by (simp add: to_int_def)
    finally have h: "hundredths x = \<lfloor>fl32 (d1 * 100)\<rfloor>" .
    have "\<lfloor>fl32 (d1 * 100)\<rfloor> = 10 * int r \<or> \<lfloor>fl32 (d1 * 100)\<rfloor> = 10 * int r - 1"
    proof (cases "of_nat r * 10 \<le> fl32 (d1 * 100)")
      case True
      then have "\<lfloor>fl32 (d1 * 100)\<rfloor> = 10 * int r" by (intro floor_unique) (use d2 in simp_all)
      then show ?thesis ..
    next
      case False
      then have "\<lfloor>fl32 (d1 * 100)\<rfloor> = 10 * int r - 1" by (intro floor_unique) (use d2 in simp_all)
      then show ?thesis ..
    qed
    with h t False show "whole x = int q \<and> (hundredths x = 10 * int r \<or> r \<noteq> 0 \<and> hundredths x = 10 * int r - 1)"
      by (auto simp: whole_def)
  qed
qed

definition tenths1 :: "nat \<Rightarrow> rat" where "tenths1 n = fl32 (fl64 (of_nat n / 10))"
definition tenths2 :: "nat \<Rightarrow> rat" where "tenths2 n = fl32 (fl64 (tenths1 n))"

lemma tenths1_ok:
  assumes "n < 65536"
  shows "\<bar>tenths1 n - of_nat n / 10\<bar> \<le> of_nat n / 10 * (1 / 2 ^ 53 + (1 + 1 / 2 ^ 53) / 2 ^ 24)"
    "n mod 10 = 0 \<Longrightarrow> tenths1 n = of_nat (n div 10)"
proof -
  show "\<bar>tenths1 n - of_nat n / 10\<bar> \<le> of_nat n / 10 * (1 / 2 ^ 53 + (1 + 1 / 2 ^ 53) / 2 ^ 24)"
  proof (cases "n = 0")
    case True
    then show ?thesis by (simp add: tenths1_def fl32_def fl64_def fl_def)
  next
    case False
    then have "(1 :: rat) \<le> of_nat n" by (simp add: Suc_le_eq flip: of_nat_le_iff)
    then have n: "1 / 1000 \<le> (of_nat n / 10 :: rat)" by simp
    have 1: "\<bar>fl64 (of_nat n / 10) - of_nat n / 10\<bar> \<le> of_nat n / 10 * (1 / 2 ^ 53)"
      using fl_error [OF rel_lower [of "of_nat n / 10" "of_nat n / 10" 0], of 53] n by (simp add: fl64_def)
    show ?thesis
      using fl_chain [OF 1 _ rel_lower [OF 1 n], of 24] by (simp add: tenths1_def fl32_def)
  qed
next
  assume "n mod 10 = 0"
  then have "n = 10 * (n div 10)" by presburger
  then have "(of_nat n :: rat) = 10 * of_nat (n div 10)" by (metis of_nat_mult of_nat_numeral)
  then have "(of_nat n / 10 :: rat) = of_nat (n div 10)" by simp
  moreover have "n div 10 < 2 ^ 24" "n div 10 < 2 ^ 53" using assms by simp_all
  ultimately show "tenths1 n = of_nat (n div 10)"
    by (simp add: tenths1_def fl32_def fl64_def fl_nat)
qed

lemma tenths2_ok:
  assumes "n < 65536"
  shows "\<bar>tenths2 n - of_nat n / 10\<bar> \<le> of_nat n / 10 * (1 / 2 ^ 22)"
    "n mod 10 = 0 \<Longrightarrow> tenths2 n = of_nat (n div 10)"
proof -
  show "\<bar>tenths2 n - of_nat n / 10\<bar> \<le> of_nat n / 10 * (1 / 2 ^ 22)"
  proof (cases "n = 0")
    case True
    then show ?thesis by (simp add: tenths2_def tenths1_def fl32_def fl64_def fl_def)
  next
    case False
    then have "(1 :: rat) \<le> of_nat n" by (simp add: Suc_le_eq flip: of_nat_le_iff)
    then have n: "1 / 1000 \<le> (of_nat n / 10 :: rat)" by simp
    define e :: rat where "e = 1 / 2 ^ 53 + (1 + 1 / 2 ^ 53) / 2 ^ 24"
    define e1 where "e1 = e + (1 + e) / 2 ^ 53"
    have small: "0 \<le> e" "e \<le> 1 / 2" "0 \<le> e1" "e1 \<le> 1 / 2" "e1 + (1 + e1) / 2 ^ 24 \<le> 1 / 2 ^ 22"
      by (simp_all add: e1_def e_def)
    note 1 = tenths1_ok(1) [OF assms, folded e_def]
    have 2: "\<bar>fl64 (tenths1 n) - of_nat n / 10\<bar> \<le> of_nat n / 10 * e1"
      unfolding e1_def using fl_chain [OF 1 small(1) rel_lower [OF 1 n small(2)], of 53] by (simp add: fl64_def)
    have "\<bar>tenths2 n - of_nat n / 10\<bar> \<le> of_nat n / 10 * (e1 + (1 + e1) / 2 ^ 24)"
      using fl_chain [OF 2 small(3) rel_lower [OF 2 n small(4)], of 24] by (simp add: tenths2_def fl32_def)
    also have "\<dots> \<le> of_nat n / 10 * (1 / 2 ^ 22)" using small(5) by (intro mult_left_mono) simp_all
    finally show ?thesis .
  qed
next
  assume m: "n mod 10 = 0"
  moreover have "n div 10 < 2 ^ 24" "n div 10 < 2 ^ 53" using assms by simp_all
  ultimately show "tenths2 n = of_nat (n div 10)"
    using tenths1_ok(2) [OF assms m] by (simp add: tenths2_def fl32_def fl64_def fl_nat)
qed

lemma tenths1_prints:
  assumes "n < 65536"
  shows "\<bar>tenths1 n - of_nat n / 10\<bar> \<le> of_nat n / 10 * (1 / 2 ^ 22)"
proof -
  have "(1 :: rat) / 2 ^ 53 + (1 + 1 / 2 ^ 53) / 2 ^ 24 \<le> 1 / 2 ^ 22" by simp
  then have "of_nat n / 10 * (1 / 2 ^ 53 + (1 + 1 / 2 ^ 53) / 2 ^ 24) \<le> of_nat n / 10 * (1 / 2 ^ 22 :: rat)"
    by (intro mult_left_mono) simp_all
  with tenths1_ok(1) [OF assms] show ?thesis by (rule order_trans)
qed

definition shown :: "int \<Rightarrow> nat \<Rightarrow> bool" where
  "shown h tenth \<longleftrightarrow> h = 10 * int tenth \<or> tenth \<noteq> 0 \<and> h = 10 * int tenth - 1"

lemma tenths_shown:
  assumes "n < 65536"
  shows "whole (tenths1 n) = int (n div 10)" "shown (hundredths (tenths1 n)) (n mod 10)"
    "whole (tenths2 n) = int (n div 10)" "shown (hundredths (tenths2 n)) (n mod 10)"
  using prints_tenths [OF tenths1_prints [OF assms] assms tenths1_ok(2) [OF assms]]
    prints_tenths [OF tenths2_ok(1) [OF assms] assms tenths2_ok(2) [OF assms]]
  by (simp_all add: shown_def)

lemma print_neg: "whole (- x) = - whole x" "hundredths (- x) = - hundredths x"
proof -
  have n: "fl32 (- y) = - fl32 y" for y by (simp add: fl32_def fl_neg)
  show "whole (- x) = - whole x" by (simp add: whole_def to_int_neg)
  have "- x - fl32 (of_int (to_int (- x))) = - (x - fl32 (of_int (to_int x)))" by (simp add: to_int_neg n)
  then have "fl32 (fl32 (- x - fl32 (of_int (to_int (- x)))) * 100) = - fl32 (fl32 (x - fl32 (of_int (to_int x))) * 100)"
    by (simp only: n mult_minus_left)
  then show "hundredths (- x) = - hundredths x" unfolding hundredths_def by (simp only: to_int_neg)
qed

lemma raw_split: "raw AND 0x8000 = 0 \<Longrightarrow> raw AND 0x7FFF = (raw :: u16)"
proof -
  assume z: "raw AND 0x8000 = 0"
  have "(0x7FFF OR 0x8000 :: u16) = - 1" by simp
  then have "raw = raw AND (0x7FFF OR 0x8000)" by (simp only: bit.conj_one_right)
  also have "\<dots> = (raw AND 0x7FFF) OR (raw AND 0x8000)" by (rule bit.conj_disj_distrib)
  finally show ?thesis using z by simp
qed

lemma dht_values:
  "dht_hum raw = tenths1 (unat raw)"
  "dht_temp raw = (if raw AND 0x8000 \<noteq> 0 then - tenths2 (unat (raw AND 0x7FFF)) else tenths1 (unat (raw AND 0x7FFF)))"
proof -
  have e: "fl32 (of_nat (unat raw)) = of_nat (unat raw)"
    using unat_u16_less [of raw] unfolding fl32_def by (intro fl_nat) simp_all
  then show "dht_hum raw = tenths1 (unat raw)" unfolding dht_hum_def tenths1_def by (simp only:)
  have n: "fl64 (y * - 1) = - fl64 y" "fl32 (- y) = - fl32 y" for y by (simp_all add: fl64_def fl32_def fl_neg)
  show "dht_temp raw = (if raw AND 0x8000 \<noteq> 0 then - tenths2 (unat (raw AND 0x7FFF)) else tenths1 (unat (raw AND 0x7FFF)))"
    unfolding dht_temp_def tenths2_def tenths1_def n using e raw_split [of raw] by (simp only:) auto
qed

text \<open>The reading 2.1 is printed as 2.9: the two decimals are not padded, and one hundredth is lost.\<close>

lemma print_2_1: "fmt_d (whole (dht_temp 21)) @ ''.'' @ fmt_d (hundredths (dht_temp 21)) = ''2.9''"
proof -
  have a: "fl64 (21 / 10) = 4728779608739021 / 2251799813685248"
    unfolding fl64_def by (subst fl_eval [where e = 201])
      (simp_all add: scale_def round_even_near [where k = 4728779608739021])
  have b: "fl32 (4728779608739021 / 2251799813685248) = 4404019 / 2097152"
    unfolding fl32_def by (subst fl_eval [where e = 201])
      (simp_all add: scale_def round_even_near [where k = 8808038])
  have c: "fl32 (209715 / 2097152) = 209715 / 2097152"
    unfolding fl32_def by (subst fl_eval [where e = 196])
      (simp_all add: scale_def round_even_near [where k = 13421760])
  have d: "fl32 (20971500 / 2097152) = 20971500 / 2097152"
    unfolding fl32_def by (subst fl_eval [where e = 203])
      (simp_all add: scale_def round_even_near [where k = 10485750])
  have two: "fl32 2 = 2" using fl_nat [of 2 24] by (simp add: fl32_def)
  have t: "dht_temp 21 = 4404019 / 2097152" by (simp add: dht_values tenths1_def a b)
  have i: "to_int (4404019 / 2097152) = 2" "to_int (20971500 / 2097152) = 9" by (simp_all add: to_int_def floor_eq_iff)
  then have w: "whole (dht_temp 21) = 2" by (simp add: whole_def t)
  have "hundredths (dht_temp 21) = to_int (fl32 (fl32 (209715 / 2097152) * 100))"
    using two i by (simp add: hundredths_def t)
  also have "\<dots> = to_int (fl32 (20971500 / 2097152))" unfolding c by simp
  also have "\<dots> = 9" unfolding d by (rule i)
  finally show ?thesis using w by (simp add: fmt_d_def digits.simps char_of_def bit_0)
qed

section \<open>The retry after a timeout\<close>

lemma mainTask_error:
  assumes "state (DhtHandle st) = ERR" "par = adr_DhtHandle st" "par \<noteq> 0"
  shows "\<exists>st'. mainTask DHT_DRIVER_SOURCE par st = Some st' \<and> DhtTimeout st' = 0 \<and> armed T_DhtTimer (hw st') \<and>
    state (DhtHandle st') = PREP \<and> adr_DhtHandle st' = adr_DhtHandle st"
  using assms by (simp add: mainTask_def Let_def say_def test_seq_effect)

interpretation dht_retry: retried_reading DhtTestSeq DhtTimerCbk DhtTimeout DHT_TIMEOUT hw T_DhtTimer
  "\<lambda>st. state (DhtHandle st) = PREP" "\<lambda>st. state (DhtHandle st) = ERR" dht_report
  "\<lambda>e st. case e of Post _ sig par \<Rightarrow> mainTask sig par st | _ \<Rightarrow> None" "\<lambda>e. \<exists>par. e = Post 0 DHT_DRIVER_SOURCE par \<and> par \<noteq> 0"
  by unfold_locales (use mainTask_error in auto)

section \<open>Properties\<close>

text \<open>
  C21. Main task, bounds: what the main task prints of a reading. The integer part of the
  humidity and of the temperature is exact, and the two decimals are right or one hundredth too
  small, with the sign of the temperature on both parts.
\<close>

theorem dht_prints:
  "whole (dht_hum raw) = int (unat raw div 10) \<and> shown (hundredths (dht_hum raw)) (unat raw mod 10) \<and>
   (let n = unat (raw AND 0x7FFF); sign = (if raw AND 0x8000 \<noteq> 0 then - 1 else 1)
    in sign * whole (dht_temp raw) = int (n div 10) \<and> shown (sign * hundredths (dht_temp raw)) (n mod 10))"
proof -
  have "unat raw < 65536" "unat (raw AND 0x7FFF) < 65536" using unat_u16_less by blast+
  then show ?thesis by (simp add: Let_def dht_values tenths_shown print_neg)
qed

text \<open>
  Main task, liveness: a sensor that does not answer is asked again. When the reading has
  timed out, the message it posted makes the main task start a new reading, with the timer
  armed and the count of expiries at zero.
\<close>

theorem dht_retries:
  assumes "adr_DhtHandle st \<noteq> 0"
  shows "\<exists>st'. last (posts (hw (dht_silent 11 st))) = Post 0 DHT_DRIVER_SOURCE (adr_DhtHandle st) \<and>
    mainTask DHT_DRIVER_SOURCE (adr_DhtHandle st) (dht_silent 11 st) = Some st' \<and>
    armed T_DhtTimer (hw st') \<and> DhtTimeout st' = 0 \<and> state (DhtHandle st') = PREP"
  using dht_retry.retried [of st, unfolded dht_limit, folded dht_silent_def] assms by auto

theorem dht_retries_witness:
  "\<exists>st'. mainTask DHT_DRIVER_SOURCE (adr_DhtHandle app0) (dht_silent 11 app0) = Some st' \<and> armed T_DhtTimer (hw st')"
proof -
  have "adr_DhtHandle app0 \<noteq> 0" by (simp add: app0_def)
  from dht_retries [OF this] show ?thesis by auto
qed

end
