(* ===== verification/DhtSafe.thy ===== *)
theory DhtSafe
  imports Dht
begin

text \<open>
  Well-formedness of the DHT driver of the first application: the index of its array stays in
  range on every run of interrupts, timer expiries and new readings, in any order and with any
  behaviour of the hardware, so that the interrupt handler never faults.
\<close>

section \<open>Runs\<close>

definition awake :: "app \<Rightarrow> bool" where
  "awake st \<longleftrightarrow> pin_intr (of_nat DHT_PIN) (hw st) \<noteq> GPIO_PIN_INTR_DISABLE"

text \<open>An interrupt needs an enabled pin, an expiry an armed timer; the hardware changes as it likes.\<close>

inductive dht_step :: "app \<Rightarrow> app \<Rightarrow> bool" where
  edge: "awake st \<Longrightarrow> DhtGpioCbk st = Some st' \<Longrightarrow> dht_step st st'"
| expiry: "armed T_DhtTimer (hw st) \<Longrightarrow> dht_step st (DhtTimerCbk (on (emit (Fired T_DhtTimer)) st))"
| start: "dht_step st (DhtTestSeq st)"
| hardware: "dht_step st (st\<lparr>hw := (hw st)\<lparr>cur := c, feed := f\<rparr>\<rparr>)"

section \<open>The invariant\<close>

definition dht_wf :: "app \<Rightarrow> bool" where
  "dht_wf st \<longleftrightarrow> length (DhtResult st) = 42 \<and> DhtResultIdx st \<le> 42 \<and> (DhtResultIdx st = 42 \<longrightarrow> \<not> awake st)"

lemma awake_upd: "awake (st\<lparr>hw := (hw st)\<lparr>cur := c, feed := f\<rparr>\<rparr>) = awake st"
  by (simp add: awake_def pin_intr_def)

lemma idx_cases: "i \<le> (42 :: u8) \<Longrightarrow> i = 42 \<or> unat i < 42"
  by (auto simp: word_le_nat_alt word_unat_eq_iff)

lemma next_idx:
  assumes "unat (i :: u8) < 42"
  shows "i + 1 \<le> 42" "i + 1 > 41 \<longleftrightarrow> i + 1 = 42"
proof -
  have "unat (i + 1) = unat i + 1" using assms unat_plus_of_nat [of i 1] by simp
  then show "i + 1 \<le> 42" "i + 1 > 41 \<longleftrightarrow> i + 1 = 42"
    using assms by (auto simp: word_le_nat_alt word_less_nat_alt word_unat_eq_iff)
qed

lemma test_seq_keeps:
  "DhtResult (DhtTestSeq st) = DhtResult st" "DhtResultIdx (DhtTestSeq st) = DhtResultIdx st"
  "pin_intr p (hw (DhtTestSeq st)) = pin_intr p (hw st)"
  by (simp_all add: DhtTestSeq_def DhtReadStart_def DhtInit_def Let_def say_def)

lemma edge_wf:
  assumes "dht_wf st" "unat (DhtResultIdx st) < 42"
  shows "\<exists>st'. DhtGpioCbk st = Some st' \<and> dht_wf st'"
proof -
  obtain g s1 where g: "READ_PERI_REG (GPIO_BASE + GPIO_STATUS_ADDRESS) (hw st) = (g, s1)"
    by (cases "READ_PERI_REG (GPIO_BASE + GPIO_STATUS_ADDRESS) (hw st)")
  obtain a s2 where a: "WDEW_NOW s1 = (a, s2)" by (cases "WDEW_NOW s1")
  obtain b s3 where b: "WDEW_NOW s2 = (b, s3)" by (cases "WDEW_NOW s2")
  have p: "pin_intr q s1 = pin_intr q (hw st)" "pin_intr q s2 = pin_intr q s1" "pin_intr q s3 = pin_intr q s2" for q
    using g a b by (auto simp: READ_PERI_REG_def dest: sample_history [of _ _ _ _ undefined q] WDEW_history [of _ _ _ undefined q])
  show ?thesis
    using assms g a b next_idx [OF assms(2)]
    by (cases "41 < DhtResultIdx st + 1")
      (auto simp: DhtGpioCbk_def GPIO_REG_READ_def GPIO_REG_WRITE_def Let_def dht_wf_def awake_def DhtProcess_effect p)
qed


lemma step_wf:
  assumes "dht_step st st'" "dht_wf st"
  shows "dht_wf st'"
  using assms(1)
proof (cases rule: dht_step.cases)
  case edge
  then have "unat (DhtResultIdx st) < 42" using assms(2) idx_cases [of "DhtResultIdx st"] by (auto simp: dht_wf_def)
  from edge_wf [OF assms(2) this] edge(2) show ?thesis by simp
next
  case expiry
  then show ?thesis by (simp add: dht_wf_def timer_cbk_effect)
next
  case start
  then show ?thesis using assms(2) by (simp add: dht_wf_def awake_def test_seq_keeps)
next
  case (hardware c f)
  then show ?thesis using assms(2) by (simp add: dht_wf_def awake_upd)
qed

section \<open>Properties\<close>



end
