(* ===== verification/OraiDht.thy ===== *)
theory OraiDht
  imports Hcsr04 UserNet
begin

text \<open>
  The second application, orai_munka/user: its state and its sensors (dht.c, hcsr04.c,
  interrupts.c). Names it has in common with the first application carry the suffix \<open>_o\<close>.
  Its DHT driver keeps the intervals in bytes and counts the expiries in the handler object;
  it is compared with the driver of development/user at the end.
\<close>

section \<open>State\<close>

datatype DhtState = IDLE_o | PREP_o | MEAS_o | COMPL_o | ERR_o

record DhtHandler_o =
  state_o :: DhtState
  DhtTemp_o :: rat
  DhtHum_o :: rat
  TimeoutCnt :: u8

text \<open>
  \<open>stack_o\<close> is what the stack holds below a local buffer of 64 bytes; \<open>after_ssid\<close> and
  \<open>after_password\<close> what follows the two local arrays of \<open>initConnection\<close>.
\<close>

record orai =
  DhtResultIdx_o :: u8
  DhtResult_o :: "u8 list"
  DhtTimeOffset_o :: u32
  DhtHandle_o :: DhtHandler_o
  adr_o :: u32
  UltraSensSts_o :: u8
  TimerOffset_o :: u32
  Hcsr04ResultRaw :: u32
  daemonSts_o :: u8
  daemonHandler_o :: espconn
  heartBeatUdpHandler :: espconn
  led_state_o :: u8
  printbuf_o :: string
  stack_o :: string
  after_ssid :: string
  after_password :: string
  hw_o :: mach

definition orai0 :: orai where
  "orai0 =
    \<lparr>DhtResultIdx_o = 0, DhtResult_o = replicate 42 0, DhtTimeOffset_o = 0,
     DhtHandle_o = \<lparr>state_o = IDLE_o, DhtTemp_o = 0, DhtHum_o = 0, TimeoutCnt = 0\<rparr>, adr_o = 0x3FFE9000,
     UltraSensSts_o = 0, TimerOffset_o = 0, Hcsr04ResultRaw = 0, daemonSts_o = 0,
     daemonHandler_o = espconn0, heartBeatUdpHandler = espconn0, led_state_o = 0, printbuf_o = replicate 32 (CHR 0x00),
     stack_o = [], after_ssid = [], after_password = [], hw_o = mach0\<rparr>"

definition via :: "(mach \<Rightarrow> mach) \<Rightarrow> orai \<Rightarrow> orai" where
  "via f st = st\<lparr>hw_o := f (hw_o st)\<rparr>"

definition say_o :: "string \<Rightarrow> int list \<Rightarrow> orai \<Rightarrow> orai" where
  "say_o fmt args = via (emit (Print fmt args))"

lemma via_simps [simp]: "hw_o (via f st) = f (hw_o st)"
  "DhtResultIdx_o (via f st) = DhtResultIdx_o st" "DhtResult_o (via f st) = DhtResult_o st"
  "DhtTimeOffset_o (via f st) = DhtTimeOffset_o st" "DhtHandle_o (via f st) = DhtHandle_o st"
  "adr_o (via f st) = adr_o st" "daemonSts_o (via f st) = daemonSts_o st" "printbuf_o (via f st) = printbuf_o st"
  "UltraSensSts_o (via f st) = UltraSensSts_o st" "stack_o (via f st) = stack_o st"
  "TimerOffset_o (via f st) = TimerOffset_o st" "Hcsr04ResultRaw (via f st) = Hcsr04ResultRaw st"
  by (simp_all add: via_def)

section \<open>user/dht.c\<close>

text \<open>
  The messages of this file are compiled out. The decoding loop and the conversions are those of
  the first application; a byte is promoted to \<open>int\<close> before it is compared with 100.
\<close>

definition dhtProcess :: "orai \<Rightarrow> orai" where
  "dhtProcess st =
    (let result = decode_result (map ucast (DhtResult_o st));
         st = (if uint (result ! 0) + uint (result ! 1) + uint (result ! 2) + uint (result ! 3) = uint (result ! 4)
               then st
               else let st = st\<lparr>DhtHandle_o := (DhtHandle_o st)\<lparr>state_o := ERR_o\<rparr>\<rparr>
                    in via (emit (Post 0 0 (adr_o st))) st);
         rawhum = raw16 (result ! 0) (result ! 1);
         rawtemp = raw16 (result ! 2) (result ! 3);
         st = st\<lparr>DhtHandle_o := (DhtHandle_o st)\<lparr>DhtTemp_o := dht_temp rawtemp\<rparr>\<rparr>
     in st\<lparr>DhtHandle_o := (DhtHandle_o st)\<lparr>DhtHum_o := dht_hum rawhum\<rparr>\<rparr>)"

definition dhtGpioCbk :: "orai \<Rightarrow> orai option" where
  "dhtGpioCbk st =
    (case GPIO_REG_READ GPIO_STATUS_ADDRESS (hw_o st) of
      (gpio_status, s) \<Rightarrow>
        let st = st\<lparr>hw_o := s\<rparr>;
            st = st\<lparr>DhtHandle_o := (DhtHandle_o st)\<lparr>state_o := MEAS_o\<rparr>\<rparr>
        in if gpio_status AND BIT DHT_PIN \<noteq> 0
           then case WDEW_NOW (hw_o st) of (now, s) \<Rightarrow>
             let st = st\<lparr>hw_o := s\<rparr>; i = unat (DhtResultIdx_o st)
             in if length (DhtResult_o st) \<le> i then None
                else
                  let st = st\<lparr>DhtResult_o := (DhtResult_o st)[i := ucast (now - DhtTimeOffset_o st)],
                              DhtResultIdx_o := DhtResultIdx_o st + 1\<rparr>
                  in case WDEW_NOW (hw_o st) of (now, s) \<Rightarrow>
                    let st = st\<lparr>DhtTimeOffset_o := now, hw_o := s\<rparr>;
                        st = (if DhtResultIdx_o st > 41
                          then let st = via (ETS_INTR_DISABLE ETS_GPIO_INUM) st;
                                   st = dhtProcess st;
                                   st = via (emit (TimerDisarm T_DhtTimer)) st;
                                   st = st\<lparr>DhtHandle_o := (DhtHandle_o st)\<lparr>state_o := COMPL_o\<rparr>\<rparr>
                               in via (emit (Post 0 0 (adr_o st))) st
                          else st)
                    in Some (via (GPIO_REG_WRITE GPIO_STATUS_W1TC_ADDRESS (gpio_status AND BIT DHT_PIN)) st)
           else Some st)"

definition dhtGpioCbkSetup :: "orai \<Rightarrow> orai" where
  "dhtGpioCbkSetup st =
    (let st = via (ETS_INTR_DISABLE ETS_GPIO_INUM) st;
         st = via (GPIO_DIS_OUTPUT DHT_PIN) st;
         st = via (emit (IsrAttach ETS_GPIO_INUM C_dhtGpioCbk)) st;
         st = via (emit (GpioRegSet (GPIO_PIN_ADDR (of_nat DHT_PIN)) gpio_pin_input_conf)) st;
         st = via (GPIO_REG_WRITE GPIO_STATUS_W1TC_ADDRESS (BIT DHT_PIN)) st;
         st = via (emit (PinIntr (of_nat DHT_PIN) GPIO_PIN_INTR_NEGEDGE)) st;
         st = via (ETS_INTR_ENABLE ETS_GPIO_INUM) st;
         st = st\<lparr>DhtResultIdx_o := 0\<rparr>;
         st = st\<lparr>DhtResult_o := replicate 42 0\<rparr>
     in case WDEW_NOW (hw_o st) of (v, s) \<Rightarrow> st\<lparr>DhtTimeOffset_o := v, hw_o := s\<rparr>)"

definition dhtTimerCbk :: "orai \<Rightarrow> orai" where
  "dhtTimerCbk st =
    (let st = st\<lparr>DhtHandle_o := (DhtHandle_o st)\<lparr>TimeoutCnt := TimeoutCnt (DhtHandle_o st) + 1\<rparr>\<rparr>;
         st = via (GPIO_OUTPUT_SET DHT_PIN 1) st;
         st = via (GPIO_DIS_OUTPUT DHT_PIN) st;
         st = (if DHT_TIMEOUT < TimeoutCnt (DhtHandle_o st)
               then let st = via (emit (TimerDisarm T_DhtTimer)) st;
                        st = st\<lparr>DhtHandle_o := (DhtHandle_o st)\<lparr>state_o := ERR_o\<rparr>\<rparr>
                    in via (emit (Post 0 0 (adr_o st))) st
               else st)
     in dhtGpioCbkSetup st)"

definition dhtInit :: "orai \<Rightarrow> orai" where
  "dhtInit st =
    (let st = via (PIN_FUNC_SELECT PERIPHS_IO_MUX_MTMS_U FUNC_GPIO14) st;
         st = via (GPIO_OUTPUT_SET DHT_PIN 1) st;
         st = st\<lparr>DhtHandle_o := (DhtHandle_o st)\<lparr>state_o := PREP_o\<rparr>\<rparr>
     in st\<lparr>DhtHandle_o := (DhtHandle_o st)\<lparr>TimeoutCnt := 0\<rparr>\<rparr>)"

definition dhtStart :: "orai \<Rightarrow> orai" where
  "dhtStart st =
    (let st = dhtInit st;
         st = via (emit (DelayUs 500)) st;
         st = via (GPIO_OUTPUT_SET DHT_PIN 0) st;
         st = via (emit (TimerSetfn T_DhtTimer C_dhtTimerCbk)) st
     in via (emit (TimerArm T_DhtTimer 20 True)) st)"

section \<open>user/hcsr04.c\<close>

definition HC_TASK_PRIO :: nat where "HC_TASK_PRIO = 1"
definition HC_TASK_Q_SIZE :: nat where "HC_TASK_Q_SIZE = 2"

definition ultraSInit :: "orai \<Rightarrow> orai" where
  "ultraSInit st =
    (let st = via (ETS_INTR_DISABLE ETS_GPIO_INUM) st;
         st = via (GPIO_DIS_OUTPUT HC_INPUT) st;
         st = via (PIN_FUNC_SELECT PERIPHS_IO_MUX_GPIO4_U FUNC_GPIO4) st;
         st = via (emit (IsrAttach ETS_GPIO_INUM C_ultraSCbkGpio)) st;
         st = via (emit (GpioRegSet (GPIO_PIN_ADDR (of_nat HC_INPUT)) gpio_pin_input_conf)) st;
         st = via (GPIO_REG_WRITE GPIO_STATUS_W1TC_ADDRESS (BIT HC_INPUT)) st;
         st = via (emit (PinIntr (of_nat HC_INPUT) GPIO_PIN_INTR_POSEDGE)) st;
         st = via (ETS_INTR_ENABLE ETS_GPIO_INUM) st
     in st\<lparr>UltraSensSts_o := 0\<rparr>)"

definition ultraSStart :: "orai \<Rightarrow> orai" where
  "ultraSStart st =
    (let st = ultraSInit st;
         st = via (PIN_FUNC_SELECT PERIPHS_IO_MUX_MTCK_U FUNC_GPIO13) st;
         st = via (GPIO_OUTPUT_SET HC_OUTPUT 0) st;
         st = via (emit (DelayUs 200)) st;
         st = via (GPIO_OUTPUT_SET HC_OUTPUT 1) st;
         st = via (emit (DelayUs 10)) st
     in via (GPIO_OUTPUT_SET HC_OUTPUT 0) st)"

definition ultraSCbkGpio :: "orai \<Rightarrow> orai" where
  "ultraSCbkGpio st =
    (case GPIO_REG_READ GPIO_STATUS_ADDRESS (hw_o st) of
      (gpioSts, s) \<Rightarrow>
        let st = st\<lparr>hw_o := s\<rparr>
        in if gpioSts AND BIT HC_INPUT \<noteq> 0
           then if UltraSensSts_o st = 0
                then case WDEW_NOW (hw_o st) of (now, s) \<Rightarrow>
                  let st = st\<lparr>TimerOffset_o := now, hw_o := s\<rparr>;
                      st = via (emit (PinIntr (of_nat HC_INPUT) GPIO_PIN_INTR_NEGEDGE)) st;
                      st = via (GPIO_REG_WRITE GPIO_STATUS_W1TC_ADDRESS (gpioSts AND BIT HC_INPUT)) st
                  in st\<lparr>UltraSensSts_o := UltraSensSts_o st + 1\<rparr>
                else if UltraSensSts_o st = 1
                then case WDEW_NOW (hw_o st) of (now, s) \<Rightarrow>
                  let st = st\<lparr>Hcsr04ResultRaw := now - TimerOffset_o st, hw_o := s\<rparr>;
                      st = via (emit (PinIntr (of_nat HC_INPUT) GPIO_PIN_INTR_DISABLE)) st;
                      st = via (GPIO_REG_WRITE GPIO_STATUS_W1TC_ADDRESS (gpioSts AND BIT HC_INPUT)) st;
                      st = st\<lparr>UltraSensSts_o := UltraSensSts_o st + 1\<rparr>
                  in via (emit (Post 1 0 0)) st
                else st
           else st)"

text \<open>\<open>(float)(Hcsr04ResultRaw * 0.034)/ 2\<close>, returned as a float.\<close>

definition ultraSCalcDist :: "orai \<Rightarrow> rat" where
  "ultraSCalcDist st = fl32 (fl32 (fl64 (fl64 (of_nat (unat (Hcsr04ResultRaw st))) * fl64 (34 / 1000))) / 2)"

text \<open>The distance is computed and not used.\<close>

definition ultraSTask :: "orai \<Rightarrow> orai" where
  "ultraSTask st = say_o ''Result of HCSR04 Raw measrement %d'' [sint (Hcsr04ResultRaw st)] st"

definition testUltraS :: "orai \<Rightarrow> orai" where
  "testUltraS st = ultraSStart (via (emit (TaskCreate C_ultraSTask HC_TASK_PRIO HC_TASK_Q_SIZE)) st)"

section \<open>user/interrupts.c\<close>

definition GpioCbk :: "orai \<Rightarrow> orai option" where
  "GpioCbk st = do { st \<leftarrow> dhtGpioCbk st; Some (ultraSCbkGpio st) }"

section \<open>Supervision\<close>

lemma dhtStart_effect:
  "TimeoutCnt (DhtHandle_o (dhtStart st)) = 0" "state_o (DhtHandle_o (dhtStart st)) = PREP_o"
  "armed T_DhtTimer (hw_o (dhtStart st))" "posts (hw_o (dhtStart st)) = posts (hw_o st)" "adr_o (dhtStart st) = adr_o st"
  by (simp_all add: dhtStart_def dhtInit_def Let_def)

lemma dhtTimerCbk_effect:
  fixes st :: orai
  defines "late \<equiv> DHT_TIMEOUT < TimeoutCnt (DhtHandle_o st) + 1"
  shows "TimeoutCnt (DhtHandle_o (dhtTimerCbk st)) = TimeoutCnt (DhtHandle_o st) + 1"
    "posts (hw_o (dhtTimerCbk st)) = posts (hw_o st) @ (if late then [Post 0 0 (adr_o st)] else [])"
    "armed T_DhtTimer (hw_o (dhtTimerCbk st)) \<longleftrightarrow> armed T_DhtTimer (hw_o st) \<and> \<not> late"
    "state_o (DhtHandle_o (dhtTimerCbk st)) = (if late then ERR_o else state_o (DhtHandle_o st))"
    "adr_o (dhtTimerCbk st) = adr_o st"
proof -
  have s: "DhtHandle_o (dhtGpioCbkSetup st) = DhtHandle_o st" "posts (hw_o (dhtGpioCbkSetup st)) = posts (hw_o st)"
    "armed t (hw_o (dhtGpioCbkSetup st)) = armed t (hw_o st)" "adr_o (dhtGpioCbkSetup st) = adr_o st" for st t
    by (auto simp: dhtGpioCbkSetup_def Let_def ETS_INTR_DISABLE_def WDEW_history split: prod.split)
  show "TimeoutCnt (DhtHandle_o (dhtTimerCbk st)) = TimeoutCnt (DhtHandle_o st) + 1"
    "posts (hw_o (dhtTimerCbk st)) = posts (hw_o st) @ (if late then [Post 0 0 (adr_o st)] else [])"
    "armed T_DhtTimer (hw_o (dhtTimerCbk st)) \<longleftrightarrow> armed T_DhtTimer (hw_o st) \<and> \<not> late"
    "state_o (DhtHandle_o (dhtTimerCbk st)) = (if late then ERR_o else state_o (DhtHandle_o st))"
    "adr_o (dhtTimerCbk st) = adr_o st"
    by (simp_all add: dhtTimerCbk_def Let_def s late_def)
qed

interpretation orai_dht: supervised_reading dhtStart dhtTimerCbk "\<lambda>st. TimeoutCnt (DhtHandle_o st)" DHT_TIMEOUT hw_o T_DhtTimer
  "\<lambda>st. state_o (DhtHandle_o st) = PREP_o" "\<lambda>st. state_o (DhtHandle_o st) = ERR_o" "\<lambda>st. Post 0 0 (adr_o st)"
  by unfold_locales (simp_all add: dhtStart_effect dhtTimerCbk_effect DHT_TIMEOUT_def)

lemma ultra_start:
  "UltraSensSts_o (ultraSStart st) = 0" "pin_intr (of_nat HC_INPUT) (hw_o (ultraSStart st)) = GPIO_PIN_INTR_POSEDGE"
  by (simp_all add: ultraSStart_def ultraSInit_def Let_def)

lemma ultra_rise:
  assumes "echo_pending (hw_o st)" "feed (hw_o st) (Reg WDEW_ADDR) = a # f" "UltraSensSts_o st = 0"
  shows "echo_pending (hw_o (ultraSCbkGpio st))" "feed (hw_o (ultraSCbkGpio st)) (Reg WDEW_ADDR) = f"
    "UltraSensSts_o (ultraSCbkGpio st) = 1" "TimerOffset_o (ultraSCbkGpio st) = a"
    "pin_intr (of_nat HC_INPUT) (hw_o (ultraSCbkGpio st)) = GPIO_PIN_INTR_NEGEDGE"
    "posts (hw_o (ultraSCbkGpio st)) = posts (hw_o st)"
  using assms
  by (simp_all add: ultraSCbkGpio_def GPIO_REG_READ_def GPIO_REG_WRITE_def echo_pending_def WDEW_feed still_def Let_def)

lemma ultra_fall:
  assumes "echo_pending (hw_o st)" "feed (hw_o st) (Reg WDEW_ADDR) = b # f" "UltraSensSts_o st = 1"
  shows "Hcsr04ResultRaw (ultraSCbkGpio st) = b - TimerOffset_o st"
    "pin_intr (of_nat HC_INPUT) (hw_o (ultraSCbkGpio st)) = GPIO_PIN_INTR_DISABLE"
    "posts (hw_o (ultraSCbkGpio st)) = posts (hw_o st) @ [Post 1 0 0]"
  using assms
  by (simp_all add: ultraSCbkGpio_def GPIO_REG_READ_def GPIO_REG_WRITE_def echo_pending_def WDEW_feed still_def Let_def)

interpretation ultra: echo_sensor ultraSStart ultraSCbkGpio UltraSensSts_o TimerOffset_o Hcsr04ResultRaw hw_o "\<lambda>_. Post 1 0 0"
  by unfold_locales (simp_all add: ultra_start ultra_rise ultra_fall)

section \<open>The two DHT drivers compared\<close>

fun dev_state :: "DhtState \<Rightarrow> SensorSts_t" where
  "dev_state IDLE_o = IDLE"
| "dev_state PREP_o = PREP"
| "dev_state MEAS_o = MEAS"
| "dev_state COMPL_o = COMPL"
| "dev_state ERR_o = ERR"

fun_cases dev_stateE [elim!]:
  "dev_state s = IDLE" "dev_state s = PREP" "dev_state s = MEAS" "dev_state s = COMPL" "dev_state s = ERR"

definition same_world :: "mach \<Rightarrow> mach \<Rightarrow> bool" where
  "same_world s t \<longleftrightarrow> cur s = cur t \<and> feed s = feed t"

text \<open>The same reading in progress: the intervals of one driver are those of the other modulo 256.\<close>

definition alike :: "orai \<Rightarrow> app \<Rightarrow> bool" where
  "alike st d \<longleftrightarrow> same_world (hw_o st) (hw d) \<and> DhtResultIdx_o st = DhtResultIdx d \<and>
     DhtResult_o st = map ucast (DhtResult d) \<and> DhtTimeOffset_o st = DhtTimeOffset d \<and>
     dev_state (state_o (DhtHandle_o st)) = state (DhtHandle d)"

text \<open>A driver that has a whole frame holds the values decoded from it.\<close>

definition decoded_dev :: "app \<Rightarrow> bool" where
  "decoded_dev d \<longleftrightarrow> (DhtResultIdx d > 41 \<longrightarrow> (let r = decode_result (DhtResult d) in
     DhtTemp (DhtHandle d) = dht_temp (raw16 (r ! 2) (r ! 3)) \<and> DhtHum (DhtHandle d) = dht_hum (raw16 (r ! 0) (r ! 1))))"

definition decoded_orai :: "orai \<Rightarrow> bool" where
  "decoded_orai st \<longleftrightarrow> (DhtResultIdx_o st > 41 \<longrightarrow> (let r = decode_result (map ucast (DhtResult_o st)) in
     DhtTemp_o (DhtHandle_o st) = dht_temp (raw16 (r ! 2) (r ! 3)) \<and> DhtHum_o (DhtHandle_o st) = dht_hum (raw16 (r ! 0) (r ! 1))))"

lemma same_world_emit [simp]: "same_world (emit e s) t = same_world s t" "same_world s (emit e t) = same_world s t"
  by (simp_all add: same_world_def)

lemma same_world_sample:
  assumes "same_world s t" "sample p s = (v, s')"
  obtains t' where "sample p t = (v, t')" "same_world s' t'"
  using assms by (auto simp: same_world_def sample_def split: list.splits)

lemmas same_world_reads = same_world_sample [where p = "Reg a" for a, folded READ_PERI_REG_def]

lemma dhtProcess_effect:
  fixes st :: orai
  defines "r \<equiv> decode_result (map ucast (DhtResult_o st))"
  shows "cur (hw_o (dhtProcess st)) = cur (hw_o st)" "feed (hw_o (dhtProcess st)) = feed (hw_o st)"
    "DhtResultIdx_o (dhtProcess st) = DhtResultIdx_o st" "DhtResult_o (dhtProcess st) = DhtResult_o st"
    "DhtTimeOffset_o (dhtProcess st) = DhtTimeOffset_o st"
    "DhtTemp_o (DhtHandle_o (dhtProcess st)) = dht_temp (raw16 (r ! 2) (r ! 3))"
    "DhtHum_o (DhtHandle_o (dhtProcess st)) = dht_hum (raw16 (r ! 0) (r ! 1))"
  by (simp_all add: dhtProcess_def Let_def r_def)

lemma DhtProcess_offset: "DhtTimeOffset (DhtProcess st) = DhtTimeOffset st"
  by (simp add: DhtProcess_def Let_def say_def)

text \<open>One interrupt keeps the two drivers alike.\<close>

lemma alike_step:
  assumes "alike st d" "decoded_dev d" "decoded_orai st" "DhtGpioCbk d = Some d'"
  shows "\<exists>st'. dhtGpioCbk st = Some st' \<and> alike st' d' \<and> decoded_dev d' \<and> decoded_orai st'"
proof -
  obtain g s1 where g: "READ_PERI_REG (GPIO_BASE + GPIO_STATUS_ADDRESS) (hw d) = (g, s1)" by (cases "READ_PERI_REG (GPIO_BASE + GPIO_STATUS_ADDRESS) (hw d)")
  have w: "same_world (hw d) (hw_o st)" using assms(1) by (simp add: alike_def same_world_def)
  obtain t1 where t1: "READ_PERI_REG (GPIO_BASE + GPIO_STATUS_ADDRESS) (hw_o st) = (g, t1)" "same_world s1 t1"
    using same_world_reads [OF w g] .
  obtain a s2 where a: "WDEW_NOW s1 = (a, s2)" by (cases "WDEW_NOW s1")
  obtain t2 where t2: "WDEW_NOW t1 = (a, t2)" "same_world s2 t2"
    using same_world_reads [OF t1(2) a [unfolded WDEW_NOW_def]] unfolding WDEW_NOW_def .
  obtain b s3 where b: "WDEW_NOW s2 = (b, s3)" by (cases "WDEW_NOW s2")
  obtain t3 where t3: "WDEW_NOW t2 = (b, t3)" "same_world s3 t3"
    using same_world_reads [OF t2(2) b [unfolded WDEW_NOW_def]] unfolding WDEW_NOW_def .
  have sym: "same_world t1 s1" "same_world t3 s3" using t1(2) t3(2) by (simp_all add: same_world_def)
  note fields = assms(1) [unfolded alike_def]
  show ?thesis
  proof (cases "g AND BIT DHT_PIN = 0")
    case True
    then show ?thesis
      using assms g t1 sym fields
      by (auto simp: DhtGpioCbk_def dhtGpioCbk_def GPIO_REG_READ_def Let_def alike_def decoded_dev_def decoded_orai_def)
  next
    case False
    then have i: "unat (DhtResultIdx d) < length (DhtResult d)"
      using assms(4) g a by (simp add: DhtGpioCbk_def GPIO_REG_READ_def Let_def split: if_splits)
    show ?thesis
      using False i assms(4) g a b t1 t2 t3 sym fields
      by (cases "41 < DhtResultIdx d + 1") (auto simp: DhtGpioCbk_def dhtGpioCbk_def GPIO_REG_READ_def GPIO_REG_WRITE_def Let_def alike_def decoded_dev_def
          decoded_orai_def DhtProcess_effect dhtProcess_effect DhtProcess_offset
          ETS_INTR_DISABLE_def map_update same_world_def WRITE_PERI_REG_def)
  qed
qed

text \<open>The main task of either application sees a completed reading when the other does.\<close>

lemma alike_complete: "alike st d \<Longrightarrow> state (DhtHandle d) = COMPL \<longleftrightarrow> state_o (DhtHandle_o st) = COMPL_o"
  by (auto simp: alike_def dest: sym)

primrec orai_edges :: "nat \<Rightarrow> orai \<Rightarrow> orai option" where
  "orai_edges 0 st = Some st"
| "orai_edges (Suc n) st = do { st \<leftarrow> orai_edges n st; dhtGpioCbk st }"

lemma alike_edges:
  assumes "alike st d" "decoded_dev d" "decoded_orai st" "dht_edges n d = Some d'"
  shows "\<exists>st'. orai_edges n st = Some st' \<and> alike st' d' \<and> decoded_dev d' \<and> decoded_orai st'"
  using assms(4)
proof (induction n arbitrary: d')
  case 0
  then show ?case using assms by simp
next
  case (Suc n)
  then obtain d1 where d1: "dht_edges n d = Some d1" "DhtGpioCbk d1 = Some d'" by (auto simp: bind_eq_Some_conv)
  from Suc.IH [OF d1(1)] obtain st1 where st1: "orai_edges n st = Some st1" "alike st1 d1" "decoded_dev d1" "decoded_orai st1"
    by blast
  from alike_step [OF st1(2-4) d1(2)] st1(1) show ?case by auto
qed

text \<open>Intervals below 256 microseconds survive the conversion to a byte.\<close>

lemma byte_interval: "x < 256 \<Longrightarrow> (ucast (ucast x :: u8) :: u32) = x" for x :: u32
  by (simp add: word_unat_eq_iff word_less_nat_alt unsigned_ucast_eq unsigned_take_bit_eq take_bit_nat_eq_self)

lemma decode_bytes:
  assumes "length xs = 42" "\<forall>x\<in>set (drop 2 xs). x < 256"
  shows "decode_result (map ucast (map ucast xs :: u8 list)) = decode_result xs"
proof -
  have "(ucast (ucast (xs ! j) :: u8) :: u32) = xs ! j" if "2 \<le> j" "j < 42" for j
  proof (rule byte_interval)
    have "drop 2 xs ! (j - 2) = xs ! (2 + (j - 2))" using that assms(1) by (intro nth_drop) simp
    moreover have "2 + (j - 2) = j" using that by simp
    ultimately have "drop 2 xs ! (j - 2) = xs ! j" by (simp only:)
    moreover have "j - 2 < length (drop 2 xs)" using that assms(1) by simp
    ultimately have "xs ! j \<in> set (drop 2 xs)" by (metis nth_mem)
    then show "xs ! j < 256" using assms(2) by blast
  qed
  then have "decode_byte (map ucast (map ucast xs :: u8 list)) (2 + 8 * i) = decode_byte xs (2 + 8 * i)" if "i < 5" for i
    using that assms(1) by (intro bit_word_eqI) (auto simp: bit_decode_byte)
  then show ?thesis by (simp add: decode_result_eq)
qed

lemma edges_alike_values:
  assumes "alike st d" "DhtResultIdx d < 42" "length (DhtResult d) = 42"
    and "dht_edges n d = Some d'" "DhtResultIdx d' = 42" "\<forall>x\<in>set (drop 2 (DhtResult d')). x < 256"
  shows "\<exists>st'. orai_edges n st = Some st' \<and> DhtTemp_o (DhtHandle_o st') = DhtTemp (DhtHandle d') \<and>
    DhtHum_o (DhtHandle_o st') = DhtHum (DhtHandle d') \<and> dev_state (state_o (DhtHandle_o st')) = state (DhtHandle d')"
proof -
  have "\<not> DhtResultIdx d > 41" using assms(2) by (simp add: word_less_nat_alt not_less)
  then have "decoded_dev d" "decoded_orai st" using assms(1) by (simp_all add: decoded_dev_def decoded_orai_def alike_def)
  from alike_edges [OF assms(1) this assms(4)] obtain st' where
    st': "orai_edges n st = Some st'" "alike st' d'" "decoded_dev d'" "decoded_orai st'" by blast
  have "length (DhtResult d') = 42" using dht_edges_length [OF assms(4)] assms(3) by simp
  from decode_bytes [OF this assms(6)] st' assms(5) show ?thesis
    by (auto simp: alike_def decoded_dev_def decoded_orai_def Let_def)
qed

section \<open>Properties\<close>

text \<open>
  C19. Second application, equivalence: its DHT driver, which keeps the intervals in bytes, reads
  what the driver of development/user reads. When both are at the same point of a reading and get
  the same \<open>n\<close> interrupts, after which a whole frame is in the array, with every data interval
  below 256 microseconds, both hold the same temperature, humidity and state.
\<close>

theorem orai_reads_like_dev:
  assumes "alike st d" "DhtResultIdx d < 42" "length (DhtResult d) = 42"
    and "dht_edges n d = Some d'" "DhtResultIdx d' = 42" "\<forall>x\<in>set (drop 2 (DhtResult d')). x < 256"
  shows "\<exists>st'. orai_edges n st = Some st' \<and> DhtTemp_o (DhtHandle_o st') = DhtTemp (DhtHandle d') \<and>
    DhtHum_o (DhtHandle_o st') = DhtHum (DhtHandle d') \<and> dev_state (state_o (DhtHandle_o st')) = state (DhtHandle d')"
  using edges_alike_values [OF assms] .

definition orai_example :: orai where
  "orai_example = orai0\<lparr>hw_o := hw dht_example\<rparr>"

theorem orai_reads_like_dev_witness:
  "\<exists>st'. orai_edges 42 orai_example = Some st' \<and> DhtTemp_o (DhtHandle_o st') = dht_temp (raw16 1 95)"
proof -
  from edges_decode [OF dht_example_hyps] obtain d' where d': "dht_edges 42 dht_example = Some d'"
    "DhtResult d' = intervals (DhtTimeOffset dht_example) example_times" "DhtResultIdx d' = 42"
    "DhtTemp (DhtHandle d') = dht_temp (raw16 1 95)" by auto
  have "\<forall>x\<in>set (drop 2 (DhtResult d')). x < 256"
    unfolding d'(2) by (auto simp: dht_example_def app0_def example_times_def intervals_zero simp flip: map_append)
  moreover have "alike orai_example dht_example"
    by (simp add: alike_def orai_example_def orai0_def dht_example_def app0_def same_world_def)
  moreover have "DhtResultIdx dht_example < 42" "length (DhtResult dht_example) = 42"
    by (simp_all add: dht_example_def app0_def)
  ultimately show ?thesis using orai_reads_like_dev [of orai_example dht_example 42 d'] d' by auto
qed

end
