(* ===== verification/OraiNet.thy ===== *)
theory OraiNet
  imports OraiDht
begin

text \<open>
  The network side of orai_munka/user: daemon-handle.c (the TCP connection over which the daemon
  asks for a reading) and heartbeat.c (the UDP heart beat), and the protocol with the daemon as a
  step relation.
\<close>

section \<open>Calls of the espconn library and strings in memory\<close>

definition esp_status_o :: "orai \<Rightarrow> u8 \<times> orai" where
  "esp_status_o st = (case sample EspStatus (hw_o st) of (v, s) \<Rightarrow> (ucast v, st\<lparr>hw_o := s\<rparr>))"

definition esp_call_o :: "string \<Rightarrow> int list \<Rightarrow> string \<Rightarrow> orai \<Rightarrow> u8 \<times> orai" where
  "esp_call_o name nums bytes st = esp_status_o (via (emit (Net name nums bytes)) st)"

definition esp_regist_o :: "string \<Rightarrow> cfun \<Rightarrow> orai \<Rightarrow> u8 \<times> orai" where
  "esp_regist_o name f st = esp_status_o (via (emit (EspRegist name f)) st)"

definition complain_o :: "string \<Rightarrow> u8 \<times> orai \<Rightarrow> orai" where
  "complain_o msg r = (case r of (status, st) \<Rightarrow> if status \<noteq> 0 then say_o msg [] st else st)"

definition os_zalloc_o :: "orai \<Rightarrow> u32 \<times> orai" where
  "os_zalloc_o st = (case sample HeapPtr (hw_o st) of (p, s) \<Rightarrow> (p, st\<lparr>hw_o := s\<rparr>))"

text \<open>The C string at the start of a piece of memory, \<open>None\<close> when it has no zero byte.\<close>

definition c_string :: "string \<Rightarrow> string option" where
  "c_string mem = (if CHR 0x00 \<in> set mem then Some (takeWhile (\<lambda>c. c \<noteq> CHR 0x00) mem) else None)"

text \<open>A local buffer of 64 bytes after \<open>os_memcpy(buf, pdata, len)\<close>, with the stack behind it.\<close>

definition copied :: "string \<Rightarrow> nat \<Rightarrow> orai \<Rightarrow> string option" where
  "copied pdata len st =
    (if len > 64 \<or> len > length pdata then None else Some (take len pdata @ drop len (stack_o st)))"

section \<open>user/daemon-handle.c\<close>

text \<open>
  The argument is the null pointer (\<open>None\<close>) or the memory it points to. What is sent of it is
  \<open>sizeof(data)\<close> bytes, the size of the pointer. Printing the string at a null pointer faults.
\<close>

definition daemonRequest_o :: "string option \<Rightarrow> orai \<Rightarrow> orai option" where
  "daemonRequest_o data st =
    (let st = (if daemonSts_o st = 0
               then complain_o ''Espconn send tcp fail'' (esp_call_o ''espconn_send'' [10] ''DAEMON_ASK'' st)
               else st)
     in if daemonSts_o st = 1
        then let st = snd (esp_call_o ''espconn_connect'' [] [] st) in
          do { mem \<leftarrow> data;
               text \<leftarrow> c_string mem;
               if length mem < 4 then None
               else let st = complain_o ''Espconn send tcp fail'' (esp_call_o ''espconn_send'' [4] (take 4 mem) st);
                        st = via (emit (PrintStr ''Espconn dht tcp ok data: %s'' text)) st
                    in Some (st\<lparr>daemonSts_o := daemonSts_o st + 1\<rparr>) }
        else Some st)"

definition daemonHandleAnswer_o :: "string \<Rightarrow> nat \<Rightarrow> orai \<Rightarrow> orai option" where
  "daemonHandleAnswer_o pdata len st =
    do { mem \<leftarrow> copied pdata len st;
         buf \<leftarrow> c_string mem;
         Some (if strstr buf ''DHT_GET''
               then let st = say_o ''GOT DhT'' [] st
                    in dhtStart (st\<lparr>daemonSts_o := daemonSts_o st + 1\<rparr>)
               else if strstr buf ''OK'' then (say_o ''GOT DhT ACK'' [] st)\<lparr>daemonSts_o := 0\<rparr>
               else say_o ''Unhandled answer'' [] st) }"

definition daemonConnCbk_o :: "orai \<Rightarrow> orai option" where
  "daemonConnCbk_o st = daemonRequest_o None (say_o ''daemon Connect cbk'' [] st)"

definition daemonConRecvCbk_o :: "string \<Rightarrow> nat \<Rightarrow> orai \<Rightarrow> orai option" where
  "daemonConRecvCbk_o pdata len st = daemonHandleAnswer_o pdata len (say_o ''daemon Connect receive cbk'' [] st)"

definition daemonReconnCbk_o :: "orai \<Rightarrow> orai option" where
  "daemonReconnCbk_o st = daemonRequest_o None (say_o ''daemon ReConnect cbk'' [] st)"

definition daemonDiscCbk_o :: "orai \<Rightarrow> orai" where
  "daemonDiscCbk_o st = say_o ''daemon DisConnect cbk'' [] st"

definition daemonWriteFinishCbk_o :: "orai \<Rightarrow> orai" where
  "daemonWriteFinishCbk_o st = say_o ''daemon writefinish cbk'' [] st"

definition daemonConInit_o :: "orai \<Rightarrow> orai option" where
  "daemonConInit_o st =
    (case os_zalloc_o st of (p, st) \<Rightarrow>
      if p = 0 then None
      else
        let st = st\<lparr>daemonHandler_o := (daemonHandler_o st)\<lparr>
                   proto := Some \<lparr>remote_port = 13001, local_port = 13001, remote_ip = daemon_ip\<rparr>\<rparr>\<rparr>;
            st = st\<lparr>daemonHandler_o := (daemonHandler_o st)\<lparr>conn_type := Some ESPCONN_TCP\<rparr>\<rparr>;
            st = complain_o ''EspConn Create ConnCbk Fail, code %d'' (esp_regist_o ''espconn_regist_connectcb'' C_daemonConnCbk st);
            st = complain_o ''EspConn Create ConnCbk Fail, code %d'' (esp_regist_o ''espconn_regist_recvcb'' C_daemonConRecvCbk st);
            st = complain_o ''EspConn Create ReconnCbk Fail, code %d'' (esp_regist_o ''espconn_regist_reconcb'' C_daemonReconnCbk st);
            st = complain_o ''EspConn Create DiscCbk Fail, code %d'' (esp_regist_o ''espconn_regist_disconcb'' C_daemonDiscCbk st);
            st = complain_o ''EspConn Create FinishCbk Fail, code %d'' (esp_regist_o ''espconn_regist_write_finish'' C_daemonWriteFinishCbk st);
            st = complain_o ''EspConn Create Udp Heartbeat Fail, code %d'' (esp_call_o ''espconn_connect'' [] [] st);
            st = say_o ''TcpDaemonCallbackInitDone'' [] st
        in Some (st\<lparr>daemonSts_o := 0\<rparr>))"

section \<open>user/heartbeat.c\<close>

text \<open>
  \<open>espconn_get_connection_info\<close> leaves the pointer null or sets it to the address and the port
  of the sender.
\<close>

definition conn_info :: "nat \<Rightarrow> orai \<Rightarrow> u32 \<times> orai" where
  "conn_info k st = (case sample (ConnInfo k) (hw_o st) of (v, s) \<Rightarrow> (v, st\<lparr>hw_o := s\<rparr>))"

definition heartBeatConCbk :: "string \<Rightarrow> nat \<Rightarrow> orai \<Rightarrow> orai option" where
  "heartBeatConCbk pdata len st =
    (let st = snd (esp_call_o ''espconn_get_connection_info'' [0] [] st)
     in case conn_info 0 st of (pcon_info, st) \<Rightarrow>
       if pcon_info = 0 then None
       else
         case conn_info 1 st of (ip0, st) \<Rightarrow>
         case conn_info 2 st of (ip1, st) \<Rightarrow>
         case conn_info 3 st of (ip2, st) \<Rightarrow>
         case conn_info 4 st of (ip3, st) \<Rightarrow>
         let st = say_o ''Remote IP: %d,%d,%d,%d'' [uint ip0, uint ip1, uint ip2, uint ip3] st
         in case conn_info 5 st of (port, st) \<Rightarrow>
         let st = say_o ''Remote port: %d Data:'' [sint port] st
         in do { mem \<leftarrow> copied pdata len st;
                 buf \<leftarrow> c_string mem;
                 Some (via (emit (PrintStr ''%s'' buf)) st) })"

definition heartBeatDcCbk :: "orai \<Rightarrow> orai" where
  "heartBeatDcCbk st = say_o ''Disconnect initiated'' [] st"

definition UdpHeartBeatTimerCbk :: "orai \<Rightarrow> orai" where
  "UdpHeartBeatTimerCbk st = snd (esp_call_o ''espconn_sendto'' [10] ''Helloworld'' st)"

definition HEARTB_DELAY_TIME :: u32 where "HEARTB_DELAY_TIME = 1000"
definition DAEMON_REMOTE_PORT :: int where "DAEMON_REMOTE_PORT = 13000"

definition initUdpHeartBeat :: "orai \<Rightarrow> orai option" where
  "initUdpHeartBeat st =
    (case os_zalloc_o st of (p, st) \<Rightarrow>
      if p = 0 then None
      else
        let st = st\<lparr>heartBeatUdpHandler := (heartBeatUdpHandler st)\<lparr>
                   proto := Some \<lparr>remote_port = DAEMON_REMOTE_PORT, local_port = 13000, remote_ip = daemon_ip\<rparr>\<rparr>\<rparr>;
            st = st\<lparr>heartBeatUdpHandler := (heartBeatUdpHandler st)\<lparr>conn_type := Some ESPCONN_UDP\<rparr>\<rparr>;
            st = st\<lparr>heartBeatUdpHandler := (heartBeatUdpHandler st)\<lparr>recv_callback := Some C_heartBeatConCbk\<rparr>\<rparr>;
            st = snd (esp_call_o ''espconn_create'' [] [] st);
            st = via (emit (TimerSetfn T_heartBeatTimer C_UdpHeartBeatTimerCbk)) st
        in Some (via (emit (TimerArm T_heartBeatTimer HEARTB_DELAY_TIME True)) st))"

definition socketStarter :: "orai \<Rightarrow> orai option" where
  "socketStarter st =
    (let st = say_o ''Initializing sockets...'' [] st
     in do { st \<leftarrow> daemonConInit_o st; initUdpHeartBeat st })"

section \<open>What has been sent\<close>

definition sent :: "orai \<Rightarrow> (int list \<times> string) list" where
  "sent st = concat (map (\<lambda>e. case e of Net name n bytes \<Rightarrow> if name = ''espconn_send'' then [(n, bytes)] else [] | _ \<Rightarrow> [])
     (trace (hw_o st)))"

lemma sent_via [simp]:
  "sent (via (emit e) st) =
    sent st @ (case e of Net name n bytes \<Rightarrow> if name = ''espconn_send'' then [(n, bytes)] else [] | _ \<Rightarrow> [])"
  by (simp add: sent_def split: event.split)

lemma sent_fields [simp]:
  "sent (st\<lparr>daemonSts_o := v\<rparr>) = sent st" "sent (st\<lparr>printbuf_o := b\<rparr>) = sent st" "sent (st\<lparr>DhtHandle_o := h\<rparr>) = sent st"
  by (simp_all add: sent_def)

lemma sent_say [simp]: "sent (say_o m a st) = sent st"
  by (simp add: say_o_def)

lemma say_o_fields [simp]:
  "daemonSts_o (say_o m a st) = daemonSts_o st" "stack_o (say_o m a st) = stack_o st"
  "printbuf_o (say_o m a st) = printbuf_o st" "DhtHandle_o (say_o m a st) = DhtHandle_o st" "adr_o (say_o m a st) = adr_o st"
  by (simp_all add: say_o_def)

lemma copied_say [simp]: "copied pdata len (say_o m a st) = copied pdata len st"
  by (simp add: copied_def)

lemma esp_status_keeps:
  "esp_status_o st = (v, st') \<Longrightarrow> sent st' = sent st \<and> daemonSts_o st' = daemonSts_o st"
  by (auto simp: esp_status_o_def sent_def dest: sample_trace split: prod.splits)

lemma esp_call_keeps:
  "esp_call_o name n bytes st = (v, st') \<Longrightarrow>
    sent st' = sent st @ (if name = ''espconn_send'' then [(n, bytes)] else []) \<and> daemonSts_o st' = daemonSts_o st"
  by (auto simp: esp_call_o_def dest: esp_status_keeps)

lemma complain_keeps [simp]:
  "sent (complain_o m (esp_call_o name n bytes st)) = sent st @ (if name = ''espconn_send'' then [(n, bytes)] else [])"
  "daemonSts_o (complain_o m (esp_call_o name n bytes st)) = daemonSts_o st"
  "sent (snd (esp_call_o name n bytes st)) = sent st @ (if name = ''espconn_send'' then [(n, bytes)] else [])"
  "daemonSts_o (snd (esp_call_o name n bytes st)) = daemonSts_o st"
  using esp_call_keeps [of name n bytes st "fst (esp_call_o name n bytes st)" "snd (esp_call_o name n bytes st)"]
  by (cases "esp_call_o name n bytes st"; simp add: complain_o_def)+

lemma dhtStart_keeps [simp]: "sent (dhtStart st) = sent st" "daemonSts_o (dhtStart st) = daemonSts_o st"
proof -
  have p: "sent (via (PIN_FUNC_SELECT a f) st) = sent st" for a f st
    by (auto simp: sent_def PIN_FUNC_SELECT_def modify_reg_def READ_PERI_REG_def WRITE_PERI_REG_def
        dest: sample_trace split: prod.split)
  have g: "sent (via (GPIO_OUTPUT_SET a f) st) = sent st" for a f st
    by (simp add: sent_def GPIO_OUTPUT_SET_def)
  show "sent (dhtStart st) = sent st" "daemonSts_o (dhtStart st) = daemonSts_o st"
    by (simp_all add: dhtStart_def dhtInit_def Let_def p g)
qed

text \<open>The sensor driver neither sends nor touches the connection.\<close>

lemma said_cong: "trace (hw_o st') = trace (hw_o st) \<Longrightarrow> sent st' = sent st"
  by (simp add: sent_def)

definition apart :: "orai \<Rightarrow> orai \<Rightarrow> bool" where
  "apart st st' \<longleftrightarrow> sent st' = sent st \<and> daemonSts_o st' = daemonSts_o st \<and> printbuf_o st' = printbuf_o st \<and>
     adr_o st' = adr_o st"

lemma READ_trace: "READ_PERI_REG a s = (v, s') \<Longrightarrow> trace s' = trace s" "WDEW_NOW s = (v, s') \<Longrightarrow> trace s' = trace s"
  by (simp_all add: WDEW_NOW_def READ_PERI_REG_def sample_trace)

lemma apart_refl: "apart st st"
  and apart_trans: "apart st st' \<Longrightarrow> apart st' st'' \<Longrightarrow> apart st st''"
  by (simp_all add: apart_def)

lemma timer_apart: "apart st (dhtTimerCbk st)"
proof -
  have "apart st (dhtGpioCbkSetup st)" for st
    by (auto simp: apart_def dhtGpioCbkSetup_def Let_def ETS_INTR_DISABLE_def ETS_INTR_ENABLE_def GPIO_DIS_OUTPUT_def
        GPIO_REG_WRITE_def WRITE_PERI_REG_def sent_def dest!: READ_trace split: prod.split)
  then show ?thesis
    by (auto simp: dhtTimerCbk_def Let_def GPIO_DIS_OUTPUT_def GPIO_OUTPUT_SET_def
        intro!: apart_trans [where st' = "_ :: orai"] simp: apart_def sent_def)
qed

lemma edge_apart: "dhtGpioCbk st = Some st' \<Longrightarrow> apart st st'"
  by (auto simp: dhtGpioCbk_def dhtProcess_def apart_def GPIO_REG_READ_def GPIO_REG_WRITE_def WRITE_PERI_REG_def
      ETS_INTR_DISABLE_def Let_def sent_def dest!: READ_trace split: prod.splits if_splits)

lemma edges_apart: "orai_edges n st = Some st' \<Longrightarrow> apart st st'"
  by (induction n arbitrary: st') (auto simp: bind_eq_Some_conv apart_refl intro: apart_trans dest: edge_apart)

section \<open>The protocol\<close>

text \<open>The answer as the handler sees it, up to its zero byte or into the stack.\<close>

definition answer :: "string \<Rightarrow> orai \<Rightarrow> string option" where
  "answer pdata st = Option.bind (copied pdata (length pdata) st) c_string"

text \<open>
  The daemon connects, sends answers, the main task has a reading to report, and in between the
  rest of the program runs, which neither touches the status nor sends on the connection.
\<close>

datatype daemon_ev = Connected | Reconnected | Received string | Reading string | Elsewhere

inductive daemon_step :: "orai \<Rightarrow> daemon_ev \<Rightarrow> orai \<Rightarrow> bool" where
  connected: "daemonConnCbk_o st = Some st' \<Longrightarrow> daemon_step st Connected st'"
| reconnected: "daemonReconnCbk_o st = Some st' \<Longrightarrow> daemon_step st Reconnected st'"
| received: "daemonConRecvCbk_o pdata (length pdata) st = Some st' \<Longrightarrow> answer pdata st = Some buf \<Longrightarrow>
    daemon_step st (Received buf) st'"
| reading: "daemonRequest_o (Some mem) st = Some st' \<Longrightarrow> daemon_step st (Reading mem) st'"
| elsewhere: "sent st' = sent st \<Longrightarrow> daemonSts_o st' = daemonSts_o st \<Longrightarrow> daemon_step st Elsewhere st'"

inductive_simps daemon_step_simps [simp]:
  "daemon_step st Connected st'" "daemon_step st Reconnected st'" "daemon_step st (Received buf) st'"
  "daemon_step st (Reading mem) st'" "daemon_step st Elsewhere st'"

inductive daemon_run :: "orai \<Rightarrow> daemon_ev list \<Rightarrow> orai \<Rightarrow> bool" for st0 where
  start: "daemon_run st0 [] st0"
| step: "daemon_run st0 evs st \<Longrightarrow> daemon_step st e st' \<Longrightarrow> daemon_run st0 (evs @ [e]) st'"

lemma requests_without_data:
  "daemonRequest_o None st = Some st' \<Longrightarrow> daemonSts_o st \<noteq> 1 \<and> daemonSts_o st' = daemonSts_o st \<and>
    sent st' = sent st @ (if daemonSts_o st = 0 then [([10], ''DAEMON_ASK'')] else [])"
  by (auto simp: daemonRequest_o_def Let_def split: if_splits)

lemma requests_with_data:
  assumes "daemonRequest_o (Some mem) st = Some st'"
  shows "daemonSts_o st' = (if daemonSts_o st = 1 then 2 else daemonSts_o st) \<and>
    sent st' = sent st @ (if daemonSts_o st = 0 then [([10], ''DAEMON_ASK'')] else []) @
      (if daemonSts_o st = 1 then [([4], take 4 mem)] else [])"
proof (cases "daemonSts_o st = 1")
  case False
  then show ?thesis using assms by (cases "daemonSts_o st = 0") (auto simp: daemonRequest_o_def Let_def)
next
  case True
  then obtain cs where t: "c_string mem = Some cs" "\<not> length mem < 4"
    using assms by (auto simp: daemonRequest_o_def Let_def bind_eq_Some_conv split: if_splits)
  show ?thesis
    using assms by (auto simp: daemonRequest_o_def Let_def True t)
qed

lemma answers:
  assumes "daemonConRecvCbk_o pdata (length pdata) st = Some st'"
  shows "sent st' = sent st \<and> (\<exists>buf. answer pdata st = Some buf \<and>
    daemonSts_o st' = (if strstr buf ''DHT_GET'' then daemonSts_o st + 1 else if strstr buf ''OK'' then 0 else daemonSts_o st))"
proof -
  obtain mem buf where m: "copied pdata (length pdata) st = Some mem" "c_string mem = Some buf"
    using assms by (auto simp: daemonConRecvCbk_o_def daemonHandleAnswer_o_def bind_eq_Some_conv)
  then have st': "st' = (if strstr buf ''DHT_GET''
      then dhtStart ((say_o ''GOT DhT'' [] (say_o ''daemon Connect receive cbk'' [] st))\<lparr>daemonSts_o := daemonSts_o st + 1\<rparr>)
      else if strstr buf ''OK'' then (say_o ''GOT DhT ACK'' [] (say_o ''daemon Connect receive cbk'' [] st))\<lparr>daemonSts_o := 0\<rparr>
      else say_o ''Unhandled answer'' [] (say_o ''daemon Connect receive cbk'' [] st))"
    using assms unfolding daemonConRecvCbk_o_def daemonHandleAnswer_o_def by (auto simp: Let_def)
  show ?thesis unfolding st' by (simp add: answer_def m)
qed

text \<open>The answer to a request: the measurement is started.\<close>

lemma dhtStart_apart: "printbuf_o (dhtStart st) = printbuf_o st"
  by (simp add: dhtStart_def dhtInit_def Let_def)

lemma request_state:
  assumes "answer get st = Some b" "strstr b ''DHT_GET''"
  shows "daemonConRecvCbk_o get (length get) st =
    Some (dhtStart ((say_o ''GOT DhT'' [] (say_o ''daemon Connect receive cbk'' [] st))\<lparr>daemonSts_o := daemonSts_o st + 1\<rparr>))"
proof -
  from assms(1) obtain m where m: "copied get (length get) st = Some m" "c_string m = Some b"
    by (auto simp: answer_def bind_eq_Some_conv)
  show ?thesis
    unfolding daemonConRecvCbk_o_def daemonHandleAnswer_o_def by (simp add: m assms(2) Let_def)
qed

lemma answers_request:
  assumes "daemonSts_o st = 0" "answer get st = Some b" "strstr b ''DHT_GET''"
  shows "\<exists>st'. daemonConRecvCbk_o get (length get) st = Some st' \<and> daemonSts_o st' = 1 \<and> sent st' = sent st \<and>
    printbuf_o st' = printbuf_o st \<and> adr_o st' = adr_o st \<and> armed T_DhtTimer (hw_o st') \<and>
    state_o (DhtHandle_o st') = PREP_o"
  using request_state [OF assms(2,3)] by (simp add: assms(1) dhtStart_effect dhtStart_apart)

section \<open>Properties\<close>

definition gets :: "daemon_ev list \<Rightarrow> nat" where
  "gets evs = length (filter (\<lambda>e. case e of Received buf \<Rightarrow> strstr buf ''DHT_GET'' | _ \<Rightarrow> False) evs)"

definition readings :: "(int list \<times> string) list \<Rightarrow> nat" where
  "readings ms = length (filter (\<lambda>m. fst m = [4]) ms)"

lemma gets_simps [simp]: "gets [] = 0"
  "gets (evs @ [e]) = gets evs + (case e of Received buf \<Rightarrow> if strstr buf ''DHT_GET'' then 1 else 0 | _ \<Rightarrow> 0)"
  by (simp_all add: gets_def split: daemon_ev.split)

lemma readings_simps [simp]: "readings [] = 0" "readings (ms @ ns) = readings ms + readings ns"
  "readings ((n, b) # ms) = (if n = [4] then 1 else 0) + readings ms"
  by (simp_all add: readings_def)

text \<open>What a message on the connection can be.\<close>

definition allowed :: "daemon_ev list \<Rightarrow> int list \<times> string \<Rightarrow> bool" where
  "allowed evs m \<longleftrightarrow> m = ([10], ''DAEMON_ASK'') \<or> (\<exists>mem. Reading mem \<in> set evs \<and> m = ([4], take 4 mem))"

lemma allowed_mono: "allowed evs m \<Longrightarrow> allowed (evs @ [e]) m"
  by (auto simp: allowed_def)

lemma daemon_step_invariant:
  assumes "daemon_step st e st'" "readings (sent st) + (if daemonSts_o st = 1 then 1 else 0) \<le> gets evs"
    and "\<forall>m\<in>set (sent st). allowed evs m"
  shows "readings (sent st') + (if daemonSts_o st' = 1 then 1 else 0) \<le> gets (evs @ [e])"
    "\<forall>m\<in>set (sent st'). allowed (evs @ [e]) m"
proof -
  have "(readings (sent st') + (if daemonSts_o st' = 1 then 1 else 0) \<le> gets (evs @ [e])) \<and>
    (\<forall>m\<in>set (sent st'). allowed (evs @ [e]) m)"
  proof (cases e)
    case Connected
    then have "daemonRequest_o None (say_o ''daemon Connect cbk'' [] st) = Some st'" using assms(1) by (simp add: daemonConnCbk_o_def)
    from requests_without_data [OF this] assms(2,3) show ?thesis
      by (auto simp: Connected allowed_def split: if_splits)
  next
    case Reconnected
    then have "daemonRequest_o None (say_o ''daemon ReConnect cbk'' [] st) = Some st'" using assms(1) by (simp add: daemonReconnCbk_o_def)
    from requests_without_data [OF this] assms(2,3) show ?thesis
      by (auto simp: Reconnected allowed_def split: if_splits)
  next
    case (Received buf)
    then obtain pdata where p: "daemonConRecvCbk_o pdata (length pdata) st = Some st'" "answer pdata st = Some buf"
      using assms(1) by auto
    from answers [OF p(1)] p(2) assms(2,3) show ?thesis
      by (auto simp: Received allowed_mono split: if_splits)
  next
    case (Reading mem)
    then have "daemonRequest_o (Some mem) st = Some st'" using assms(1) by simp
    from requests_with_data [OF this] assms(2,3) show ?thesis
      by (auto simp: Reading allowed_def split: if_splits)
  next
    case Elsewhere
    then show ?thesis using assms by (simp add: allowed_mono)
  qed
  then show "readings (sent st') + (if daemonSts_o st' = 1 then 1 else 0) \<le> gets (evs @ [e])"
    "\<forall>m\<in>set (sent st'). allowed (evs @ [e]) m" by blast+
qed

text \<open>
  C8. Daemon connection of the second application, safety: on every run of callbacks and
  readings, in any order, the program never sends more readings than it has been asked for, and
  every message it sends is the greeting or the first four bytes of a reading.
\<close>

theorem daemon_never_unasked:
  assumes "daemon_run st0 evs st" "daemonSts_o st0 = 0" "sent st0 = []"
  shows "readings (sent st) \<le> gets evs \<and> (\<forall>m\<in>set (sent st). allowed evs m)"
proof -
  have "readings (sent st) + (if daemonSts_o st = 1 then 1 else 0) \<le> gets evs \<and> (\<forall>m\<in>set (sent st). allowed evs m)"
    using assms(1)
  proof (induction rule: daemon_run.induct)
    case start
    then show ?case using assms(2,3) by simp
  next
    case (step evs st e st')
    then show ?case using daemon_step_invariant [of st e st' evs] by blast
  qed
  then show ?thesis by (simp split: if_splits)
qed

text \<open>A second request before the reading is there leaves the reading unsent.\<close>

lemma second_request_blocks: "daemonSts_o st = 2 \<Longrightarrow> daemonRequest_o (Some mem) st = Some st"
  by (simp add: daemonRequest_o_def)

text \<open>A reconnection while a reading is asked for follows the null pointer.\<close>

lemma reconnect_faults: "daemonSts_o st = 1 \<Longrightarrow> daemonReconnCbk_o st = None"
  by (simp add: daemonReconnCbk_o_def daemonRequest_o_def)

text \<open>
  C29. Daemon connection of the second application, functional: one round. When the daemon asks,
  the measurement is started; the reading then goes out once, four bytes of it; the OK of the
  daemon makes the program ready for the next request.
\<close>

theorem daemon_round:
  assumes "daemonSts_o st = 0" "answer get st = Some b" "strstr b ''DHT_GET''" "c_string mem \<noteq> None" "4 \<le> length mem"
  shows "\<exists>st1 st2. daemonConRecvCbk_o get (length get) st = Some st1 \<and>
    armed T_DhtTimer (hw_o st1) \<and> state_o (DhtHandle_o st1) = PREP_o \<and> sent st1 = sent st \<and>
    daemonRequest_o (Some mem) st1 = Some st2 \<and> sent st2 = sent st @ [([4], take 4 mem)] \<and>
    (\<forall>ok st3 b'. answer ok st2 = Some b' \<and> strstr b' ''OK'' \<and> \<not> strstr b' ''DHT_GET'' \<and>
      daemonConRecvCbk_o ok (length ok) st2 = Some st3 \<longrightarrow> daemonSts_o st3 = 0 \<and> sent st3 = sent st2)"
proof -
  from answers_request [OF assms(1-3)] obtain st1 where
    1: "daemonConRecvCbk_o get (length get) st = Some st1" "daemonSts_o st1 = 1" "sent st1 = sent st"
      "armed T_DhtTimer (hw_o st1)" "state_o (DhtHandle_o st1) = PREP_o" by blast
  obtain st2 where 2: "daemonRequest_o (Some mem) st1 = Some st2"
    using assms(4,5) 1(2) by (auto simp: daemonRequest_o_def Let_def)
  have "sent st2 = sent st @ [([4], take 4 mem)]" using requests_with_data [OF 2] 1(2,3) by simp
  moreover have "daemonSts_o st3 = 0 \<and> sent st3 = sent st2" if "answer ok st2 = Some b'" "strstr b' ''OK''"
    "\<not> strstr b' ''DHT_GET''" "daemonConRecvCbk_o ok (length ok) st2 = Some st3" for ok st3 b'
    using answers [OF that(4)] that(1-3) by simp
  ultimately show ?thesis using 1 2 by auto
qed

definition zero_ended :: "string \<Rightarrow> string" where "zero_ended s = s @ [CHR 0x00]"

lemma zero_ended_simps [simp]: "CHR 0x00 \<notin> set s \<Longrightarrow> c_string (zero_ended s) = Some s" "length (zero_ended s) = Suc (length s)"
  by (induction s) (auto simp: zero_ended_def c_string_def)

lemma answer_zero_ended: "CHR 0x00 \<notin> set s \<Longrightarrow> length s < 64 \<Longrightarrow> answer (zero_ended s) st = Some s"
  by (auto simp: answer_def copied_def zero_ended_def c_string_def takeWhile_append)

theorem daemon_round_witness:
  "\<exists>st1 st2. daemonConRecvCbk_o (zero_ended ''DHT_GET'') (length (zero_ended ''DHT_GET'')) orai0 = Some st1 \<and>
    daemonRequest_o (Some (zero_ended ''TEMP:21,50'')) st1 = Some st2 \<and> sent st2 = [([4], ''TEMP'')]"
proof -
  have "answer (zero_ended ''DHT_GET'') orai0 = Some ''DHT_GET''" by (intro answer_zero_ended) simp_all
  moreover have "daemonSts_o orai0 = 0" "sent orai0 = []" by (simp_all add: orai0_def sent_def)
  moreover have "take 4 (zero_ended ''TEMP:21,50'') = ''TEMP''" by (simp add: zero_ended_def)
  ultimately show ?thesis
    using daemon_round [of orai0 "zero_ended ''DHT_GET''" "''DHT_GET''" "zero_ended ''TEMP:21,50''"] by auto
qed

theorem daemon_never_unasked_witness:
  "\<exists>evs st. daemon_run orai0 evs st \<and> Received ''DHT_GET'' \<in> set evs \<and> readings (sent st) \<le> gets evs"
proof -
  have "answer (zero_ended ''DHT_GET'') orai0 = Some ''DHT_GET''" by (intro answer_zero_ended) simp_all
  then obtain st where st: "daemonConRecvCbk_o (zero_ended ''DHT_GET'') (length (zero_ended ''DHT_GET'')) orai0 = Some st"
    by (auto simp: daemonConRecvCbk_o_def daemonHandleAnswer_o_def answer_def bind_eq_Some_conv)
  then have "daemon_run orai0 ([] @ [Received ''DHT_GET'']) st"
    using \<open>answer _ _ = _\<close> by (intro daemon_run.step [OF daemon_run.start] daemon_step.received)
  moreover have "daemonSts_o orai0 = 0" "sent orai0 = []" by (simp_all add: orai0_def sent_def)
  ultimately show ?thesis using daemon_never_unasked [of orai0 "[] @ [Received ''DHT_GET'']" st]
    by (intro exI [of _ "[Received ''DHT_GET'']"] exI [of _ st]) simp
qed

end
