(* ===== verification/OraiMain.thy ===== *)
theory OraiMain
  imports OraiNet UserMain
begin

text \<open>
  The main program of orai_munka/user: utils.c (the blinking LED, the station set-up) and
  user_main.c (start-up and the main task, which formats a reading and hands it to the daemon
  connection).
\<close>

section \<open>user/utils.c\<close>

definition LED_BLINKY_TIME :: u32 where "LED_BLINKY_TIME = 2300"

definition heartBeat :: "orai \<Rightarrow> orai" where
  "heartBeat st =
    (let st = via (GPIO_OUTPUT_SET 12 (ucast (led_state_o st))) st;
         st = st\<lparr>led_state_o := led_state_o st XOR 1\<rparr>
     in say_o ''heartBeat!'' [] st)"

definition initBlinky :: "orai \<Rightarrow> orai" where
  "initBlinky st =
    (let st = via (emit (DivModify 0 (UART_CLK_FREQ div 115200))) st;
         st = st\<lparr>led_state_o := 0\<rparr>;
         st = via (PIN_FUNC_SELECT PERIPHS_IO_MUX_MTDI_U FUNC_GPIO12) st;
         st = via (emit (TimerSetfn T_blinkTimer C_heartBeat)) st
     in via (emit (TimerArm T_blinkTimer LED_BLINKY_TIME True)) st)"

text \<open>
  \<open>os_memcpy\<close> takes 32 and 64 bytes from local arrays of nine, so it goes on into what the stack
  holds behind them; \<open>None\<close> when that is not known.
\<close>

definition copy_from :: "nat \<Rightarrow> string \<Rightarrow> string \<Rightarrow> string option" where
  "copy_from n arr behind = (if n \<le> length (arr @ behind) then Some (take n (arr @ behind)) else None)"

definition initConnection :: "orai \<Rightarrow> orai option" where
  "initConnection st =
    (let st = via (emit (Net ''wifi_set_opmode'' [1] [])) st;
         st = via (emit (Net ''wifi_softap_dhcps_stop'' [] [])) st
     in do { ssid \<leftarrow> copy_from 32 (''navtah10'' @ [CHR 0x00]) (after_ssid st);
             password \<leftarrow> copy_from 64 (''qwas1234'' @ [CHR 0x00]) (after_password st);
             Some (via (emit (Net ''wifi_station_set_config'' [0] (ssid @ password))) st) })"

definition initUtils :: "orai \<Rightarrow> orai option" where
  "initUtils st = initConnection (initBlinky st)"

section \<open>user/user_main.c\<close>

definition MAIN_TASK_Q_SIZE_o :: nat where "MAIN_TASK_Q_SIZE_o = 2"

definition user_rf_cal_sector_set_o :: "orai \<Rightarrow> u32 \<times> orai" where
  "user_rf_cal_sector_set_o st =
    (case sample FlashMap (hw_o st) of (size_map, s) \<Rightarrow>
      (if size_map = FLASH_SIZE_4M_MAP_256_256 then 128 - 5
       else if size_map = FLASH_SIZE_8M_MAP_512_512 then 256 - 5
       else if size_map = FLASH_SIZE_16M_MAP_512_512 \<or> size_map = FLASH_SIZE_16M_MAP_1024_1024 then 512 - 5
       else if size_map = FLASH_SIZE_32M_MAP_512_512 \<or> size_map = FLASH_SIZE_32M_MAP_1024_1024 then 1024 - 5
       else 0, st\<lparr>hw_o := s\<rparr>))"

text \<open>\<open>os_sprintf\<close> into the array \<open>printbuf\<close> of 32 bytes; \<open>None\<close> when the text does not fit.\<close>

definition sprintf_o :: "string \<Rightarrow> orai \<Rightarrow> orai option" where
  "sprintf_o s st =
    (if length s < length (printbuf_o st)
     then Some (st\<lparr>printbuf_o := s @ [CHR 0x00] @ drop (Suc (length s)) (printbuf_o st)\<rparr>) else None)"

definition print_o :: "string \<Rightarrow> orai \<Rightarrow> orai option" where
  "print_o fmt st = do { s \<leftarrow> c_string (printbuf_o st); Some (via (emit (PrintStr fmt s)) st) }"

definition shown_float :: "rat \<Rightarrow> string" where
  "shown_float x = fmt_d (whole x) @ '','' @ fmt_d (hundredths x)"

definition mainTask_o :: "u32 \<Rightarrow> orai \<Rightarrow> orai option" where
  "mainTask_o par st =
    (let st = say_o ''mainTask running...'' [] st
     in if par = 0 then Some st
        else if par \<noteq> adr_o st then None
        else case state_o (DhtHandle_o st) of
          ERR_o \<Rightarrow> Some (dhtStart (say_o ''Error in dht reading'' [] st))
        | COMPL_o \<Rightarrow>
            do { st \<leftarrow> sprintf_o (shown_float (DhtHum_o (DhtHandle_o st))) st;
                 st \<leftarrow> print_o ''DhtHum: %s'' st;
                 st \<leftarrow> sprintf_o (''TEMP:'' @ shown_float (DhtTemp_o (DhtHandle_o st))) st;
                 st \<leftarrow> print_o ''%s'' st;
                 daemonRequest_o (Some (printbuf_o st)) st }
        | _ \<Rightarrow> Some (say_o ''Default state'' [] st))"

definition user_init_o :: "orai \<Rightarrow> orai option" where
  "user_init_o st =
    do { st \<leftarrow> initUtils st;
         let st = via (emit (TaskCreate C_mainTask MAIN_TASK_PRIO MAIN_TASK_Q_SIZE_o)) st;
             st = dhtStart st;
             st = via (emit (TimerSetfn T_daemonStartTimer C_socketStarter)) st
         in Some (via (emit (TimerArm T_daemonStartTimer 6000 False)) st) }"

section \<open>The retry after a timeout\<close>

interpretation orai_retry: retried_reading dhtStart dhtTimerCbk "\<lambda>st. TimeoutCnt (DhtHandle_o st)" DHT_TIMEOUT hw_o T_DhtTimer
  "\<lambda>st. state_o (DhtHandle_o st) = PREP_o" "\<lambda>st. state_o (DhtHandle_o st) = ERR_o" "\<lambda>st. Post 0 0 (adr_o st)"
  "\<lambda>e st. case e of Post _ sig par \<Rightarrow> mainTask_o par st | _ \<Rightarrow> None" "\<lambda>e. \<exists>par. e = Post 0 0 par \<and> par \<noteq> 0"
  by unfold_locales (auto simp: mainTask_o_def Let_def dhtStart_effect)

text \<open>The second application recovers from a silent sensor in the same way.\<close>

lemma orai_retries:
  assumes "adr_o st \<noteq> 0"
  shows "\<exists>st'. mainTask_o (adr_o st) ((dhtTimerCbk ^^ 11) (dhtStart st)) = Some st' \<and>
    armed T_DhtTimer (hw_o st') \<and> state_o (DhtHandle_o st') = PREP_o"
  using orai_retry.retried [of st, unfolded dht_limit] assms by auto

section \<open>The text of a reading\<close>

lemma fmt_d_short: "\<bar>i\<bar> < 10000 \<Longrightarrow> length (fmt_d i) \<le> 5"
  using length_digits [of "nat \<bar>i\<bar>" 3] by (cases "i < 0") (simp_all add: fmt_d_def le_SucI nat_less_iff)

lemma fmt_d_no_zero: "CHR 0x00 \<notin> set (fmt_d i)"
  by (simp add: fmt_d_def digits_no_zero)

lemma tenths_range:
  assumes "n < 65536" "x = tenths1 n \<or> x = tenths2 n"
  shows "\<bar>whole x\<bar> < 10000" "\<bar>hundredths x\<bar> < 10000"
proof -
  have h: "shown (hundredths x) (n mod 10)" and w: "whole x = int (n div 10)"
    using tenths_shown [OF assms(1)] assms(2) by auto
  show "\<bar>whole x\<bar> < 10000" using w assms(1) by simp
  have "n mod 10 < 10" by simp
  then show "\<bar>hundredths x\<bar> < 10000" using h unfolding shown_def by linarith
qed

lemma shown_float_ok:
  assumes "x = dht_hum raw \<or> x = dht_temp raw"
  shows "length (shown_float x) \<le> 11" "CHR 0x00 \<notin> set (shown_float x)"
proof -
  have n: "unat raw < 65536" "unat (raw AND 0x7FFF) < 65536" using unat_u16_less by blast+
  consider "x = tenths1 (unat raw)" | "x = - tenths2 (unat (raw AND 0x7FFF))" | "x = tenths1 (unat (raw AND 0x7FFF))"
    using assms unfolding dht_values by (auto split: if_splits)
  then have "\<bar>whole x\<bar> < 10000 \<and> \<bar>hundredths x\<bar> < 10000"
    by cases (use tenths_range n in \<open>auto simp: print_neg\<close>)
  then show "length (shown_float x) \<le> 11"
    using fmt_d_short [of "whole x"] fmt_d_short [of "hundredths x"] by (simp add: shown_float_def)
  show "CHR 0x00 \<notin> set (shown_float x)" by (simp add: shown_float_def fmt_d_no_zero)
qed

lemma sprintf_effect:
  assumes "length s < length (printbuf_o st)" "CHR 0x00 \<notin> set s"
  obtains st' where "sprintf_o s st = Some st'" "length (printbuf_o st') = length (printbuf_o st)"
    "c_string (printbuf_o st') = Some s" "take (length s) (printbuf_o st') = s"
    "sent st' = sent st" "daemonSts_o st' = daemonSts_o st" "DhtHandle_o st' = DhtHandle_o st" "adr_o st' = adr_o st"
proof
  show "sprintf_o s st = Some (st\<lparr>printbuf_o := s @ [CHR 0x00] @ drop (Suc (length s)) (printbuf_o st)\<rparr>)"
    using assms by (simp add: sprintf_o_def)
qed (use assms in \<open>auto simp: c_string_def takeWhile_append\<close>)

lemma reading_sent:
  assumes "state_o (DhtHandle_o st) = COMPL_o" "DhtHum_o (DhtHandle_o st) = dht_hum rawhum"
    "DhtTemp_o (DhtHandle_o st) = dht_temp rawtemp" "length (printbuf_o st) = 32" "adr_o st \<noteq> 0"
  shows "\<exists>st'. mainTask_o (adr_o st) st = Some st' \<and>
    sent st' = sent st @ (if daemonSts_o st = 0 then [([10], ''DAEMON_ASK'')] else []) @
      (if daemonSts_o st = 1 then [([4], ''TEMP'')] else []) \<and>
    daemonSts_o st' = (if daemonSts_o st = 1 then 2 else daemonSts_o st)"
proof -
  define st0 where "st0 = say_o ''mainTask running...'' [] st"
  define hum where "hum = shown_float (dht_hum rawhum)"
  define temp where "temp = ''TEMP:'' @ shown_float (dht_temp rawtemp)"
  have h: "length hum < 32" "CHR 0x00 \<notin> set hum" "length temp < 32" "CHR 0x00 \<notin> set temp"
    using shown_float_ok [of "dht_hum rawhum" rawhum] shown_float_ok [of "dht_temp rawtemp" rawtemp]
    by (auto simp: hum_def temp_def)
  have b0: "length (printbuf_o st0) = 32" by (simp add: st0_def assms)
  obtain st1 where 1: "sprintf_o hum st0 = Some st1" "length (printbuf_o st1) = 32" "c_string (printbuf_o st1) = Some hum"
    "sent st1 = sent st0" "daemonSts_o st1 = daemonSts_o st0" "DhtHandle_o st1 = DhtHandle_o st0"
    using sprintf_effect [of hum st0] h b0 by auto
  define st2 where "st2 = via (emit (PrintStr ''DhtHum: %s'' hum)) st1"
  have b2: "length (printbuf_o st2) = 32" by (simp add: st2_def 1)
  obtain st3 where 3: "sprintf_o temp st2 = Some st3" "length (printbuf_o st3) = 32" "c_string (printbuf_o st3) = Some temp"
    "take (length temp) (printbuf_o st3) = temp" "sent st3 = sent st2" "daemonSts_o st3 = daemonSts_o st2"
    using sprintf_effect [of temp st2] h b2 by auto
  define st4 where "st4 = via (emit (PrintStr ''%s'' temp)) st3"
  have "take 4 (printbuf_o st3) = take 4 (take (length temp) (printbuf_o st3))" 
    by (simp add: temp_def min_def numeral_eq_Suc)
  then have t: "take 4 (printbuf_o st4) = ''TEMP''" unfolding 3(4) by (simp add: st4_def temp_def)
  have "daemonRequest_o (Some (printbuf_o st4)) st4 \<noteq> None"
    using 3(2,3) by (simp add: daemonRequest_o_def Let_def st4_def)
  then obtain st' where st': "daemonRequest_o (Some (printbuf_o st4)) st4 = Some st'" by blast
  have f: "adr_o st0 = adr_o st" "DhtHandle_o st0 = DhtHandle_o st" "DhtHandle_o st2 = DhtHandle_o st"
    by (simp_all add: st0_def st2_def 1)
  have p: "print_o ''DhtHum: %s'' st1 = Some st2" "print_o ''%s'' st3 = Some st4"
    by (simp_all add: print_o_def 1 3 st2_def st4_def)
  have "mainTask_o (adr_o st) st = Some st'"
    unfolding mainTask_o_def Let_def st0_def [symmetric]
    by (simp only: f assms(1-3,5) 1(1) 3(1) p st' bind.bind_lunit DhtState.case if_False HOL.simp_thms hum_def [symmetric] temp_def [symmetric])
  moreover have "daemonSts_o st4 = daemonSts_o st" "sent st4 = sent st" by (simp_all add: st4_def st2_def st0_def 1 3)
  ultimately show ?thesis using requests_with_data [OF st'] by (simp add: t)
qed

section \<open>Properties\<close>

text \<open>
  C18. Second application, functional: a completed reading is reported. Whatever 16 bit values the
  sensor sent, the main task formats them without leaving its buffer of 32 bytes and prints the
  humidity and the temperature. To a daemon that has asked it sends one message, which is the
  four characters TEMP: the digits of the temperature are not sent. The next request needs an OK.
\<close>

theorem reading_reported:
  assumes "state_o (DhtHandle_o st) = COMPL_o" "DhtHum_o (DhtHandle_o st) = dht_hum rawhum"
    "DhtTemp_o (DhtHandle_o st) = dht_temp rawtemp" "length (printbuf_o st) = 32" "adr_o st \<noteq> 0"
  shows "\<exists>st'. mainTask_o (adr_o st) st = Some st' \<and>
    sent st' = sent st @ (if daemonSts_o st = 0 then [([10], ''DAEMON_ASK'')] else []) @
      (if daemonSts_o st = 1 then [([4], ''TEMP'')] else []) \<and>
    daemonSts_o st' = (if daemonSts_o st = 1 then 2 else daemonSts_o st)"
  using reading_sent [OF assms] .

definition complete_example :: orai where
  "complete_example = orai0\<lparr>daemonSts_o := 1,
     DhtHandle_o := \<lparr>state_o = COMPL_o, DhtTemp_o = dht_temp 351, DhtHum_o = dht_hum 652, TimeoutCnt = 0\<rparr>\<rparr>"

theorem reading_reported_witness:
  "\<exists>st'. mainTask_o (adr_o complete_example) complete_example = Some st' \<and> sent st' = [([4], ''TEMP'')]"
proof -
  have "sent complete_example = []" by (simp add: complete_example_def orai0_def sent_def)
  moreover have "daemonSts_o complete_example = 1" by (simp add: complete_example_def)
  ultimately show ?thesis
    using reading_reported [of complete_example 652 351] by (auto simp: complete_example_def orai0_def)
qed

end
