(* ===== verification/CText.thy ===== *)
theory CText
  imports AppState
begin

text \<open>
  The C library on strings, as the programs use it: searching, comparing, copying into an object
  of a fixed size and reading a number. A string is the list of its characters without the zero
  byte that ends it; an object in memory is the list of all its characters.
\<close>

section \<open>The C library on strings\<close>

text \<open>\<open>strstr\<close>: the offset of the first occurrence.\<close>

fun strstr_at :: "string \<Rightarrow> string \<Rightarrow> nat option" where
  "strstr_at [] pat = (if pat = [] then Some 0 else None)"
| "strstr_at (c # s) pat =
    (if take (length pat) (c # s) = pat then Some 0 else map_option Suc (strstr_at s pat))"

text \<open>\<open>strncmp(s, pat, strlen(pat)) == 0\<close>.\<close>

definition starts_with :: "string \<Rightarrow> string \<Rightarrow> bool" where
  "starts_with s pat = (take (length pat) s = pat)"

definition is_digit :: "char \<Rightarrow> bool" where
  "is_digit c \<longleftrightarrow> 48 \<le> (of_char c :: nat) \<and> (of_char c :: nat) \<le> 57"

definition is_space :: "char \<Rightarrow> bool" where
  "is_space c \<longleftrightarrow> c = CHR 0x20 \<or> 9 \<le> (of_char c :: nat) \<and> (of_char c :: nat) \<le> 13"

definition digits_val :: "string \<Rightarrow> int" where
  "digits_val s = foldl (\<lambda>n c. 10 * n + int (of_char c - 48)) 0 (takeWhile is_digit s)"

definition atoi :: "string \<Rightarrow> int" where
  "atoi s =
    (let t = dropWhile is_space s
     in if starts_with t ''-'' then - digits_val (drop 1 t)
        else if starts_with t ''+'' then digits_val (drop 1 t)
        else digits_val t)"

text \<open>The text a pointer shows, up to the zero byte that ends it.\<close>

definition text_at :: "string \<Rightarrow> string option" where
  "text_at mem = (if CHR 0x00 \<in> set mem then Some (takeWhile (\<lambda>c. c \<noteq> CHR 0x00) mem) else None)"

text \<open>\<open>os_memcpy\<close> of \<open>xs\<close> into an object at an offset; \<open>None\<close> when it leaves the object.\<close>

definition memcpy_to :: "string \<Rightarrow> nat \<Rightarrow> string \<Rightarrow> string option" where
  "memcpy_to obj off xs =
    (if off + length xs \<le> length obj then Some (take off obj @ xs @ drop (off + length xs) obj) else None)"

text \<open>Addresses as \<open>MACSTR\<close> (user_interface.h) and \<open>IPSTR\<close> (ip_addr.h) print them.\<close>

definition hex_digit :: "nat \<Rightarrow> char" where
  "hex_digit n = (if n < 10 then char_of (48 + n) else char_of (87 + n))"

definition MACSTR :: "u8 list \<Rightarrow> string" where
  "MACSTR bs = drop 1 (concat (map (\<lambda>b. [CHR '':'', hex_digit (unat b div 16), hex_digit (unat b mod 16)]) bs))"

definition IPSTR :: "u8 list \<Rightarrow> string" where
  "IPSTR bs = drop 1 (concat (map (\<lambda>b. ''.'' @ fmt_d (uint b)) bs))"

text \<open>The four bytes of an address, in the order of memory.\<close>

definition ip_bytes :: "u32 \<Rightarrow> u8 list" where
  "ip_bytes a = [ucast a, ucast (drop_bit 8 a), ucast (drop_bit 16 a), ucast (drop_bit 24 a)]"

section \<open>Searching\<close>

lemma strstr_at_skip:
  assumes "pat \<noteq> []" "hd pat \<notin> set xs"
  shows "strstr_at (xs @ pat @ ys) pat = Some (length xs)"
  using assms(2)
proof (induction xs)
  case Nil
  with assms(1) show ?case by (cases pat) auto
next
  case (Cons x xs)
  have "take (length pat) (x # xs @ pat @ ys) \<noteq> pat"
    using Cons.prems assms(1) by (cases pat) auto
  with Cons show ?case by simp
qed

lemma strstr_at_none: "pat \<noteq> [] \<Longrightarrow> hd pat \<notin> set xs \<Longrightarrow> strstr_at xs pat = None"
  by (induction xs) (cases pat; auto)+

lemma text_no_zero: "text_at mem = Some t \<Longrightarrow> CHR 0x00 \<notin> set t"
  by (auto simp: text_at_def split: if_splits dest: set_takeWhileD)

section \<open>Printed numbers are read back\<close>

lemma is_digit_char: "n < 10 \<Longrightarrow> is_digit (char_of (48 + n))" "n < 10 \<Longrightarrow> of_char (char_of (48 + n :: nat)) = 48 + n"
  by (simp_all add: is_digit_def)

lemma digits_are_digits: "\<forall>c \<in> set (digits n). is_digit c"
proof (induction n rule: digits.induct)
  case (1 n)
  show ?case
  proof (cases "n < 10")
    case True
    then show ?thesis by (subst digits.simps) (simp add: is_digit_char)
  next
    case False
    with 1 show ?thesis by (subst digits.simps) (auto simp: is_digit_char)
  qed
qed

lemma digits_nonempty: "digits n \<noteq> []"
  by (subst digits.simps) simp

lemma digits_val_append:
  assumes "\<forall>c \<in> set s. is_digit c" "t = [] \<or> \<not> is_digit (hd t)"
  shows "digits_val (s @ t) = digits_val s"
proof -
  have w: "takeWhile is_digit s = s" using assms(1) by (simp add: takeWhile_eq_all_conv)
  show ?thesis using assms by (cases t) (simp_all add: digits_val_def takeWhile_append w)
qed

lemma digits_val_digits: "digits_val (digits n) = int n"
proof (induction n rule: digits.induct)
  case (1 n)
  show ?case
  proof (cases "n < 10")
    case True
    then show ?thesis by (subst digits.simps) (simp add: digits_val_def is_digit_char)
  next
    case False
    have e: "digits n = digits (n div 10) @ [char_of (48 + n mod 10)]"
      using False by (subst digits.simps) simp
    have d: "takeWhile is_digit (digits (n div 10) @ [char_of (48 + n mod 10)]) = digits (n div 10) @ [char_of (48 + n mod 10)]"
      "takeWhile is_digit (digits (n div 10)) = digits (n div 10)"
      using digits_are_digits [of "n div 10"] by (simp_all add: is_digit_char takeWhile_eq_all_conv)
    have "digits_val (digits n) = 10 * digits_val (digits (n div 10)) + int (n mod 10)"
      unfolding e digits_val_def d by (simp add: is_digit_char)
    also have "\<dots> = 10 * int (n div 10) + int (n mod 10)" using 1 False by simp
    also have "\<dots> = int n" by (simp add: of_nat_div of_nat_mod)
    finally show ?thesis .
  qed
qed

lemma atoi_digits: "t = [] \<or> \<not> is_digit (hd t) \<Longrightarrow> atoi (digits n @ t) = int n"
proof -
  assume t: "t = [] \<or> \<not> is_digit (hd t)"
  obtain c cs where c: "digits n = c # cs" using digits_nonempty [of n] by (cases "digits n") auto
  then have "is_digit c" using digits_are_digits [of n] by simp
  then have "\<not> is_space c" "c \<noteq> CHR ''-''" "c \<noteq> CHR ''+''"
    by (auto simp: is_digit_def is_space_def)
  then have "atoi (digits n @ t) = digits_val (digits n @ t)"
    by (simp add: atoi_def c starts_with_def)
  then show ?thesis
    using digits_val_append [OF digits_are_digits t] digits_val_digits by simp
qed

end
