(* ===== verification/IotWeb.thy ===== *)
theory IotWeb
  imports CText
begin

text \<open>
  The request path of the web server of the vendor's demonstration program
  (examples/IoT_Demo/user/user_webserver.c): \<open>check_data\<close>, \<open>save_data\<close> and \<open>parse_url\<close>, in the order
  \<open>webserver_recv\<close> calls them. Received data is the memory from its pointer on, the data and what
  follows it; its text ends at the first zero byte. A copy that leaves its object and a text without
  an end are \<open>None\<close>. The allocator is taken to succeed: the code does not
  test it. Debug messages are left out.
\<close>

section \<open>State\<close>

definition CRLF :: string where "CRLF = [CHR 0x0D, CHR 0x0A]"

datatype ProtocolType = GET | POST

definition URLSize :: nat where "URLSize = 10"

record URL_Frame =
  Type :: ProtocolType
  pSelect :: string \<comment> \<open>\<open>URLSize\<close> characters each\<close>
  pCommand :: string
  pFilename :: string

text \<open>\<open>os_zalloc(sizeof(URL_Frame))\<close>.\<close>

definition new_frame :: URL_Frame where
  "new_frame = \<lparr>Type = GET, pSelect = replicate URLSize (CHR 0x00), pCommand = replicate URLSize (CHR 0x00),
                pFilename = replicate URLSize (CHR 0x00)\<rparr>"

text \<open>
  \<open>precvbuffer\<close>: the characters of the object it points to, or the null pointer; the two counters
  (\<open>totallength\<close> is local to \<open>save_data\<close> and static).
\<close>

record web =
  precvbuffer :: "string option"
  dat_sumlength :: u32
  totallength :: u32

section \<open>parse_url\<close>

text \<open>What follows the question mark: the command up to \<open>=\<close>, then the name up to \<open>&\<close> or \<open> HTTP\<close>.\<close>

definition parse_file :: "string \<Rightarrow> URL_Frame \<Rightarrow> URL_Frame option" where
  "parse_file s fr =
    (case strstr_at s ''&'' of
       Some n \<Rightarrow> map_option (\<lambda>f. fr\<lparr>pFilename := f\<rparr>) (memcpy_to (pFilename fr) 0 (take n s))
     | None \<Rightarrow>
         (case strstr_at s '' HTTP'' of
            Some n \<Rightarrow> map_option (\<lambda>f. fr\<lparr>pFilename := f\<rparr>) (memcpy_to (pFilename fr) 0 (take n s))
          | None \<Rightarrow> Some fr))"

definition parse_query :: "string \<Rightarrow> URL_Frame \<Rightarrow> URL_Frame option" where
  "parse_query s fr =
    (case strstr_at s ''='' of
       Some n \<Rightarrow>
         (case memcpy_to (pCommand fr) 0 (take n s) of
            Some f \<Rightarrow> parse_file (drop (n + 1) s) (fr\<lparr>pCommand := f\<rparr>)
          | None \<Rightarrow> None)
     | None \<Rightarrow> Some fr)"

text \<open>The method at the start of the request, with the number of characters it takes.\<close>

definition parse_verb :: "string \<Rightarrow> URL_Frame \<Rightarrow> URL_Frame \<times> nat" where
  "parse_verb buf fr =
    (if starts_with buf ''GET '' then (fr\<lparr>Type := GET\<rparr>, 4)
     else if starts_with buf ''POST '' then (fr\<lparr>Type := POST\<rparr>, 5)
     else (fr, 0))"

text \<open>
  \<open>length\<close> is a byte: of a request whose \<open>Host:\<close> stands at offset 256 or later only a part is
  looked at. The lengths of the parts are below it, so there the byte holds them.
\<close>

definition parse_url :: "string option \<Rightarrow> URL_Frame \<Rightarrow> URL_Frame option" where
  "parse_url precv fr =
    (case precv of None \<Rightarrow> Some fr | Some s \<Rightarrow>
     case strstr_at s ''Host:'' of None \<Rightarrow> Some fr | Some n \<Rightarrow>
       let len = unat (of_nat n :: u8);
           buf = take len s;
           fr = fr\<lparr>pSelect := replicate URLSize (CHR 0x00), pCommand := replicate URLSize (CHR 0x00),
                   pFilename := replicate URLSize (CHR 0x00)\<rparr>;
           (fr, pos) = parse_verb buf fr;
           pos = pos + 1
       in if pos > len then None
          else let s = drop pos buf in
            case strstr_at s ''?'' of
              None \<Rightarrow> Some fr
            | Some n \<Rightarrow>
                (case memcpy_to (pSelect fr) 0 (take n s) of
                   None \<Rightarrow> None
                 | Some f \<Rightarrow> parse_query (drop (n + 1) s) (fr\<lparr>pSelect := f\<rparr>)))"

section \<open>save_data and check_data\<close>

text \<open>
  The number after \<open>Content-Length: \<close> at the offset \<open>c\<close>, up to the end of its line: copied into
  \<open>length_buf\<close>, ten zero bytes, which must keep a zero byte for \<open>atoi\<close>. The inner \<open>None\<close>: no line end.
\<close>

definition content_length :: "string \<Rightarrow> nat \<Rightarrow> u32 option option" where
  "content_length s c =
    (let pdata = drop (c + 16) s in
     case strstr_at pdata CRLF of
       None \<Rightarrow> Some None
     | Some n \<Rightarrow> if n < 10 then Some (Some (of_int (atoi (take n pdata)))) else None)"

definition check_data :: "string \<Rightarrow> u16 \<Rightarrow> web \<Rightarrow> (bool \<times> web) option" where
  "check_data mem len st =
    (case text_at mem of None \<Rightarrow> None | Some precv \<Rightarrow>
     case strstr_at precv (CRLF @ CRLF) of
       None \<Rightarrow> Some (True, st)
     | Some h \<Rightarrow>
         let tmp_length = len - of_nat h - 4;
             tmp_totallength = (ucast tmp_length :: u32)
         in case strstr_at precv ''Content-Length: '' of
              None \<Rightarrow> Some (True, st)
            | Some c \<Rightarrow>
                (case content_length precv c of
                   None \<Rightarrow> None
                 | Some None \<Rightarrow> Some (True, st)
                 | Some (Some n) \<Rightarrow> Some (n = tmp_totallength, st\<lparr>dat_sumlength := n\<rparr>)))"

definition finish_data :: "web \<Rightarrow> bool \<times> web" where
  "finish_data st =
    (if totallength st = dat_sumlength st then (True, st\<lparr>totallength := 0, dat_sumlength := 0\<rparr>) else (False, st))"

text \<open>The new buffer: the head alone when the whole is 1024 bytes or more, else the whole request.\<close>

definition keep_data :: "string \<Rightarrow> u16 \<Rightarrow> web \<Rightarrow> web option" where
  "keep_data precv headlength st =
    (if dat_sumlength st + ucast headlength \<ge> 1024 then
       map_option (\<lambda>b. st\<lparr>precvbuffer := Some b\<rparr>)
         (memcpy_to (replicate (unat headlength + 1) (CHR 0x00)) 0 (take (unat headlength + 1) (precv @ [CHR 0x00])))
     else
       map_option (\<lambda>b. st\<lparr>precvbuffer := Some b\<rparr>)
         (memcpy_to (replicate (unat (dat_sumlength st + ucast headlength + 1)) (CHR 0x00)) 0 precv))"

text \<open>The next part of a body, appended at the zero byte of the buffer.\<close>

definition append_data :: "string \<Rightarrow> u16 \<Rightarrow> string \<Rightarrow> web \<Rightarrow> web option" where
  "append_data mem len b st =
    (case text_at b of None \<Rightarrow> None | Some t \<Rightarrow>
       if unat len > length mem then None
       else map_option (\<lambda>b'. st\<lparr>totallength := totallength st + ucast len, precvbuffer := Some b'\<rparr>)
              (memcpy_to b (length t) (take (unat len) mem)))"

definition save_data :: "string \<Rightarrow> u16 \<Rightarrow> web \<Rightarrow> (bool \<times> web) option" where
  "save_data mem len st =
    (case text_at mem of None \<Rightarrow> None | Some precv \<Rightarrow>
     case strstr_at precv (CRLF @ CRLF) of
       Some h \<Rightarrow>
         let len = len - of_nat h - 4;
             st = st\<lparr>totallength := totallength st + ucast len\<rparr>;
             headlength = of_nat h + 4
         in (case strstr_at precv ''Content-Length: '' of
               Some c \<Rightarrow>
                 (case content_length precv c of
                    None \<Rightarrow> None
                  | Some None \<Rightarrow> map_option finish_data (keep_data precv headlength st)
                  | Some (Some n) \<Rightarrow> map_option finish_data (keep_data precv headlength (st\<lparr>dat_sumlength := n\<rparr>)))
             | None \<Rightarrow>
                 if totallength st \<noteq> 0 then Some (False, st\<lparr>totallength := 0, dat_sumlength := 0\<rparr>)
                 else map_option finish_data (keep_data precv headlength st))
     | None \<Rightarrow>
         (case precvbuffer st of
            Some b \<Rightarrow> map_option finish_data (append_data mem len b st)
          | None \<Rightarrow> Some (False, st\<lparr>totallength := 0, dat_sumlength := 0\<rparr>)))"

section \<open>webserver_recv\<close>

text \<open>
  The start of the handler when no upgrade runs: a packet that fails the check is dropped, else it
  is saved and its request line is read. The result is the request, with the flag of \<open>save_data\<close>
  (a failure response is sent when it is false). The buffer is freed when the handler is done.
\<close>

definition webserver_recv :: "string \<Rightarrow> u16 \<Rightarrow> web \<Rightarrow> ((bool \<times> URL_Frame) option \<times> web) option" where
  "webserver_recv mem len st =
    (case check_data mem len st of
       None \<Rightarrow> None
     | Some (False, st) \<Rightarrow> Some (None, st)
     | Some (True, st) \<Rightarrow>
         (case save_data mem len st of
            None \<Rightarrow> None
          | Some (flag, st) \<Rightarrow>
              (case precvbuffer st of
                 None \<Rightarrow> Some (Some (flag, new_frame), st)
               | Some b \<Rightarrow>
                   (case text_at b of
                      None \<Rightarrow> None
                    | Some t \<Rightarrow> map_option (\<lambda>fr. (Some (flag, fr), st\<lparr>precvbuffer := None\<rparr>)) (parse_url (Some t) new_frame)))))"

section \<open>Copying into a field\<close>

definition field_padded :: "string \<Rightarrow> string" where
  "field_padded x = x @ replicate (URLSize - length x) (CHR 0x00)"

lemma memcpy_field:
  "memcpy_to (replicate URLSize (CHR 0x00)) 0 x = (if length x \<le> URLSize then Some (field_padded x) else None)"
  by (simp add: memcpy_to_def field_padded_def)

section \<open>Properties\<close>

text \<open>
  C31. A request is read as it is written: of a request line \<open>GET /select?command=name HTTP\<close> (or
  \<open>POST\<close>, or with a further parameter after the name) that ends before offset 256, the frame
  holds the method and the three parts when none is longer than ten characters; a longer part is
  copied beyond its field.
\<close>

theorem parse_url_reads:
  assumes s: "s = req @ ''Host:'' @ rest" "strstr_at s ''Host:'' = Some (length req)" "length req < 256"
    and req: "req = verb @ ''/'' @ sel @ ''?'' @ cmd @ ''='' @ name @ e @ v"
    and verb: "verb = ''GET '' \<and> m = GET \<or> verb = ''POST '' \<and> m = POST"
    and parts: "CHR ''?'' \<notin> set sel" "CHR ''='' \<notin> set cmd" "CHR ''&'' \<notin> set name"
    and e: "e = ''&'' \<or> e = '' HTTP'' \<and> CHR '' '' \<notin> set name \<and> CHR ''&'' \<notin> set v"
  shows "parse_url (Some s) fr =
    (if length sel \<le> 10 \<and> length cmd \<le> 10 \<and> length name \<le> 10
     then Some (fr\<lparr>Type := m, pSelect := field_padded sel, pCommand := field_padded cmd, pFilename := field_padded name\<rparr>)
     else None)"
proof -
  have len: "unat (of_nat (length req) :: u8) = length req"
    using s(3) by (simp add: unat_of_nat)
  have q: "strstr_at (sel @ CHR ''?'' # t) ''?'' = Some (length sel)" for t
    using strstr_at_skip [of "''?''" sel t] parts by simp
  have eq: "strstr_at (cmd @ CHR ''='' # t) ''='' = Some (length cmd)" for t
    using strstr_at_skip [of "''=''" cmd t] parts by simp
  have reads: "parse_file (name @ e @ v) f = map_option (\<lambda>x. f\<lparr>pFilename := x\<rparr>) (memcpy_to (pFilename f) 0 name)" for f
  proof (cases "e = ''&''")
    case True
    then show ?thesis using strstr_at_skip [of "''&''" name v] parts by (simp add: parse_file_def)
  next
    case False
    with e have h: "e = '' HTTP''" "CHR '' '' \<notin> set name" "CHR ''&'' \<notin> set v" by auto
    have "strstr_at (name @ e @ v) ''&'' = None"
      using h parts by (intro strstr_at_none) auto
    then show ?thesis using strstr_at_skip [of "'' HTTP''" name v] h by (simp add: parse_file_def)
  qed
  have drop_part: "drop (length sel + 1) (sel @ c # t) = t" for c t by simp
  define x where "x = cmd @ ''='' @ name @ e @ v"
  define fr' where "fr' = fr\<lparr>pSelect := replicate URLSize (CHR 0x00), pCommand := replicate URLSize (CHR 0x00),
                   pFilename := replicate URLSize (CHR 0x00), Type := m\<rparr>"
  have req': "req = verb @ CHR ''/'' # sel @ CHR ''?'' # x" by (simp add: req x_def)
  have "take (length req) s = req" by (simp add: s(1))
  moreover have "parse_verb req f = (f\<lparr>Type := m\<rparr>, length verb)" for f
    using verb by (auto simp: req' parse_verb_def starts_with_def)
  moreover have "drop (Suc (length verb)) req = sel @ CHR ''?'' # x" by (simp add: req')
  moreover have "length verb < length req" by (simp add: req')
  ultimately have "parse_url (Some s) fr =
      (case memcpy_to (pSelect fr') 0 sel of None \<Rightarrow> None | Some f \<Rightarrow> parse_query x (fr'\<lparr>pSelect := f\<rparr>))"
    by (simp add: parse_url_def s(2) len q fr'_def Let_def drop_part split: option.split)
  also have "\<dots> = (if length sel \<le> 10 then parse_query x (fr'\<lparr>pSelect := field_padded sel\<rparr>) else None)"
    by (simp add: fr'_def memcpy_field [unfolded URLSize_def] URLSize_def)
  also have "parse_query x f = (case memcpy_to (pCommand f) 0 cmd of None \<Rightarrow> None
      | Some c \<Rightarrow> map_option (\<lambda>n. f\<lparr>pCommand := c, pFilename := n\<rparr>) (memcpy_to (pFilename f) 0 name))" for f
    by (simp add: parse_query_def x_def eq reads split: option.split)
  finally show ?thesis
    by (simp add: fr'_def memcpy_field [unfolded URLSize_def] URLSize_def)
qed

theorem parse_url_reads_witness:
  "parse_url (Some ''POST /config?command=switch HTTP/1.1 Host: lamp'') new_frame =
    (if length ''config'' \<le> 10 \<and> length ''command'' \<le> 10 \<and> length ''switch'' \<le> 10
     then Some (new_frame\<lparr>Type := POST, pSelect := field_padded ''config'', pCommand := field_padded ''command'', pFilename := field_padded ''switch''\<rparr>)
     else None)"
proof (rule parse_url_reads)
  show "strstr_at ''POST /config?command=switch HTTP/1.1 Host: lamp'' ''Host:'' = Some (length ''POST /config?command=switch HTTP/1.1 '')"
    by code_simp
  show "''POST /config?command=switch HTTP/1.1 '' =
    ''POST '' @ ''/'' @ ''config'' @ ''?'' @ ''command'' @ ''='' @ ''switch'' @ '' HTTP'' @ ''/1.1 ''" by simp
  show "''POST /config?command=switch HTTP/1.1 Host: lamp'' = ''POST /config?command=switch HTTP/1.1 '' @ ''Host:'' @ '' lamp''" by simp
qed simp_all

definition idle :: "web \<Rightarrow> bool" where
  "idle st \<longleftrightarrow> precvbuffer st = None \<and> totallength st = 0"

lemma body_length:
  assumes "h + 4 + b < 65536"
  shows "(of_nat (h + 4 + b) :: u16) - of_nat h - 4 = of_nat b" "unat (of_nat h + 4 :: u16) = h + 4"
    "ucast (of_nat b :: u16) = (of_nat b :: u32)"
proof -
  show "(of_nat (h + 4 + b) :: u16) - of_nat h - 4 = of_nat b" by simp
  have "(of_nat h + 4 :: u16) = of_nat (h + 4)" by simp
  then show "unat (of_nat h + 4 :: u16) = h + 4" using assms by (simp only: unat_of_nat) simp
  show "ucast (of_nat b :: u16) = (of_nat b :: u32)"
    using assms by (simp add: word_unat_eq_iff unat_of_nat unsigned_ucast_eq take_bit_eq_mod)
qed

lemma keep_data_all:
  assumes "h + 4 + b < 1024" "length t = h + 4 + b" "dat_sumlength st = of_nat b"
  shows "keep_data t (of_nat h + 4) st = Some (st\<lparr>precvbuffer := Some (t @ [CHR 0x00])\<rparr>)"
proof -
  have head: "(ucast (of_nat h + 4 :: u16) :: u32) = of_nat (h + 4)"
    using body_length(3) [of 0 "h + 4"] assms(1) by simp
  have "(of_nat b + of_nat (h + 4) :: u32) = of_nat (h + 4 + b)" by simp
  moreover have "unat (of_nat (h + 4 + b) :: u32) = h + 4 + b" using assms(1) by (simp only: unat_of_nat) simp
  moreover have "unat (of_nat (h + 4 + b) + 1 :: u32) = h + 4 + b + 1"
  proof -
    have "(of_nat (h + 4 + b) + 1 :: u32) = of_nat (h + 4 + b + 1)" by simp
    then show ?thesis using assms(1) by (simp only: unat_of_nat) simp
  qed
  ultimately show ?thesis
    using assms by (simp only: keep_data_def head word_le_nat_alt memcpy_to_def) (simp add: replicate_append_same)
qed

text \<open>
  A request that arrives in one packet is accepted: with a \<open>Content-Length\<close> that is the length
  of its body, or without one and without a body, and below 1024 characters in all, the check
  passes, the whole text is kept and read, and the server is idle again.
\<close>

theorem web_accepts_packet:
  assumes t: "text_at mem = Some t" "strstr_at t (CRLF @ CRLF) = Some h" "length t = h + 4 + b" "h + 4 + b < 1024"
    and number: "case strstr_at t ''Content-Length: '' of
        Some c \<Rightarrow> content_length t c = Some (Some (of_nat b))
      | None \<Rightarrow> b = 0 \<and> dat_sumlength st = 0"
    and st: "idle st"
  shows "webserver_recv mem (of_nat (length t)) st =
    map_option (\<lambda>fr. (Some (True, fr), \<lparr>precvbuffer = None, dat_sumlength = 0, totallength = 0\<rparr>)) (parse_url (Some t) new_frame)"
proof -
  obtain d where d: "st = \<lparr>precvbuffer = None, dat_sumlength = d, totallength = 0\<rparr>"
    using st by (cases st) (simp add: idle_def)
  define s1 where "s1 = \<lparr>precvbuffer = None :: string option, dat_sumlength = of_nat b, totallength = 0\<rparr>"
  have w: "h + 4 + b < 65536" using t(4) by simp
  note B = body_length [OF w]
  have len: "(of_nat (length t) :: u16) - of_nat h - 4 = of_nat b" using B(1) t(3) by simp
  have check: "check_data mem (of_nat (length t)) st = Some (True, s1)"
    using number by (auto simp: check_data_def t(1,2) Let_def len B(3) s1_def d split: option.splits)
  have keep: "keep_data t (of_nat h + 4) (s1\<lparr>totallength := of_nat b\<rparr>) =
      Some (s1\<lparr>totallength := of_nat b, precvbuffer := Some (t @ [CHR 0x00])\<rparr>)"
    using keep_data_all [OF t(4,3)] by (simp add: s1_def)
  have save: "save_data mem (of_nat (length t)) s1 =
      Some (True, \<lparr>precvbuffer = Some (t @ [CHR 0x00]), dat_sumlength = 0, totallength = 0\<rparr>)"
    using number keep
    by (auto simp: save_data_def t(1,2) Let_def len B(3) s1_def finish_data_def split: option.splits)
  have "text_at (t @ [CHR 0x00]) = Some t"
    using text_no_zero [OF t(1)] by (auto simp: text_at_def takeWhile_append)
  then show ?thesis by (simp add: webserver_recv_def check save)
qed

definition post_head :: string where
  "post_head = ''POST /a?b=c HTTP'' @ CRLF @ ''Host: l'' @ CRLF @ ''Content-Length: 2'' @ CRLF @ CRLF"

lemma post_head_facts:
  "text_at (post_head @ [CHR ''{'', CHR ''}'', CHR 0x00]) = Some (post_head @ ''{}'')"
  "text_at (post_head @ [CHR 0x00]) = Some post_head"
  "strstr_at (post_head @ ''{}'') (CRLF @ CRLF) = Some 44" "strstr_at post_head (CRLF @ CRLF) = Some 44"
  "strstr_at (post_head @ ''{}'') ''Content-Length: '' = Some 27" "strstr_at post_head ''Content-Length: '' = Some 27"
  "content_length (post_head @ ''{}'') 27 = Some (Some 2)" "content_length post_head 27 = Some (Some 2)"
  "length post_head = 48"
  by code_simp+

theorem web_accepts_packet_witness:
  "webserver_recv (post_head @ [CHR ''{'', CHR ''}'', CHR 0x00]) (of_nat (length (post_head @ ''{}'')))
      \<lparr>precvbuffer = None, dat_sumlength = 7, totallength = 0\<rparr> =
    map_option (\<lambda>fr. (Some (True, fr), \<lparr>precvbuffer = None, dat_sumlength = 0, totallength = 0\<rparr>))
      (parse_url (Some (post_head @ ''{}'')) new_frame)"
  by (rule web_accepts_packet [where b = 2 and h = 44]) (simp_all add: post_head_facts idle_def del: append_Cons)

text \<open>
  A body that comes in a packet of its own is never read: the packet with the head is dropped
  without an answer, since its body is shorter than \<open>Content-Length\<close> says; the rest finds no buffer
  to be appended to and is taken for an empty request that failed. The code of \<open>save_data\<close> that
  puts the parts together is not reached.
\<close>

theorem web_split_body_lost:
  assumes t: "text_at mem = Some t" "strstr_at t (CRLF @ CRLF) = Some h" "length t = h + 4 + b" "h + 4 + b < 65536"
    and number: "strstr_at t ''Content-Length: '' = Some c" "content_length t c = Some (Some n)" "n \<noteq> of_nat b"
    and rest: "text_at mem' = Some t'" "strstr_at t' (CRLF @ CRLF) = None"
    and st: "idle st"
  shows "webserver_recv mem (of_nat (length t)) st = Some (None, st\<lparr>dat_sumlength := n\<rparr>) \<and>
    webserver_recv mem' len (st\<lparr>dat_sumlength := n\<rparr>) =
      Some (Some (False, new_frame), \<lparr>precvbuffer = None, dat_sumlength = 0, totallength = 0\<rparr>)"
proof -
  have len: "(of_nat (length t) :: u16) - of_nat h - 4 = of_nat b" using body_length(1) [OF t(4)] t(3) by simp
  have "check_data mem (of_nat (length t)) st = Some (False, st\<lparr>dat_sumlength := n\<rparr>)"
    using number by (simp add: check_data_def t(1,2) Let_def len body_length(3) [OF t(4)])
  then show ?thesis
    using st by (simp add: webserver_recv_def check_data_def save_data_def rest idle_def)
qed

theorem web_split_body_lost_witness:
  "webserver_recv (post_head @ [CHR 0x00]) (of_nat (length post_head)) \<lparr>precvbuffer = None, dat_sumlength = 0, totallength = 0\<rparr> =
      Some (None, \<lparr>precvbuffer = None, dat_sumlength = 0, totallength = 0\<rparr>\<lparr>dat_sumlength := 2\<rparr>) \<and>
    webserver_recv [CHR ''{'', CHR ''}'', CHR 0x00] 2 (\<lparr>precvbuffer = None, dat_sumlength = 0, totallength = 0\<rparr>\<lparr>dat_sumlength := 2\<rparr>) =
      Some (Some (False, new_frame), \<lparr>precvbuffer = None, dat_sumlength = 0, totallength = 0\<rparr>)"
  by (rule web_split_body_lost [where b = 0 and h = 44 and c = 27 and t' = "''{}''"])
    (simp_all add: post_head_facts idle_def, simp_all add: text_at_def CRLF_def)

end
