(* ===== verification/IotFind.thy ===== *)
theory IotFind
  imports CText
begin

text \<open>
  How the vendor's demonstration program is found in its network (examples/IoT_Demo/user/user_devicefind.c,
  in the build for the lamp): it answers a broadcast request with its kind and addresses. What the SDK
  knows of the network is an argument; a \<open>char\<close> has no sign on this processor; \<open>None\<close> is a text that does not fit its buffer. The allocator is
  taken to succeed; messages to the console are left out.
\<close>

section \<open>State\<close>

text \<open>An interface as \<open>wifi_get_ip_info\<close> and \<open>wifi_get_macaddr\<close> show it.\<close>

record netif =
  if_ip :: u32
  if_mask :: u32
  if_mac :: "u8 list" \<comment> \<open>six bytes\<close>

text \<open>\<open>peer\<close> is what \<open>espconn_get_connection_info\<close> finds: the address and port of the sender.\<close>

record network =
  opmode :: u8
  softap :: netif
  station :: netif
  peer :: "(u8 list \<times> int) option"

record finder =
  ptrespconn :: espconn
  created :: bool \<comment> \<open>\<open>espconn_create\<close> was called\<close>
  answers_sent :: "string list"

definition device_find_request :: string where "device_find_request = ''Are You Espressif IOT Smart Device?''"
definition device_find_response_ok :: string where "device_find_response_ok = [CHR ''I'', CHR 0x27] @ ''m Light.''"

text \<open>The bytes of an address in memory, as a number and back.\<close>

definition ip_word :: "u8 list \<Rightarrow> u32" where
  "ip_word bs = foldr (\<lambda>b a. ucast b OR push_bit 8 a) bs 0"

definition ip_addr_netcmp :: "u32 \<Rightarrow> u32 \<Rightarrow> u32 \<Rightarrow> bool" where
  "ip_addr_netcmp a b m \<longleftrightarrow> a AND m = b AND m"

section \<open>user_devicefind.c\<close>

definition own_interface :: "network \<Rightarrow> esp_proto \<Rightarrow> netif" where
  "own_interface net p =
    (if opmode net \<noteq> 1 then
       if ip_addr_netcmp (ip_word (remote_ip p)) (if_ip (softap net)) (if_mask (softap net)) then softap net else station net
     else station net)"

text \<open>\<open>DeviceBuffer\<close> has 40 characters.\<close>

definition answer_request :: "network \<Rightarrow> netif \<Rightarrow> esp_proto \<Rightarrow> finder \<Rightarrow> finder option" where
  "answer_request net nif p st =
    (let txt = device_find_response_ok @ MACSTR (if_mac nif) @ '' '' @ IPSTR (ip_bytes (if_ip nif))
     in if length txt \<ge> 40 then None
        else case peer net of
          None \<Rightarrow> Some st
        | Some (a, port) \<Rightarrow>
            Some (st\<lparr>ptrespconn := (ptrespconn st)\<lparr>proto := Some (p\<lparr>remote_ip := a, remote_port := port\<rparr>)\<rparr>,
                     answers_sent := answers_sent st @ [txt]\<rparr>))"

definition user_devicefind_recv :: "network \<Rightarrow> string option \<Rightarrow> u16 \<Rightarrow> finder \<Rightarrow> finder option" where
  "user_devicefind_recv net pusrdata len st =
    (case proto (ptrespconn st) of
       None \<Rightarrow> None
     | Some p \<Rightarrow>
         let nif = own_interface net p
         in case pusrdata of
              None \<Rightarrow> Some st
            | Some pusrdata \<Rightarrow>
                if unat len = length device_find_request \<and> starts_with pusrdata device_find_request then
                  answer_request net nif p st
                else if unat len = length device_find_request + 18 then
                  let txt = device_find_request @ '' '' @ MACSTR (if_mac nif)
                  in if length txt \<ge> 60 then None
                     else if starts_with pusrdata txt then answer_request net nif p st
                     else Some st
                else Some st)"

definition user_devicefind_init :: "finder \<Rightarrow> finder" where
  "user_devicefind_init st =
    (let st = st\<lparr>ptrespconn := (ptrespconn st)\<lparr>conn_type := Some ESPCONN_UDP\<rparr>\<rparr>;
         st = st\<lparr>ptrespconn := (ptrespconn st)\<lparr>proto := Some \<lparr>remote_port = 0, local_port = 1025, remote_ip = replicate 4 0\<rparr>\<rparr>\<rparr>
     in st\<lparr>ptrespconn := (ptrespconn st)\<lparr>recv_callback := Some C_user_devicefind_recv\<rparr>, created := True\<rparr>)"

section \<open>What is answered\<close>

lemma length_MACSTR: "length bs = 6 \<Longrightarrow> length (MACSTR bs) = 17"
proof -
  have "length (concat (map (\<lambda>b. [CHR '':'', hex_digit (unat b div 16), hex_digit (unat b mod 16)]) bs)) = 3 * length bs"
    by (induction bs) simp_all
  then show "length bs = 6 \<Longrightarrow> length (MACSTR bs) = 17" by (simp add: MACSTR_def)
qed

lemma starts_with_self: "length p = length t \<Longrightarrow> starts_with p t \<longleftrightarrow> p = t"
  by (simp add: starts_with_def)


definition find_example :: network where
  "find_example = \<lparr>opmode = 1, softap = \<lparr>if_ip = 0x0104A8C0, if_mask = 0x00FFFFFF, if_mac = [2, 0, 0, 0, 0, 1]\<rparr>,
     station = \<lparr>if_ip = 0x0101A8C0, if_mask = 0x00FFFFFF, if_mac = [0, 0, 0, 0, 0, 1]\<rparr>, peer = Some ([192, 168, 1, 9], 1025)\<rparr>"


end
