(* ===== verification/IotSensor.thy ===== *)
theory IotSensor
  imports I2cMaster AppState
begin

text \<open>
  The humidity sensor of the vendor's demonstration program in its build for sensors
  (examples/IoT_Demo/user/user_sensor.c, and the values user_esp_platform.c uploads): reading the MVH3004 over the
  I2C driver, the link LED and the deep sleep. The state is that of the driver, whose machine also records
  the other calls. \<open>None\<close> is a store outside the array of the caller.
\<close>

section \<open>user_sensor.c: the MVH3004\<close>

definition MVH3004_Addr :: u8 where "MVH3004_Addr = 0x88"

definition i2c_say :: "string \<Rightarrow> i2c \<Rightarrow> i2c" where
  "i2c_say msg st = st\<lparr>i2c_hw := emit (Print msg []) (i2c_hw st)\<rparr>"

text \<open>One round of the loop: a byte is stored, and answered with 1 when it is the last.\<close>

definition burst_byte :: "nat \<Rightarrow> nat \<Rightarrow> u8 list \<times> i2c \<Rightarrow> (u8 list \<times> i2c) option" where
  "burst_byte len i = (\<lambda>(pData, st).
    (case i2c_master_readByte st of (v, st) \<Rightarrow>
       if i < length pData
       then Some (pData[i := v], i2c_master_setAck (if i = len - 1 then 1 else 0) st) else None))"

primrec burst_bytes :: "nat \<Rightarrow> nat list \<Rightarrow> u8 list \<times> i2c \<Rightarrow> (u8 list \<times> i2c) option" where
  "burst_bytes len [] s = Some s"
| "burst_bytes len (i # is) s = (case burst_byte len i s of None \<Rightarrow> None | Some s \<Rightarrow> burst_bytes len is s)"

definition user_mvh3004_burst_read :: "u8 \<Rightarrow> u8 list \<Rightarrow> u16 \<Rightarrow> i2c \<Rightarrow> (bool \<times> u8 list \<times> i2c) option" where
  "user_mvh3004_burst_read addr pData len st =
    (let st = i2c_master_start st;
         st = i2c_master_writeByte addr st;
         (ack, st) = i2c_master_getAck st
     in if ack \<noteq> 0 then
          let st = i2c_say ''addr not ack when tx write cmd '' st
          in Some (False, pData, i2c_master_stop st)
        else
          let st = i2c_master_stop st;
              st = i2c_master_wait 40000 st;
              st = i2c_master_start st;
              st = i2c_master_writeByte (addr + 1) st;
              (ack, st) = i2c_master_getAck st
          in if ack \<noteq> 0 then
               let st = i2c_say ''addr not ack when tx write cmd '' st
               in Some (False, pData, i2c_master_stop st)
             else map_option (\<lambda>(pData, st). (True, pData, i2c_master_stop st))
                    (burst_bytes (unat len) [0..<unat len] (pData, st)))"

definition user_mvh3004_read_th :: "u8 list \<Rightarrow> i2c \<Rightarrow> (bool \<times> u8 list \<times> i2c) option" where
  "user_mvh3004_read_th dat st = user_mvh3004_burst_read MVH3004_Addr dat 4 st"

definition user_mvh3004_init :: "i2c \<Rightarrow> i2c" where
  "user_mvh3004_init st = i2c_master_gpio_init st"

section \<open>user_esp_platform.c: the values that are uploaded\<close>

text \<open>The products are of 32 bits. The result is sign, whole and hundredths of the temperature, and those of the humidity.\<close>

definition upload_values :: "u8 list \<Rightarrow> string \<times> u32 \<times> u32 \<times> u32 \<times> u32" where
  "upload_values d =
    (let rh = push_bit 8 (ucast (d ! 0)) OR ucast (d ! 1) :: u16;
         tp = push_bit 8 (ucast (d ! 2)) OR ucast (d ! 3) :: u16;
         tp_t = ucast (drop_bit 2 tp) * 165 * 100 div (16384 - 1) :: u32;
         rh_t = ucast (rh AND 0x3fff) * 100 * 100 div (16384 - 1) :: u32
     in if tp_t \<ge> 4000 then ([], tp_t div 100 - 40, tp_t mod 100, rh_t div 100, rh_t mod 100)
        else let tp_t = 4000 - tp_t in (''-'', tp_t div 100, tp_t mod 100, rh_t div 100, rh_t mod 100))"

section \<open>Reading on the bus\<close>

lemma i2c_say_simps [simp]:
  "m_nLastSDA (i2c_say m st) = m_nLastSDA st" "m_nLastSCL (i2c_say m st) = m_nLastSCL st"
  "trace (i2c_hw (i2c_say m st)) = trace (i2c_hw st) @ [Print m []]" "feed (i2c_hw (i2c_say m st)) = feed (i2c_hw st)"
  by (simp_all add: i2c_say_def emit_def)

lemma performs_wait:
  assumes "coherent st w"
  shows "performs w st [] w (i2c_master_wait n st)"
  using assms unfolding wave_defs by (auto simp: coherent_def intro!: exI [of _ "[DelayUs n]"])

lemma performs_say:
  assumes "coherent st w"
  shows "performs w st [] w (i2c_say m st)"
  using assms unfolding wave_defs
  by (auto simp: coherent_def listen_def intro!: exI [of _ "[Print m []]"])

abbreviation sda_feed :: "i2c \<Rightarrow> u32 list" where
  "sda_feed st \<equiv> feed (i2c_hw st) GpioInput"

lemma write_bits_feed: "feed (i2c_hw (fold (i2c_write_bit v) is st)) = feed (i2c_hw st)"
  by (induction "is" arbitrary: st) (simp_all add: i2c_write_bit_def Let_def)

lemma ops_feed [simp]:
  "feed (i2c_hw (i2c_master_start st)) = feed (i2c_hw st)" "feed (i2c_hw (i2c_master_stop st)) = feed (i2c_hw st)"
  "feed (i2c_hw (i2c_master_setAck l st)) = feed (i2c_hw st)" "feed (i2c_hw (i2c_master_writeByte v st)) = feed (i2c_hw st)"
  by (simp_all add: i2c_master_start_def i2c_master_stop_def i2c_master_setAck_def i2c_master_writeByte_def Let_def write_bits_feed)

lemma getAck_reads:
  assumes "sda_feed st = sample_of a # xs" "i2c_master_getAck st = (ack, st')"
  shows "ack = of_bool a \<and> sda_feed st' = xs"
  using assms by (auto simp: i2c_master_getAck_def Let_def i2c_getDC_split sample_feed)

lemma read_bits_feed:
  assumes "sda_feed st = xs @ rest" "length xs = length is"
  shows "sda_feed (snd (fold i2c_read_bit is (r, st))) = rest"
  using assms
proof (induction "is" arbitrary: r st xs)
  case (Cons i js)
  then obtain x ys where xs: "xs = x # ys" "length ys = length js" by (cases xs) auto
  obtain r' st' where e: "i2c_read_bit i (r, st) = (r', st')" "sda_feed st' = ys @ rest"
    using Cons.prems xs by (auto simp: i2c_read_bit_def Let_def i2c_getDC_split sample_feed)
  from Cons.IH [OF e(2) xs(2)] e(1) show ?case by simp
qed simp

text \<open>The samples of the data line while a device sends \<open>v\<close>.\<close>

definition byte_samples :: "u8 \<Rightarrow> u32 list" where
  "byte_samples v = map sample_of (msb_first v)"

lemma readByte_reads:
  assumes "sda_feed st = byte_samples v @ rest" "i2c_master_readByte st = (r, st')"
  shows "r = v \<and> sda_feed st' = rest"
proof -
  have l: "length (byte_samples v) = 8" by (simp add: byte_samples_def msb_first_def)
  have "r = v"
    using readByte_value [OF assms(1) l] assms(2) collect_bits [of v] by (simp add: byte_samples_def)
  moreover have "sda_feed st' = rest"
    using assms l read_bits_feed [of "i2c_master_wait 5 (i2c_master_setDC (m_nLastSDA st) 0 (i2c_master_wait 5 st))"
        "byte_samples v" rest "[0..<8]" 0]
    by (auto simp: i2c_master_readByte_def Let_def split: prod.splits)
  ultimately show ?thesis by simp
qed

text \<open>What the master says of a byte it reads: it lets go of the line eight times, then answers.\<close>

definition read_frame :: "bool \<Rightarrow> bus_sym list" where
  "read_frame final = replicate 8 (B_BIT True) @ [B_BIT final]"

lemma burst_byte_effect:
  assumes "coherent st w" "sda_feed st = byte_samples v @ rest" "i < length pData"
  obtains st' where "burst_byte len i (pData, st) = Some (pData[i := v], st')" "sda_feed st' = rest"
    "performs w st (read_frame (i = len - 1)) (lines True False) st'"
proof -
  obtain r st1 where r: "i2c_master_readByte st = (r, st1)" by force
  define st' where "st' = i2c_master_setAck (if i = len - 1 then 1 else 0) st1"
  have one: "performs w st (replicate 8 (B_BIT True)) (lines True False) st1"
    using performs_readByte [OF assms(1)] r by simp
  have "performs (lines True False) st1 [B_BIT (i = len - 1)] (lines True False) st'"
    using performs_setAck [OF performs_coherent [OF one], of "if i = len - 1 then 1 else 0"]
    by (cases "i = len - 1") (simp_all add: st'_def)
  from performs_trans [OF one this] readByte_reads [OF assms(2) r] assms(3) show ?thesis
    by (intro that [of st']) (simp_all add: burst_byte_def r st'_def read_frame_def)
qed

lemma burst_bytes_effect:
  assumes "coherent st w" "scl w = False \<and> sda w" "sda_feed st = concat (map byte_samples vs) @ rest"
    and "k + length vs = len" "length pre = k" "length vs \<le> length post"
  shows "\<exists>st'. burst_bytes len [k..<len] (pre @ post, st) = Some (pre @ vs @ drop (length vs) post, st') \<and>
    sda_feed st' = rest \<and>
    performs w st (concat (map (\<lambda>i. read_frame (i = len - 1)) [k..<len])) (lines True False) st'"
  using assms
proof (induction vs arbitrary: k pre post st w)
  case Nil
  then show ?case using performs_refl [OF Nil(1)] coherent_lines [OF Nil(1)] by auto
next
  case (Cons v vs)
  from Cons.prems(6) obtain p ps where post: "post = p # ps" by (cases post) auto
  have f: "sda_feed st = byte_samples v @ concat (map byte_samples vs) @ rest" using Cons.prems(3) by simp
  have k: "k < length (pre @ post)" using Cons.prems(5) post by simp
  obtain st1 where b: "burst_byte len k (pre @ post, st) = Some ((pre @ post)[k := v], st1)"
      "sda_feed st1 = concat (map byte_samples vs) @ rest" "performs w st (read_frame (k = len - 1)) (lines True False) st1"
    by (rule burst_byte_effect [OF Cons.prems(1) f k])
  have upd: "(pre @ post)[k := v] = (pre @ [v]) @ ps" using Cons.prems(5) post by (simp add: list_update_append)
  have upt: "[k..<len] = k # [Suc k..<len]" using Cons.prems(4) by (simp add: upt_conv_Cons)
  from Cons.IH [OF performs_coherent [OF b(3)] _ b(2), of "Suc k" "pre @ [v]" ps] obtain st' where
    st': "burst_bytes len [Suc k..<len] ((pre @ [v]) @ ps, st1) = Some ((pre @ [v]) @ vs @ drop (length vs) ps, st')"
      "sda_feed st' = rest"
      "performs (lines True False) st1 (concat (map (\<lambda>i. read_frame (i = len - 1)) [Suc k..<len])) (lines True False) st'"
    using Cons.prems(4-6) post by auto
  from performs_trans [OF b(3) st'(3)] show ?case
    using st' b(1) upd post unfolding upt by (intro exI [of _ st']) simp
qed

text \<open>What the master says to address a device: a start, the byte, and the line let go for the answer.\<close>

definition address_frame :: "u8 \<Rightarrow> bus_sym list" where
  "address_frame a = B_START # map B_BIT (msb_first a) @ [B_BIT True]"

lemma address_effect:
  assumes "coherent st (lines True True)" "sda_feed st = sample_of a # rest"
    and "i2c_master_getAck (i2c_master_writeByte x (i2c_master_start st)) = (ack, st')"
  shows "ack = of_bool a" "sda_feed st' = rest" "performs (lines True True) st (address_frame x) (lines True False) st'"
proof -
  have s: "performs (lines True True) st [B_START] (lines False True) (i2c_master_start st)"
    using performs_start [OF assms(1)] by simp
  note w = performs_trans [OF s performs_writeByte [OF performs_coherent [OF s], of x]]
  from performs_trans [OF w performs_getAck [OF performs_coherent [OF w]]] assms(3)
  show "performs (lines True True) st (address_frame x) (lines True False) st'" by (simp add: address_frame_def)
  show "ack = of_bool a" "sda_feed st' = rest" using getAck_reads [OF _ assms(3)] assms(2) by simp_all
qed

lemma stop_effect:
  assumes "coherent st (lines True False)"
  shows "performs (lines True False) st [B_STOP] (lines True True) (i2c_master_stop st)"
  using performs_stop [OF assms] by simp

text \<open>
  C15. Sensor, composition with the I2C driver: a reading of the sensor. When the device acknowledges both
  addresses and sends the bytes \<open>vs\<close>, they are returned, and the bus carries two transactions: the
  address alone, then the next address with one read frame per byte, of which only the last is
  answered with a one. When it does not acknowledge, the read fails after a stop and
  leaves the array alone. The bus is idle again in every case.
\<close>

theorem mvh_burst_reads:
  assumes "coherent st (lines True True)" "length vs = unat len" "length vs \<le> length pData"
    and "sda_feed st = sample_of nak1 # sample_of nak2 # concat (map byte_samples vs) @ rest"
  shows "\<exists>ok dat st'. user_mvh3004_burst_read addr pData len st = Some (ok, dat, st') \<and>
    coherent st' (lines True True) \<and> ok = (\<not> nak1 \<and> \<not> nak2) \<and>
    dat = (if ok then vs @ drop (length vs) pData else pData) \<and>
    said (lines True True) st st' = address_frame addr @ [B_STOP] @
      (if nak1 then []
       else address_frame (addr + 1) @
         (if nak2 then [] else concat (map (\<lambda>i. read_frame (i = length vs - 1)) [0..<length vs])) @ [B_STOP])"
proof -
  obtain ack1 st1 where a1: "i2c_master_getAck (i2c_master_writeByte addr (i2c_master_start st)) = (ack1, st1)" by force
  note e1 = address_effect [OF assms(1,4) a1]
  show ?thesis
  proof (cases nak1)
    case True
    note say = performs_trans [OF e1(3) performs_say [OF performs_coherent [OF e1(3)], of "''addr not ack when tx write cmd ''"]]
    note all = performs_trans [OF say stop_effect [OF performs_coherent [OF say]]]
    from performs_said [OF all] performs_coherent [OF all] True e1(1) show ?thesis
      by (auto simp: user_mvh3004_burst_read_def Let_def a1)
  next
    case False
    note stop = performs_trans [OF e1(3) stop_effect [OF performs_coherent [OF e1(3)]]]
    note idle = performs_trans [OF stop performs_wait [OF performs_coherent [OF stop], of 40000]]
    define st2 where "st2 = i2c_master_wait 40000 (i2c_master_stop st1)"
    obtain ack2 st3 where a2: "i2c_master_getAck (i2c_master_writeByte (addr + 1) (i2c_master_start st2)) = (ack2, st3)" by force
    have f: "sda_feed st2 = sample_of nak2 # concat (map byte_samples vs) @ rest" using e1(2) by (simp add: st2_def)
    note e2 = address_effect [OF performs_coherent [OF idle, folded st2_def] f a2]
    note second = performs_trans [OF idle [folded st2_def] e2(3)]
    show ?thesis
    proof (cases nak2)
      case True
      note say = performs_trans [OF second performs_say [OF performs_coherent [OF second], of "''addr not ack when tx write cmd ''"]]
      note all = performs_trans [OF say stop_effect [OF performs_coherent [OF say]]]
      from performs_said [OF all] performs_coherent [OF all] True False e1(1) e2(1) show ?thesis
        by (auto simp: user_mvh3004_burst_read_def Let_def a1 a2 st2_def [symmetric])
    next
      case nak2: False
      from burst_bytes_effect [OF performs_coherent [OF e2(3)] _ e2(2), of 0 "length vs" "[]" pData] assms(3)
      obtain st4 where b: "burst_bytes (length vs) [0..<length vs] (pData, st3) = Some (vs @ drop (length vs) pData, st4)"
        "performs (lines True False) st3 (concat (map (\<lambda>i. read_frame (i = length vs - 1)) [0..<length vs])) (lines True False) st4"
        by auto
      note bytes = performs_trans [OF second b(2)]
      note all = performs_trans [OF bytes stop_effect [OF performs_coherent [OF bytes]]]
      from performs_said [OF all] performs_coherent [OF all] nak2 False e1(1) e2(1) b(1) assms(2) show ?thesis
        by (auto simp: user_mvh3004_burst_read_def Let_def a1 a2 st2_def [symmetric])
    qed
  qed
qed

definition sensor_example :: i2c where
  "sensor_example = i2c_idle\<lparr>i2c_hw := mach0\<lparr>feed := (\<lambda>_. [])(GpioInput :=
     sample_of False # sample_of False # concat (map byte_samples [0x1F, 0xA0, 0x66, 0x4C]))\<rparr>\<rparr>"

theorem mvh_burst_reads_witness:
  "\<exists>st'. user_mvh3004_read_th [0, 0, 0, 0] sensor_example = Some (True, [0x1F, 0xA0, 0x66, 0x4C], st') \<and>
    coherent st' (lines True True)"
proof -
  have "coherent sensor_example (lines True True)" using coherent_idle by (simp add: sensor_example_def coherent_def)
  from mvh_burst_reads [OF this, of "[0x1F, 0xA0, 0x66, 0x4C]" 4 "[0, 0, 0, 0]" False False "[]" MVH3004_Addr]
  show ?thesis by (auto simp: sensor_example_def user_mvh3004_read_th_def)
qed

section \<open>The values\<close>

lemma unat_scale:
  assumes "unat x \<le> 16383"
  shows "unat (x * 165 * 100 div 16383 :: u32) = unat x * 16500 div 16383"
    "unat (x * 100 * 100 div 16383 :: u32) = unat x * 10000 div 16383"
proof -
  have m: "unat (y * of_nat c) = unat y * c" if "unat y * c < 2 ^ 32" "c < 2 ^ 32" for y :: u32 and c
    using that by (simp add: unat_word_ariths unat_of_nat take_bit_nat_eq_self)
  have "unat (x * 165) = unat x * 165" "unat (x * 100) = unat x * 100"
    using m [of x 165] m [of x 100] assms by simp_all
  then have "unat (x * 165 * 100) = unat x * 16500" "unat (x * 100 * 100) = unat x * 10000"
    using m [of "x * 165" 100] m [of "x * 100" 100] assms by simp_all
  then show "unat (x * 165 * 100 div 16383 :: u32) = unat x * 16500 div 16383"
    "unat (x * 100 * 100 div 16383 :: u32) = unat x * 10000 div 16383"
    by (simp_all add: unat_div)
qed

lemma upload_values_parts:
  assumes "upload_values d = (sign, tw, td, rw, rd)"
  defines "t \<equiv> unat (drop_bit 2 (push_bit 8 (ucast (d ! 2)) OR ucast (d ! 3) :: u16))"
    and "h \<equiv> unat ((push_bit 8 (ucast (d ! 0)) OR ucast (d ! 1)) AND 0x3fff :: u16)"
  shows "(if sign = [] then int (100 * unat tw + unat td) else - int (100 * unat tw + unat td)) =
      int (t * 16500 div 16383) - 4000 \<and>
    unat tw \<le> 125 \<and> unat td < 100 \<and> 100 * unat rw + unat rd = h * 10000 div 16383 \<and> unat rw \<le> 100 \<and> unat rd < 100"
proof -
  define tp :: u16 where "tp = drop_bit 2 (push_bit 8 (ucast (d ! 2)) OR ucast (d ! 3))"
  define rh :: u16 where "rh = (push_bit 8 (ucast (d ! 0)) OR ucast (d ! 1)) AND 0x3fff"
  define tt :: u32 where "tt = ucast tp * 165 * 100 div 16383"
  define hhh :: u32 where "hhh = ucast rh * 100 * 100 div 16383"
  have t: "unat tp = t" "unat rh = h" by (simp_all add: tp_def rh_def t_def h_def)
  have tpb: "t \<le> 16383"
    using unat_u16_less [of "push_bit 8 (ucast (d ! 2)) OR ucast (d ! 3)"]
    unfolding t [symmetric] tp_def drop_bit_eq_div by (simp add: unat_div)
  have rhb: "h \<le> 16383"
    unfolding t [symmetric] rh_def using word_and_le1 [of "push_bit 8 (ucast (d ! 0)) OR ucast (d ! 1)" "0x3fff :: u16"]
    by (simp add: word_le_nat_alt)
  have u: "unat (ucast tp :: u32) = t" "unat (ucast rh :: u32) = h" using t tpb rhb by (simp_all add: unsigned_ucast_eq take_bit_nat_eq_self)
  have v: "unat tt = t * 16500 div 16383" "unat hhh = h * 10000 div 16383"
    using unat_scale [of "ucast tp"] unat_scale [of "ucast rh"] tpb rhb u by (simp_all add: tt_def hhh_def)
  have tb: "unat tt \<le> 16500" "unat hhh \<le> 10000" using tpb rhb by (simp_all add: v div_le_mono [of _ "16383 * _" 16383, simplified])
  have dm: "unat (x div 100) = unat x div 100" "unat (x mod 100) = unat x mod 100" for x :: u32
    by (simp_all add: unat_div unat_mod)
  have e: "upload_values d = (if tt \<ge> 4000 then ([], tt div 100 - 40, tt mod 100, hhh div 100, hhh mod 100)
      else (''-'', (4000 - tt) div 100, (4000 - tt) mod 100, hhh div 100, hhh mod 100))"
    by (simp add: upload_values_def Let_def tt_def hhh_def tp_def rh_def)
  have cut: "100 * (n div 100 - 40) + n mod 100 = n - 4000" "n div 100 - 40 \<le> 125" if "4000 \<le> n" "n \<le> 16500" for n :: nat
  proof -
    have "40 \<le> n div 100" "n div 100 \<le> 165" using div_le_mono [OF that(1), of 100] div_le_mono [OF that(2), of 100] by simp_all
    then show "n div 100 - 40 \<le> 125" "100 * (n div 100 - 40) + n mod 100 = n - 4000"
      using mult_div_mod_eq [of 100 n] by (simp_all add: diff_mult_distrib2 del: mult_div_mod_eq)
  qed
  have hd: "unat (hhh div 100) \<le> 100" "100 * unat (hhh div 100) + unat (hhh mod 100) = h * 10000 div 16383"
    using div_le_mono [OF tb(2), of 100] by (simp_all add: dm v)
  show ?thesis
  proof (cases "4000 \<le> tt")
    case True
    then have big: "4000 \<le> unat tt" by (simp add: word_le_nat_alt)
    then have "40 \<le> unat tt div 100" using div_le_mono [OF big, of 100] by simp
    then have "unat (tt div 100 - 40) = unat tt div 100 - 40" by (simp add: unat_sub word_le_nat_alt dm)
    then have w: "100 * unat (tt div 100 - 40) + unat (tt mod 100) = unat tt - 4000" "unat (tt div 100 - 40) \<le> 125"
      using cut [OF big tb(1)] by (simp_all add: dm)
    have r: "sign = []" "tw = tt div 100 - 40" "td = tt mod 100" "rw = hhh div 100" "rd = hhh mod 100"
      using True e assms(1) by simp_all
    show ?thesis unfolding r using w hd big by (simp add: v(1) [symmetric] of_nat_diff) (simp add: dm)
  next
    case False
    then have small: "unat tt < 4000" by (simp add: word_le_nat_alt)
    then have n: "unat (4000 - tt) = 4000 - unat tt" by (simp add: unat_sub word_le_nat_alt)
    then have w: "100 * unat ((4000 - tt) div 100) + unat ((4000 - tt) mod 100) = 4000 - unat tt" "unat ((4000 - tt) div 100) \<le> 125"
      using div_le_mono [of "4000 - unat tt" 4000 100] by (simp_all add: dm)
    have r: "sign \<noteq> []" "tw = (4000 - tt) div 100" "td = (4000 - tt) mod 100" "rw = hhh div 100" "rd = hhh mod 100"
      using False e assms(1) by auto
    show ?thesis unfolding r(2-5) using r(1) w hd small by (simp add: v(1) [symmetric] of_nat_diff) (simp add: dm)
  qed
qed

text \<open>
  C34. Sensor, bounds: the values that are uploaded are those of the data sheet, cut off at hundredths: the
  14 bits of the temperature stand for -40 to 125 degrees, those of the humidity for 0 to 100
  percent; no product wraps around and every part that is printed keeps its two digits.
\<close>

theorem upload_values_close:
  "case upload_values d of (sign, tw, td, rw, rd) \<Rightarrow>
    let t = unat (drop_bit 2 (push_bit 8 (ucast (d ! 2)) OR ucast (d ! 3) :: u16));
        h = unat ((push_bit 8 (ucast (d ! 0)) OR ucast (d ! 1)) AND 0x3fff :: u16) in
    (if sign = [] then int (100 * unat tw + unat td) else - int (100 * unat tw + unat td)) =
      int (t * 16500 div 16383) - 4000 \<and>
    unat tw \<le> 125 \<and> unat td < 100 \<and> 100 * unat rw + unat rd = h * 10000 div 16383 \<and> unat rw \<le> 100 \<and> unat rd < 100"
proof -
  obtain sign tw td rw rd where u: "upload_values d = (sign, tw, td, rw, rd)" by (metis prod_cases5)
  from upload_values_parts [OF this] show ?thesis by (simp only: u prod.case Let_def)
qed

end
