(* ===== verification/IotTimer.thy ===== *)
theory IotTimer
  imports CText "HOL-Library.Signed_Division"
begin

text \<open>
  The timers of the demonstration program (examples/IoT_Demo/user/user_esp_platform_timer.c): the
  server sends a list of actions with the moments they are due; the program splits the list, works
  out how long to wait for each, and sets a timer for the nearest, in pieces of an hour. An
  \<open>int\<close> is a HOL integer reduced to 32 bits after each operation; strings are those of CText; a
  copy or an index outside an object, an unset pointer and a division by zero are \<open>None\<close>. Debug
  messages are left out, and so is the action itself, which is compiled for the plug only.
\<close>

section \<open>State\<close>

record wait_timer =
  wait_time_param :: string \<comment> \<open>11 characters\<close>
  wait_action :: string \<comment> \<open>15 characters\<close>
  wait_time_second :: int

record wait_param =
  action :: "string list" \<comment> \<open>20 entries of 15 characters\<close>
  action_number :: u16
  wait_count :: u16
  min_time_backup :: u32

datatype device_cb = CB_overflow_check | CB_device_action

text \<open>
  The static objects of the file. The delay of the armed timer is in milliseconds. Its argument is
  the address of a local object of \<open>esp_platform_timer_action\<close>, which has returned when it expires.
\<close>

record timers =
  device_timer :: "(device_cb \<times> u32) option"
  min_wait_second :: u32
  timestamp_str :: string \<comment> \<open>11 characters\<close>
  timestamp :: int
  timer_splits :: "string option list" \<comment> \<open>20 pointers\<close>

definition i32 :: "int \<Rightarrow> int" where
  "i32 x = signed_take_bit 31 x"

section \<open>Splitting a string\<close>

definition indexof :: "string \<Rightarrow> string \<Rightarrow> nat \<Rightarrow> nat option" where
  "indexof p1 p2 start = map_option (\<lambda>n. start + n) (strstr_at (drop start p1) p2)"

text \<open>The pieces from the offset \<open>i\<close> on; each is put into a block of 100 bytes with its zero byte.\<close>

function split_from :: "string \<Rightarrow> string \<Rightarrow> nat \<Rightarrow> string list option" where
  "split_from p1 p2 i =
    (let e = (case indexof p1 p2 i of Some e \<Rightarrow> e | None \<Rightarrow> length p1)
     in if e - i \<ge> 100 then None
        else if e + 1 > length p1 then Some [take (e - i) (drop i p1)]
        else map_option ((#) (take (e - i) (drop i p1))) (split_from p1 p2 (e + 1)))"
  by pat_completeness auto
termination
  by (relation "measure (\<lambda>(p1, p2, i). Suc (length p1) - i)") (auto simp: indexof_def split: option.splits)

declare split_from.simps [simp del]

text \<open>The pointers go into an array of \<open>room\<close> entries.\<close>

definition split :: "string \<Rightarrow> string \<Rightarrow> nat \<Rightarrow> string list option" where
  "split p1 p2 room =
    (case split_from p1 p2 0 of
       Some ps \<Rightarrow> if length ps \<le> room then Some ps else None
     | None \<Rightarrow> None)"

section \<open>How long to wait\<close>

definition no_wait :: wait_timer where
  "no_wait = \<lparr>wait_time_param = replicate 11 (CHR 0x00), wait_action = replicate 15 (CHR 0x00), wait_time_second = 0\<rparr>"

text \<open>What the three branches share: the number after the letter and the action after \<open>=\<close>.\<close>

definition read_entry :: "string \<Rightarrow> wait_timer \<Rightarrow> (wait_timer \<times> int) option" where
  "read_entry str w =
    (case split str ''='' 2 of
       Some [t, a] \<Rightarrow>
         (case (memcpy_to (wait_time_param w) 0 (drop 1 t), memcpy_to (wait_action w) 0 a) of
            (Some t, Some a) \<Rightarrow>
              map_option (\<lambda>x. (w\<lparr>wait_time_param := t, wait_action := a\<rparr>, i32 (atoi x))) (text_at t)
          | _ \<Rightarrow> None)
     | _ \<Rightarrow> None)"

definition WEEK :: int where "WEEK = 7 * 24 * 3600"

definition wait_entry :: "int \<Rightarrow> string \<Rightarrow> wait_timer \<Rightarrow> wait_timer option" where
  "wait_entry now str w =
    (if indexof str ''f'' 0 = Some 0 then
       map_option (\<lambda>(w, t). w\<lparr>wait_time_second := i32 (t - now)\<rparr>) (read_entry str w)
     else if indexof str ''l'' 0 = Some 0 then
       (case read_entry str w of
          Some (w, t) \<Rightarrow> if t = 0 then None else Some (w\<lparr>wait_time_second := i32 (t - now smod t)\<rparr>)
        | None \<Rightarrow> None)
     else if indexof str ''w'' 0 = Some 0 then
       map_option (\<lambda>(w, t).
           let monday_wait_time = i32 (now - 1388937600) smod WEEK
           in w\<lparr>wait_time_second := (if t > monday_wait_time then i32 (t - monday_wait_time)
                                   else i32 (WEEK - monday_wait_time + t))\<rparr>)
         (read_entry str w)
     else Some w)"

section \<open>The nearest moment\<close>

text \<open>The comparison of an \<open>int\<close> with a \<open>uint32\<close> is one of \<open>uint32\<close>.\<close>

definition esp_platform_find_min_time :: "wait_timer list \<Rightarrow> u32" where
  "esp_platform_find_min_time ws =
    fold (\<lambda>w m. if (of_int (wait_time_second w) :: u32) < m \<and> wait_time_second w \<ge> 0
                then of_int (wait_time_second w) else m) ws 0xFFFFFFF"

definition user_esp_platform_wait_time_overflow_check :: "wait_param \<times> timers \<Rightarrow> wait_param \<times> timers" where
  "user_esp_platform_wait_time_overflow_check = (\<lambda>(pwait, st).
    (let st = st\<lparr>device_timer :=
           (if min_time_backup pwait \<ge> 3600 then Some (CB_overflow_check, 3600000)
            else Some (CB_device_action, min_time_backup pwait * 1000))\<rparr>
     in (pwait\<lparr>min_time_backup := min_time_backup pwait - 3600\<rparr>, st)))"

text \<open>One entry of the loop that collects the actions that are due first.\<close>

definition collect_action :: "u32 \<Rightarrow> wait_timer \<Rightarrow> string list \<times> nat \<Rightarrow> (string list \<times> nat) option" where
  "collect_action m w = (\<lambda>(as, n).
    (if of_int (wait_time_second w) = m then
       (case text_at (wait_action w) of
          None \<Rightarrow> None
        | Some a \<Rightarrow>
            if n < length as then map_option (\<lambda>b. (as[n := b], n + 1)) (memcpy_to (as ! n) 0 a) else None)
     else Some (as, n)))"

primrec collect_actions :: "u32 \<Rightarrow> wait_timer list \<Rightarrow> string list \<times> nat \<Rightarrow> (string list \<times> nat) option" where
  "collect_actions m [] acc = Some acc"
| "collect_actions m (w # ws) acc =
    (case collect_action m w acc of None \<Rightarrow> None | Some acc \<Rightarrow> collect_actions m ws acc)"

definition esp_platform_timer_action :: "wait_timer list \<Rightarrow> timers \<Rightarrow> (wait_param \<times> timers) option" where
  "esp_platform_timer_action ws st =
    map_option (\<lambda>(as, n). user_esp_platform_wait_time_overflow_check
        (\<lparr>action = as, action_number = of_nat n, wait_count = of_nat (length ws), min_time_backup = min_wait_second st\<rparr>, st))
      (collect_actions (min_wait_second st) ws (replicate 20 (replicate 15 (CHR 0x00)), 0))"

primrec wait_entries :: "int \<Rightarrow> string option list \<Rightarrow> wait_timer list option" where
  "wait_entries now [] = Some []"
| "wait_entries now (s # ss) =
    (case s of
       None \<Rightarrow> None
     | Some str \<Rightarrow>
         (case wait_entry now str no_wait of
            None \<Rightarrow> None
          | Some w \<Rightarrow> map_option ((#) w) (wait_entries now ss)))"

text \<open>The second component is the local object the timer keeps the address of, when it is set.\<close>

definition user_platform_timer_first_start :: "nat \<Rightarrow> timers \<Rightarrow> (timers \<times> wait_param option) option" where
  "user_platform_timer_first_start count st =
    (let st = st\<lparr>timestamp := i32 (timestamp st + uint (min_wait_second st))\<rparr>
     in if count > length (timer_splits st) then None
        else case wait_entries (timestamp st) (take count (timer_splits st)) of
          None \<Rightarrow> None
        | Some ws \<Rightarrow>
            let st = st\<lparr>min_wait_second := esp_platform_find_min_time ws\<rparr>
            in if min_wait_second st = 0 then Some (st, None)
               else map_option (\<lambda>(p, st). (st, Some p)) (esp_platform_timer_action ws st))"

section \<open>A message of the server\<close>

text \<open>
  The time stamp after its label and a space, up to the next comma. The code tests the label once
  more instead of the comma: without a comma the length of the copy is negative.
\<close>

definition read_timestamp :: "string \<Rightarrow> timers \<Rightarrow> timers option" where
  "read_timestamp pbuffer st =
    (case strstr_at pbuffer ([CHR 0x22] @ ''timestamp'' @ [CHR 0x22] @ '':'') of
       None \<Rightarrow> Some st
     | Some n \<Rightarrow>
         if n + 13 > length pbuffer then None
         else case strstr_at (drop (n + 13) pbuffer) '','' of
           None \<Rightarrow> None
         | Some k \<Rightarrow>
             (case memcpy_to (timestamp_str st) 0 (take k (drop (n + 13) pbuffer)) of
                None \<Rightarrow> None
              | Some b \<Rightarrow> map_option (\<lambda>t. st\<lparr>timestamp_str := b, timestamp := i32 (atoi t)\<rparr>) (text_at b)))"

definition user_platform_timer_start :: "string \<Rightarrow> timers \<Rightarrow> (timers \<times> wait_param option) option" where
  "user_platform_timer_start pbuffer st =
    (case read_timestamp pbuffer (st\<lparr>min_wait_second := 0\<rparr>) of
       None \<Rightarrow> None
     | Some st \<Rightarrow>
         let st = st\<lparr>timer_splits := replicate 20 None\<rparr>
         in case strstr_at pbuffer ([CHR 0x22] @ ''timers'' @ [CHR 0x22] @ '': '' @ [CHR 0x22]) of
              None \<Rightarrow> Some (st, None)
            | Some n \<Rightarrow>
                let pstr_start = drop n pbuffer
                in case indexof pstr_start [CHR 0x22] 11 of
                     None \<Rightarrow> None
                   | Some str_end \<Rightarrow>
                       if str_end = 11 then Some (st\<lparr>device_timer := None\<rparr>, None)
                       else case split (take (str_end - 11) (drop 11 pstr_start)) '';'' 20 of
                         None \<Rightarrow> None
                       | Some ps \<Rightarrow>
                           user_platform_timer_first_start (length ps)
                             (st\<lparr>timer_splits := map Some ps @ replicate (20 - length ps) None\<rparr>))"

section \<open>Splitting is the inverse of joining\<close>

fun joined :: "char \<Rightarrow> string list \<Rightarrow> string" where
  "joined c [] = []"
| "joined c [p] = p"
| "joined c (p # ps) = p @ c # joined c ps"

lemma indexof_after:
  assumes "c \<notin> set p"
  shows "indexof (pre @ p @ c # q) [c] (length pre) = Some (length pre + length p)"
    "indexof (pre @ p) [c] (length pre) = None"
  using assms strstr_at_skip [of "[c]" p q] strstr_at_none [of "[c]" p] by (simp_all add: indexof_def)

lemma split_from_joined:
  assumes "ps \<noteq> []" "\<forall>p \<in> set ps. c \<notin> set p \<and> length p < 100"
  shows "split_from (pre @ joined c ps) [c] (length pre) = Some ps"
  using assms
proof (induction c ps arbitrary: pre rule: joined.induct)
  case (2 c p)
  then show ?case
    by (subst split_from.simps) (simp add: indexof_after)
next
  case (3 c p q ps)
  have "split_from ((pre @ p @ [c]) @ joined c (q # ps)) [c] (length (pre @ p @ [c])) = Some (q # ps)"
    using "3.prems" by (intro "3.IH") auto
  then show ?case
    using "3.prems" indexof_after(1) [of c p pre "joined c (q # ps)"]
    by (subst split_from.simps) simp
qed simp

text \<open>
  C36. Splitting undoes joining: pieces of fewer than 100 characters, joined by a character none of
  them holds, come back from \<open>split\<close> in order, empty ones included, if there is room for them.
\<close>

theorem split_joined:
  assumes "ps \<noteq> []" "\<forall>p \<in> set ps. c \<notin> set p \<and> length p < 100"
  shows "split (joined c ps) [c] room = (if length ps \<le> room then Some ps else None)"
  using split_from_joined [OF assms, of "[]"] by (simp add: split_def)

theorem split_joined_witness:
  "split ''l60=on;;f7=off'' '';'' 20 = Some [''l60=on'', '''', ''f7=off''] \<and> split ''l60=on;;f7=off'' '';'' 2 = None"
  using split_joined [of "[''l60=on'', '''', ''f7=off'']" "CHR '';''" 20] split_joined [of "[''l60=on'', '''', ''f7=off'']" "CHR '';''" 2]
  by simp

section \<open>Waiting times\<close>

lemma i32_id: "- (2 ^ 31) \<le> x \<Longrightarrow> x < 2 ^ 31 \<Longrightarrow> i32 x = x"
  by (simp add: i32_def signed_take_bit_int_eq_self)

lemma smod_nonneg: "0 \<le> a \<Longrightarrow> 0 < b \<Longrightarrow> a smod b = a mod (b :: int)"
  by (cases "a = 0") (auto simp: signed_modulo_int_def)

text \<open>An entry as the server writes it: the letter, the moment in seconds, the action.\<close>

definition entry :: "char \<Rightarrow> nat \<Rightarrow> string \<Rightarrow> string" where
  "entry kind t a = kind # digits t @ ''='' @ a"

lemma split_entry:
  assumes "CHR ''='' \<notin> set a" "length a < 100" "t < 2 ^ 31" "kind \<in> {CHR ''f'', CHR ''l'', CHR ''w''}"
  shows "split (entry kind t a) ''='' 2 = Some [kind # digits t, a]"
proof -
  have "CHR ''='' \<notin> set (digits t)"
    using digits_are_digits [of t] by (auto simp: is_digit_def)
  moreover have "length (digits t) \<le> 10" using assms(3) length_digits [of t 9] by simp
  ultimately show ?thesis
    using assms split_from_joined [of "[kind # digits t, a]" "CHR ''=''" "[]"]
    by (auto simp: split_def entry_def)
qed

lemma read_entry_ok:
  assumes "CHR ''='' \<notin> set a" "length a \<le> 14" "t < 2 ^ 31" "kind \<in> {CHR ''f'', CHR ''l'', CHR ''w''}"
  shows "\<exists>w. read_entry (entry kind t a) no_wait = Some (w, int t) \<and>
    wait_action w = a @ replicate (15 - length a) (CHR 0x00)"
proof -
  have len: "length (digits t) \<le> 10" using assms(3) length_digits [of t 9] by simp
  define b where "b = digits t @ replicate (11 - length (digits t)) (CHR 0x00)"
  have "text_at b = Some (digits t)"
    using len digits_no_zero [of t] by (auto simp: b_def text_at_def takeWhile_append)
  moreover have "i32 (atoi (digits t)) = int t"
    using atoi_digits [of "[]" t] i32_id [of "int t"] assms(3) by simp
  moreover have "memcpy_to (wait_time_param no_wait) 0 (digits t) = Some b"
    using len by (simp add: memcpy_to_def no_wait_def b_def)
  moreover have "memcpy_to (wait_action no_wait) 0 a = Some (a @ replicate (15 - length a) (CHR 0x00))"
    using assms(2) by (simp add: memcpy_to_def no_wait_def)
  moreover have "split (entry kind t a) ''='' 2 = Some [kind # digits t, a]"
    using assms(2) by (intro split_entry assms(1,3,4)) simp
  ultimately show ?thesis by (simp add: read_entry_def)
qed

text \<open>
  The moment an entry means: \<open>f\<close> a moment once, \<open>l\<close> the multiples of an interval, \<open>w\<close> a second of
  the week, whose weeks begin with the Monday of the constant 1388937600.
\<close>

definition lands :: "char \<Rightarrow> int \<Rightarrow> int \<Rightarrow> int \<Rightarrow> bool" where
  "lands kind t now wait \<longleftrightarrow>
    (if kind = CHR ''f'' then now + wait = t
     else if kind = CHR ''l'' then 0 < wait \<and> wait \<le> t \<and> t dvd now + wait
     else 0 < wait \<and> wait \<le> WEEK \<and> (now + wait - 1388937600) mod WEEK = t)"

lemma indexof_head: "indexof (c # s) [d] 0 = Some 0 \<longleftrightarrow> c = d"
  by (auto simp: indexof_def)

lemma indexof_entry: "indexof (entry kind t a) [d] 0 = Some 0 \<longleftrightarrow> kind = d"
  by (simp add: entry_def indexof_head)

lemma loop_lands:
  assumes "0 \<le> now" "now < 2 ^ 31" "0 < t" "t < 2 ^ 31"
  shows "lands CHR ''l'' t now (i32 (t - now smod t))"
proof -
  have m: "now smod t = now mod t" "0 \<le> now mod t" "now mod t < t"
    using assms by (simp_all add: smod_nonneg)
  then have "i32 (t - now mod t) = t - now mod t" using assms(4) by (intro i32_id) auto
  moreover have "now + (t - now mod t) = t * (now div t + 1)"
    using mult_div_mod_eq [of t now] by (simp add: algebra_simps)
  ultimately show ?thesis using m by (simp add: lands_def) 
qed

lemma week_lands:
  assumes "1388937600 \<le> now" "now < 2 ^ 31" "0 \<le> t" "t < WEEK"
  shows "lands CHR ''w'' t now (let m = i32 (now - 1388937600) smod WEEK
    in if t > m then i32 (t - m) else i32 (WEEK - m + t))"
proof -
  define x where "x = now - 1388937600"
  have x: "0 \<le> x" "x < 2 ^ 31" using assms by (simp_all add: x_def)
  then have m: "i32 x smod WEEK = x mod WEEK" by (simp add: i32_id smod_nonneg WEEK_def)
  have b: "0 \<le> x mod WEEK" "x mod WEEK < WEEK" by (simp_all add: WEEK_def)
  have mod: "(x - x mod WEEK + t) mod WEEK = t"
    using assms(3,4) by (simp add: minus_mod_eq_mult_div)
  have now: "now + y - 1388937600 = x + y" for y by (simp add: x_def)
  show ?thesis
  proof (cases "t > x mod WEEK")
    case True
    then have "i32 (t - x mod WEEK) = t - x mod WEEK" using b assms by (intro i32_id) (auto simp: WEEK_def)
    moreover have "t - x mod WEEK \<le> WEEK" using b assms by linarith
    moreover have "(x + (t - x mod WEEK)) mod WEEK = t"
    proof -
      have e: "x + (t - x mod WEEK) = x - x mod WEEK + t" by simp
      show ?thesis unfolding e by (rule mod)
    qed
    ultimately show ?thesis
      using True by (simp add: x_def [symmetric] Let_def m lands_def now)
  next
    case False
    then have "i32 (WEEK - x mod WEEK + t) = WEEK - x mod WEEK + t" using b assms by (intro i32_id) (auto simp: WEEK_def)
    moreover have "(x + (WEEK - x mod WEEK + t)) mod WEEK = t"
    proof -
      have "x + (WEEK - x mod WEEK + t) = (x - x mod WEEK + t) + WEEK" by simp
      then show ?thesis using mod by (metis mod_add_self2)
    qed
    moreover have "0 < WEEK - x mod WEEK + t" "WEEK - x mod WEEK + t \<le> WEEK" using False b assms by linarith+
    ultimately show ?thesis
      using False by (simp add: x_def [symmetric] Let_def m lands_def now)
  qed
qed

text \<open>
  C35. The waiting time of an entry ends at the moment the entry means: once at the given second,
  at the next multiple of the interval, or at the given second of the week, which is a week away
  when it is the present one.
\<close>

theorem timer_waits_land:
  assumes "CHR ''='' \<notin> set a" "length a \<le> 14" "t < 2 ^ 31" "0 \<le> now" "now < 2 ^ 31"
    and kind: "kind = CHR ''f'' \<or> kind = CHR ''l'' \<and> 0 < t \<or> kind = CHR ''w'' \<and> int t < WEEK \<and> 1388937600 \<le> now"
  shows "\<exists>w. wait_entry now (entry kind t a) no_wait = Some w \<and> lands kind (int t) now (wait_time_second w) \<and>
    wait_action w = a @ replicate (15 - length a) (CHR 0x00)"
proof -
  have k: "kind \<in> {CHR ''f'', CHR ''l'', CHR ''w''}" using kind by auto
  obtain w where w: "read_entry (entry kind t a) no_wait = Some (w, int t)"
    "wait_action w = a @ replicate (15 - length a) (CHR 0x00)"
    using read_entry_ok [OF assms(1-3) k] by blast
  show ?thesis
    using kind
  proof (elim disjE conjE)
    assume "kind = CHR ''f''"
    moreover have "i32 (int t - now) = int t - now" using assms by (intro i32_id) auto
    ultimately show ?thesis using w by (simp add: wait_entry_def indexof_entry lands_def)
  next
    assume "kind = CHR ''l''" "0 < t"
    then show ?thesis
      using w loop_lands [OF assms(4,5), of "int t"] assms(3) by (simp add: wait_entry_def indexof_entry)
  next
    assume "kind = CHR ''w''" "int t < WEEK" "1388937600 \<le> now"
    then show ?thesis
      using w week_lands [of now "int t"] assms(5) by (simp add: wait_entry_def indexof_entry Let_def)
  qed
qed

theorem timer_waits_land_witness:
  "\<exists>w. wait_entry 1700000000 (entry (CHR ''w'') 3600 ''on_switch'') no_wait = Some w \<and>
    lands (CHR ''w'') (int 3600) 1700000000 (wait_time_second w) \<and>
    wait_action w = ''on_switch'' @ replicate (15 - length ''on_switch'') (CHR 0x00)"
  by (rule timer_waits_land) (simp_all add: WEEK_def)

section \<open>The nearest moment\<close>

definition in_int :: "int \<Rightarrow> bool" where
  "in_int x \<longleftrightarrow> - (2 ^ 31) \<le> x \<and> x < 2 ^ 31"

lemma i32_in_int: "in_int (i32 x)"
  using signed_take_bit_int_greater_eq_minus_exp [of 31 x] signed_take_bit_int_less_exp [of 31 x]
  by (simp add: in_int_def i32_def)

lemma wait_entry_in_int: "wait_entry now str no_wait = Some w \<Longrightarrow> in_int (wait_time_second w)"
  by (auto simp: wait_entry_def i32_in_int Let_def split: if_splits option.splits)
    (simp add: in_int_def no_wait_def)

lemma wait_entries_in_int: "wait_entries now ss = Some ws \<Longrightarrow> \<forall>w \<in> set ws. in_int (wait_time_second w)"
  by (induction ss arbitrary: ws) (auto split: option.splits dest: wait_entry_in_int)

text \<open>A waiting time as the comparison of the code sees it.\<close>

lemma uint_wait: "in_int x \<Longrightarrow> 0 \<le> x \<Longrightarrow> uint (of_int x :: u32) = x"
  by (simp add: in_int_def uint_word_of_int_eq take_bit_int_eq_self)

definition nearer :: "wait_timer \<Rightarrow> u32 \<Rightarrow> u32" where
  "nearer w m = (if (of_int (wait_time_second w) :: u32) < m \<and> wait_time_second w \<ge> 0
                 then of_int (wait_time_second w) else m)"

lemma nearer_value:
  assumes "in_int (wait_time_second w)"
  shows "uint (nearer w m) = (if 0 \<le> wait_time_second w then min (wait_time_second w) (uint m) else uint m)"
  using assms uint_wait [of "wait_time_second w"] by (auto simp: nearer_def word_less_def min_def)

lemma find_min:
  assumes "\<forall>w \<in> set ws. in_int (wait_time_second w)"
  shows "(\<forall>w \<in> set ws. 0 \<le> wait_time_second w \<longrightarrow> uint (fold nearer ws m) \<le> wait_time_second w) \<and>
    uint (fold nearer ws m) \<le> uint m \<and>
    (fold nearer ws m = m \<or> (\<exists>w \<in> set ws. 0 \<le> wait_time_second w \<and> wait_time_second w = uint (fold nearer ws m)))"
  using assms
proof (induction ws arbitrary: m)
  case (Cons w ws)
  have v: "uint (nearer w m) = (if 0 \<le> wait_time_second w then min (wait_time_second w) (uint m) else uint m)"
    using Cons.prems by (simp add: nearer_value)
  have "nearer w m = m \<or> 0 \<le> wait_time_second w \<and> wait_time_second w = uint (nearer w m)"
  proof (cases "nearer w m = m")
    case False
    then have "0 \<le> wait_time_second w" "nearer w m = of_int (wait_time_second w)" by (auto simp: nearer_def split: if_splits)
    then show ?thesis using uint_wait [of "wait_time_second w"] Cons.prems by simp
  qed simp
  note old = this
  define r where "r = fold nearer ws (nearer w m)"
  have new: "\<forall>w \<in> set ws. 0 \<le> wait_time_second w \<longrightarrow> uint r \<le> wait_time_second w" "uint r \<le> uint (nearer w m)"
    "r = nearer w m \<or> (\<exists>w \<in> set ws. 0 \<le> wait_time_second w \<and> wait_time_second w = uint r)"
    using Cons.IH [of "nearer w m"] Cons.prems by (simp_all add: r_def)
  have "uint r \<le> uint m" "0 \<le> wait_time_second w \<longrightarrow> uint r \<le> wait_time_second w"
    using new(2) v by (auto split: if_splits)
  moreover have "r = m \<or> (\<exists>v \<in> set (w # ws). 0 \<le> wait_time_second v \<and> wait_time_second v = uint r)"
    using new(3) old by auto
  ultimately show ?case using new(1) by (simp add: r_def)
qed simp

lemma find_min_nearer: "esp_platform_find_min_time ws = fold nearer ws 0xFFFFFFF"
  by (simp add: esp_platform_find_min_time_def nearer_def [abs_def])

section \<open>Waiting in hours\<close>

lemma check_step:
  "user_esp_platform_wait_time_overflow_check (p, st) =
    (p\<lparr>min_time_backup := min_time_backup p - 3600\<rparr>,
     st\<lparr>device_timer := if min_time_backup p \<ge> 3600 then Some (CB_overflow_check, 3600000)
        else Some (CB_device_action, min_time_backup p * 1000)\<rparr>)"
  by (simp add: user_esp_platform_wait_time_overflow_check_def)

lemma checks_backup:
  assumes "3600 * k \<le> unat (min_time_backup p)"
  shows "unat (min_time_backup (fst ((user_esp_platform_wait_time_overflow_check ^^ k) (p, st)))) =
    unat (min_time_backup p) - 3600 * k"
  using assms
proof (induction k)
  case (Suc k)
  obtain q s where q: "(user_esp_platform_wait_time_overflow_check ^^ k) (p, st) = (q, s)" by force
  then have b: "unat (min_time_backup q) = unat (min_time_backup p) - 3600 * k" using Suc by simp
  with Suc.prems have "unat (min_time_backup q - 3600) = unat (min_time_backup q) - 3600"
    by (simp add: unat_sub word_le_nat_alt)
  then show ?case using b by (simp add: q check_step)
qed simp

lemma checks_timer:
  assumes "k \<le> unat (min_time_backup p) div 3600"
  shows "device_timer (snd ((user_esp_platform_wait_time_overflow_check ^^ Suc k) (p, st))) =
    (if k < unat (min_time_backup p) div 3600 then Some (CB_overflow_check, 3600000)
     else Some (CB_device_action, of_nat (unat (min_time_backup p) mod 3600) * 1000))"
proof -
  obtain q s where q: "(user_esp_platform_wait_time_overflow_check ^^ k) (p, st) = (q, s)" by force
  have b: "unat (min_time_backup q) = unat (min_time_backup p) - 3600 * k"
    using checks_backup [of k p st] assms q by simp
  have le: "3600 \<le> min_time_backup q \<longleftrightarrow> k < unat (min_time_backup p) div 3600"
  proof -
    have "3600 \<le> n - 3600 * k \<longleftrightarrow> k < n div 3600" for n :: nat
      using less_eq_div_iff_mult_less_eq [of 3600 "Suc k" n] by (auto simp: Suc_le_eq)
    from this [of "unat (min_time_backup p)"] show ?thesis by (simp add: b word_le_nat_alt)
  qed
  have "min_time_backup q = of_nat (unat (min_time_backup p) mod 3600)" if "\<not> k < unat (min_time_backup p) div 3600"
  proof -
    have "k = unat (min_time_backup p) div 3600" using that assms by simp
    then have "unat (min_time_backup q) = unat (min_time_backup p) mod 3600"
      using b by (simp add: minus_mult_div_eq_mod)
    from arg_cong [OF this, of "of_nat :: nat \<Rightarrow> u32"] show ?thesis by simp
  qed
  then show ?thesis
    using le by (cases "k < unat (min_time_backup p) div 3600") (simp_all only: funpow.simps o_apply q check_step snd_conv if_True if_False, simp_all)
qed

lemma first_start_sets:
  assumes "user_platform_timer_first_start count st = Some (st1, Some p)"
  shows "\<exists>as n s0 ws. wait_entries (timestamp st1) (take count (timer_splits st)) = Some ws \<and>
    min_wait_second st1 = esp_platform_find_min_time ws \<and>
    (p, st1) = user_esp_platform_wait_time_overflow_check
      (\<lparr>action = as, action_number = of_nat n, wait_count = of_nat (length ws), min_time_backup = min_wait_second st1\<rparr>, s0)"
proof -
  define s where "s = st\<lparr>timestamp := i32 (timestamp st + uint (min_wait_second st))\<rparr>"
  obtain ws where ws: "wait_entries (timestamp s) (take count (timer_splits s)) = Some ws"
    "esp_platform_timer_action ws (s\<lparr>min_wait_second := esp_platform_find_min_time ws\<rparr>) = Some (p, st1)"
    using assms by (auto simp: user_platform_timer_first_start_def Let_def s_def split: if_splits option.splits)
  define s0 where "s0 = s\<lparr>min_wait_second := esp_platform_find_min_time ws\<rparr>"
  obtain as n where "user_esp_platform_wait_time_overflow_check
      (\<lparr>action = as, action_number = of_nat n, wait_count = of_nat (length ws), min_time_backup = min_wait_second s0\<rparr>, s0) = (p, st1)"
    using ws(2) by (auto simp: esp_platform_timer_action_def s0_def)
  note an = this [symmetric]
  then have "timestamp st1 = timestamp s" "min_wait_second st1 = esp_platform_find_min_time ws" "min_wait_second st1 = min_wait_second s0"
    by (simp_all add: check_step s0_def)
  moreover have "timer_splits s = timer_splits st" by (simp add: s_def)
  ultimately show ?thesis using ws(1) an by metis
qed


definition two_timers :: timers where
  "two_timers = \<lparr>device_timer = None, min_wait_second = 0, timestamp_str = ''1700000000'' @ [CHR 0x00],
    timestamp = 1700000000, timer_splits = [Some ''f1700009999=off'', Some ''f1700007300=on_switch'']\<rparr>"

lemma two_entries:
  "wait_entries 1700000000 (timer_splits two_timers) =
    Some [\<lparr>wait_time_param = ''1700009999'' @ [CHR 0x00], wait_action = ''off'' @ replicate 12 (CHR 0x00), wait_time_second = 9999\<rparr>,
          \<lparr>wait_time_param = ''1700007300'' @ [CHR 0x00], wait_action = ''on_switch'' @ replicate 6 (CHR 0x00), wait_time_second = 7300\<rparr>]"
  by code_simp

lemma two_start:
  "user_platform_timer_first_start 2 two_timers =
    Some (two_timers\<lparr>device_timer := Some (CB_overflow_check, 3600000), min_wait_second := 7300\<rparr>,
      Some \<lparr>action = (''on_switch'' @ replicate 6 (CHR 0x00)) # replicate 19 (replicate 15 (CHR 0x00)),
        action_number = 1, wait_count = 2, min_time_backup = 3700\<rparr>)"
  by code_simp


end
