(* ===== verification/Light.thy ===== *)
theory Light
  imports Machine
begin

text \<open>
  The lamp of the vendor's demonstration program (examples/IoT_Demo/user: user_light.c,
  user_light_adj.c and their headers): the saved parameters, the ring of pending settings, and
  the timer callback that fades every PWM channel to its aim. The PWM library is binary: its
  functions (pwm.h) are the argument \<open>D\<close> and its state is the type \<open>'p\<close>. The other SDK calls are
  recorded in \<open>calls\<close>; messages are recorded without their line ends. LIGHT_CURRENT_LIMIT and
  SAVE_LIGHT_PARAM are 0 in the headers, so the code under them is not compiled.
\<close>

section \<open>The PWM library (pwm.h)\<close>

record 'p pwm_api =
  pwm_init :: "u32 \<Rightarrow> u32 list \<Rightarrow> u32 \<Rightarrow> (u32 \<times> u32 \<times> u32) list \<Rightarrow> 'p \<Rightarrow> 'p"
  pwm_start :: "'p \<Rightarrow> 'p"
  pwm_set_duty :: "u32 \<Rightarrow> u8 \<Rightarrow> 'p \<Rightarrow> 'p"
  pwm_get_duty :: "u8 \<Rightarrow> 'p \<Rightarrow> u32"
  pwm_set_period :: "u32 \<Rightarrow> 'p \<Rightarrow> 'p"
  pwm_get_period :: "'p \<Rightarrow> u32"
  get_pwm_version :: "'p \<Rightarrow> u32"
  set_pwm_debug_en :: "u8 \<Rightarrow> 'p \<Rightarrow> 'p"

definition PWM_CHANNEL_NUM_MAX :: nat where "PWM_CHANNEL_NUM_MAX = 8"

record pwm_param =
  period :: u32
  freq :: u32
  duty :: "u32 list" \<comment> \<open>\<open>PWM_CHANNEL_NUM_MAX\<close> entries\<close>

section \<open>Constants and state\<close>

definition PRIV_PARAM_SAVE :: u32 where "PRIV_PARAM_SAVE = 0"
definition PWM_CHANNEL :: nat where [reg_simps]: "PWM_CHANNEL = 5"
definition LIGHT_RED :: nat where [reg_simps]: "LIGHT_RED = 0"
definition LIGHT_GREEN :: nat where [reg_simps]: "LIGHT_GREEN = 1"
definition LIGHT_BLUE :: nat where [reg_simps]: "LIGHT_BLUE = 2"
definition LIGHT_COLD_WHITE :: nat where [reg_simps]: "LIGHT_COLD_WHITE = 3"
definition LIGHT_WARM_WHITE :: nat where [reg_simps]: "LIGHT_WARM_WHITE = 4"
definition LIGHT_EVT_QNUM :: u8 where [reg_simps]: "LIGHT_EVT_QNUM = 40"
definition SPI_FLASH_SEC_SIZE :: u32 where "SPI_FLASH_SEC_SIZE = 4096"

text \<open>The register, function and number of the pin of each channel.\<close>

definition io_info :: "(u32 \<times> u32 \<times> u32) list" where
  "io_info =
    [(PERIPHS_IO_MUX_MTDI_U, FUNC_GPIO12, 12),
     (PERIPHS_IO_MUX_MTDO_U, FUNC_GPIO15, 15),
     (PERIPHS_IO_MUX_MTCK_U, FUNC_GPIO13, 13),
     (PERIPHS_IO_MUX_MTMS_U, FUNC_GPIO14, 14),
     (PERIPHS_IO_MUX_GPIO5_U, FUNC_GPIO5, 5)]"

record light_saved_param =
  pwm_period :: u32
  pwm_duty :: "u32 list" \<comment> \<open>\<open>PWM_CHANNEL\<close> entries\<close>

datatype sleep_type = NONE_SLEEP_T | LIGHT_SLEEP_T | MODEM_SLEEP_T

datatype light_call =
    OS_PRINTF string "u32 list"
  | SET_SLEEP_TYPE sleep_type
  | FLASH_ERASE_SECTOR u32
  | FLASH_WRITE u32 light_saved_param

text \<open>The static objects of both files, the armed delay of the timer, the state of the PWM library.\<close>

record 'p light =
  light_sleep_flg :: u8
  min_ms :: u16
  current_duty :: "u32 list"
  change_finish :: bool
  timer_pwm_adj :: "u32 option"
  duty_now :: "u32 list"
  priv_param_start_sec :: u32
  LightEvtArr :: "pwm_param list"
  CurFreeLightEvtIdx :: u8
  TotalUsedLightEvtNum :: u8
  CurEvtIdxToBeUse :: u8
  light_param :: light_saved_param
  pwm :: 'p
  calls :: "light_call list"

definition say_l :: "light_call \<Rightarrow> 'p light \<Rightarrow> 'p light" where
  "say_l c st = st\<lparr>calls := calls st @ [c]\<rparr>"

section \<open>user_light.c: the parameters\<close>

definition user_light_get_duty :: "nat \<Rightarrow> 'p light \<Rightarrow> u32" where
  "user_light_get_duty channel st = pwm_duty (light_param st) ! channel"

definition user_light_set_duty :: "'p pwm_api \<Rightarrow> u32 \<Rightarrow> nat \<Rightarrow> 'p light \<Rightarrow> 'p light" where
  "user_light_set_duty D d channel st =
    (if d \<noteq> pwm_duty (light_param st) ! channel then
       let p = pwm_set_duty D d (of_nat channel) (pwm st);
           lp = light_param st
       in st\<lparr>pwm := p, light_param := lp\<lparr>pwm_duty := (pwm_duty lp)[channel := pwm_get_duty D (of_nat channel) p]\<rparr>\<rparr>
     else st)"

definition user_light_get_period :: "'p light \<Rightarrow> u32" where
  "user_light_get_period st = pwm_period (light_param st)"

definition user_light_set_period :: "'p pwm_api \<Rightarrow> u32 \<Rightarrow> 'p light \<Rightarrow> 'p light" where
  "user_light_set_period D x st =
    (if x \<noteq> pwm_period (light_param st) then
       let p = pwm_set_period D x (pwm st)
       in st\<lparr>pwm := p, light_param := (light_param st)\<lparr>pwm_period := pwm_get_period D p\<rparr>\<rparr>
     else st)"

definition user_light_restart :: "'p pwm_api \<Rightarrow> 'p light \<Rightarrow> 'p light" where
  "user_light_restart D st =
    (let st = say_l (FLASH_ERASE_SECTOR (priv_param_start_sec st + PRIV_PARAM_SAVE)) st;
         st = say_l (FLASH_WRITE ((priv_param_start_sec st + PRIV_PARAM_SAVE) * SPI_FLASH_SEC_SIZE) (light_param st)) st
     in st\<lparr>pwm := pwm_start D (pwm st)\<rparr>)"

section \<open>user_light_adj.c: the ring of settings\<close>

definition LightEvtMalloc :: "'p light \<Rightarrow> nat option \<times> 'p light" where
  "LightEvtMalloc st =
    (let st = st\<lparr>TotalUsedLightEvtNum := TotalUsedLightEvtNum st + 1\<rparr>;
         (tmp, st) =
           (if TotalUsedLightEvtNum st > LIGHT_EVT_QNUM then
              (None, st\<lparr>TotalUsedLightEvtNum := TotalUsedLightEvtNum st - 1\<rparr>)
            else
              let tmp = unat (CurFreeLightEvtIdx st);
                  st = st\<lparr>CurFreeLightEvtIdx := CurFreeLightEvtIdx st + 1\<rparr>;
                  st = (if CurFreeLightEvtIdx st > LIGHT_EVT_QNUM - 1 then st\<lparr>CurFreeLightEvtIdx := 0\<rparr> else st)
              in (Some tmp, st))
     in (tmp, say_l (OS_PRINTF ''malloc:%u'' [ucast (TotalUsedLightEvtNum st)]) st))"

definition LightEvtFree :: "'p light \<Rightarrow> 'p light" where
  "LightEvtFree st =
    (let st = st\<lparr>TotalUsedLightEvtNum := TotalUsedLightEvtNum st - 1\<rparr>
     in say_l (OS_PRINTF ''free:%u'' [ucast (TotalUsedLightEvtNum st)]) st)"

section \<open>user_light_adj.c: the fade\<close>

definition light_save_target_duty :: "'p pwm_api \<Rightarrow> 'p light \<Rightarrow> 'p light" where
  "light_save_target_duty D st =
    st\<lparr>light_param := (light_param st)\<lparr>pwm_duty := take PWM_CHANNEL (current_duty st),
                                       pwm_period := pwm_get_period D (pwm st)\<rparr>\<rparr>"

definition check_pwm_current_duty_diff :: "'p pwm_api \<Rightarrow> 'p light \<Rightarrow> bool" where
  "check_pwm_current_duty_diff D st \<longleftrightarrow>
    list_ex (\<lambda>i. pwm_get_duty D (of_nat i) (pwm st) \<noteq> current_duty st ! i) [0..<PWM_CHANNEL]"

definition check_pwm_duty_zero :: "'p pwm_api \<Rightarrow> 'p light \<Rightarrow> bool" where
  "check_pwm_duty_zero D st \<longleftrightarrow>
    \<not> list_ex (\<lambda>i. pwm_get_duty D (of_nat i) (pwm st) \<noteq> 0) [0..<PWM_CHANNEL]"

definition ABS_MINUS :: "u32 \<Rightarrow> u32 \<Rightarrow> u32" where
  "ABS_MINUS x y = (if x < y then y - x else x - y)"

text \<open>The body of the loop over the channels in \<open>light_dh_pwm_adj_proc\<close>.\<close>

definition fade_duty :: "u32 \<Rightarrow> u32 \<Rightarrow> u32" where
  "fade_duty now aim =
    (let now = drop_bit 4 (now * 15 + aim)
     in if ABS_MINUS now aim < 20 then aim else now)"

definition fade_channel :: "'p pwm_api \<Rightarrow> nat \<Rightarrow> 'p light \<Rightarrow> 'p light" where
  "fade_channel D i st =
    (let st = st\<lparr>duty_now := (duty_now st)[i := fade_duty (duty_now st ! i) (current_duty st ! i)]\<rparr>
     in user_light_set_duty D (duty_now st ! i) i st)"

definition fade_step :: "'p pwm_api \<Rightarrow> 'p light \<Rightarrow> 'p light" where
  "fade_step D st =
    (let st = fold (fade_channel D) [0..<PWM_CHANNEL] st
     in st\<lparr>pwm := pwm_start D (pwm st)\<rparr>)"

text \<open>Taking the oldest setting out of the ring, the first branch of \<open>light_pwm_smooth_adj_proc\<close>.\<close>

definition take_setting :: "'p pwm_api \<Rightarrow> 'p light \<Rightarrow> 'p light" where
  "take_setting D st =
    (let st = user_light_set_period D (period (LightEvtArr st ! unat (CurEvtIdxToBeUse st))) st;
         st = st\<lparr>current_duty := take PWM_CHANNEL (duty (LightEvtArr st ! unat (CurEvtIdxToBeUse st)))\<rparr>;
         st = st\<lparr>CurEvtIdxToBeUse := CurEvtIdxToBeUse st + 1\<rparr>;
         st = (if CurEvtIdxToBeUse st > LIGHT_EVT_QNUM - 1 then st\<lparr>CurEvtIdxToBeUse := 0\<rparr> else st)
     in LightEvtFree st)"

text \<open>Saving and going to sleep, its last branch.\<close>

definition settle :: "'p pwm_api \<Rightarrow> 'p light \<Rightarrow> 'p light" where
  "settle D st =
    (let st = light_save_target_duty D st
     in if check_pwm_duty_zero D st then
          if light_sleep_flg st = 0 then
            let st = say_l (OS_PRINTF ''light sleep en'' []) st;
                st = say_l (SET_SLEEP_TYPE LIGHT_SLEEP_T) st
            in st\<lparr>light_sleep_flg := 1\<rparr>
          else st
        else st)"

lemma user_light_set_duty_total [simp]:
  "TotalUsedLightEvtNum (user_light_set_duty D d c st) = TotalUsedLightEvtNum st"
  by (simp add: user_light_set_duty_def Let_def)

lemma fade_total [simp]: "TotalUsedLightEvtNum (fade_step D st) = TotalUsedLightEvtNum st"
proof -
  have "TotalUsedLightEvtNum (fold (fade_channel D) is st) = TotalUsedLightEvtNum st" for "is"
    by (induction "is" arbitrary: st) (simp_all add: fade_channel_def Let_def)
  then show ?thesis by (simp add: fade_step_def Let_def)
qed

lemma take_total: "TotalUsedLightEvtNum (take_setting D st) = TotalUsedLightEvtNum st - 1"
  by (simp add: take_setting_def LightEvtFree_def user_light_set_period_def say_l_def Let_def)

lemma unat_less_1: "0 < (x :: u8) \<Longrightarrow> unat (x - 1) < unat x"
  by (simp add: measure_unat)

text \<open>
  The two procedures call each other: the fade hands over to the next setting when it is done,
  and a setting taken while no fade is under way starts one. Every round takes a setting out of
  the ring, which is why they return.
\<close>

function light_dh_pwm_adj_proc :: "'p pwm_api \<Rightarrow> 'p light \<Rightarrow> 'p light"
and light_pwm_smooth_adj_proc :: "'p pwm_api \<Rightarrow> 'p light \<Rightarrow> 'p light" where
  "light_dh_pwm_adj_proc D st =
    (let st = fade_step D st
     in if check_pwm_current_duty_diff D st then
          st\<lparr>change_finish := False, timer_pwm_adj := Some (ucast (min_ms st))\<rparr>
        else
          let st = say_l (OS_PRINTF ''finish'' []) st;
              st = st\<lparr>change_finish := True, timer_pwm_adj := None\<rparr>
          in light_pwm_smooth_adj_proc D st)"
| "light_pwm_smooth_adj_proc D st =
    (let st =
       (if TotalUsedLightEvtNum st > 0 then
          let st = take_setting D st
          in if change_finish st then light_dh_pwm_adj_proc D st else st
        else st)
     in if change_finish st then settle D st else st)"
  by pat_completeness auto
termination
  by (relation "measure (\<lambda>x. case x of Inl (D, st) \<Rightarrow> 2 * unat (TotalUsedLightEvtNum st) + 1
                                     | Inr (D, st) \<Rightarrow> 2 * unat (TotalUsedLightEvtNum st))")
    (auto simp: take_total say_l_def dest: unat_less_1)

declare light_dh_pwm_adj_proc.simps [simp del] light_pwm_smooth_adj_proc.simps [simp del]

section \<open>user_light_adj.c: what the rest of the program calls\<close>

definition light_set_aim_r :: "'p pwm_api \<Rightarrow> u32 \<Rightarrow> 'p light \<Rightarrow> 'p light" where
  "light_set_aim_r D r st = light_pwm_smooth_adj_proc D (st\<lparr>current_duty := (current_duty st)[LIGHT_RED := r]\<rparr>)"

definition light_set_aim_g :: "'p pwm_api \<Rightarrow> u32 \<Rightarrow> 'p light \<Rightarrow> 'p light" where
  "light_set_aim_g D g st = light_pwm_smooth_adj_proc D (st\<lparr>current_duty := (current_duty st)[LIGHT_GREEN := g]\<rparr>)"

definition light_set_aim_b :: "'p pwm_api \<Rightarrow> u32 \<Rightarrow> 'p light \<Rightarrow> 'p light" where
  "light_set_aim_b D b st = light_pwm_smooth_adj_proc D (st\<lparr>current_duty := (current_duty st)[LIGHT_BLUE := b]\<rparr>)"

definition light_set_aim_cw :: "'p pwm_api \<Rightarrow> u32 \<Rightarrow> 'p light \<Rightarrow> 'p light" where
  "light_set_aim_cw D cw st = light_pwm_smooth_adj_proc D (st\<lparr>current_duty := (current_duty st)[LIGHT_COLD_WHITE := cw]\<rparr>)"

definition light_set_aim_ww :: "'p pwm_api \<Rightarrow> u32 \<Rightarrow> 'p light \<Rightarrow> 'p light" where
  "light_set_aim_ww D ww st = light_pwm_smooth_adj_proc D (st\<lparr>current_duty := (current_duty st)[LIGHT_WARM_WHITE := ww]\<rparr>)"

text \<open>The setting \<open>light_set_aim\<close> writes into the entry it got; frequency and spare duties stay.\<close>

definition fill_setting :: "u32 \<Rightarrow> u32 \<Rightarrow> u32 \<Rightarrow> u32 \<Rightarrow> u32 \<Rightarrow> u32 \<Rightarrow> pwm_param \<Rightarrow> pwm_param" where
  "fill_setting r g b cw ww per tmp =
    (let tmp = tmp\<lparr>period := (if per < 10000 then per else 10000)\<rparr>;
         duty_max_limit = per * 1000 div 45;
         clip = (\<lambda>d. if d < duty_max_limit then d else duty_max_limit)
     in tmp\<lparr>duty := (duty tmp)[LIGHT_RED := clip r, LIGHT_GREEN := clip g, LIGHT_BLUE := clip b,
                               LIGHT_COLD_WHITE := clip cw, LIGHT_WARM_WHITE := clip ww]\<rparr>)"

definition light_set_aim ::
  "'p pwm_api \<Rightarrow> u32 \<Rightarrow> u32 \<Rightarrow> u32 \<Rightarrow> u32 \<Rightarrow> u32 \<Rightarrow> u32 \<Rightarrow> 'p light \<Rightarrow> 'p light" where
  "light_set_aim D r g b cw ww per st =
    (case LightEvtMalloc st of
       (Some tmp, st) \<Rightarrow>
         let evt = fill_setting r g b cw ww per (LightEvtArr st ! tmp);
             st = st\<lparr>LightEvtArr := (LightEvtArr st)[tmp := evt]\<rparr>;
             st = say_l (OS_PRINTF ''prd:%u  r : %u  g: %u  b: %u  cw: %u  ww: %u '' (per # take 5 (duty evt))) st
         in light_pwm_smooth_adj_proc D st
     | (None, st) \<Rightarrow> say_l (OS_PRINTF ''light para full'' []) st)"

section \<open>user_light.c: start-up\<close>

text \<open>\<open>saved\<close> is what \<open>spi_flash_read\<close> puts into \<open>light_param\<close>.\<close>

definition user_light_init :: "'p pwm_api \<Rightarrow> light_saved_param \<Rightarrow> 'p light \<Rightarrow> 'p light" where
  "user_light_init D saved st =
    (let st = st\<lparr>light_param := saved\<rparr>;
         lp = light_param st;
         st = (if pwm_period lp > 10000 \<or> pwm_period lp < 1000
               then st\<lparr>light_param := lp\<lparr>pwm_period := 1000\<rparr>\<rparr> else st);
         lp = light_param st;
         st = st\<lparr>pwm := pwm_init D (pwm_period lp) (replicate PWM_CHANNEL 0) (of_nat PWM_CHANNEL) io_info (pwm st)\<rparr>;
         st = say_l (OS_PRINTF ''LIGHT PARAM: R: %d '' [pwm_duty lp ! LIGHT_RED]) st;
         st = say_l (OS_PRINTF ''LIGHT PARAM: G: %d '' [pwm_duty lp ! LIGHT_GREEN]) st;
         st = say_l (OS_PRINTF ''LIGHT PARAM: B: %d '' [pwm_duty lp ! LIGHT_BLUE]) st;
         st = (if PWM_CHANNEL > LIGHT_COLD_WHITE
               then say_l (OS_PRINTF ''LIGHT PARAM: WW: %d '' [pwm_duty lp ! LIGHT_WARM_WHITE])
                      (say_l (OS_PRINTF ''LIGHT PARAM: CW: %d '' [pwm_duty lp ! LIGHT_COLD_WHITE]) st)
               else st);
         st = say_l (OS_PRINTF ''LIGHT PARAM: P: %d '' [pwm_period lp]) st;
         target = pwm_duty lp @ replicate (8 - length (pwm_duty lp)) 0;
         st = light_set_aim D (target ! LIGHT_RED) (target ! LIGHT_GREEN) (target ! LIGHT_BLUE)
                (target ! LIGHT_COLD_WHITE) (target ! LIGHT_WARM_WHITE) (pwm_period lp) st;
         st = st\<lparr>pwm := set_pwm_debug_en D 0 (pwm st)\<rparr>
     in say_l (OS_PRINTF ''PWM version : %08x '' [get_pwm_version D (pwm st)]) st)"

text \<open>The static objects when the program starts.\<close>

definition light_boot :: "u32 \<Rightarrow> 'p \<Rightarrow> 'p light" where
  "light_boot sec p =
    \<lparr>light_sleep_flg = 0, min_ms = 15, current_duty = replicate PWM_CHANNEL 0, change_finish = True,
     timer_pwm_adj = None, duty_now = replicate PWM_CHANNEL 0, priv_param_start_sec = sec,
     LightEvtArr = replicate (unat LIGHT_EVT_QNUM) \<lparr>period = 0, freq = 0, duty = replicate PWM_CHANNEL_NUM_MAX 0\<rparr>,
     CurFreeLightEvtIdx = 0, TotalUsedLightEvtNum = 0, CurEvtIdxToBeUse = 0,
     light_param = \<lparr>pwm_period = 0, pwm_duty = replicate PWM_CHANNEL 0\<rparr>, pwm = p, calls = []\<rparr>"

text \<open>The one-shot timer expires: nothing when it is not armed.\<close>

definition light_tick :: "'p pwm_api \<Rightarrow> 'p light \<Rightarrow> 'p light" where
  "light_tick D st =
    (case timer_pwm_adj st of
       Some _ \<Rightarrow> light_dh_pwm_adj_proc D (st\<lparr>timer_pwm_adj := None\<rparr>)
     | None \<Rightarrow> st)"

end
