(* ===== verification/LightFade.thy ===== *)
theory LightFade
  imports Light
begin

text \<open>
  How a fade goes: what the PWM library must do, one round of the fade channel by channel, the
  distance to the aim and how fast it shrinks, the invariant of the program between its calls,
  the expiries that end a fade, and a new aim on its way through the ring.
\<close>

section \<open>What the PWM library promises\<close>

text \<open>
  A duty up to the limit of the period is taken over for its channel and no other, a period from
  1000 to 10000 is taken over, and nothing else changes what the getters return. Beyond the limit
  nothing is promised about the channel that is set.
\<close>

definition duty_ok :: "u32 \<Rightarrow> u32 \<Rightarrow> bool" where
  "duty_ok per d \<longleftrightarrow> d \<le> per * 1000 div 45"

definition period_ok :: "u32 \<Rightarrow> bool" where
  "period_ok x \<longleftrightarrow> 1000 \<le> x \<and> x \<le> 10000"

definition pwm_laws :: "'p pwm_api \<Rightarrow> bool" where
  "pwm_laws D \<longleftrightarrow>
    (\<forall>per ds n io p. period_ok per \<and> (\<forall>d \<in> set ds. duty_ok per d) \<longrightarrow>
       pwm_get_period D (pwm_init D per ds n io p) = per \<and>
       (\<forall>c < PWM_CHANNEL_NUM_MAX. c < length ds \<longrightarrow> pwm_get_duty D (of_nat c) (pwm_init D per ds n io p) = ds ! c)) \<and>
    (\<forall>d c p. unat c < PWM_CHANNEL_NUM_MAX \<and> duty_ok (pwm_get_period D p) d \<longrightarrow> pwm_get_duty D c (pwm_set_duty D d c p) = d) \<and>
    (\<forall>d c c' p. c' \<noteq> c \<longrightarrow> pwm_get_duty D c' (pwm_set_duty D d c p) = pwm_get_duty D c' p) \<and>
    (\<forall>d c p. pwm_get_period D (pwm_set_duty D d c p) = pwm_get_period D p) \<and>
    (\<forall>x p. period_ok x \<longrightarrow> pwm_get_period D (pwm_set_period D x p) = x) \<and>
    (\<forall>c x p. pwm_get_duty D c (pwm_set_period D x p) = pwm_get_duty D c p) \<and>
    (\<forall>c p. pwm_get_duty D c (pwm_start D p) = pwm_get_duty D c p) \<and>
    (\<forall>p. pwm_get_period D (pwm_start D p) = pwm_get_period D p) \<and>
    (\<forall>c e p. pwm_get_duty D c (set_pwm_debug_en D e p) = pwm_get_duty D c p) \<and>
    (\<forall>e p. pwm_get_period D (set_pwm_debug_en D e p) = pwm_get_period D p)"

lemma pwm_lawsD:
  assumes "pwm_laws D"
  shows "period_ok per \<Longrightarrow> (\<And>d. d \<in> set ds \<Longrightarrow> duty_ok per d) \<Longrightarrow> pwm_get_period D (pwm_init D per ds n io p) = per"
    "period_ok per \<Longrightarrow> (\<And>d. d \<in> set ds \<Longrightarrow> duty_ok per d) \<Longrightarrow> k < 8 \<Longrightarrow> k < length ds \<Longrightarrow>
       pwm_get_duty D (of_nat k) (pwm_init D per ds n io p) = ds ! k"
    "unat c < 8 \<Longrightarrow> duty_ok (pwm_get_period D p) d \<Longrightarrow> pwm_get_duty D c (pwm_set_duty D d c p) = d"
    "c' \<noteq> c \<Longrightarrow> pwm_get_duty D c' (pwm_set_duty D d c p) = pwm_get_duty D c' p"
    "pwm_get_period D (pwm_set_duty D d c p) = pwm_get_period D p"
    "period_ok x \<Longrightarrow> pwm_get_period D (pwm_set_period D x p) = x"
    "pwm_get_duty D c (pwm_set_period D x p) = pwm_get_duty D c p"
    "pwm_get_duty D c (pwm_start D p) = pwm_get_duty D c p"
    "pwm_get_period D (pwm_start D p) = pwm_get_period D p"
    "pwm_get_duty D c (set_pwm_debug_en D e p) = pwm_get_duty D c p"
    "pwm_get_period D (set_pwm_debug_en D e p) = pwm_get_period D p"
  using assms by (auto simp: pwm_laws_def PWM_CHANNEL_NUM_MAX_def)

section \<open>One round of the fade\<close>

definition got :: "'p pwm_api \<Rightarrow> 'p light \<Rightarrow> nat \<Rightarrow> u32" where
  "got D st c = pwm_get_duty D (of_nat c) (pwm st)"

definition saved_duty :: "'p light \<Rightarrow> nat \<Rightarrow> u32" where
  "saved_duty st c = pwm_duty (light_param st) ! c"

definition next_duty :: "'p light \<Rightarrow> nat \<Rightarrow> u32" where
  "next_duty st c = fade_duty (duty_now st ! c) (current_duty st ! c)"

definition five :: "'p light \<Rightarrow> bool" where
  "five st \<longleftrightarrow> length (current_duty st) = 5 \<and> length (duty_now st) = 5 \<and> length (pwm_duty (light_param st)) = 5"

text \<open>Nothing but the duties, the saved parameters and the PWM library has changed.\<close>

definition frame :: "'p light \<Rightarrow> 'p light \<Rightarrow> bool" where
  "frame st s \<longleftrightarrow> s\<lparr>duty_now := duty_now st, pwm := pwm st, light_param := light_param st\<rparr> = st"

lemma frame_simps [simp]:
  "frame st st" "frame st (s\<lparr>duty_now := x\<rparr>) = frame st s" "frame st (s\<lparr>pwm := p\<rparr>) = frame st s"
  "frame st (s\<lparr>light_param := lp\<rparr>) = frame st s"
  by (simp_all add: frame_def)

lemma frameD:
  assumes "frame st s"
  shows "current_duty s = current_duty st" "min_ms s = min_ms st" "change_finish s = change_finish st"
    "timer_pwm_adj s = timer_pwm_adj st" "light_sleep_flg s = light_sleep_flg st" "LightEvtArr s = LightEvtArr st"
    "CurFreeLightEvtIdx s = CurFreeLightEvtIdx st" "TotalUsedLightEvtNum s = TotalUsedLightEvtNum st"
    "CurEvtIdxToBeUse s = CurEvtIdxToBeUse st" "calls s = calls st" "priv_param_start_sec s = priv_param_start_sec st"
  using assms by (cases s; cases st; simp add: frame_def)+

text \<open>\<open>faded n\<close>: the first \<open>n\<close> channels of \<open>st\<close> have had their round, with the result \<open>s\<close>.\<close>

definition faded :: "'p pwm_api \<Rightarrow> nat \<Rightarrow> 'p light \<Rightarrow> 'p light \<Rightarrow> bool" where
  "faded D n st s \<longleftrightarrow>
    frame st s \<and> five s \<and>
    pwm_get_period D (pwm s) = pwm_get_period D (pwm st) \<and>
    pwm_period (light_param s) = pwm_period (light_param st) \<and>
    (\<forall>i<5. duty_now s ! i = (if i < n then next_duty st i else duty_now st ! i)) \<and>
    (\<forall>i<5. i < n \<longrightarrow> next_duty st i \<noteq> saved_duty st i \<longrightarrow>
       saved_duty s i = got D s i \<and>
       (duty_ok (pwm_get_period D (pwm st)) (next_duty st i) \<longrightarrow> got D s i = next_duty st i)) \<and>
    (\<forall>i<5. \<not> (i < n \<and> next_duty st i \<noteq> saved_duty st i) \<longrightarrow>
       saved_duty s i = saved_duty st i \<and> got D s i = got D st i)"

lemma channel_neq: "i < 5 \<Longrightarrow> j < 5 \<Longrightarrow> (of_nat i = (of_nat j :: u8)) = (i = j)"
  by (simp add: of_nat_inverse word_unat_eq_iff unat_of_nat)

lemma channel_small: "i < 5 \<Longrightarrow> unat (of_nat i :: u8) < 8"
  by (simp add: unat_of_nat)

lemma faded_0: "five st \<Longrightarrow> faded D 0 st st"
  by (simp add: faded_def)

lemma faded_Suc:
  assumes laws: "pwm_laws D" and f: "faded D n st s" and n: "n < 5"
  shows "faded D (Suc n) st (fade_channel D n s)"
proof -
  note L = pwm_lawsD [OF laws]
  have now: "duty_now s ! n = duty_now st ! n" "current_duty s = current_duty st"
    and len: "length (duty_now s) = 5" "length (pwm_duty (light_param s)) = 5" "length (current_duty s) = 5"
    and old: "saved_duty s n = saved_duty st n" "got D s n = got D st n"
    using f n by (auto simp: faded_def five_def dest: frameD)
  have nx: "fade_duty (duty_now s ! n) (current_duty s ! n) = next_duty st n"
    by (simp add: next_duty_def now)
  have less: "i < Suc n \<longleftrightarrow> i < n \<or> i = n" for i by auto
  show ?thesis
  proof (cases "next_duty st n = saved_duty st n")
    case True
    then have e: "fade_channel D n s = s\<lparr>duty_now := (duty_now s)[n := next_duty st n]\<rparr>"
      using old(1) n len nx by (simp add: fade_channel_def user_light_set_duty_def saved_duty_def Let_def)
    show ?thesis
      using f n len True unfolding e faded_def
      by (auto simp: five_def got_def saved_duty_def nth_list_update less)
  next
    case False
    define p where "p = pwm_set_duty D (next_duty st n) (of_nat n) (pwm s)"
    have e: "fade_channel D n s = s\<lparr>duty_now := (duty_now s)[n := next_duty st n], pwm := p,
        light_param := (light_param s)\<lparr>pwm_duty := (pwm_duty (light_param s))[n := pwm_get_duty D (of_nat n) p]\<rparr>\<rparr>"
      using False old(1) n len nx by (simp add: fade_channel_def user_light_set_duty_def saved_duty_def Let_def p_def)
    have "duty_ok (pwm_get_period D (pwm st)) (next_duty st n) \<longrightarrow> pwm_get_duty D (of_nat n) p = next_duty st n"
      using f L(3) [OF channel_small [OF n]] by (simp add: p_def faded_def)
    moreover have "pwm_get_duty D (of_nat i) p = got D s i" if "i < 5" "i \<noteq> n" for i
      using that n by (simp add: p_def got_def L(4) channel_neq)
    moreover have "pwm_get_period D p = pwm_get_period D (pwm st)"
      using f by (simp add: p_def L(5) faded_def)
    ultimately show ?thesis
      using f n len False unfolding e faded_def
      by (auto simp: five_def got_def saved_duty_def nth_list_update less)
  qed
qed

lemma fade_step_faded:
  assumes laws: "pwm_laws D" and "five st"
  shows "faded D 5 st (fade_step D st)"
proof -
  have "n \<le> 5 \<Longrightarrow> faded D n st (fold (fade_channel D) [0..<n] st)" for n
    by (induction n) (simp_all add: faded_0 assms faded_Suc)
  from this [of 5] show ?thesis
    by (auto simp: fade_step_def PWM_CHANNEL_def Let_def faded_def five_def got_def saved_duty_def pwm_lawsD [OF laws])
qed

section \<open>The distance to the aim\<close>

definition gap :: "u32 \<Rightarrow> u32 \<Rightarrow> nat" where
  "gap x y = (if unat x < unat y then unat y - unat x else unat x - unat y)"

text \<open>A round leaves at most this much of a distance: a sixteenth goes, and what is below 20 goes at once.\<close>

definition shrink :: "nat \<Rightarrow> nat" where
  "shrink e = (let e' = e - e div 16 in if e' < 20 then 0 else e')"

lemma shrink_mono: "e \<le> e' \<Longrightarrow> shrink e \<le> shrink e'"
  unfolding shrink_def Let_def by auto

lemma gap_0 [simp]: "gap x y = 0 \<longleftrightarrow> x = y"
  by (auto simp: gap_def word_unat_eq_iff)

lemma gap_refl [simp]: "gap x x = 0"
  by simp

lemma ABS_MINUS_gap: "unat (ABS_MINUS x y) = gap x y"
  by (auto simp: ABS_MINUS_def gap_def word_less_nat_alt unat_sub_if')

lemma fade_duty_gap:
  assumes "unat now \<le> 222222" "unat aim \<le> 222222"
  shows "gap (fade_duty now aim) aim \<le> shrink (gap now aim)" "unat (fade_duty now aim) \<le> 222222"
proof -
  define x where "x = drop_bit 4 (now * 15 + aim)"
  have "unat (now * 15 + aim) = unat now * 15 + unat aim"
    using assms by (simp add: unat_word_ariths)
  then have x: "unat x = (unat now * 15 + unat aim) div 16"
    by (simp add: x_def unat_drop_bit_eq drop_bit_eq_div unat_div)
  have g: "gap x aim \<le> gap now aim - gap now aim div 16"
    unfolding gap_def x by auto
  have f: "fade_duty now aim = (if gap x aim < 20 then aim else x)"
    by (simp add: fade_duty_def Let_def x_def ABS_MINUS_gap [symmetric] word_less_nat_alt)
  show "gap (fade_duty now aim) aim \<le> shrink (gap now aim)"
    using g by (auto simp: f shrink_def Let_def)
  show "unat (fade_duty now aim) \<le> 222222"
    using assms x by (auto simp: f)
qed

lemma funpow_numeral: "(f ^^ numeral k) x = (f ^^ pred_numeral k) (f x)"
  by (simp add: numeral_eq_Suc funpow_Suc_right del: funpow.simps)

section \<open>The invariant\<close>

definition ring_ok :: "'p light \<Rightarrow> bool" where
  "ring_ok st \<longleftrightarrow>
    length (LightEvtArr st) = 40 \<and> (\<forall>e \<in> set (LightEvtArr st). length (duty e) = 8) \<and>
    CurFreeLightEvtIdx st < 40 \<and> CurEvtIdxToBeUse st = CurFreeLightEvtIdx st \<and> TotalUsedLightEvtNum st = 0"

definition aims_ok :: "'p pwm_api \<Rightarrow> 'p light \<Rightarrow> bool" where
  "aims_ok D st \<longleftrightarrow>
    five st \<and> period_ok (pwm_get_period D (pwm st)) \<and> pwm_period (light_param st) = pwm_get_period D (pwm st) \<and>
    (\<forall>c<5. duty_ok (pwm_get_period D (pwm st)) (current_duty st ! c)) \<and> (\<forall>c<5. unat (duty_now st ! c) \<le> 222222)"

definition at_aim :: "'p pwm_api \<Rightarrow> 'p light \<Rightarrow> bool" where
  "at_aim D st \<longleftrightarrow> (\<forall>c<5. got D st c = current_duty st ! c)"

definition lamp_coherent :: "'p pwm_api \<Rightarrow> 'p light \<Rightarrow> bool" where
  "lamp_coherent D st \<longleftrightarrow> (\<forall>c<5. saved_duty st c = got D st c)"

definition light_inv :: "'p pwm_api \<Rightarrow> 'p light \<Rightarrow> bool" where
  "light_inv D st \<longleftrightarrow> ring_ok st \<and> aims_ok D st \<and> lamp_coherent D st \<and>
    (if change_finish st then timer_pwm_adj st = None \<and> at_aim D st else timer_pwm_adj st \<noteq> None)"

lemma limit_le: "period_ok per \<Longrightarrow> duty_ok per d \<Longrightarrow> unat d \<le> 222222"
proof -
  assume "period_ok per" "duty_ok per d"
  then have p: "unat per \<le> 10000" and d: "unat d \<le> unat (per * 1000 div 45)"
    by (simp_all add: period_ok_def duty_ok_def word_le_nat_alt)
  then have "unat (per * 1000 div 45) = unat per * 1000 div 45"
    by (simp add: unat_div unat_word_ariths)
  with p d show ?thesis by simp
qed

lemma diff_at_aim: "check_pwm_current_duty_diff D st \<longleftrightarrow> \<not> at_aim D st"
  by (auto simp: check_pwm_current_duty_diff_def at_aim_def got_def list_ex_iff PWM_CHANNEL_def)

lemma settle_fields:
  "duty_now (settle D st) = duty_now st" "current_duty (settle D st) = current_duty st" "pwm (settle D st) = pwm st"
  "change_finish (settle D st) = change_finish st" "timer_pwm_adj (settle D st) = timer_pwm_adj st"
  "light_param (settle D st) = \<lparr>pwm_period = pwm_get_period D (pwm st), pwm_duty = take 5 (current_duty st)\<rparr>"
  "ring_ok (settle D st) = ring_ok st" "got D (settle D st) = got D st" "min_ms (settle D st) = min_ms st"
  by (auto simp: settle_def light_save_target_duty_def say_l_def Let_def ring_ok_def got_def PWM_CHANNEL_def)

lemma settle_inv: "light_inv D st \<Longrightarrow> change_finish st \<Longrightarrow> light_inv D (settle D st)"
  by (auto simp: light_inv_def settle_fields aims_ok_def five_def at_aim_def lamp_coherent_def saved_duty_def)

definition fade_done :: "'p light \<Rightarrow> 'p light" where
  "fade_done st = (say_l (OS_PRINTF ''finish'' []) st)\<lparr>change_finish := True, timer_pwm_adj := None\<rparr>"

definition fade_again :: "'p light \<Rightarrow> 'p light" where
  "fade_again st = st\<lparr>change_finish := False, timer_pwm_adj := Some (ucast (min_ms st))\<rparr>"

lemma total_kept:
  "TotalUsedLightEvtNum (settle D st) = TotalUsedLightEvtNum st"
  "TotalUsedLightEvtNum (fade_done st) = TotalUsedLightEvtNum st"
  "TotalUsedLightEvtNum (fade_again st) = TotalUsedLightEvtNum st"
  by (simp_all add: settle_def light_save_target_duty_def say_l_def Let_def fade_done_def fade_again_def)

text \<open>With the ring empty the two procedures do not call each other again.\<close>

lemma smooth_idle:
  "TotalUsedLightEvtNum st = 0 \<Longrightarrow>
    light_pwm_smooth_adj_proc D st = (if change_finish st then settle D st else st)"
  by (simp add: light_pwm_smooth_adj_proc.simps Let_def)

lemma dh_idle:
  assumes "TotalUsedLightEvtNum st = 0"
  shows "light_dh_pwm_adj_proc D st =
    (if at_aim D (fade_step D st) then settle D (fade_done (fade_step D st)) else fade_again (fade_step D st))"
  using assms by (simp add: light_dh_pwm_adj_proc.simps Let_def diff_at_aim smooth_idle say_l_def fade_done_def fade_again_def)

lemma done_again_simps [simp]:
  "duty_now (fade_done st) = duty_now st" "current_duty (fade_done st) = current_duty st" "pwm (fade_done st) = pwm st"
  "light_param (fade_done st) = light_param st" "ring_ok (fade_done st) = ring_ok st" "change_finish (fade_done st)"
  "timer_pwm_adj (fade_done st) = None"
  "duty_now (fade_again st) = duty_now st" "current_duty (fade_again st) = current_duty st" "pwm (fade_again st) = pwm st"
  "light_param (fade_again st) = light_param st" "ring_ok (fade_again st) = ring_ok st" "\<not> change_finish (fade_again st)"
  "timer_pwm_adj (fade_again st) \<noteq> None"
  by (simp_all add: fade_done_def fade_again_def say_l_def ring_ok_def)

lemma light_view:
  assumes "current_duty s = current_duty st" "duty_now s = duty_now st" "pwm s = pwm st" "light_param s = light_param st"
  shows "at_aim D s = at_aim D st" "aims_ok D s = aims_ok D st" "lamp_coherent D s = lamp_coherent D st"
    "next_duty s = next_duty st" "saved_duty s = saved_duty st" "got D s = got D st" "five s = five st"
  using assms by (auto simp: at_aim_def aims_ok_def lamp_coherent_def next_duty_def saved_duty_def got_def five_def fun_eq_iff)

lemma fade_step_ok:
  assumes laws: "pwm_laws D" and ok: "ring_ok st" "aims_ok D st"
    and coh: "\<And>c. c < 5 \<Longrightarrow> saved_duty st c = got D st c \<or> next_duty st c \<noteq> saved_duty st c"
  shows "ring_ok (fade_step D st)" "aims_ok D (fade_step D st)" "lamp_coherent D (fade_step D st)"
    "current_duty (fade_step D st) = current_duty st"
    "pwm_get_period D (pwm (fade_step D st)) = pwm_get_period D (pwm st)"
    "c < 5 \<Longrightarrow> duty_now (fade_step D st) ! c = next_duty st c"
    "(\<And>c. c < 5 \<Longrightarrow> next_duty st c = current_duty st ! c) \<Longrightarrow> at_aim D (fade_step D st)"
proof -
  define s where "s = fade_step D st"
  have fd: "faded D 5 st s" using fade_step_faded [OF laws] ok by (simp add: s_def aims_ok_def)
  then have fr: "frame st s" by (simp add: faded_def)
  have per: "pwm_get_period D (pwm s) = pwm_get_period D (pwm st)" using fd by (simp add: faded_def)
  have now: "duty_now s ! c = next_duty st c" if "c < 5" for c using fd that by (simp add: faded_def)
  have bound: "unat (next_duty st c) \<le> 222222" if "c < 5" for c
    unfolding next_duty_def
    using ok that by (intro fade_duty_gap) (auto simp: aims_ok_def intro: limit_le)
  have lamp_coherent: "saved_duty s c = got D s c" if "c < 5" for c
    using fd coh [OF that] that unfolding faded_def by (cases "next_duty st c = saved_duty st c") auto
  have got: "got D s c = next_duty st c"
    if "c < 5" "duty_ok (pwm_get_period D (pwm st)) (next_duty st c)" for c
    using fd coh [OF that(1)] that unfolding faded_def by (cases "next_duty st c = saved_duty st c") auto
  show "ring_ok (fade_step D st)" using ok(1) fr [THEN frameD(6)] fr [THEN frameD(7)] fr [THEN frameD(8)] fr [THEN frameD(9)]
    by (simp add: ring_ok_def s_def)
  show cur: "current_duty (fade_step D st) = current_duty st" using frameD(1) [OF fr] by (simp add: s_def)
  show "pwm_get_period D (pwm (fade_step D st)) = pwm_get_period D (pwm st)" using per by (simp add: s_def)
  show "duty_now (fade_step D st) ! c = next_duty st c" if "c < 5" using now [OF that] by (simp add: s_def)
  show "lamp_coherent D (fade_step D st)" using lamp_coherent by (simp add: lamp_coherent_def s_def)
  show "aims_ok D (fade_step D st)"
    using ok(2) fd cur per bound by (auto simp: aims_ok_def s_def faded_def)
  show "at_aim D (fade_step D st)" if "\<And>c. c < 5 \<Longrightarrow> next_duty st c = current_duty st ! c"
    using got that ok(2) cur by (simp add: at_aim_def s_def aims_ok_def)
qed

lemma dh_ok:
  assumes laws: "pwm_laws D" and ok: "ring_ok st" "aims_ok D st"
    and coh: "\<And>c. c < 5 \<Longrightarrow> saved_duty st c = got D st c \<or> next_duty st c \<noteq> saved_duty st c"
  shows "light_inv D (light_dh_pwm_adj_proc D st)"
    "current_duty (light_dh_pwm_adj_proc D st) = current_duty st"
    "pwm_get_period D (pwm (light_dh_pwm_adj_proc D st)) = pwm_get_period D (pwm st)"
    "c < 5 \<Longrightarrow> duty_now (light_dh_pwm_adj_proc D st) ! c = next_duty st c"
    "(\<And>c. c < 5 \<Longrightarrow> next_duty st c = current_duty st ! c) \<Longrightarrow> change_finish (light_dh_pwm_adj_proc D st)"
proof -
  have total: "TotalUsedLightEvtNum st = 0" using ok by (simp add: ring_ok_def)
  note step = fade_step_ok [OF assms]
  note view = light_view [of "fade_done s" s for s, simplified] light_view [of "fade_again s" s for s, simplified]
  have "light_inv D (fade_done (fade_step D st))" if "at_aim D (fade_step D st)"
    using step that by (simp add: light_inv_def view)
  moreover have "light_inv D (fade_again (fade_step D st))"
    using step by (simp add: light_inv_def view)
  ultimately show "light_inv D (light_dh_pwm_adj_proc D st)"
    by (simp add: dh_idle [OF total] settle_inv)
  show "current_duty (light_dh_pwm_adj_proc D st) = current_duty st"
    "pwm_get_period D (pwm (light_dh_pwm_adj_proc D st)) = pwm_get_period D (pwm st)"
    using step by (simp_all add: dh_idle [OF total] settle_fields)
  show "c < 5 \<Longrightarrow> duty_now (light_dh_pwm_adj_proc D st) ! c = next_duty st c"
    using step by (simp add: dh_idle [OF total] settle_fields)
  show "(\<And>c. c < 5 \<Longrightarrow> next_duty st c = current_duty st ! c) \<Longrightarrow> change_finish (light_dh_pwm_adj_proc D st)"
    using step by (simp add: dh_idle [OF total] settle_fields)
qed

lemma tick_inv:
  assumes laws: "pwm_laws D" and inv: "light_inv D st"
  shows "light_inv D (light_tick D st)" "current_duty (light_tick D st) = current_duty st"
    "pwm_get_period D (pwm (light_tick D st)) = pwm_get_period D (pwm st)"
    "change_finish (light_tick D st) \<or>
       (\<forall>c<5. gap (duty_now (light_tick D st) ! c) (current_duty st ! c) \<le> shrink (gap (duty_now st ! c) (current_duty st ! c)))"
    "(\<And>c. c < 5 \<Longrightarrow> shrink (gap (duty_now st ! c) (current_duty st ! c)) = 0) \<Longrightarrow> change_finish (light_tick D st)"
proof -
  define s where "s = st\<lparr>timer_pwm_adj := None\<rparr>"
  note view = light_view [of s st, unfolded s_def, simplified, folded s_def]
  have s: "ring_ok s" "aims_ok D s" "lamp_coherent D s"
    using inv by (simp_all add: s_def light_inv_def ring_ok_def light_view [of "st\<lparr>timer_pwm_adj := None\<rparr>" st])
  then have "saved_duty s c = got D s c \<or> next_duty s c \<noteq> saved_duty s c" if "c < 5" for c
    using that by (simp add: lamp_coherent_def)
  note dh = dh_ok [OF laws s(1,2) this]
  have tick: "light_tick D st = (if timer_pwm_adj st = None then st else light_dh_pwm_adj_proc D s)"
    by (simp add: light_tick_def s_def split: option.split)
  have close: "gap (next_duty s c) (current_duty st ! c) \<le> shrink (gap (duty_now st ! c) (current_duty st ! c))" if "c < 5" for c
    unfolding view next_duty_def
    using inv that by (intro fade_duty_gap) (auto simp: light_inv_def aims_ok_def intro: limit_le)
  have idle: "timer_pwm_adj st = None \<Longrightarrow> change_finish st" using inv by (auto simp: light_inv_def split: if_splits)
  show "light_inv D (light_tick D st)" using inv dh(1) by (simp add: tick)
  show "current_duty (light_tick D st) = current_duty st" using dh(2) by (simp add: tick) (simp add: s_def)
  show "pwm_get_period D (pwm (light_tick D st)) = pwm_get_period D (pwm st)" using dh(3) by (simp add: tick) (simp add: s_def)
  show "change_finish (light_tick D st) \<or>
       (\<forall>c<5. gap (duty_now (light_tick D st) ! c) (current_duty st ! c) \<le> shrink (gap (duty_now st ! c) (current_duty st ! c)))"
    using idle close dh(4) by (simp add: tick)
  show "change_finish (light_tick D st)" if "\<And>c. c < 5 \<Longrightarrow> shrink (gap (duty_now st ! c) (current_duty st ! c)) = 0"
  proof -
    have "next_duty s c = current_duty s ! c" if "c < 5" for c
      using close [OF that] \<open>\<And>c. c < 5 \<Longrightarrow> shrink _ = 0\<close> [OF that] by (simp add: s_def)
    then show ?thesis using dh(5) idle by (simp add: tick)
  qed
qed

lemma tick_finished: "light_inv D st \<Longrightarrow> change_finish st \<Longrightarrow> light_tick D st = st"
  by (simp add: light_inv_def light_tick_def)

lemma ticks_inv:
  assumes laws: "pwm_laws D" and inv: "light_inv D st"
  shows "light_inv D ((light_tick D ^^ n) st)" "current_duty ((light_tick D ^^ n) st) = current_duty st"
    "pwm_get_period D (pwm ((light_tick D ^^ n) st)) = pwm_get_period D (pwm st)"
  by (induction n) (simp_all add: inv tick_inv [OF laws])

lemma ticks_gap:
  assumes laws: "pwm_laws D" and inv: "light_inv D st"
  shows "change_finish ((light_tick D ^^ n) st) \<or>
    (\<forall>c<5. gap (duty_now ((light_tick D ^^ n) st) ! c) (current_duty st ! c) \<le> (shrink ^^ n) 222222)"
proof (induction n)
  case 0
  have "gap (duty_now st ! c) (current_duty st ! c) \<le> 222222" if "c < 5" for c
  proof -
    have "unat (duty_now st ! c) \<le> 222222" "unat (current_duty st ! c) \<le> 222222"
      using inv that by (auto simp: light_inv_def aims_ok_def intro: limit_le)
    then show ?thesis by (auto simp: gap_def)
  qed
  then show ?case by simp
next
  case (Suc n)
  define s where "s = (light_tick D ^^ n) st"
  have s: "light_inv D s" "current_duty s = current_duty st" using ticks_inv [OF laws inv] by (simp_all add: s_def)
  show ?case
  proof (cases "change_finish s")
    case True
    then show ?thesis using tick_finished [OF s(1)] by (simp add: s_def)
  next
    case False
    then have "shrink (gap (duty_now s ! c) (current_duty st ! c)) \<le> (shrink ^^ Suc n) 222222" if "c < 5" for c
      using Suc that by (auto simp: s_def intro: shrink_mono)
    then show ?thesis
      using tick_inv(4) [OF laws s(1)] s(2) by (auto simp: s_def intro: order_trans)
  qed
qed

lemma ticks_finish_at:
  assumes laws: "pwm_laws D" and inv: "light_inv D st" and m: "shrink ((shrink ^^ m) 222222) = 0"
  shows "change_finish ((light_tick D ^^ Suc m) st)"
proof -
  define s where "s = (light_tick D ^^ m) st"
  have s: "light_inv D s" "current_duty s = current_duty st" using ticks_inv [OF laws inv] by (simp_all add: s_def)
  have "change_finish (light_tick D s)"
  proof (cases "change_finish s")
    case True
    then show ?thesis using tick_finished [OF s(1)] by simp
  next
    case False
    then have "gap (duty_now s ! c) (current_duty st ! c) \<le> (shrink ^^ m) 222222" if "c < 5" for c
      using ticks_gap [OF laws inv, of m] that by (auto simp: s_def)
    then have "shrink (gap (duty_now s ! c) (current_duty s ! c)) = 0" if "c < 5" for c
      using shrink_mono m s(2) that by (metis le_zero_eq)
    then show ?thesis by (rule tick_inv(5) [OF laws s(1)])
  qed
  then show ?thesis by (simp add: s_def)
qed

lemma ticks_stay:
  assumes laws: "pwm_laws D" and inv: "light_inv D st" and fin: "change_finish ((light_tick D ^^ m) st)" and n: "m \<le> n"
  shows "change_finish ((light_tick D ^^ n) st)"
  using n
proof (induction rule: dec_induct)
  case (step k)
  then show ?case using tick_finished [OF ticks_inv(1) [OF laws inv]] by simp
qed (rule fin)

text \<open>154 expiries: 2.31 seconds at 15 milliseconds each.\<close>

lemma ticks_finish:
  assumes laws: "pwm_laws D" and inv: "light_inv D st" and n: "154 \<le> n"
  shows "change_finish ((light_tick D ^^ n) st)"
proof -
  have "shrink ((shrink ^^ 153) 222222) = 0"
    by (simp add: funpow_numeral shrink_def)
  from ticks_stay [OF laws inv ticks_finish_at [OF laws inv this]] n show ?thesis by simp
qed

section \<open>A new aim\<close>

definition aim_limit :: "u32 \<Rightarrow> u32 \<Rightarrow> u32" where
  "aim_limit per d = min d (per * 1000 div 45)"

lemma clip: "(if d < l then d else l) = min d (l :: u32)"
  by (auto simp: min_def)

lemma fill_setting_fields:
  assumes "length (duty tmp) = 8"
  shows "period (fill_setting r g b cw ww per tmp) = min per 10000"
    "take 5 (duty (fill_setting r g b cw ww per tmp)) = map (aim_limit per) [r, g, b, cw, ww]"
    "length (duty (fill_setting r g b cw ww per tmp)) = 8"
proof -
  obtain a0 a1 a2 a3 a4 a5 a6 a7 where "duty tmp = [a0, a1, a2, a3, a4, a5, a6, a7]"
    using assms by (auto simp: length_Suc_conv eval_nat_numeral)
  then show "period (fill_setting r g b cw ww per tmp) = min per 10000"
    "take 5 (duty (fill_setting r g b cw ww per tmp)) = map (aim_limit per) [r, g, b, cw, ww]"
    "length (duty (fill_setting r g b cw ww per tmp)) = 8"
    by (simp_all add: fill_setting_def Let_def clip aim_limit_def LIGHT_RED_def LIGHT_GREEN_def LIGHT_BLUE_def
        LIGHT_COLD_WHITE_def LIGHT_WARM_WHITE_def)
qed

text \<open>The state after the new setting has gone through the ring.\<close>

definition retargeted :: "'p pwm_api \<Rightarrow> u32 list \<Rightarrow> u32 \<Rightarrow> 'p light \<Rightarrow> 'p light \<Rightarrow> bool" where
  "retargeted D aims per st s \<longleftrightarrow>
    ring_ok s \<and> current_duty s = map (aim_limit per) aims \<and> duty_now s = duty_now st \<and>
    change_finish s = change_finish st \<and> timer_pwm_adj s = timer_pwm_adj st \<and>
    pwm s = pwm (user_light_set_period D (min per 10000) st) \<and>
    light_param s = light_param (user_light_set_period D (min per 10000) st)"

lemma next_slot:
  assumes "(i :: u8) < 40"
  shows "(if i + 1 > LIGHT_EVT_QNUM - 1 then 0 else i + 1) < 40" "unat i < 40"
proof -
  show u: "unat i < 40" using assms by (simp add: word_less_nat_alt)
  then have "unat (i + 1) = unat i + 1" using unat_plus_of_nat [of i 1] by simp
  then show "(if i + 1 > LIGHT_EVT_QNUM - 1 then 0 else i + 1) < 40"
    by (auto simp: LIGHT_EVT_QNUM_def word_less_nat_alt)
qed

lemma malloc_ok:
  assumes "ring_ok st"
  shows "LightEvtMalloc st =
    (Some (unat (CurFreeLightEvtIdx st)),
     say_l (OS_PRINTF ''malloc:%u'' [1])
       (st\<lparr>TotalUsedLightEvtNum := 1,
          CurFreeLightEvtIdx := (if CurFreeLightEvtIdx st + 1 > LIGHT_EVT_QNUM - 1 then 0 else CurFreeLightEvtIdx st + 1)\<rparr>))"
proof -
  have "TotalUsedLightEvtNum st = 0" using assms by (simp add: ring_ok_def)
  then show ?thesis by (simp add: LightEvtMalloc_def Let_def LIGHT_EVT_QNUM_def)
qed

definition slot_filled :: "u32 \<Rightarrow> u32 \<Rightarrow> u32 \<Rightarrow> u32 \<Rightarrow> u32 \<Rightarrow> u32 \<Rightarrow> 'p light \<Rightarrow> 'p light" where
  "slot_filled r g b cw ww per st =
    (let tmp = unat (CurFreeLightEvtIdx st);
         evt = fill_setting r g b cw ww per (LightEvtArr st ! tmp)
     in say_l (OS_PRINTF ''prd:%u  r : %u  g: %u  b: %u  cw: %u  ww: %u '' (per # take 5 (duty evt)))
         ((snd (LightEvtMalloc st))\<lparr>LightEvtArr := (LightEvtArr st)[tmp := evt]\<rparr>))"

lemma set_aim_slot:
  assumes "ring_ok st"
  shows "light_set_aim D r g b cw ww per st = light_pwm_smooth_adj_proc D (slot_filled r g b cw ww per st)"
  using assms by (simp add: light_set_aim_def malloc_ok slot_filled_def Let_def say_l_def)

lemma slot_taken:
  assumes ok: "ring_ok st"
  shows "retargeted D [r, g, b, cw, ww] per st (take_setting D (slot_filled r g b cw ww per st))"
proof -
  define k where "k = unat (CurFreeLightEvtIdx st)"
  have k: "k < length (LightEvtArr st)" "length (duty (LightEvtArr st ! k)) = 8"
    using ok next_slot(2) by (auto simp: ring_ok_def k_def)
  define evt where "evt = fill_setting r g b cw ww per (LightEvtArr st ! k)"
  note f = fill_setting_fields [OF k(2), of r g b cw ww per, folded evt_def]
  have a: "LightEvtArr (slot_filled r g b cw ww per st) = (LightEvtArr st)[k := evt]"
    "CurEvtIdxToBeUse (slot_filled r g b cw ww per st) = CurFreeLightEvtIdx st"
    using ok by (simp_all add: slot_filled_def Let_def malloc_ok say_l_def k_def evt_def ring_ok_def)
  have u: "pwm (user_light_set_period D x (slot_filled r g b cw ww per st)) = pwm (user_light_set_period D x st)"
    "light_param (user_light_set_period D x (slot_filled r g b cw ww per st)) = light_param (user_light_set_period D x st)"
    for x using ok by (simp_all add: user_light_set_period_def slot_filled_def Let_def malloc_ok say_l_def)
  have evts: "\<forall>e \<in> set ((LightEvtArr st)[k := evt]). length (duty e) = 8"
    using ok f(3) by (auto simp: ring_ok_def dest!: subsetD [OF set_update_subset_insert])
  have t: "TotalUsedLightEvtNum (slot_filled r g b cw ww per st) = 1"
    "CurFreeLightEvtIdx (slot_filled r g b cw ww per st) =
      (if CurFreeLightEvtIdx st + 1 > LIGHT_EVT_QNUM - 1 then 0 else CurFreeLightEvtIdx st + 1)"
    "duty_now (slot_filled r g b cw ww per st) = duty_now st"
    "change_finish (slot_filled r g b cw ww per st) = change_finish st"
    "timer_pwm_adj (slot_filled r g b cw ww per st) = timer_pwm_adj st"
    using ok by (simp_all add: slot_filled_def Let_def malloc_ok say_l_def)
  have e: "LightEvtArr (slot_filled r g b cw ww per st) ! unat (CurEvtIdxToBeUse (slot_filled r g b cw ww per st)) = evt"
    using k by (simp add: a k_def)
  have p: "LightEvtArr (user_light_set_period D x s) = LightEvtArr s" "CurEvtIdxToBeUse (user_light_set_period D x s) = CurEvtIdxToBeUse s"
    "CurFreeLightEvtIdx (user_light_set_period D x s) = CurFreeLightEvtIdx s" "duty_now (user_light_set_period D x s) = duty_now s"
    "change_finish (user_light_set_period D x s) = change_finish s" "timer_pwm_adj (user_light_set_period D x s) = timer_pwm_adj s"
    "TotalUsedLightEvtNum (user_light_set_period D x s) = TotalUsedLightEvtNum s"
    for x and s :: "'a light" by (simp_all add: user_light_set_period_def Let_def)
  have i: "CurFreeLightEvtIdx st < 40" "length (LightEvtArr st) = 40" using ok by (simp_all add: ring_ok_def)
  show ?thesis
    unfolding retargeted_def take_setting_def Let_def LightEvtFree_def ring_ok_def
    using next_slot(1) [OF i(1)] i(2) evts f u e
    by (auto simp: say_l_def p t a PWM_CHANNEL_def)
qed

lemma set_aim_smooth:
  assumes ok: "ring_ok st"
  obtains s where "retargeted D [r, g, b, cw, ww] per st s"
    "light_set_aim D r g b cw ww per st =
      (let s1 = (if change_finish s then light_dh_pwm_adj_proc D s else s)
       in if change_finish s1 then settle D s1 else s1)"
proof
  show "retargeted D [r, g, b, cw, ww] per st (take_setting D (slot_filled r g b cw ww per st))"
    by (rule slot_taken [OF ok])
  have "TotalUsedLightEvtNum (slot_filled r g b cw ww per st) = 1"
    using ok by (simp add: slot_filled_def Let_def malloc_ok say_l_def)
  then show "light_set_aim D r g b cw ww per st =
      (let s1 = (if change_finish (take_setting D (slot_filled r g b cw ww per st))
                 then light_dh_pwm_adj_proc D (take_setting D (slot_filled r g b cw ww per st))
                 else take_setting D (slot_filled r g b cw ww per st))
       in if change_finish s1 then settle D s1 else s1)"
    unfolding set_aim_slot [OF ok] by (simp add: light_pwm_smooth_adj_proc.simps Let_def)
qed

lemma aim_limit_ok: "duty_ok per (aim_limit per d)"
  by (simp add: duty_ok_def aim_limit_def)

lemma retargeted_ok:
  assumes laws: "pwm_laws D" and r: "retargeted D aims per st s" and len: "length aims = 5"
    and st: "length (duty_now st) = 5" "length (pwm_duty (light_param st)) = 5"
      "pwm_period (light_param st) = pwm_get_period D (pwm st)" "\<forall>c<5. unat (duty_now st ! c) \<le> 222222"
    and per: "period_ok per"
  shows "ring_ok s" "aims_ok D s" "pwm_get_period D (pwm s) = per" "got D s = got D st" "saved_duty s = saved_duty st"
    "change_finish s = change_finish st" "timer_pwm_adj s = timer_pwm_adj st" "duty_now s = duty_now st"
    "current_duty s = map (aim_limit per) aims"
proof -
  note L = pwm_lawsD [OF laws]
  have "min per 10000 = per" using per by (simp add: period_ok_def min_def)
  then have s: "pwm s = pwm (user_light_set_period D per st)" "light_param s = light_param (user_light_set_period D per st)"
    using r by (simp_all add: retargeted_def)
  show g: "pwm_get_period D (pwm s) = per"
    using st(3) per by (auto simp: s user_light_set_period_def Let_def L)
  show "got D s = got D st" "saved_duty s = saved_duty st"
    by (auto simp: got_def saved_duty_def s user_light_set_period_def Let_def L fun_eq_iff)
  have cur: "current_duty s = map (aim_limit per) aims" "duty_now s = duty_now st"
    using r by (simp_all add: retargeted_def)
  have "pwm_period (light_param s) = per" "pwm_duty (light_param s) = pwm_duty (light_param st)"
    using g st(3) per by (auto simp: s user_light_set_period_def Let_def L)
  then show "aims_ok D s"
    using cur st per len by (auto simp: aims_ok_def five_def g aim_limit_ok)
  show "ring_ok s" "change_finish s = change_finish st" "timer_pwm_adj s = timer_pwm_adj st" "duty_now s = duty_now st"
    "current_duty s = map (aim_limit per) aims"
    using r by (simp_all add: retargeted_def)
qed

lemma set_aim_ok:
  assumes laws: "pwm_laws D" and ok: "ring_ok st"
    and st: "length (duty_now st) = 5" "length (pwm_duty (light_param st)) = 5"
      "pwm_period (light_param st) = pwm_get_period D (pwm st)" "\<forall>c<5. unat (duty_now st ! c) \<le> 222222"
    and per: "period_ok per"
    and coh: "\<And>c. c < 5 \<Longrightarrow> saved_duty st c = got D st c \<or>
       change_finish st \<and> fade_duty (duty_now st ! c) (aim_limit per ([r, g, b, cw, ww] ! c)) \<noteq> saved_duty st c"
    and timer: "\<not> change_finish st \<Longrightarrow> timer_pwm_adj st \<noteq> None"
  shows "light_inv D (light_set_aim D r g b cw ww per st)"
    "current_duty (light_set_aim D r g b cw ww per st) = map (aim_limit per) [r, g, b, cw, ww]"
    "pwm_get_period D (pwm (light_set_aim D r g b cw ww per st)) = per"
proof -
  obtain s where r: "retargeted D [r, g, b, cw, ww] per st s"
    and e: "light_set_aim D r g b cw ww per st =
      (let s1 = (if change_finish s then light_dh_pwm_adj_proc D s else s)
       in if change_finish s1 then settle D s1 else s1)"
    by (rule set_aim_smooth [OF ok])
  have five: "length [r, g, b, cw, ww] = 5" by simp
  note S = retargeted_ok [OF laws r five st per]
  have next_eq: "next_duty s c = fade_duty (duty_now st ! c) (aim_limit per ([r, g, b, cw, ww] ! c))" if "c < 5" for c
    unfolding next_duty_def S(8,9) using that by (subst nth_map) simp_all
  define s1 where "s1 = (if change_finish s then light_dh_pwm_adj_proc D s else s)"
  have "light_inv D s1 \<and> current_duty s1 = current_duty s \<and> pwm_get_period D (pwm s1) = pwm_get_period D (pwm s)"
  proof (cases "change_finish s")
    case True
    have "saved_duty s c = got D s c \<or> next_duty s c \<noteq> saved_duty s c" if "c < 5" for c
      using coh [OF that] by (auto simp: next_eq [OF that] S)
    from dh_ok [OF laws S(1,2) this] True show ?thesis by (simp add: s1_def)
  next
    case False
    then have "lamp_coherent D s" using coh by (simp add: lamp_coherent_def S)
    with False timer S(1,2) show ?thesis by (simp add: s1_def light_inv_def S)
  qed
  then have s1: "light_inv D s1" "current_duty s1 = map (aim_limit per) [r, g, b, cw, ww]" "pwm_get_period D (pwm s1) = per"
    using S by simp_all
  have "light_set_aim D r g b cw ww per st = (if change_finish s1 then settle D s1 else s1)"
    by (simp add: e s1_def Let_def)
  then show "light_inv D (light_set_aim D r g b cw ww per st)"
    "current_duty (light_set_aim D r g b cw ww per st) = map (aim_limit per) [r, g, b, cw, ww]"
    "pwm_get_period D (pwm (light_set_aim D r g b cw ww per st)) = per"
    using s1 settle_inv [OF s1(1)] by (simp_all add: settle_fields)
qed

lemma set_aim_inv:
  assumes laws: "pwm_laws D" and inv: "light_inv D st" and per: "period_ok per"
  shows "light_inv D (light_set_aim D r g b cw ww per st)"
    "current_duty (light_set_aim D r g b cw ww per st) = map (aim_limit per) [r, g, b, cw, ww]"
    "pwm_get_period D (pwm (light_set_aim D r g b cw ww per st)) = per"
proof -
  have f: "ring_ok st" "length (duty_now st) = 5" "length (pwm_duty (light_param st)) = 5"
      "pwm_period (light_param st) = pwm_get_period D (pwm st)" "\<forall>c<5. unat (duty_now st ! c) \<le> 222222"
      "\<And>c. c < 5 \<Longrightarrow> saved_duty st c = got D st c" "\<not> change_finish st \<Longrightarrow> timer_pwm_adj st \<noteq> None"
    using inv by (auto simp: light_inv_def aims_ok_def five_def lamp_coherent_def)
  show "light_inv D (light_set_aim D r g b cw ww per st)"
    "current_duty (light_set_aim D r g b cw ww per st) = map (aim_limit per) [r, g, b, cw, ww]"
    "pwm_get_period D (pwm (light_set_aim D r g b cw ww per st)) = per"
    by (rule set_aim_ok [OF laws f(1-5) per]; simp add: f(6,7))+
qed

end
