(* ===== verification/LightRun.thy ===== *)
theory LightRun
  imports LightFade
begin

text \<open>
  Runs of the lamp from its start-up: the invariant holds throughout, a new aim is reached and
  never refused; and the saved duties for which the fade never ends.
\<close>

section \<open>Start-up\<close>

definition saved_period :: "light_saved_param \<Rightarrow> u32" where
  "saved_period saved = (if pwm_period saved > 10000 \<or> pwm_period saved < 1000 then 1000 else pwm_period saved)"

text \<open>The state in which \<open>user_light_init\<close> asks for the saved duties.\<close>

definition restored :: "'p pwm_api \<Rightarrow> light_saved_param \<Rightarrow> 'p light \<Rightarrow> 'p light" where
  "restored D saved st =
    (let lp = saved\<lparr>pwm_period := saved_period saved\<rparr> in
     st\<lparr>light_param := lp,
        pwm := pwm_init D (saved_period saved) (replicate PWM_CHANNEL 0) (of_nat PWM_CHANNEL) io_info (pwm st),
        calls := calls st @
          [OS_PRINTF ''LIGHT PARAM: R: %d '' [pwm_duty lp ! 0], OS_PRINTF ''LIGHT PARAM: G: %d '' [pwm_duty lp ! 1],
           OS_PRINTF ''LIGHT PARAM: B: %d '' [pwm_duty lp ! 2], OS_PRINTF ''LIGHT PARAM: CW: %d '' [pwm_duty lp ! 3],
           OS_PRINTF ''LIGHT PARAM: WW: %d '' [pwm_duty lp ! 4], OS_PRINTF ''LIGHT PARAM: P: %d '' [saved_period saved]]\<rparr>)"

definition pwm_quiet :: "'p pwm_api \<Rightarrow> 'p light \<Rightarrow> 'p light" where
  "pwm_quiet D st =
    (let st = st\<lparr>pwm := set_pwm_debug_en D 0 (pwm st)\<rparr>
     in say_l (OS_PRINTF ''PWM version : %08x '' [get_pwm_version D (pwm st)]) st)"

lemma init_restores:
  assumes "length (pwm_duty saved) = 5"
  shows "user_light_init D saved st =
    pwm_quiet D (light_set_aim D (pwm_duty saved ! 0) (pwm_duty saved ! 1) (pwm_duty saved ! 2) (pwm_duty saved ! 3)
      (pwm_duty saved ! 4) (saved_period saved) (restored D saved st))"
proof -
  obtain a0 a1 a2 a3 a4 where "pwm_duty saved = [a0, a1, a2, a3, a4]"
    using assms by (auto simp: length_Suc_conv eval_nat_numeral)
  then show ?thesis
    by (simp add: user_light_init_def restored_def pwm_quiet_def saved_period_def say_l_def Let_def PWM_CHANNEL_def
        LIGHT_RED_def LIGHT_GREEN_def LIGHT_BLUE_def LIGHT_COLD_WHITE_def LIGHT_WARM_WHITE_def)
qed

lemma saved_period_ok: "period_ok (saved_period saved)"
  by (auto simp: saved_period_def period_ok_def)

lemma restored_ok:
  assumes laws: "pwm_laws D" and len: "length (pwm_duty saved) = 5"
  shows "ring_ok (restored D saved (light_boot sec p))"
    "length (duty_now (restored D saved (light_boot sec p))) = 5"
    "length (pwm_duty (light_param (restored D saved (light_boot sec p)))) = 5"
    "pwm_period (light_param (restored D saved (light_boot sec p))) = pwm_get_period D (pwm (restored D saved (light_boot sec p)))"
    "\<forall>c<5. duty_now (restored D saved (light_boot sec p)) ! c = 0"
    "c < 5 \<Longrightarrow> got D (restored D saved (light_boot sec p)) c = 0"
    "saved_duty (restored D saved (light_boot sec p)) c = pwm_duty saved ! c"
    "change_finish (restored D saved (light_boot sec p))"
    "current_duty (restored D saved (light_boot sec p)) = replicate 5 0"
proof -
  note L = pwm_lawsD(1,2) [OF laws saved_period_ok, of "replicate 5 0"]
  have z: "duty_ok (saved_period saved) d" if "d \<in> set (replicate 5 0)" for d
    using that by (simp add: duty_ok_def)
  show "pwm_period (light_param (restored D saved (light_boot sec p))) = pwm_get_period D (pwm (restored D saved (light_boot sec p)))"
    using L(1) [OF z] by (simp add: restored_def Let_def PWM_CHANNEL_def)
  show "got D (restored D saved (light_boot sec p)) c = 0" if "c < 5"
    using L(2) [OF z, where k = c] that by (simp add: restored_def Let_def PWM_CHANNEL_def got_def)
qed (simp_all add: restored_def light_boot_def Let_def ring_ok_def PWM_CHANNEL_def PWM_CHANNEL_NUM_MAX_def
      LIGHT_EVT_QNUM_def len saved_duty_def)

lemma pwm_quiet_inv:
  assumes "pwm_laws D"
  shows "light_inv D (pwm_quiet D st) = light_inv D st" "current_duty (pwm_quiet D st) = current_duty st"
    "pwm_get_period D (pwm (pwm_quiet D st)) = pwm_get_period D (pwm st)" "got D (pwm_quiet D st) = got D st"
  by (simp_all add: pwm_quiet_def Let_def say_l_def light_inv_def ring_ok_def aims_ok_def five_def lamp_coherent_def at_aim_def
      saved_duty_def got_def pwm_lawsD [OF assms] fun_eq_iff)

lemma fade_from_0:
  assumes "unat a \<le> 222222"
  shows "a \<le> d \<Longrightarrow> 20 < d \<Longrightarrow> fade_duty 0 a \<noteq> d" "a \<le> 20 \<Longrightarrow> fade_duty 0 a = a"
proof -
  have x: "unat (drop_bit 4 a) = unat a div 16"
    by (simp add: unat_drop_bit_eq drop_bit_eq_div unat_div)
  have f: "fade_duty 0 a = (if gap (drop_bit 4 a) a < 20 then a else drop_bit 4 a)"
    by (simp add: fade_duty_def Let_def ABS_MINUS_gap [symmetric] word_less_nat_alt)
  have g: "gap (drop_bit 4 a) a = unat a - unat a div 16"
    by (auto simp: gap_def x)
  show "fade_duty 0 a \<noteq> d" if "a \<le> d" "20 < d"
  proof
    assume "fade_duty 0 a = d"
    then have "unat (if gap (drop_bit 4 a) a < 20 then a else drop_bit 4 a) = unat d" using f by simp
    moreover have "unat a \<le> unat d" "20 < unat d" using that by (simp_all add: word_le_nat_alt word_less_nat_alt)
    ultimately show False by (auto simp: x g split: if_splits)
  qed
  show "fade_duty 0 a = a" if "a \<le> 20"
  proof -
    have "unat a \<le> 20" using that by (simp add: word_le_nat_alt)
    then have "unat a - unat a div 16 < 20" by (cases "unat a = 20") auto
    then show ?thesis by (simp add: f g)
  qed
qed

lemma lamp_init_inv:
  assumes laws: "pwm_laws D" and len: "length (pwm_duty saved) = 5"
    and big: "\<forall>d \<in> set (pwm_duty saved). d = 0 \<or> 20 < d"
  shows "light_inv D (user_light_init D saved (light_boot sec p))"
proof -
  define st where "st = restored D saved (light_boot sec p)"
  note R = restored_ok [OF laws len, where sec = sec and p = p, folded st_def]
  have five: "[pwm_duty saved ! 0, pwm_duty saved ! 1, pwm_duty saved ! 2, pwm_duty saved ! 3, pwm_duty saved ! 4] ! c
      = pwm_duty saved ! c" if "c < 5" for c
    using that by (auto simp: less_Suc_eq numeral_eq_Suc)
  have "fade_duty 0 (aim_limit (saved_period saved) d) \<noteq> d" if "20 < d" for d
    using that by (intro fade_from_0 limit_le [OF saved_period_ok aim_limit_ok]) (simp add: aim_limit_def)
  then have "saved_duty st c = got D st c \<or>
       change_finish st \<and> fade_duty (duty_now st ! c) (aim_limit (saved_period saved)
         ([pwm_duty saved ! 0, pwm_duty saved ! 1, pwm_duty saved ! 2, pwm_duty saved ! 3, pwm_duty saved ! 4] ! c)) \<noteq> saved_duty st c"
    if "c < 5" for c
    unfolding five [OF that] using big that R len by (auto dest: nth_mem)
  from set_aim_ok(1) [OF laws R(1-4) _ saved_period_ok this] R show ?thesis
    by (simp add: init_restores [OF len] pwm_quiet_inv [OF laws] st_def)
qed

section \<open>Runs\<close>

text \<open>
  What the program does with the lamp once it is started: new aims with a period in range, timer
  expiries, and the restart that writes the flash.
\<close>

inductive light_reach :: "'p pwm_api \<Rightarrow> 'p light \<Rightarrow> bool" for D where
  start: "length (pwm_duty saved) = 5 \<Longrightarrow> \<forall>d \<in> set (pwm_duty saved). d = 0 \<or> 20 < d \<Longrightarrow>
    light_reach D (user_light_init D saved (light_boot sec p))"
| aim: "light_reach D st \<Longrightarrow> period_ok per \<Longrightarrow> light_reach D (light_set_aim D r g b cw ww per st)"
| tick: "light_reach D st \<Longrightarrow> light_reach D (light_tick D st)"
| restart: "light_reach D st \<Longrightarrow> light_reach D (user_light_restart D st)"

lemma restart_inv: "pwm_laws D \<Longrightarrow> light_inv D st \<Longrightarrow> light_inv D (user_light_restart D st)"
  by (auto simp: user_light_restart_def Let_def say_l_def light_inv_def ring_ok_def aims_ok_def five_def lamp_coherent_def
      at_aim_def saved_duty_def got_def pwm_lawsD split: if_splits)

lemma reach_inv:
  assumes laws: "pwm_laws D" and "light_reach D st"
  shows "light_inv D st"
  using assms(2) by induction (simp_all add: laws lamp_init_inv set_aim_inv tick_inv restart_inv)

lemma inv_at_aim:
  assumes "light_inv D st" "change_finish st" "c < 5"
  shows "got D st c = current_duty st ! c" "user_light_get_duty c st = current_duty st ! c"
  using assms by (auto simp: light_inv_def at_aim_def lamp_coherent_def user_light_get_duty_def saved_duty_def)

section \<open>Fades that never end\<close>

text \<open>
  A channel whose stored duty is already the aim is never written: when the PWM library has
  another duty there, the fade repeats without end.
\<close>

definition stuck :: "'p pwm_api \<Rightarrow> nat \<Rightarrow> u32 \<Rightarrow> 'p light \<Rightarrow> bool" where
  "stuck D c d st \<longleftrightarrow> five st \<and> ring_ok st \<and> current_duty st ! c = d \<and> next_duty st c = d \<and>
    saved_duty st c = d \<and> got D st c = 0 \<and> 0 < d \<and> d \<le> 20"

lemma stuck_timer: "stuck D c d (st\<lparr>timer_pwm_adj := x\<rparr>) = stuck D c d st"
  by (simp add: stuck_def ring_ok_def five_def next_duty_def saved_duty_def got_def)

lemma stuck_quiet: "pwm_laws D \<Longrightarrow> stuck D c d (pwm_quiet D st) = stuck D c d st"
  by (simp add: stuck_def pwm_quiet_inv(4))
    (simp add: pwm_quiet_def Let_def say_l_def five_def ring_ok_def next_duty_def saved_duty_def)

lemma fade_stays: "d \<le> 20 \<Longrightarrow> fade_duty d d = d"
proof -
  assume "d \<le> 20"
  then have "unat d \<le> 20" by (simp add: word_le_nat_alt)
  then have "unat (drop_bit 4 (d * 15 + d)) = unat d"
    by (simp add: unat_drop_bit_eq drop_bit_eq_div unat_div unat_word_ariths)
  then have "drop_bit 4 (d * 15 + d) = d" by (simp add: word_unat_eq_iff)
  then show ?thesis by (simp add: fade_duty_def ABS_MINUS_def)
qed

lemma stuck_dh:
  assumes laws: "pwm_laws D" and st: "stuck D c d st" and c: "c < 5"
  shows "stuck D c d (light_dh_pwm_adj_proc D st)" "\<not> change_finish (light_dh_pwm_adj_proc D st)"
    "timer_pwm_adj (light_dh_pwm_adj_proc D st) \<noteq> None"
proof -
  define s where "s = fade_step D st"
  have fd: "faded D 5 st s" using fade_step_faded [OF laws] st by (simp add: s_def stuck_def)
  then have fr: "frame st s" by (simp add: faded_def)
  have keeps: "duty_now s ! c = d" "saved_duty s c = d" "got D s c = 0"
    using fd st c by (auto simp: faded_def stuck_def)
  have s: "stuck D c d s"
    using st fd keeps frameD [OF fr] fade_stays by (auto simp: stuck_def ring_ok_def faded_def next_duty_def)
  then have "\<not> at_aim D s" using c by (auto simp: at_aim_def stuck_def)
  then have dh: "light_dh_pwm_adj_proc D st = fade_again s"
    using st dh_idle [of st D] by (simp add: s_def stuck_def ring_ok_def)
  show "stuck D c d (light_dh_pwm_adj_proc D st)"
    using s by (simp add: dh stuck_def light_view [of "fade_again s" s])
  show "\<not> change_finish (light_dh_pwm_adj_proc D st)" "timer_pwm_adj (light_dh_pwm_adj_proc D st) \<noteq> None"
    by (simp_all add: dh)
qed

lemma stuck_ticks:
  assumes laws: "pwm_laws D" and st: "stuck D c d st" "\<not> change_finish st" "timer_pwm_adj st \<noteq> None" and c: "c < 5"
  shows "stuck D c d ((light_tick D ^^ n) st) \<and> \<not> change_finish ((light_tick D ^^ n) st) \<and>
    timer_pwm_adj ((light_tick D ^^ n) st) \<noteq> None"
proof (induction n)
  case (Suc n)
  define s where "s = (light_tick D ^^ n) st"
  have "stuck D c d (s\<lparr>timer_pwm_adj := None\<rparr>)"
    using Suc by (simp add: s_def stuck_timer)
  moreover have "light_tick D s = light_dh_pwm_adj_proc D (s\<lparr>timer_pwm_adj := None\<rparr>)"
  proof -
    have "timer_pwm_adj s \<noteq> None" using Suc by (simp add: s_def)
    then show ?thesis by (auto simp: light_tick_def)
  qed
  ultimately show ?case using stuck_dh [OF laws _ c] by (simp add: s_def)
qed (simp add: st)

section \<open>Properties\<close>

text \<open>A PWM library that keeps the promise: a period and a duty for every channel.\<close>

definition plain_pwm :: "(u32 \<times> (u8 \<Rightarrow> u32)) pwm_api" where
  "plain_pwm =
    \<lparr>pwm_init = (\<lambda>per ds n io p. (per, \<lambda>c. if unat c < length ds then ds ! unat c else 0)),
     pwm_start = (\<lambda>p. p), pwm_set_duty = (\<lambda>d c p. (fst p, (snd p)(c := d))), pwm_get_duty = (\<lambda>c p. snd p c),
     pwm_set_period = (\<lambda>x p. (x, snd p)), pwm_get_period = fst, get_pwm_version = (\<lambda>p. 0),
     set_pwm_debug_en = (\<lambda>e p. p)\<rparr>"

lemma plain_pwm_laws: "pwm_laws plain_pwm"
  by (auto simp: pwm_laws_def plain_pwm_def PWM_CHANNEL_NUM_MAX_def unat_of_nat)

lemma aim_reached:
  assumes "pwm_laws D" "light_inv D st" "period_ok per" "154 \<le> n"
  shows "let s = (light_tick D ^^ n) (light_set_aim D r g b cw ww per st) in
    change_finish s \<and> timer_pwm_adj s = None \<and> pwm_get_period D (pwm s) = per \<and>
    (\<forall>c<5. pwm_get_duty D (of_nat c) (pwm s) = min ([r, g, b, cw, ww] ! c) (per * 1000 div 45) \<and>
          user_light_get_duty c s = min ([r, g, b, cw, ww] ! c) (per * 1000 div 45))"
proof -
  define s0 where "s0 = light_set_aim D r g b cw ww per st"
  define s where "s = (light_tick D ^^ n) s0"
  note s0 = set_aim_inv [OF assms(1-3), of r g b cw ww, folded s0_def]
  have s: "light_inv D s" "current_duty s = map (aim_limit per) [r, g, b, cw, ww]" "pwm_get_period D (pwm s) = per"
    using ticks_inv [OF assms(1) s0(1), of n] s0 by (simp_all add: s_def)
  have fin: "change_finish s" using ticks_finish [OF assms(1) s0(1) assms(4)] by (simp add: s_def)
  have "current_duty s ! c = min ([r, g, b, cw, ww] ! c) (per * 1000 div 45)" if "c < 5" for c
    unfolding s(2) using that by (subst nth_map) (simp_all add: aim_limit_def)
  then show ?thesis
    using inv_at_aim [OF s(1) fin] s(1,3) fin by (simp add: s_def [symmetric] s0_def [symmetric] got_def light_inv_def)
qed



text \<open>
  C37. The ring of 40 settings never fills: between the calls of the program it is empty, since a
  new aim goes through it at once even in the middle of a fade. So a request is never refused,
  whatever its numbers, and none ever waits for the fade before it.
\<close>

theorem light_never_refuses:
  assumes "pwm_laws D" "light_reach D st"
  shows "fst (LightEvtMalloc st) \<noteq> None \<and> TotalUsedLightEvtNum st = 0 \<and>
    TotalUsedLightEvtNum (light_set_aim D r g b cw ww per st) = 0 \<and>
    (\<not> change_finish st \<longrightarrow> (let s = light_set_aim D r g b cw ww per st in
       \<not> change_finish s \<and> duty_now s = duty_now st \<and>
       current_duty s = map (\<lambda>d. min d (per * 1000 div 45)) [r, g, b, cw, ww]))"
proof -
  have ok: "ring_ok st" using reach_inv [OF assms] by (simp add: light_inv_def)
  obtain s where r: "retargeted D [r, g, b, cw, ww] per st s"
    and e: "light_set_aim D r g b cw ww per st =
      (let s1 = (if change_finish s then light_dh_pwm_adj_proc D s else s)
       in if change_finish s1 then settle D s1 else s1)"
    by (rule set_aim_smooth [OF ok])
  define s1 where "s1 = (if change_finish s then light_dh_pwm_adj_proc D s else s)"
  have aim: "light_set_aim D r g b cw ww per st = (if change_finish s1 then settle D s1 else s1)"
    by (simp add: e s1_def Let_def)
  have "TotalUsedLightEvtNum s1 = 0"
    using r by (simp add: s1_def retargeted_def ring_ok_def dh_idle total_kept)
  moreover have "s1 = s" if "\<not> change_finish st" using r that by (simp add: s1_def retargeted_def)
  ultimately show ?thesis
    using ok r by (auto simp: aim total_kept malloc_ok ring_ok_def retargeted_def aim_limit_def Let_def)
qed

theorem light_never_refuses_witness:
  "let st = user_light_init plain_pwm \<lparr>pwm_period = 0, pwm_duty = [100, 0, 0, 0, 0]\<rparr> (light_boot 61 (0, \<lambda>c. 0)) in
    fst (LightEvtMalloc st) \<noteq> None \<and> TotalUsedLightEvtNum st = 0 \<and>
    TotalUsedLightEvtNum (light_set_aim plain_pwm 30000 500 0 7 0 0 st) = 0 \<and>
    (\<not> change_finish st \<longrightarrow> (let s = light_set_aim plain_pwm 30000 500 0 7 0 0 st in
       \<not> change_finish s \<and> duty_now s = duty_now st \<and>
       current_duty s = map (\<lambda>d. min d (0 * 1000 div 45)) [30000, 500, 0, 7, 0]))"
  unfolding Let_def [of "user_light_init _ _ _"]
  by (rule light_never_refuses [OF plain_pwm_laws light_reach.start]) simp_all

text \<open>
  C38. A lamp that was saved with a duty from 1 to 20 on some channel never shows it again: after
  the start the fade of that channel never writes the PWM library, whose duty stays 0, and the
  timer of the fade never stops, however often it expires.
\<close>

theorem light_dim_never_restored:
  assumes "pwm_laws D" "length (pwm_duty saved) = 5" "c < 5" "0 < pwm_duty saved ! c" "pwm_duty saved ! c \<le> 20"
  shows "let s = (light_tick D ^^ n) (user_light_init D saved (light_boot sec p)) in
    \<not> change_finish s \<and> timer_pwm_adj s \<noteq> None \<and>
    pwm_get_duty D (of_nat c) (pwm s) = 0 \<and> user_light_get_duty c s = pwm_duty saved ! c"
proof -
  note laws = assms(1) and len = assms(2)
  define d where "d = pwm_duty saved ! c"
  define st where "st = restored D saved (light_boot sec p)"
  define aims where "aims = [pwm_duty saved ! 0, pwm_duty saved ! 1, pwm_duty saved ! 2, pwm_duty saved ! 3, pwm_duty saved ! 4]"
  note R = restored_ok [OF laws len, where sec = sec and p = p, folded st_def]
  have five: "length aims = 5" "aims ! c = d"
    using assms(3) by (auto simp: aims_def d_def less_Suc_eq numeral_eq_Suc)
  obtain s where r: "retargeted D aims (saved_period saved) st s"
    and e: "user_light_init D saved (light_boot sec p) = pwm_quiet D
      (let s1 = (if change_finish s then light_dh_pwm_adj_proc D s else s)
       in if change_finish s1 then settle D s1 else s1)"
    using set_aim_smooth [OF R(1), where D = D and per = "saved_period saved"]
    unfolding init_restores [OF len] st_def [symmetric] aims_def by metis
  have now: "\<forall>c<5. unat (duty_now st ! c) \<le> 222222" using R(5) by simp
  note S = retargeted_ok [OF laws r five(1) R(2-4) now saved_period_ok]
  have lim: "aim_limit (saved_period saved) d = d"
  proof -
    have "unat (saved_period saved * 1000 div 45) = unat (saved_period saved) * 1000 div 45" "1000 \<le> unat (saved_period saved)"
      using saved_period_ok [of saved] by (simp_all add: period_ok_def word_le_nat_alt unat_div unat_word_ariths)
    then have "20 \<le> saved_period saved * 1000 div 45" by (simp add: word_le_nat_alt)
    then show ?thesis using assms(5) by (simp add: aim_limit_def d_def min_def) (meson order_trans)
  qed
  then have cur: "current_duty s ! c = d" using five assms(3) unfolding S(9) by (subst nth_map) simp_all
  have "unat d \<le> 222222" using assms(5) by (simp add: d_def word_le_nat_alt)
  then have nx: "next_duty s c = d"
    using R(5) assms fade_from_0(2) [of d] by (simp add: next_duty_def cur S(8) d_def)
  have st: "stuck D c d s"
    using S(1,2) nx cur assms R by (simp add: stuck_def aims_ok_def S(4,5) d_def)
  define s1 where "s1 = light_dh_pwm_adj_proc D s"
  have init: "user_light_init D saved (light_boot sec p) = pwm_quiet D s1"
    using stuck_dh(2) [OF laws st assms(3)] R(8) S(6) by (simp add: e s1_def Let_def)
  have s1: "stuck D c d (pwm_quiet D s1)" "\<not> change_finish (pwm_quiet D s1)" "timer_pwm_adj (pwm_quiet D s1) \<noteq> None"
    using stuck_dh [OF laws st assms(3)]
    by (simp_all add: s1_def stuck_quiet [OF laws]) (simp_all add: pwm_quiet_def Let_def say_l_def)
  define w where "w = (light_tick D ^^ n) (pwm_quiet D s1)"
  have "stuck D c d w" "\<not> change_finish w" "timer_pwm_adj w \<noteq> None"
    using stuck_ticks [OF laws s1 assms(3), of n] by (simp_all add: w_def)
  then show ?thesis
    by (simp add: init w_def [symmetric] Let_def stuck_def got_def user_light_get_duty_def saved_duty_def d_def)
qed

theorem light_dim_never_restored_witness:
  "let s = (light_tick plain_pwm ^^ 1000000)
             (user_light_init plain_pwm \<lparr>pwm_period = 1000, pwm_duty = [0, 10, 22222, 0, 0]\<rparr> (light_boot 61 (0, \<lambda>c. 0))) in
    \<not> change_finish s \<and> timer_pwm_adj s \<noteq> None \<and>
    pwm_get_duty plain_pwm (of_nat 1) (pwm s) = 0 \<and>
    user_light_get_duty 1 s = pwm_duty \<lparr>pwm_period = 1000, pwm_duty = [0, 10, 22222, 0, 0]\<rparr> ! 1"
  by (rule light_dim_never_restored [OF plain_pwm_laws]) simp_all

text \<open>
  Setting the red channel alone does not light it: when no fade is under way,
  \<open>light_set_aim_r\<close> changes nothing in the PWM library and starts no timer, but the program
  reports the new duty from then on.
\<close>

theorem light_red_only_reported:
  assumes "pwm_laws D" "light_reach D st" "change_finish st"
  shows "let s = light_set_aim_r D red st in
    pwm s = pwm st \<and> timer_pwm_adj s = None \<and> user_light_get_duty LIGHT_RED s = red \<and>
    user_light_get_duty LIGHT_RED st = pwm_get_duty D (of_nat LIGHT_RED) (pwm s)"
proof -
  have inv: "light_inv D st" by (rule reach_inv [OF assms(1,2)])
  then have "TotalUsedLightEvtNum st = 0" "length (current_duty st) = 5" "timer_pwm_adj st = None"
    using assms(3) by (simp_all add: light_inv_def ring_ok_def aims_ok_def five_def)
  then show ?thesis
    using inv_at_aim [OF inv assms(3), of 0] assms(3)
    by (simp add: light_set_aim_r_def smooth_idle settle_fields Let_def user_light_get_duty_def LIGHT_RED_def got_def)
qed

end
