(* ===== verification/IotCloud.thy ===== *)
theory IotCloud
  imports IotTimer LightRun "HOL-Library.Monad_Syntax"
begin

text \<open>
  The cloud client of the vendor's demonstration program (examples/IoT_Demo/user/user_esp_platform.c),
  compiled for the lamp: it finds the server, keeps one connection to it, identifies or activates
  the device, answers requests, and sends a beacon when the server is silent. The SDK is binary: what its
  functions return comes from the machine \<open>esp\<close> (source \<open>Sdk\<close>), every call of it is an event of
  its trace, a packet with its text. Received data is the memory from its pointer on; \<open>None\<close> is an access outside
  an object, a text without an end or a loop that does not end. The allocator is taken to
  succeed, as the code mostly does; messages to the console are left out.
\<close>

section \<open>State\<close>

definition packet_size :: nat where "packet_size = 2 * 1024"
definition BEACON_TIME :: u32 where "BEACON_TIME = 50000"
definition AP_CACHE_NUMBER :: u8 where "AP_CACHE_NUMBER = 5"
definition DEVICE_CONNECTING :: u8 where "DEVICE_CONNECTING = 40"
definition DEVICE_ACTIVE_DONE :: u8 where "DEVICE_ACTIVE_DONE = 41"
definition DEVICE_ACTIVE_FAIL :: u8 where "DEVICE_ACTIVE_FAIL = 42"
definition DEVICE_CONNECT_SERVER_FAIL :: u8 where "DEVICE_CONNECT_SERVER_FAIL = 43"
definition STATION_MODE :: u8 where "STATION_MODE = 1"
definition SOFTAP_MODE :: u8 where "SOFTAP_MODE = 2"
definition STATIONAP_MODE :: u8 where "STATIONAP_MODE = 3"
definition STATION_WRONG_PASSWORD :: u8 where "STATION_WRONG_PASSWORD = 2"
definition STATION_NO_AP_FOUND :: u8 where "STATION_NO_AP_FOUND = 3"
definition STATION_CONNECT_FAIL :: u8 where "STATION_CONNECT_FAIL = 4"
definition STATION_GOT_IP :: u8 where "STATION_GOT_IP = 5"

record esp_platform_saved_param =
  devkey :: string \<comment> \<open>40 characters\<close>
  token :: string \<comment> \<open>40 characters\<close>
  activeflag :: u8

datatype espconn_state =
  ESPCONN_NONE | ESPCONN_WAIT | ESPCONN_LISTEN | ESPCONN_CONNECT | ESPCONN_WRITE | ESPCONN_READ | ESPCONN_CLOSE

text \<open>A software timer: the function it is set to and the delay it is armed with.\<close>

record 'f os_timer =
  timer_fn :: "'f option"
  delay :: "u32 option"

datatype client_fn = F_check_ip u8 | F_reconnect | F_dns_check | F_ap_change | F_timer_get | F_upgrade_reboot

text \<open>
  The static objects of the file, with the lamp and the timers it drives; \<open>conn_state\<close> and \<open>conn_kind\<close>
  are fields of \<open>user_conn\<close>, whose \<open>proto.tcp\<close> points to \<open>user_tcp\<close> before it is used, \<open>rr\<close> to
  \<open>light_period\<close> the static variables of \<open>user_esp_platform_set_info\<close>, \<open>sta_mac\<close> the address
  \<open>wifi_get_macaddr\<close> writes.
\<close>

record 'p cloud =
  lamp :: "'p light"
  due :: timers
  esp_param :: esp_platform_saved_param
  device_status :: u8
  device_recon_count :: u8
  active_nonce :: u32
  ping_status :: u8
  iot_version :: string
  esp_server_ip :: u32
  conn_state :: espconn_state
  conn_kind :: "espconn_type option"
  user_tcp :: esp_proto
  client_timer :: "client_fn os_timer"
  beacon_timer :: "unit os_timer" \<comment> \<open>set to \<open>user_esp_platform_sent_beacon\<close> only\<close>
  pbuffer :: string \<comment> \<open>\<open>packet_size\<close> characters\<close>
  rr :: u32
  gg :: u32
  bb :: u32
  cw :: u32
  ww :: u32
  light_period :: u32
  sta_mac :: "u8 list"
  esp :: mach

section \<open>The SDK\<close>

definition ask :: "string \<Rightarrow> 'p cloud \<Rightarrow> u32 \<times> 'p cloud" where
  "ask f st = (case sample (Sdk f) (esp st) of (v, s) \<Rightarrow> (v, st\<lparr>esp := s\<rparr>))"

definition ask8 :: "string \<Rightarrow> 'p cloud \<Rightarrow> u8 \<times> 'p cloud" where
  "ask8 f st = (case ask f st of (v, st) \<Rightarrow> (ucast v, st))"

definition tell :: "string \<Rightarrow> int list \<Rightarrow> string \<Rightarrow> 'p cloud \<Rightarrow> 'p cloud" where
  "tell f nums txt st = st\<lparr>esp := emit (Net f nums txt) (esp st)\<rparr>"

definition espconn_sent :: "string \<Rightarrow> 'p cloud \<Rightarrow> 'p cloud" where
  "espconn_sent txt st = tell ''espconn_sent'' [] txt st"

definition os_timer_disarm :: "'f os_timer \<Rightarrow> 'f os_timer" where
  "os_timer_disarm t = t\<lparr>delay := None\<rparr>"

definition os_timer_setfn :: "'f \<Rightarrow> 'f os_timer \<Rightarrow> 'f os_timer" where
  "os_timer_setfn f t = t\<lparr>timer_fn := Some f\<rparr>"

definition os_timer_arm :: "u32 \<Rightarrow> 'f os_timer \<Rightarrow> 'f os_timer" where
  "os_timer_arm ms t = t\<lparr>delay := Some ms\<rparr>"

text \<open>Disarming, setting and arming in a row.\<close>

definition restart_timer :: "'f \<Rightarrow> u32 \<Rightarrow> 'f os_timer \<Rightarrow> 'f os_timer" where
  "restart_timer f ms t = os_timer_arm ms (os_timer_setfn f (os_timer_disarm t))"

definition system_param_save_with_protect :: "'p cloud \<Rightarrow> 'p cloud" where
  "system_param_save_with_protect st =
    tell ''system_param_save_with_protect'' [uint (priv_param_start_sec (lamp st) + 1), uint (activeflag (esp_param st))]
      (devkey (esp_param st) @ token (esp_param st)) st"

section \<open>Packets\<close>

definition quoted :: "string \<Rightarrow> string" where
  "quoted s = [CHR 0x22] @ s @ [CHR 0x22]"

definition NL :: string where "NL = [CHR 0x0A]"

text \<open>The text in a block of characters that need not end it.\<close>

definition block_text :: "string \<Rightarrow> string" where
  "block_text b = takeWhile (\<lambda>c. c \<noteq> CHR 0x00) b"

definition Authorization :: "string \<Rightarrow> string" where
  "Authorization key = ''{'' @ quoted ''Authorization'' @ '': '' @ quoted (''token '' @ key) @ ''}''"

definition ACTIVE_FRAME :: "int \<Rightarrow> string \<Rightarrow> u8 list \<Rightarrow> string \<Rightarrow> string \<Rightarrow> string" where
  "ACTIVE_FRAME nonce tok bssid version key =
    ''{'' @ quoted ''nonce'' @ '': '' @ fmt_d nonce @ '','' @ quoted ''path'' @ '': '' @ quoted ''/v1/device/activate/'' @ '', '' @
    quoted ''method'' @ '': '' @ quoted ''POST'' @ '', '' @ quoted ''body'' @ '': {'' @
    quoted ''encrypt_method'' @ '': '' @ quoted ''PLAIN'' @ '', '' @ quoted ''token'' @ '': '' @ quoted tok @ '', '' @
    quoted ''bssid'' @ '': '' @ quoted (MACSTR bssid) @ '','' @ quoted ''rom_version'' @ '':'' @ quoted version @ ''}, '' @
    quoted ''meta'' @ '': '' @ Authorization key @ ''}'' @ NL"

definition FIRST_FRAME :: "int \<Rightarrow> string \<Rightarrow> string" where
  "FIRST_FRAME nonce key =
    ''{'' @ quoted ''nonce'' @ '': '' @ fmt_d nonce @ '', '' @ quoted ''path'' @ '': '' @ quoted ''/v1/device/identify'' @ '', '' @
    quoted ''method'' @ '': '' @ quoted ''GET'' @ '','' @ quoted ''meta'' @ '': '' @ Authorization key @ ''}'' @ NL"

definition RESPONSE_FRAME :: "int \<Rightarrow> int \<Rightarrow> int \<Rightarrow> int \<Rightarrow> int \<Rightarrow> int \<Rightarrow> string" where
  "RESPONSE_FRAME nonce x y z k l =
    ''{'' @ quoted ''status'' @ '': 200,'' @ quoted ''nonce'' @ '': '' @ fmt_d nonce @ '', '' @ quoted ''datapoint'' @ '': {'' @
    quoted ''x'' @ '': '' @ fmt_d x @ '','' @ quoted ''y'' @ '': '' @ fmt_d y @ '','' @ quoted ''z'' @ '': '' @ fmt_d z @ '','' @
    quoted ''k'' @ '': '' @ fmt_d k @ '','' @ quoted ''l'' @ '': '' @ fmt_d l @ ''},'' @ quoted ''deliver_to_device'' @ '':true}'' @ NL"

definition BEACON_FRAME :: "string \<Rightarrow> string" where
  "BEACON_FRAME key =
    ''{'' @ quoted ''path'' @ '': '' @ quoted ''/v1/ping/'' @ '', '' @ quoted ''method'' @ '': '' @ quoted ''POST'' @ '','' @
    quoted ''meta'' @ '': '' @ Authorization key @ ''}'' @ NL"

definition RPC_RESPONSE_FRAME :: "int \<Rightarrow> string" where
  "RPC_RESPONSE_FRAME nonce =
    ''{'' @ quoted ''status'' @ '': 200, '' @ quoted ''nonce'' @ '': '' @ fmt_d nonce @ '', '' @ quoted ''deliver_to_device'' @ '': true}'' @ NL"

definition TIMER_FRAME :: "string \<Rightarrow> string" where
  "TIMER_FRAME key =
    ''{'' @ quoted ''body'' @ '': {}, '' @ quoted ''get'' @ '':{'' @ quoted ''is_humanize_format_simple'' @ '':'' @ quoted ''true'' @ ''},'' @
    quoted ''meta'' @ '': {'' @ quoted ''Authorization'' @ '': '' @ quoted (''Token '' @ key) @ ''},'' @
    quoted ''path'' @ '': '' @ quoted ''/v1/device/timers/'' @ '','' @ quoted ''post'' @ '':{},'' @ quoted ''method'' @ '': '' @ quoted ''GET'' @ ''}'' @ NL"

definition UPGRADE_FRAME :: "string \<Rightarrow> string \<Rightarrow> string \<Rightarrow> string \<Rightarrow> string" where
  "UPGRADE_FRAME key act pre new =
    ''{'' @ quoted ''path'' @ '': '' @ quoted ''/v1/messages/'' @ '', '' @ quoted ''method'' @ '': '' @ quoted ''POST'' @ '', '' @
    quoted ''meta'' @ '': '' @ Authorization key @ '','' @ quoted ''get'' @ '':{'' @ quoted ''action'' @ '':'' @ quoted act @ ''},'' @
    quoted ''body'' @ '':{'' @ quoted ''pre_rom_version'' @ '':'' @ quoted pre @ '','' @ quoted ''rom_version'' @ '':'' @ quoted new @ ''}}'' @ NL"

text \<open>Printing the version: \<open>VERSION_TYPE\<close>, three numbers, the device type and \<open>UPGRADE_FALG\<close>.\<close>

definition version_text :: string where
  "version_text = ''v'' @ fmt_d 1 @ ''.'' @ fmt_d 0 @ ''.'' @ fmt_d 5 @ ''t'' @ fmt_d 45772 @ ''('' @ ''a'' @ '')''"

section \<open>Parameters\<close>

definition user_esp_platform_get_token :: "'p cloud \<Rightarrow> string" where
  "user_esp_platform_get_token st = token (esp_param st)"

definition user_esp_platform_set_token :: "string \<Rightarrow> 'p cloud \<Rightarrow> 'p cloud option" where
  "user_esp_platform_set_token tok st =
    (let p = (esp_param st)\<lparr>activeflag := 0\<rparr>
     in map_option (\<lambda>t. system_param_save_with_protect (st\<lparr>esp_param := p\<lparr>token := t\<rparr>\<rparr>)) (memcpy_to (token p) 0 tok))"

definition user_esp_platform_set_active :: "u8 \<Rightarrow> 'p cloud \<Rightarrow> 'p cloud" where
  "user_esp_platform_set_active flag st =
    system_param_save_with_protect (st\<lparr>esp_param := (esp_param st)\<lparr>activeflag := flag\<rparr>\<rparr>)"

definition user_esp_platform_set_connect_status :: "u8 \<Rightarrow> 'p cloud \<Rightarrow> 'p cloud" where
  "user_esp_platform_set_connect_status s st = st\<lparr>device_status := s\<rparr>"

definition user_esp_platform_get_connect_status :: "'p cloud \<Rightarrow> u8 \<times> 'p cloud" where
  "user_esp_platform_get_connect_status st =
    (case ask8 ''wifi_station_get_connect_status'' st of (s, st) \<Rightarrow>
       if s = STATION_GOT_IP then (if device_status st = 0 then DEVICE_CONNECTING else device_status st, st)
       else (s, st))"

text \<open>The number after its label, up to the first comma, or brace, or bracket.\<close>

definition user_esp_platform_parse_nonce :: "string \<Rightarrow> int option" where
  "user_esp_platform_parse_nonce s =
    (case strstr_at s (quoted ''nonce'' @ '': '') of
       None \<Rightarrow> Some 0
     | Some n \<Rightarrow>
         let pstr = drop (n + 9) s;
             e = (case strstr_at pstr '','' of Some e \<Rightarrow> Some e
                  | None \<Rightarrow> (case strstr_at pstr ''}'' of Some e \<Rightarrow> Some e | None \<Rightarrow> strstr_at pstr '']''))
         in case e of
              None \<Rightarrow> Some 0
            | Some e \<Rightarrow>
                (case memcpy_to (replicate 11 (CHR 0x00)) 0 (take e pstr) of
                   None \<Rightarrow> None
                 | Some b \<Rightarrow> map_option (\<lambda>t. i32 (atoi t)) (text_at b)))"

section \<open>Requests for the lamp\<close>

definition user_esp_platform_get_info :: "string \<Rightarrow> 'p cloud \<Rightarrow> 'p cloud option" where
  "user_esp_platform_get_info s st =
    map_option (\<lambda>nonce.
        let white_val = (if PWM_CHANNEL > LIGHT_COLD_WHITE then user_light_get_duty LIGHT_COLD_WHITE (lamp st) else 0)
        in espconn_sent (RESPONSE_FRAME nonce (sint (user_light_get_period (lamp st)))
             (sint (user_light_get_duty LIGHT_RED (lamp st))) (sint (user_light_get_duty LIGHT_GREEN (lamp st)))
             (sint (user_light_get_duty LIGHT_BLUE (lamp st))) (sint white_val)) st)
      (user_esp_platform_parse_nonce s)"

text \<open>
  One of the five values: four characters after the letter up to a comma, by way of the ten zero
  characters of \<open>recvbuf\<close>. The inner \<open>None\<close>: no letter, or no comma behind it.
\<close>

definition read_value :: "char \<Rightarrow> string \<Rightarrow> u32 option option" where
  "read_value c pdata =
    (case strstr_at pdata [c] of
       None \<Rightarrow> Some None
     | Some n \<Rightarrow>
         if n + 4 > length pdata then None
         else case strstr_at (drop (n + 4) pdata) '','' of
           None \<Rightarrow> Some None
         | Some k \<Rightarrow>
             (case memcpy_to (replicate 10 (CHR 0x00)) 0 (take k (drop (n + 4) pdata)) of
                None \<Rightarrow> None
              | Some b \<Rightarrow> map_option (\<lambda>t. Some (of_int (atoi t))) (text_at b)))"

definition update_value :: "char \<Rightarrow> string \<Rightarrow> (u32 \<Rightarrow> 'p cloud \<Rightarrow> 'p cloud) \<Rightarrow> 'p cloud \<Rightarrow> 'p cloud option" where
  "update_value c pdata upd st =
    map_option (\<lambda>v. case v of Some v \<Rightarrow> upd v st | None \<Rightarrow> st) (read_value c pdata)"

definition read_datapoint :: "string \<Rightarrow> 'p cloud \<Rightarrow> 'p cloud option" where
  "read_datapoint pdata st =
    do { st \<leftarrow> update_value (CHR ''x'') pdata (\<lambda>v. light_period_update (\<lambda>_. v)) st;
         st \<leftarrow> update_value (CHR ''y'') pdata (\<lambda>v. rr_update (\<lambda>_. v)) st;
         st \<leftarrow> update_value (CHR ''z'') pdata (\<lambda>v. gg_update (\<lambda>_. v)) st;
         st \<leftarrow> update_value (CHR ''k'') pdata (\<lambda>v. bb_update (\<lambda>_. v)) st;
         update_value (CHR ''l'') pdata (\<lambda>v st. st\<lparr>cw := v, ww := v\<rparr>) st }"

text \<open>
  The datapoint is copied out of \<open>buf\<close>, whose text is \<open>s\<close>, from its label up to the first pair of
  closing braces; \<open>length\<close> has 16 bits. Without the braces the null pointer is used.
\<close>

definition copy_datapoint :: "string \<Rightarrow> string \<Rightarrow> nat \<Rightarrow> string option" where
  "copy_datapoint buf s n =
    (case strstr_at s ''}}'' of
       None \<Rightarrow> None
     | Some e \<Rightarrow>
         let len = unat (of_int (int e - int n) + 2 :: u16)
         in if n + len > length buf then None else text_at (take len (drop n buf) @ [CHR 0x00]))"

definition user_esp_platform_set_info :: "'p pwm_api \<Rightarrow> string \<Rightarrow> string \<Rightarrow> 'p cloud \<Rightarrow> 'p cloud option" where
  "user_esp_platform_set_info D buf s st =
    (let st = st\<lparr>ww := 0, cw := 0\<rparr>
     in do { st \<leftarrow> (if strstr_at s (quoted ''path'' @ '': '' @ quoted ''/v1/datastreams/light/datapoint/'') = None then Some st
                    else case strstr_at s (''{'' @ quoted ''datapoint'' @ '': '') of
                      None \<Rightarrow> Some st
                    | Some n \<Rightarrow> do { pdata \<leftarrow> copy_datapoint buf s n; read_datapoint pdata st });
             let st = (if (rr st OR gg st OR bb st OR cw st OR ww st) = 0 then st
                       else if light_sleep_flg (lamp st) = 1
                            then st\<lparr>lamp := (say_l (SET_SLEEP_TYPE MODEM_SLEEP_T) (lamp st))\<lparr>light_sleep_flg := 0\<rparr>\<rparr>
                            else st);
             let st = st\<lparr>lamp := light_set_aim D (rr st) (gg st) (bb st) (cw st) (ww st) (light_period st) (lamp st)\<rparr>;
             user_esp_platform_get_info s st })"


section \<open>Packets of the client\<close>

text \<open>Both keys go into \<open>token_size\<close> zero characters: a key of 40 characters is ended.\<close>

definition user_esp_platform_sent :: "'p cloud \<Rightarrow> 'p cloud" where
  "user_esp_platform_sent st =
    (let key = block_text (devkey (esp_param st));
         st = (if activeflag (esp_param st) = 0xFF then st\<lparr>esp_param := (esp_param st)\<lparr>activeflag := 0\<rparr>\<rparr> else st)
     in if activeflag (esp_param st) = 0 then
          (case ask ''os_random'' st of (r, st) \<Rightarrow>
             let st = st\<lparr>active_nonce := r AND 0x7FFFFFFF\<rparr>;
                 tok = block_text (token (esp_param st))
             in espconn_sent (ACTIVE_FRAME (sint (active_nonce st)) tok (sta_mac st) (iot_version st) key) st)
        else
          (case ask ''os_random'' st of (r, st) \<Rightarrow>
             let nonce = r AND 0x7FFFFFFF
             in espconn_sent (FIRST_FRAME (sint nonce) key) st))"

definition user_esp_platform_discon :: "'p cloud \<Rightarrow> 'p cloud" where
  "user_esp_platform_discon st = tell ''espconn_disconnect'' [] [] st"

definition user_esp_platform_sent_beacon :: "'p cloud \<Rightarrow> 'p cloud" where
  "user_esp_platform_sent_beacon st =
    (if conn_state st = ESPCONN_CONNECT then
       if activeflag (esp_param st) = 0 then user_esp_platform_sent st
       else
         let key = block_text (devkey (esp_param st))
         in if ping_status st = 0 then user_esp_platform_discon st
            else
              let st = espconn_sent (BEACON_FRAME key) st;
                  st = st\<lparr>ping_status := 0\<rparr>
              in st\<lparr>beacon_timer := os_timer_arm BEACON_TIME (beacon_timer st)\<rparr>
     else user_esp_platform_discon st)"

definition user_platform_rpc_set_rsp :: "int \<Rightarrow> 'p cloud \<Rightarrow> 'p cloud" where
  "user_platform_rpc_set_rsp nonce st = espconn_sent (RPC_RESPONSE_FRAME nonce) st"

definition user_platform_timer_get :: "'p cloud \<Rightarrow> 'p cloud" where
  "user_platform_timer_get st = espconn_sent (TIMER_FRAME (block_text (devkey (esp_param st)))) st"

section \<open>The upgrade\<close>

record upgrade_server_info =
  ip :: "u8 list"
  port :: u16
  upgrade_flag :: u8
  pre_version :: string \<comment> \<open>16 characters\<close>
  upgrade_version :: string \<comment> \<open>16 characters\<close>
  check_times :: u32

definition user_esp_platform_upgrade_rsp :: "upgrade_server_info \<Rightarrow> 'p cloud \<Rightarrow> 'p cloud" where
  "user_esp_platform_upgrade_rsp server st =
    (let key = block_text (devkey (esp_param st));
         pre = block_text (pre_version server);
         new = block_text (upgrade_version server)
     in if upgrade_flag server = 1 then espconn_sent (UPGRADE_FRAME key ''device_upgrade_success'' pre new) st
        else espconn_sent (UPGRADE_FRAME key ''device_upgrade_failed'' pre new) st)"

definition CRNL :: string where "CRNL = [CHR 0x0D, CHR 0x0A]"

definition pheadbuffer :: "string \<Rightarrow> string" where
  "pheadbuffer key =
    ''Connection: keep-alive'' @ CRNL @ ''Cache-Control: no-cache'' @ CRNL @
    ''User-Agent: Mozilla/5.0 (Windows NT 5.1) AppleWebKit/537.36 (KHTML, like Gecko) Chrome/30.0.1599.101 Safari/537.36 '' @ CRNL @
    ''Accept: */*'' @ CRNL @ ''Authorization: token '' @ key @ CRNL @ ''Accept-Encoding: gzip,deflate,sdch'' @ CRNL @
    ''Accept-Language: zh-CN,zh;q=0.8'' @ CRNL @ CRNL"

definition upgrade_url :: "string \<Rightarrow> string \<Rightarrow> string \<Rightarrow> upgrade_server_info \<Rightarrow> string" where
  "upgrade_url version bin key server =
    ''GET /v1/device/rom/?action=download_rom&version='' @ version @ ''&filename='' @ bin @ '' HTTP/1.0'' @ CRNL @
    ''Host: '' @ IPSTR (ip server) @ '':'' @ fmt_d (uint (port server)) @ CRNL @ pheadbuffer key"

text \<open>\<open>user_bin\<close> has nine characters. The request goes into 512 characters with its zero byte.\<close>

definition user_esp_platform_upgrade_begin :: "upgrade_server_info \<Rightarrow> 'p cloud \<Rightarrow> 'p cloud option" where
  "user_esp_platform_upgrade_begin server st =
    (let server = server\<lparr>ip := remote_ip (user_tcp st), port := 80, check_times := 120000\<rparr>;
         key = block_text (devkey (esp_param st));
         bin = replicate 9 (CHR 0x00)
     in case ask8 ''system_upgrade_userbin_check'' st of (v, st) \<Rightarrow>
       do { (bin, st) \<leftarrow>
              (if v = 0 then map_option (\<lambda>b. (b, st)) (memcpy_to bin 0 (''user2.bin'' @ [CHR 0x00]))
               else case ask8 ''system_upgrade_userbin_check'' st of (v, st) \<Rightarrow>
                 if v = 1 then map_option (\<lambda>b. (b, st)) (memcpy_to bin 0 (''user1.bin'' @ [CHR 0x00]))
                 else Some (bin, st));
            let url = upgrade_url (block_text (upgrade_version server)) (block_text bin) key server;
            if length url < 512 then Some (tell ''system_upgrade_start'' [] url st) else None })"

section \<open>What the server sends\<close>

definition activated :: "bool \<Rightarrow> 'p cloud \<Rightarrow> 'p cloud" where
  "activated ok st =
    (if ok then
       let st = st\<lparr>device_status := DEVICE_ACTIVE_DONE, esp_param := (esp_param st)\<lparr>activeflag := 1\<rparr>\<rparr>;
           st = system_param_save_with_protect st;
           st = user_esp_platform_sent st
       in tell ''system_restart'' [] [] st
     else st\<lparr>device_status := DEVICE_ACTIVE_FAIL\<rparr>)"

definition start_upgrade :: "string \<Rightarrow> string \<Rightarrow> nat \<Rightarrow> 'p cloud \<Rightarrow> 'p cloud option" where
  "start_upgrade buf s n st =
    do { nonce \<leftarrow> user_esp_platform_parse_nonce s;
         let st = user_platform_rpc_set_rsp nonce st;
         if n + 12 + 16 > length buf then None
         else user_esp_platform_upgrade_begin
                \<lparr>ip = replicate 4 0, port = 0, upgrade_flag = 0, pre_version = version_text @ [CHR 0x00],
                 upgrade_version = (take 16 (drop (n + 12) buf))[15 := CHR 0x00], check_times = 0\<rparr> st }"

text \<open>\<open>os_strncmp\<close> at an offset of the buffer.\<close>

definition stands_at :: "string \<Rightarrow> nat \<Rightarrow> string \<Rightarrow> bool" where
  "stands_at buf n pat = starts_with (drop n buf) pat"

text \<open>The chain of tests behind the one for the activation.\<close>

definition serve :: "'p pwm_api \<Rightarrow> string \<Rightarrow> string \<Rightarrow> string \<Rightarrow> 'p cloud \<Rightarrow> 'p cloud option" where
  "serve D mem buf s st =
    (if strstr_at s (quoted ''action'' @ '': '' @ quoted ''sys_upgrade'') \<noteq> None then
       (case strstr_at s (quoted ''version'' @ '':'') of Some n \<Rightarrow> start_upgrade buf s n st | None \<Rightarrow> Some st)
     else if strstr_at s (quoted ''action'' @ '': '' @ quoted ''sys_reboot'') \<noteq> None then
       Some (st\<lparr>client_timer := restart_timer F_upgrade_reboot 1000 (client_timer st)\<rparr>)
     else if strstr_at s ''/v1/device/timers/'' \<noteq> None then
       do { nonce \<leftarrow> user_esp_platform_parse_nonce s;
            let st = user_platform_rpc_set_rsp nonce st;
            Some (st\<lparr>client_timer := restart_timer F_timer_get 2000 (client_timer st)\<rparr>) }
     else case strstr_at s (quoted ''method'' @ '': '') of
       Some n \<Rightarrow>
         if stands_at buf (n + 11) ''GET'' then user_esp_platform_get_info s st
         else if stands_at buf (n + 11) ''POST'' then user_esp_platform_set_info D buf s st
         else Some st
     | None \<Rightarrow>
         if strstr_at s ''ping success'' \<noteq> None then Some (st\<lparr>ping_status := 1\<rparr>)
         else if strstr_at s ''send message success'' \<noteq> None then Some st
         else if strstr_at s ''timers'' \<noteq> None then
           do { txt \<leftarrow> text_at mem;
                (t, _) \<leftarrow> user_platform_timer_start txt (due st);
                Some (st\<lparr>due := t\<rparr>) }
         else if strstr_at s ''device'' \<noteq> None then Some (user_platform_timer_get st)
         else Some st)"

text \<open>The nonce is looked at only behind the label of the activation.\<close>

definition handle_message :: "'p pwm_api \<Rightarrow> string \<Rightarrow> string \<Rightarrow> string \<Rightarrow> 'p cloud \<Rightarrow> 'p cloud option" where
  "handle_message D mem buf s st =
    (case strstr_at s (quoted ''activate_status'' @ '': '') of
       None \<Rightarrow> serve D mem buf s st
     | Some n \<Rightarrow>
         do { nonce \<leftarrow> user_esp_platform_parse_nonce s;
              if of_int nonce = active_nonce st then Some (activated (stands_at buf (n + 19) ''1'') st)
              else serve D mem buf s st })"

definition user_esp_platform_recv_cb :: "'p pwm_api \<Rightarrow> string \<Rightarrow> u16 \<Rightarrow> 'p cloud \<Rightarrow> 'p cloud option" where
  "user_esp_platform_recv_cb D mem len st =
    (let st = st\<lparr>beacon_timer := os_timer_disarm (beacon_timer st)\<rparr>;
         rearm = (\<lambda>st. st\<lparr>beacon_timer := os_timer_arm BEACON_TIME (beacon_timer st)\<rparr>);
         pusrdata = take (unat len) mem
     in if unat len > length mem then None
        else if len = 1460 then
          map_option (\<lambda>b. rearm (st\<lparr>pbuffer := b\<rparr>)) (memcpy_to (pbuffer st) 0 pusrdata)
        else
          do { t \<leftarrow> text_at (pbuffer st);
               b \<leftarrow> memcpy_to (pbuffer st) (length t) pusrdata;
               s \<leftarrow> text_at b;
               st \<leftarrow> handle_message D mem b s (st\<lparr>pbuffer := b\<rparr>);
               Some (rearm (st\<lparr>pbuffer := replicate packet_size (CHR 0x00)\<rparr>)) })"


section \<open>The connection\<close>

text \<open>
  Looking for the next access point: the library is asked to change to \<open>i\<close>, and after a refusal
  to the next number, until it agrees.
\<close>

definition try_ap :: "u8 \<Rightarrow> 'p cloud \<Rightarrow> u8 \<times> 'p cloud" where
  "try_ap i st = ask8 ''wifi_station_ap_change'' (tell ''wifi_station_ap_change'' [uint i] [] st)"

definition next_ap :: "u8 \<Rightarrow> u8" where
  "next_ap i = (let i = i + 1 in if i = AP_CACHE_NUMBER - 1 then 0 else i)"

function change_loop :: "u8 \<Rightarrow> 'p cloud \<Rightarrow> 'p cloud option" where
  "change_loop i st =
    (case try_ap i st of (v, s) \<Rightarrow>
       if v = 1 then Some s
       else if still (Sdk ''wifi_station_ap_change'') (esp st) then None
       else change_loop (next_ap i) s)"
  by pat_completeness auto
termination
  by (relation "measure (\<lambda>(i, st). length (feed (esp st) (Sdk ''wifi_station_ap_change'')))")
    (auto simp: try_ap_def ask8_def ask_def tell_def sample_def still_def emit_def split: list.splits)

declare change_loop.simps [simp del]

definition user_esp_platform_ap_change :: "'p cloud \<Rightarrow> 'p cloud option" where
  "user_esp_platform_ap_change st =
    (case ask8 ''wifi_station_get_current_ap_id'' st of (current_id, st) \<Rightarrow>
       let i = (if current_id = AP_CACHE_NUMBER - 1 then 0 else current_id + 1)
       in map_option (\<lambda>st. st\<lparr>device_recon_count := 0, client_timer := restart_timer (F_check_ip 0) 100 (client_timer st)\<rparr>)
            (change_loop i st))"

definition user_esp_platform_reset_mode :: "'p cloud \<Rightarrow> bool \<times> 'p cloud" where
  "user_esp_platform_reset_mode st =
    (case ask8 ''wifi_get_opmode'' st of (m, st) \<Rightarrow>
       let st = (if m = STATION_MODE then tell ''wifi_set_opmode'' [uint STATIONAP_MODE] [] st else st)
       in (True, st\<lparr>client_timer := restart_timer F_ap_change 5000 (client_timer st)\<rparr>))"

definition user_esp_platform_recon_cb :: "'p cloud \<Rightarrow> 'p cloud" where
  "user_esp_platform_recon_cb st =
    (let st = st\<lparr>beacon_timer := os_timer_disarm (beacon_timer st)\<rparr>;
         st = st\<lparr>device_recon_count := device_recon_count st + 1\<rparr>;
         (gone, st) =
           (if device_recon_count st = 5
            then user_esp_platform_reset_mode (st\<lparr>device_status := DEVICE_CONNECT_SERVER_FAIL\<rparr>)
            else (False, st))
     in if gone then st
        else st\<lparr>client_timer := restart_timer F_reconnect 1000 (client_timer st)\<rparr>)"

definition user_esp_platform_connect_cb :: "'p cloud \<Rightarrow> 'p cloud" where
  "user_esp_platform_connect_cb st =
    (case ask8 ''wifi_get_opmode'' st of (m, st) \<Rightarrow>
       let st = (if m = STATIONAP_MODE then tell ''wifi_set_opmode'' [uint STATION_MODE] [] st else st);
           st = st\<lparr>device_recon_count := 0\<rparr>;
           st = tell ''espconn_regist_recvcb'' [] [] st;
           st = tell ''espconn_regist_sentcb'' [] [] st
       in user_esp_platform_sent st)"

definition user_esp_platform_connect :: "'p cloud \<Rightarrow> 'p cloud" where
  "user_esp_platform_connect st = tell ''espconn_connect'' [] [] st"

definition user_esp_platform_dns_found :: "u32 option \<Rightarrow> 'p cloud \<Rightarrow> 'p cloud" where
  "user_esp_platform_dns_found ipaddr st =
    (case ipaddr of
       None \<Rightarrow>
         let st = st\<lparr>device_recon_count := device_recon_count st + 1\<rparr>
         in if device_recon_count st = 5
            then snd (user_esp_platform_reset_mode (st\<lparr>device_status := DEVICE_CONNECT_SERVER_FAIL\<rparr>))
            else st
     | Some a \<Rightarrow>
         if esp_server_ip st = 0 \<and> a \<noteq> 0 then
           let st = st\<lparr>client_timer := os_timer_disarm (client_timer st), esp_server_ip := a\<rparr>;
               st = st\<lparr>user_tcp := (user_tcp st)\<lparr>remote_ip := ip_bytes a\<rparr>\<rparr>
           in (case ask ''espconn_port'' st of (p, st) \<Rightarrow>
                 let st = st\<lparr>user_tcp := (user_tcp st)\<lparr>local_port := sint p, remote_port := 8000\<rparr>\<rparr>;
                     st = st\<lparr>ping_status := 1\<rparr>;
                     st = tell ''espconn_regist_connectcb'' [] [] st;
                     st = tell ''espconn_regist_disconcb'' [] [] st;
                     st = tell ''espconn_regist_reconcb'' [] [] st
                 in user_esp_platform_connect st)
         else st)"

definition ESP_DOMAIN :: string where "ESP_DOMAIN = ''iot.espressif.cn''"

definition user_esp_platform_dns_check_cb :: "'p cloud \<Rightarrow> 'p cloud" where
  "user_esp_platform_dns_check_cb st =
    (let st = tell ''espconn_gethostbyname'' [] ESP_DOMAIN st
     in st\<lparr>client_timer := os_timer_arm 1000 (client_timer st)\<rparr>)"

definition user_esp_platform_start_dns :: "'p cloud \<Rightarrow> 'p cloud" where
  "user_esp_platform_start_dns st =
    (let st = st\<lparr>esp_server_ip := 0\<rparr>;
         st = tell ''espconn_gethostbyname'' [] ESP_DOMAIN st
     in st\<lparr>client_timer := restart_timer F_dns_check 1000 (client_timer st)\<rparr>)"

text \<open>The three texts of the entry stand one per line.\<close>

definition user_mdns_conf :: "'p cloud \<Rightarrow> 'p cloud" where
  "user_mdns_conf st =
    (case ask ''wifi_get_ip_info'' st of (a, st) \<Rightarrow>
       tell ''espconn_mdns_init'' [uint a, 80] (''espressif_light_demo'' @ NL @ ''espLight'' @ NL @ ''version = 1.0.1'') st)"

text \<open>The status is asked for again in each comparison, which end at the first that holds.\<close>

fun status_in :: "u8 list \<Rightarrow> 'p cloud \<Rightarrow> bool \<times> 'p cloud" where
  "status_in [] st = (False, st)"
| "status_in (x # xs) st =
    (case ask8 ''wifi_station_get_connect_status'' st of (s, st) \<Rightarrow> if s = x then (True, st) else status_in xs st)"

declare status_in.simps [simp del]

definition user_esp_platform_check_ip :: "u8 \<Rightarrow> 'p cloud \<Rightarrow> 'p cloud" where
  "user_esp_platform_check_ip reset_flag st =
    (let st = st\<lparr>client_timer := os_timer_disarm (client_timer st)\<rparr>;
         (a, st) = ask ''wifi_get_ip_info'' st;
         (got, st) = status_in [STATION_GOT_IP] st
     in if got \<and> a \<noteq> 0 then
          let st = user_mdns_conf st;
              st = st\<lparr>conn_kind := Some ESPCONN_TCP, conn_state := ESPCONN_NONE\<rparr>;
              st = st\<lparr>device_status := DEVICE_CONNECTING\<rparr>;
              st = (if reset_flag \<noteq> 0 then st\<lparr>device_recon_count := 0\<rparr> else st);
              st = st\<lparr>beacon_timer := os_timer_setfn () (os_timer_disarm (beacon_timer st))\<rparr>
          in user_esp_platform_start_dns st
        else
          (case status_in [STATION_WRONG_PASSWORD, STATION_NO_AP_FOUND, STATION_CONNECT_FAIL] st of (bad, st) \<Rightarrow>
             if bad then snd (user_esp_platform_reset_mode st)
             else st\<lparr>client_timer := os_timer_arm 100 (os_timer_setfn (F_check_ip 0) (client_timer st))\<rparr>))"

definition user_esp_platform_reconnect :: "'p cloud \<Rightarrow> 'p cloud" where
  "user_esp_platform_reconnect st = user_esp_platform_check_ip 0 st"

definition user_esp_platform_discon_cb :: "'p cloud \<Rightarrow> 'p cloud" where
  "user_esp_platform_discon_cb st =
    (let st = st\<lparr>beacon_timer := os_timer_disarm (beacon_timer st)\<rparr>
     in case ask ''espconn_port'' st of (p, st) \<Rightarrow>
          user_esp_platform_reconnect (st\<lparr>user_tcp := (user_tcp st)\<lparr>local_port := sint p\<rparr>\<rparr>))"

section \<open>Timers and start-up\<close>

text \<open>A software timer expires: its function is called, when it is armed.\<close>

definition client_expires :: "'p cloud \<Rightarrow> 'p cloud option" where
  "client_expires st =
    (case delay (client_timer st) of
       None \<Rightarrow> Some st
     | Some _ \<Rightarrow>
         let st = st\<lparr>client_timer := os_timer_disarm (client_timer st)\<rparr>
         in case timer_fn (client_timer st) of
              None \<Rightarrow> None
            | Some (F_check_ip f) \<Rightarrow> Some (user_esp_platform_check_ip f st)
            | Some F_reconnect \<Rightarrow> Some (user_esp_platform_reconnect st)
            | Some F_dns_check \<Rightarrow> Some (user_esp_platform_dns_check_cb st)
            | Some F_ap_change \<Rightarrow> user_esp_platform_ap_change st
            | Some F_timer_get \<Rightarrow> Some (user_platform_timer_get st)
            | Some F_upgrade_reboot \<Rightarrow> Some (tell ''system_upgrade_reboot'' [] [] st))"

definition beacon_expires :: "'p cloud \<Rightarrow> 'p cloud option" where
  "beacon_expires st =
    (case delay (beacon_timer st) of
       None \<Rightarrow> Some st
     | Some _ \<Rightarrow>
         if timer_fn (beacon_timer st) = None then None
         else Some (user_esp_platform_sent_beacon (st\<lparr>beacon_timer := os_timer_disarm (beacon_timer st)\<rparr>)))"

record dhcp_client_info =
  ip_addr :: u32
  netmask :: u32
  gw :: u32
  flag :: u8

text \<open>
  \<open>saved\<close>, \<open>dhcp\<close> and \<open>light\<close> are what the flash and the RTC memory hold for \<open>system_param_load\<close>,
  \<open>system_rtc_mem_read\<close> and the lamp, \<open>junk\<close> the twelve characters behind \<open>dhcp_info\<close> on the stack: its
  16 are written back with the size of another structure, 28.
\<close>

definition user_esp_platform_init ::
  "'p pwm_api \<Rightarrow> esp_platform_saved_param \<Rightarrow> dhcp_client_info \<Rightarrow> light_saved_param \<Rightarrow> string \<Rightarrow> 'p cloud \<Rightarrow> 'p cloud" where
  "user_esp_platform_init D saved dhcp light junk st =
    (let st = st\<lparr>iot_version := version_text\<rparr>;
         st = st\<lparr>esp_param := saved\<rparr>;
         st = (if flag dhcp = 1 then
                 (case ask8 ''wifi_station_dhcpc_status'' st of (v, st) \<Rightarrow>
                    let st = (if v = 1 then tell ''wifi_station_dhcpc_stop'' [] [] st else st)
                    in tell ''wifi_set_ip_info'' [uint (ip_addr dhcp), uint (netmask dhcp), uint (gw dhcp)] [] st)
               else st);
         st = tell ''system_rtc_mem_write'' [64, 28] (replicate 16 (CHR 0x00) @ take 12 junk) st;
         st = tell ''wifi_station_ap_number_set'' [uint AP_CACHE_NUMBER] [] st;
         st = (if activeflag (esp_param st) \<noteq> 1 then tell ''wifi_set_opmode'' [uint STATIONAP_MODE] [] st else st);
         st = st\<lparr>lamp := user_light_init D light (lamp st)\<rparr>
     in case ask8 ''wifi_get_opmode'' st of (m, st) \<Rightarrow>
          if m \<noteq> SOFTAP_MODE then st\<lparr>client_timer := restart_timer (F_check_ip 1) 100 (client_timer st)\<rparr> else st)"

text \<open>The program as it is loaded; the machine holds what the SDK will answer.\<close>

definition cloud_boot :: "u32 \<Rightarrow> 'p \<Rightarrow> u8 list \<Rightarrow> mach \<Rightarrow> 'p cloud" where
  "cloud_boot sec p mac s =
    \<lparr>lamp = light_boot sec p,
     due = \<lparr>device_timer = None, min_wait_second = 0, timestamp_str = replicate 11 (CHR 0x00), timestamp = 0,
            timer_splits = replicate 20 None\<rparr>,
     esp_param = \<lparr>devkey = replicate 40 (CHR 0x00), token = replicate 40 (CHR 0x00), activeflag = 0\<rparr>,
     device_status = 0, device_recon_count = 0, active_nonce = 0, ping_status = 0, iot_version = [], esp_server_ip = 0,
     conn_state = ESPCONN_NONE, conn_kind = None, user_tcp = \<lparr>remote_port = 0, local_port = 0, remote_ip = replicate 4 0\<rparr>,
     client_timer = \<lparr>timer_fn = None, delay = None\<rparr>, beacon_timer = \<lparr>timer_fn = None, delay = None\<rparr>,
     pbuffer = replicate packet_size (CHR 0x00), rr = 0, gg = 0, bb = 0, cw = 0, ww = 0, light_period = 0,
     sta_mac = mac, esp = s\<rparr>"

end
