(* ===== verification/CloudRun.thy ===== *)
theory CloudRun
  imports IotCloud
begin

text \<open>
  The runs of the cloud client (IotCloud): the calls the SDK and its timers make in any order. On
  all of them beacons and answers alternate and the device becomes active only by its nonce; a
  message in two packets is handled like one; the search for an access point, a silent server, and a
  request for the lamp followed to the end of the fade.
\<close>

section \<open>Runs\<close>

datatype cloud_event =
    Packet string u16
  | Beacon_timer | Client_timer | Lamp_timer
  | Connected | Disconnected | Failed
  | Found "u32 option"
  | Conn_state espconn_state \<comment> \<open>the library changes the state of the connection\<close>

fun cloud_step :: "'p pwm_api \<Rightarrow> cloud_event \<Rightarrow> 'p cloud \<Rightarrow> 'p cloud option" where
  "cloud_step D (Packet mem len) st = user_esp_platform_recv_cb D mem len st"
| "cloud_step D Beacon_timer st = beacon_expires st"
| "cloud_step D Client_timer st = client_expires st"
| "cloud_step D Lamp_timer st = Some (st\<lparr>lamp := light_tick D (lamp st)\<rparr>)"
| "cloud_step D Connected st = Some (user_esp_platform_connect_cb st)"
| "cloud_step D Disconnected st = Some (user_esp_platform_discon_cb st)"
| "cloud_step D Failed st = Some (user_esp_platform_recon_cb st)"
| "cloud_step D (Found a) st = Some (user_esp_platform_dns_found a st)"
| "cloud_step D (Conn_state s) st = Some (st\<lparr>conn_state := s\<rparr>)"

text \<open>The text a packet is handled with: what the buffer held and the packet behind it.\<close>

definition joined_text :: "string \<Rightarrow> u16 \<Rightarrow> 'p cloud \<Rightarrow> string option" where
  "joined_text mem len st =
    do { t \<leftarrow> text_at (pbuffer st);
         b \<leftarrow> memcpy_to (pbuffer st) (length t) (take (unat len) mem);
         text_at b }"

section \<open>What the trace says about beacons\<close>

definition is_beacon :: "event \<Rightarrow> bool" where
  "is_beacon e = (case e of
      Net f nums txt \<Rightarrow> f = ''espconn_sent'' \<and>
        starts_with txt (''{'' @ quoted ''path'' @ '': '' @ quoted ''/v1/ping/'')
    | _ \<Rightarrow> False)"

definition beacons :: "'p cloud \<Rightarrow> nat" where
  "beacons st = length (filter is_beacon (trace (esp st)))"

lemma frames_beacon [simp]:
  "is_beacon (Net ''espconn_sent'' [] (ACTIVE_FRAME n t m v k)) = False"
  "is_beacon (Net ''espconn_sent'' [] (FIRST_FRAME n k)) = False"
  "is_beacon (Net ''espconn_sent'' [] (RESPONSE_FRAME n x y z k' l)) = False"
  "is_beacon (Net ''espconn_sent'' [] (BEACON_FRAME k)) = True"
  "is_beacon (Net ''espconn_sent'' [] (RPC_RESPONSE_FRAME n)) = False"
  "is_beacon (Net ''espconn_sent'' [] (TIMER_FRAME k)) = False"
  by (simp_all add: is_beacon_def starts_with_def quoted_def ACTIVE_FRAME_def FIRST_FRAME_def RESPONSE_FRAME_def
      BEACON_FRAME_def RPC_RESPONSE_FRAME_def TIMER_FRAME_def)

lemma other_beacon: "f \<noteq> ''espconn_sent'' \<Longrightarrow> is_beacon (Net f nums txt) = False"
  by (simp add: is_beacon_def)

text \<open>The part of the state the two safety properties are about.\<close>

definition core :: "'p cloud \<Rightarrow> nat \<times> u8 \<times> bool" where
  "core st = (beacons st, ping_status st, activeflag (esp_param st) = 1)"

lemma core_upd [simp]:
  "core (st\<lparr>lamp := x1\<rparr>) = core st" "core (st\<lparr>due := x2\<rparr>) = core st" "core (st\<lparr>device_status := x3\<rparr>) = core st"
  "core (st\<lparr>device_recon_count := x4\<rparr>) = core st" "core (st\<lparr>active_nonce := x5\<rparr>) = core st"
  "core (st\<lparr>esp_server_ip := x6\<rparr>) = core st" "core (st\<lparr>conn_state := x7\<rparr>) = core st" "core (st\<lparr>conn_kind := x8\<rparr>) = core st"
  "core (st\<lparr>user_tcp := x9\<rparr>) = core st" "core (st\<lparr>client_timer := y1\<rparr>) = core st" "core (st\<lparr>beacon_timer := y2\<rparr>) = core st"
  "core (st\<lparr>pbuffer := y3\<rparr>) = core st" "core (st\<lparr>rr := v1\<rparr>) = core st" "core (st\<lparr>gg := v1\<rparr>) = core st"
  "core (st\<lparr>bb := v1\<rparr>) = core st" "core (st\<lparr>cw := v1\<rparr>) = core st" "core (st\<lparr>ww := v1\<rparr>) = core st"
  "core (st\<lparr>light_period := v1\<rparr>) = core st"
  by (simp_all add: core_def beacons_def)

lemma core_tell [simp]: "f \<noteq> ''espconn_sent'' \<Longrightarrow> core (tell f nums txt st) = core st"
  by (simp add: core_def beacons_def tell_def emit_def other_beacon)

lemma core_ask: "ask f st = (v, st') \<Longrightarrow> core st' = core st"
  by (auto simp: ask_def core_def beacons_def split: prod.splits dest: sample_trace)

lemma core_ask8: "ask8 f st = (v, st') \<Longrightarrow> core st' = core st"
  by (auto simp: ask8_def core_ask split: prod.splits)

lemma core_sent [simp]: "\<not> is_beacon (Net ''espconn_sent'' [] txt) \<Longrightarrow> core (espconn_sent txt st) = core st"
  by (simp add: core_def beacons_def tell_def emit_def espconn_sent_def)

lemma core_sdk [simp]:
  "core (user_esp_platform_sent st) = core st" "core (user_esp_platform_discon st) = core st"
  "core (user_platform_rpc_set_rsp n st) = core st" "core (user_platform_timer_get st) = core st"
  "core (system_param_save_with_protect st) = core st" "core (user_esp_platform_connect st) = core st"
proof -
  have "core (st\<lparr>esp_param := (esp_param st)\<lparr>activeflag := 0\<rparr>\<rparr>) = core st" if "activeflag (esp_param st) = 0xFF"
    using that by (simp add: core_def beacons_def)
  then show "core (user_esp_platform_sent st) = core st"
    by (auto simp: user_esp_platform_sent_def Let_def dest: core_ask split: prod.split)
qed (simp_all add: user_esp_platform_discon_def user_platform_rpc_set_rsp_def user_platform_timer_get_def
    system_param_save_with_protect_def user_esp_platform_connect_def)

lemma core_try: "try_ap i st = (v, st') \<Longrightarrow> core st' = core st"
  by (auto simp: try_ap_def dest: core_ask8)

lemma core_loop: "change_loop i st = Some st' \<Longrightarrow> core st' = core st"
proof (induction i st arbitrary: st' rule: change_loop.induct)
  case (1 i st)
  obtain v s where t: "try_ap i st = (v, s)" by force
  show ?case
    using "1.prems" "1.IH" [OF t [symmetric], of st'] core_try [OF t]
    by (subst (asm) change_loop.simps) (simp add: t split: if_splits)
qed

lemma core_ap_change: "user_esp_platform_ap_change st = Some st' \<Longrightarrow> core st' = core st"
  by (auto simp: user_esp_platform_ap_change_def Let_def dest!: core_ask8 core_loop split: prod.splits)

lemma core_reset [simp]: "core (snd (user_esp_platform_reset_mode st)) = core st"
  by (auto simp: user_esp_platform_reset_mode_def Let_def dest: core_ask8 split: prod.split)

lemma core_reset': "user_esp_platform_reset_mode st = (v, st') \<Longrightarrow> core st' = core st"
  using core_reset [of st] by simp

lemma core_recon [simp]: "core (user_esp_platform_recon_cb st) = core st"
  by (auto simp: user_esp_platform_recon_cb_def Let_def dest: core_reset' split: prod.split)

lemma core_connect_cb [simp]: "core (user_esp_platform_connect_cb st) = core st"
  by (auto simp: user_esp_platform_connect_cb_def Let_def dest: core_ask8 split: prod.split)

lemma core_mdns [simp]: "core (user_mdns_conf st) = core st"
  by (auto simp: user_mdns_conf_def dest: core_ask split: prod.split)

lemma core_dns [simp]: "core (user_esp_platform_start_dns st) = core st" "core (user_esp_platform_dns_check_cb st) = core st"
  by (simp_all add: user_esp_platform_start_dns_def user_esp_platform_dns_check_cb_def Let_def)

lemma core_status: "status_in xs st = (b, st') \<Longrightarrow> core st' = core st"
  by (induction xs st rule: status_in.induct) (auto simp: status_in.simps split: prod.splits if_splits dest: core_ask8)

lemma core_check_ip [simp]: "core (user_esp_platform_check_ip f st) = core st"
proof -
  define s0 where "s0 = st\<lparr>client_timer := os_timer_disarm (client_timer st)\<rparr>"
  obtain a s1 where s1: "ask ''wifi_get_ip_info'' s0 = (a, s1)" by force
  obtain got s2 where s2: "status_in [STATION_GOT_IP] s1 = (got, s2)" by force
  obtain bad s3 where s3: "status_in [STATION_WRONG_PASSWORD, STATION_NO_AP_FOUND, STATION_CONNECT_FAIL] s2 = (bad, s3)" by force
  have "core s1 = core st" "core s2 = core st" "core s3 = core st"
    using core_ask [OF s1] core_status [OF s2] core_status [OF s3] by (simp_all add: s0_def)
  then show ?thesis
    by (simp add: user_esp_platform_check_ip_def Let_def s1 s2 s3 flip: s0_def)
qed

lemma core_discon_cb [simp]: "core (user_esp_platform_discon_cb st) = core st"
  by (auto simp: user_esp_platform_discon_cb_def user_esp_platform_reconnect_def dest!: core_ask split: prod.split)

lemma core_client: "client_expires st = Some st' \<Longrightarrow> core st' = core st"
  by (auto simp: client_expires_def user_esp_platform_reconnect_def Let_def dest!: core_ap_change
      split: option.splits client_fn.splits)

lemma core_get_info: "user_esp_platform_get_info s st = Some st' \<Longrightarrow> core st' = core st"
  by (auto simp: user_esp_platform_get_info_def Let_def)

lemma core_value: "update_value c pdata upd st = Some st' \<Longrightarrow> (\<And>v. core (upd v st) = core st) \<Longrightarrow> core st' = core st"
  by (auto simp: update_value_def split: option.splits)

lemma core_datapoint: "read_datapoint pdata st = Some st' \<Longrightarrow> core st' = core st"
  by (auto simp: read_datapoint_def bind_eq_Some_conv dest!: core_value)

lemma core_set_info: "user_esp_platform_set_info D buf s st = Some st' \<Longrightarrow> core st' = core st"
  by (auto simp: user_esp_platform_set_info_def Let_def bind_eq_Some_conv dest!: core_get_info core_datapoint
      split: if_splits option.splits)

lemma core_upgrade: "user_esp_platform_upgrade_begin server st = Some st' \<Longrightarrow> core st' = core st"
  by (auto simp: user_esp_platform_upgrade_begin_def Let_def bind_eq_Some_conv dest!: core_ask8 split: prod.splits if_splits)

lemma core_start_upgrade: "start_upgrade buf s n st = Some st' \<Longrightarrow> core st' = core st"
  by (auto simp: start_upgrade_def Let_def bind_eq_Some_conv dest!: core_upgrade split: if_splits)

section \<open>Messages\<close>

lemma strstr_at_Some: "strstr_at s pat = Some n \<Longrightarrow> take (length pat) (drop n s) = pat \<and> n + length pat \<le> length s"
proof (induction s pat arbitrary: n rule: strstr_at.induct)
  case (2 c s pat)
  show ?case
  proof (cases "take (length pat) (c # s) = pat")
    case True
    then have "length pat \<le> length (c # s)" by (metis length_take min.absorb_iff2 min.commute)
    with True 2 show ?thesis by simp
  next
    case False
    with 2 show ?thesis by auto
  qed
qed (auto split: if_splits)

text \<open>Comparing behind an offset of the text does not look past its zero byte.\<close>

lemma stands_at_text:
  assumes "text_at b = Some s" "n \<le> length s" "CHR 0x00 \<notin> set pat"
  shows "stands_at b n pat = starts_with (drop n s) pat"
proof -
  from assms(1) have "CHR 0x00 \<in> set b" by (simp add: text_at_def split: if_splits)
  then obtain x r where x: "b = x @ CHR 0x00 # r" "CHR 0x00 \<notin> set x" by (auto dest: split_list_first)
  then have "takeWhile (\<lambda>c. c \<noteq> CHR 0x00) b = x" by (auto simp: takeWhile_append)
  with x assms(1) have b: "b = s @ CHR 0x00 # r" by (simp add: text_at_def)
  have "starts_with (t @ CHR 0x00 # r) pat = starts_with t pat" for t
    using assms(3)
  proof (induction pat arbitrary: t)
    case (Cons c pat)
    then show ?case by (cases t) (auto simp: starts_with_def)
  qed (simp add: starts_with_def)
  with assms(2) show ?thesis by (simp add: stands_at_def b)
qed

definition ACTIVATE_LABEL :: string where
  "ACTIVATE_LABEL = quoted ''activate_status'' @ '': ''"

lemma core_due:
  assumes "do { txt \<leftarrow> text_at mem; (t, _) \<leftarrow> user_platform_timer_start txt (due st); Some (st\<lparr>due := t\<rparr>) } = Some st'"
  shows "core st' = core st"
  using assms by (auto simp: bind_eq_Some_conv)

lemma core_timers:
  assumes "do { nonce \<leftarrow> user_esp_platform_parse_nonce s; let st = user_platform_rpc_set_rsp nonce st;
             Some (st\<lparr>client_timer := restart_timer F_timer_get 2000 (client_timer st)\<rparr>) } = Some st'"
  shows "core st' = core st"
  using assms by (auto simp: bind_eq_Some_conv Let_def)

lemma core_ping: "core (st\<lparr>ping_status := 1\<rparr>) = (beacons st, 1, activeflag (esp_param st) = 1)"
  by (simp add: core_def beacons_def)

lemma serve_chain:
  assumes "(if a then (case v of Some n \<Rightarrow> up n | None \<Rightarrow> Some st) else if b then Some re else if c then tm
      else case m of Some n \<Rightarrow> if g n then info else if p n then setting else Some st
        | None \<Rightarrow> if pg then Some png else if sm then Some st else if t then du else if d then Some tg else Some st) = Some st'"
    and "core st = k" "\<And>n. up n = Some st' \<Longrightarrow> core st' = k" "core re = k" "tm = Some st' \<Longrightarrow> core st' = k"
    "info = Some st' \<Longrightarrow> core st' = k" "setting = Some st' \<Longrightarrow> core st' = k" "du = Some st' \<Longrightarrow> core st' = k" "core tg = k"
  shows "core st' = k \<or> pg \<and> st' = png"
  using assms by (auto split: if_splits option.splits)

lemma core_serve:
  assumes "serve D mem buf s st = Some st'"
  shows "core st' = core st \<or> strstr_at s ''ping success'' \<noteq> None \<and> st' = st\<lparr>ping_status := 1\<rparr>"
  using assms unfolding serve_def
  by (rule serve_chain) (simp_all only: core_upd core_timers core_get_info core_set_info core_start_upgrade core_due core_sdk)

lemma core_activated: "core (activated ok st) = (beacons st, ping_status st, ok \<or> activeflag (esp_param st) = 1)"
  by (auto simp: activated_def Let_def) (simp_all add: core_def beacons_def)

lemma message_activates:
  assumes "text_at buf = Some s" "strstr_at s ACTIVATE_LABEL = Some n" "user_esp_platform_parse_nonce s = Some k"
    "of_int k = active_nonce st"
  shows "handle_message D mem buf s st = Some (activated (starts_with (drop (n + 19) s) ''1'') st)"
proof -
  have "n + 19 \<le> length s" using strstr_at_Some [OF assms(2)] by (simp add: ACTIVATE_LABEL_def quoted_def)
  then have "stands_at buf (n + 19) ''1'' = starts_with (drop (n + 19) s) ''1''"
    by (intro stands_at_text assms(1)) simp_all
  then show ?thesis
    unfolding handle_message_def ACTIVATE_LABEL_def [symmetric]
    by (simp only: assms(2-4) option.case Option.bind.simps if_True refl)
qed

lemma message_serves:
  assumes "handle_message D mem buf s st = Some st'"
    and "\<not> (\<exists>n k. strstr_at s ACTIVATE_LABEL = Some n \<and> user_esp_platform_parse_nonce s = Some k \<and> of_int k = active_nonce st)"
  shows "serve D mem buf s st = Some st'"
proof (cases "strstr_at s ACTIVATE_LABEL")
  case None
  then show ?thesis using assms(1) by (simp only: handle_message_def ACTIVATE_LABEL_def option.case)
next
  case (Some n)
  obtain k where k: "user_esp_platform_parse_nonce s = Some k"
    "(if of_int k = active_nonce st then Some (activated (stands_at buf (n + 19) ''1'') st) else serve D mem buf s st) = Some st'"
    using assms(1) Some unfolding handle_message_def ACTIVATE_LABEL_def [symmetric]
    by (auto simp only: option.case bind_eq_Some_conv)
  moreover from Some k(1) assms(2) have "of_int k \<noteq> active_nonce st" by blast
  ultimately show ?thesis by (simp only: if_False)
qed

lemma core_message:
  assumes "handle_message D mem buf s st = Some st'" "text_at buf = Some s"
  shows "core st' = core st \<or> strstr_at s ''ping success'' \<noteq> None \<and> st' = st\<lparr>ping_status := 1\<rparr> \<or>
    (\<exists>n k. strstr_at s ACTIVATE_LABEL = Some n \<and> user_esp_platform_parse_nonce s = Some k \<and> of_int k = active_nonce st \<and>
      st' = activated (starts_with (drop (n + 19) s) ''1'') st)"
proof (cases "\<exists>n k. strstr_at s ACTIVATE_LABEL = Some n \<and> user_esp_platform_parse_nonce s = Some k \<and> of_int k = active_nonce st")
  case True
  then obtain n k where nk: "strstr_at s ACTIVATE_LABEL = Some n" "user_esp_platform_parse_nonce s = Some k"
    "of_int k = active_nonce st" by blast
  with assms(1) message_activates [OF assms(2) nk, of D mem] show ?thesis by (simp only: option.inject) blast
next
  case False
  from core_serve [OF message_serves [OF assms(1) this]] show ?thesis by blast
qed

text \<open>A handled packet, seen from the outside.\<close>

lemma packet_cases:
  assumes "user_esp_platform_recv_cb D mem len st = Some st'"
  obtains (kept) "len = 1460" "core st' = core st"
  | (handled) b s st1 where "len \<noteq> 1460" "joined_text mem len st = Some s" "text_at b = Some s"
      "handle_message D mem b s (st\<lparr>beacon_timer := os_timer_disarm (beacon_timer st), pbuffer := b\<rparr>) = Some st1"
      "st' = st1\<lparr>pbuffer := replicate packet_size (CHR 0x00), beacon_timer := os_timer_arm BEACON_TIME (beacon_timer st1)\<rparr>"
proof (cases "len = 1460")
  case True
  with assms have "core st' = core st" by (auto simp: user_esp_platform_recv_cb_def Let_def split: if_splits)
  with True show ?thesis by (rule kept)
next
  case False
  define st0 where "st0 = st\<lparr>beacon_timer := os_timer_disarm (beacon_timer st)\<rparr>"
  from False assms obtain t b s st1 where
    b: "text_at (pbuffer st) = Some t" "memcpy_to (pbuffer st) (length t) (take (unat len) mem) = Some b" "text_at b = Some s"
      "handle_message D mem b s (st0\<lparr>pbuffer := b\<rparr>) = Some st1"
      "st' = st1\<lparr>pbuffer := replicate packet_size (CHR 0x00), beacon_timer := os_timer_arm BEACON_TIME (beacon_timer st1)\<rparr>"
    by (auto simp: user_esp_platform_recv_cb_def Let_def bind_eq_Some_conv st0_def split: if_splits)
  then have "joined_text mem len st = Some s" by (simp add: joined_text_def)
  with False b show ?thesis by (intro handled) (simp_all add: st0_def)
qed

lemma core_found:
  "core (user_esp_platform_dns_found a st) =
    (if a \<noteq> None \<and> a \<noteq> Some 0 \<and> esp_server_ip st = 0 then (beacons st, 1, activeflag (esp_param st) = 1) else core st)"
proof (cases "a \<noteq> None \<and> a \<noteq> Some 0 \<and> esp_server_ip st = 0")
  case True
  then obtain x where x: "a = Some x" "x \<noteq> 0" "esp_server_ip st = 0" by auto
  define s0 where "s0 = st\<lparr>client_timer := os_timer_disarm (client_timer st), esp_server_ip := x,
    user_tcp := (user_tcp st)\<lparr>remote_ip := ip_bytes x\<rparr>\<rparr>"
  obtain p s1 where s1: "ask ''espconn_port'' s0 = (p, s1)" by force
  then have "core s1 = core st" using core_ask [OF s1] by (simp add: s0_def)
  then have "core (s1\<lparr>user_tcp := t, ping_status := 1\<rparr>) = (beacons st, 1, activeflag (esp_param st) = 1)" for t
    by (simp add: core_def beacons_def)
  then show ?thesis
    using x s1 by (simp add: user_esp_platform_dns_found_def Let_def s0_def)
next
  case False
  then show ?thesis
    by (cases a) (auto simp: user_esp_platform_dns_found_def Let_def)
qed

lemma core_beacon:
  assumes "beacon_expires st = Some st'"
  shows "core st' = core st \<or> ping_status st \<noteq> 0 \<and> core st' = (Suc (beacons st), 0, activeflag (esp_param st) = 1)"
proof -
  have sent: "core (espconn_sent (BEACON_FRAME key) s\<lparr>ping_status := x\<rparr>) =
      (Suc (beacons s), x, activeflag (esp_param s) = 1)" for key x and s :: "'a cloud"
    by (simp add: core_def beacons_def espconn_sent_def tell_def emit_def)
  have fields: "beacons (st\<lparr>beacon_timer := t\<rparr>) = beacons st" for t by (simp add: beacons_def)
  show ?thesis using assms
    by (auto simp: beacon_expires_def user_esp_platform_sent_beacon_def Let_def sent fields split: option.splits if_splits)
qed

section \<open>Beacons and answers\<close>

text \<open>An answer to the beacon, or a new connection being set up.\<close>

definition answered :: "cloud_event \<Rightarrow> 'p cloud \<Rightarrow> bool" where
  "answered e st \<longleftrightarrow> (case e of
      Packet mem len \<Rightarrow> len \<noteq> 1460 \<and> (\<exists>s. joined_text mem len st = Some s \<and> strstr_at s ''ping success'' \<noteq> None)
    | Found a \<Rightarrow> a \<noteq> None \<and> a \<noteq> Some 0 \<and> esp_server_ip st = 0
    | _ \<Rightarrow> False)"

text \<open>The message that activates: its label followed by 1, and the nonce of the last request.\<close>

definition activates :: "cloud_event \<Rightarrow> 'p cloud \<Rightarrow> bool" where
  "activates e st \<longleftrightarrow> (\<exists>mem len s n k. e = Packet mem len \<and> len \<noteq> 1460 \<and> joined_text mem len st = Some s \<and>
      strstr_at s ACTIVATE_LABEL = Some n \<and> user_esp_platform_parse_nonce s = Some k \<and>
      of_int k = active_nonce st \<and> starts_with (drop (n + 19) s) ''1'')"

lemma core_packet:
  assumes "user_esp_platform_recv_cb D mem len st = Some st'"
  shows "core st' = core st \<or> answered (Packet mem len) st \<and> core st' = (beacons st, 1, activeflag (esp_param st) = 1) \<or>
    activates (Packet mem len) st \<and> core st' = (beacons st, ping_status st, True)"
  using assms
proof (cases rule: packet_cases)
  case (handled b s st1)
  define st0 where "st0 = st\<lparr>beacon_timer := os_timer_disarm (beacon_timer st), pbuffer := b\<rparr>"
  have st0: "core st0 = core st" "active_nonce st0 = active_nonce st" by (simp_all add: st0_def)
  then have f0: "beacons st0 = beacons st" "ping_status st0 = ping_status st"
    "activeflag (esp_param st0) = 1 \<longleftrightarrow> activeflag (esp_param st) = 1" by (auto simp: core_def)
  have st': "core st' = core st1" using handled(5) by simp
  consider "core st1 = core st0" | "strstr_at s ''ping success'' \<noteq> None" "st1 = st0\<lparr>ping_status := 1\<rparr>"
    | n k where "strstr_at s ACTIVATE_LABEL = Some n" "user_esp_platform_parse_nonce s = Some k" "of_int k = active_nonce st0"
      "st1 = activated (starts_with (drop (n + 19) s) ''1'') st0"
    using core_message [OF handled(4) handled(3)] unfolding st0_def [symmetric] by metis
  then show ?thesis
  proof cases
    case 1
    then show ?thesis by (simp only: st' st0 refl simp_thms)
  next
    case 2
    then have "answered (Packet mem len) st" using handled(1,2) by (simp only: answered_def cloud_event.case) blast
    then show ?thesis by (simp only: st' 2(2) core_ping f0 refl simp_thms)
  next
    case (3 n k)
    show ?thesis
    proof (cases "starts_with (drop (n + 19) s) ''1''")
      case True
      then have "activates (Packet mem len) st" using 3(1-3) handled(1,2) st0(2) unfolding activates_def by metis
      then show ?thesis by (simp only: 3(4) True st' core_activated f0 refl simp_thms)
    next
      case False
      then have "core st1 = core st0" by (simp only: 3(4) core_activated simp_thms) (simp only: core_def)
      then show ?thesis by (simp only: st' st0 refl simp_thms)
    qed
  qed
qed simp

lemma core_step:
  assumes "cloud_step D e st = Some st'"
  shows "core st' = core st \<or>
    ping_status st \<noteq> 0 \<and> core st' = (Suc (beacons st), 0, activeflag (esp_param st) = 1) \<or>
    answered e st \<and> core st' = (beacons st, 1, activeflag (esp_param st) = 1) \<or>
    activates e st \<and> core st' = (beacons st, ping_status st, True)"
proof (cases e)
  case (Packet mem len)
  then show ?thesis using core_packet [of D mem len st st'] assms by auto
next
  case (Found a)
  then show ?thesis
    using assms core_found [of a st]
    by (cases "a \<noteq> None \<and> a \<noteq> Some 0 \<and> esp_server_ip st = 0") (simp_all add: answered_def)
next
  case Beacon_timer
  then show ?thesis using core_beacon [of st st'] assms by auto
next
  case Client_timer
  then show ?thesis using assms core_client [of st st'] by simp
qed (use assms in auto)

text \<open>
  A run with the number of beacons that have been sent since the last answer to one or, if it is
  later, since the last connection was set up.
\<close>

inductive beacon_run :: "'p pwm_api \<Rightarrow> nat \<Rightarrow> 'p cloud \<Rightarrow> bool" for D where
  start: "beacon_run D 0 st"
| step: "beacon_run D n st \<Longrightarrow> cloud_step D e st = Some st' \<Longrightarrow>
    beacon_run D ((if answered e st then 0 else n) + (beacons st' - beacons st)) st'"

lemma coreD: "core st = (b, p, a) \<Longrightarrow> beacons st = b \<and> ping_status st = p"
  by (simp add: core_def)

text \<open>
  C9. Cloud client, safety: from any state on and in any order of packets, timer expiries and calls
  of the library, at most one beacon is under way without an answer, and while one is, the
  client knows it (\<open>ping_status\<close> is 0), so that the next expiry ends the connection instead.
\<close>

theorem one_beacon_unanswered:
  assumes "beacon_run D n st"
  shows "n \<le> 1 \<and> (n = 1 \<longrightarrow> ping_status st = 0)"
  using assms
proof induction
  case (step n st e st')
  from core_step [OF step.hyps(2)] show ?case
  proof (elim disjE conjE)
    assume "core st' = core st"
    then have "beacons st' = beacons st" "ping_status st' = ping_status st" by (simp_all add: core_def)
    with step.IH show ?thesis by simp
  next
    assume "ping_status st \<noteq> 0" "core st' = (Suc (beacons st), 0, activeflag (esp_param st) = 1)"
    with coreD [OF this(2)] step.IH show ?thesis by auto
  next
    assume "answered e st" "core st' = (beacons st, 1, activeflag (esp_param st) = 1)"
    with coreD [OF this(2)] show ?thesis by simp
  next
    assume "core st' = (beacons st, ping_status st, True)"
    with coreD [OF this] step.IH show ?thesis by simp
  qed
qed simp

definition connected_example :: "(u32 \<times> (u8 \<Rightarrow> u32)) cloud" where
  "connected_example = (cloud_boot 61 (0, \<lambda>c. 0) [1, 2, 3, 4, 5, 6] mach0)
    \<lparr>esp_param := \<lparr>devkey = replicate 40 (CHR ''k''), token = replicate 40 (CHR ''t''), activeflag = 1\<rparr>,
     ping_status := 1, conn_state := ESPCONN_CONNECT, beacon_timer := \<lparr>timer_fn = Some (), delay = Some BEACON_TIME\<rparr>\<rparr>"

theorem one_beacon_unanswered_witness:
  "\<exists>st. beacon_run plain_pwm 1 st \<and> (1 :: nat) \<le> 1 \<and> ping_status st = 0"
proof -
  define st where "st = user_esp_platform_sent_beacon (connected_example\<lparr>beacon_timer := \<lparr>timer_fn = Some (), delay = None\<rparr>\<rparr>)"
  have "beacon_expires connected_example = Some st"
    by (simp add: beacon_expires_def connected_example_def st_def os_timer_disarm_def)
  moreover have "beacons connected_example = 0" "beacons st = 1"
    by (simp_all add: connected_example_def cloud_boot_def st_def beacons_def user_esp_platform_sent_beacon_def Let_def
        espconn_sent_def tell_def emit_def)
  ultimately have "beacon_run plain_pwm 1 st"
    using beacon_run.step [OF beacon_run.start, of plain_pwm Beacon_timer connected_example st] by (simp add: answered_def)
  with one_beacon_unanswered [OF this] show ?thesis by auto
qed

section \<open>Becoming active\<close>

lemma stored_event:
  "Net ''system_param_save_with_protect'' [uint (priv_param_start_sec (lamp st) + 1), 1]
     (devkey (esp_param st) @ token (esp_param st)) \<in> set (trace (esp (activated True st)))"
  by (auto simp: activated_def Let_def system_param_save_with_protect_def user_esp_platform_sent_def espconn_sent_def
      tell_def emit_def ask_def split: prod.split dest: sample_trace)

text \<open>
  C10. Cloud client, safety: a device that is not active becomes active by exactly one kind of event,
  a packet after which the buffer holds the activation label with 1 and the nonce of the device's
  last request; no other packet, expiry or call makes it active. The flag is in the flash by then.
\<close>

theorem active_only_by_nonce:
  assumes "cloud_step D e st = Some st'" "activeflag (esp_param st) \<noteq> 1"
  shows "(activeflag (esp_param st') = 1 \<longleftrightarrow> activates e st) \<and>
    (activates e st \<longrightarrow> (\<exists>sec. Net ''system_param_save_with_protect'' [sec, 1]
       (devkey (esp_param st) @ token (esp_param st)) \<in> set (trace (esp st'))))"
proof (cases "activates e st")
  case False
  with core_step [OF assms(1)] assms(2) show ?thesis by (auto simp: core_def)
next
  case True
  then obtain mem len s n k where a: "e = Packet mem len" "len \<noteq> 1460" "joined_text mem len st = Some s"
      "strstr_at s ACTIVATE_LABEL = Some n" "user_esp_platform_parse_nonce s = Some k"
      "of_int k = active_nonce st" "starts_with (drop (n + 19) s) ''1''"
    unfolding activates_def by blast
  have "user_esp_platform_recv_cb D mem len st = Some st'" using assms(1) a(1) by simp
  then show ?thesis
  proof (cases rule: packet_cases)
    case (handled b t st1)
    define st0 where "st0 = st\<lparr>beacon_timer := os_timer_disarm (beacon_timer st), pbuffer := b\<rparr>"
    have t: "t = s" using handled(2) a(3) by simp
    have "active_nonce st0 = active_nonce st" by (simp add: st0_def)
    then have "handle_message D mem b s st0 = Some (activated True st0)"
      using message_activates [OF handled(3) [unfolded t] a(4,5), of st0] a(6,7) by simp
    with handled(4) have "st1 = activated True st0" by (simp add: t st0_def)
    then show ?thesis using handled(5) core_activated [of True st0] stored_event [of st0] True
      by (auto simp: core_def st0_def)
  next
    case kept
    with a(2) show ?thesis by simp
  qed
qed

section \<open>Messages in packets\<close>

lemma text_at_pad: "CHR 0x00 \<notin> set s \<Longrightarrow> 0 < k \<Longrightarrow> text_at (s @ replicate k (CHR 0x00)) = Some s"
  by (cases k) (auto simp: text_at_def takeWhile_append)

lemma text_at_zeros: "text_at (replicate packet_size (CHR 0x00)) = Some []"
  using text_at_pad [of "[]" packet_size] by (simp add: packet_size_def)

text \<open>The buffer with a text in it.\<close>

definition holding :: "string \<Rightarrow> string" where
  "holding s = s @ replicate (packet_size - length s) (CHR 0x00)"

lemma text_holding:
  assumes "CHR 0x00 \<notin> set s"
  shows "text_at (holding s) = (if length s < packet_size then Some s else None)"
  using assms text_at_pad [of s "packet_size - length s"] by (auto simp: holding_def text_at_def)

lemma copy_holding:
  assumes "length s \<le> packet_size"
  shows "memcpy_to (holding s) (length s) p = (if length s + length p \<le> packet_size then Some (holding (s @ p)) else None)"
  using assms by (simp add: memcpy_to_def holding_def)

definition with_text :: "string \<Rightarrow> 'p cloud \<Rightarrow> 'p cloud" where
  "with_text s st = st\<lparr>beacon_timer := os_timer_disarm (beacon_timer st), pbuffer := holding s\<rparr>"

definition handled_packet :: "'p cloud \<Rightarrow> 'p cloud" where
  "handled_packet st = st\<lparr>pbuffer := replicate packet_size (CHR 0x00), beacon_timer := os_timer_arm BEACON_TIME (beacon_timer st)\<rparr>"

text \<open>The last packet of a message: what came before stands in the buffer.\<close>

lemma recv_text:
  assumes "pbuffer st = holding s" "CHR 0x00 \<notin> set (s @ p)" "length s < packet_size"
    and "p = take (unat len) mem" "unat len \<le> length mem" "len \<noteq> 1460"
  shows "user_esp_platform_recv_cb D mem len st =
    (if length (s @ p) < packet_size
     then map_option handled_packet (handle_message D mem (holding (s @ p)) (s @ p) (with_text (s @ p) st)) else None)"
proof -
  have "text_at (holding s) = Some s" using assms(2,3) by (simp add: text_holding)
  moreover have "\<not> length mem < unat len" using assms(5) by simp
  moreover have "text_at (holding (s @ p)) = (if length (s @ p) < packet_size then Some (s @ p) else None)"
    using text_holding [OF assms(2)] .
  ultimately show ?thesis
    using assms(3,6) by (simp add: user_esp_platform_recv_cb_def Let_def assms(1) copy_holding with_text_def
        handled_packet_def [abs_def] map_conv_bind_option o_def flip: assms(4))
qed

lemma serve_mem:
  assumes "strstr_at s ''timers'' = None"
  shows "serve D mem buf s st = serve D mem' buf s st"
  by (simp only: serve_def assms simp_thms if_False)

lemma message_mem:
  assumes "strstr_at s ''timers'' = None"
  shows "handle_message D mem buf s st = handle_message D mem' buf s st"
  by (simp only: handle_message_def serve_mem [OF assms, of D mem _ _ mem'])

text \<open>
  C20. Cloud client, equivalence: a message that comes in a packet of 1460 characters and a rest is
  handled like one that comes in one packet, if both fit the buffer and it is not about timers (that
  handler is given the last packet only). If they do not fit, the copy leaves the
  buffer or its text has no end.
\<close>

theorem two_packets_like_one:
  assumes "pbuffer st = replicate packet_size (CHR 0x00)" "length p1 = 1460" "CHR 0x00 \<notin> set (p1 @ p2)"
    and "0 < length p2" "length p2 < 60000" "length p2 \<noteq> 1460" "strstr_at (p1 @ p2) ''timers'' = None"
  shows "\<exists>st1. user_esp_platform_recv_cb D p1 1460 st = Some st1 \<and>
    user_esp_platform_recv_cb D p2 (of_nat (length p2)) st1 =
      (if length (p1 @ p2) < packet_size
       then user_esp_platform_recv_cb D (p1 @ p2) (of_nat (length (p1 @ p2))) st else None)"
proof -
  define st1 where "st1 = st\<lparr>beacon_timer := os_timer_arm BEACON_TIME (os_timer_disarm (beacon_timer st)), pbuffer := holding p1\<rparr>"
  have one: "user_esp_platform_recv_cb D p1 1460 st = Some st1"
    using assms(2) by (simp add: user_esp_platform_recv_cb_def Let_def assms(1) memcpy_to_def holding_def packet_size_def st1_def)
  have l2: "unat (of_nat (length p2) :: u16) = length p2" using assms(5) by (simp add: unat_of_nat take_bit_nat_eq_self)
  then have n2: "(of_nat (length p2) :: u16) \<noteq> 1460" using assms(6) by auto
  have two: "user_esp_platform_recv_cb D p2 (of_nat (length p2)) st1 =
      (if length (p1 @ p2) < packet_size
       then map_option handled_packet (handle_message D p2 (holding (p1 @ p2)) (p1 @ p2) (with_text (p1 @ p2) st1)) else None)"
    using l2 n2 assms(2,3) by (intro recv_text) (simp_all add: st1_def packet_size_def)
  have same: "with_text (p1 @ p2) st1 = with_text (p1 @ p2) st"
    by (simp add: with_text_def st1_def os_timer_disarm_def os_timer_arm_def)
  have "user_esp_platform_recv_cb D (p1 @ p2) (of_nat (length (p1 @ p2))) st =
      map_option handled_packet (handle_message D (p1 @ p2) (holding (p1 @ p2)) (p1 @ p2) (with_text (p1 @ p2) st))"
    if "length (p1 @ p2) < packet_size"
  proof -
    define n where "n = length (p1 @ p2)"
    have "n < 65536" using that by (simp add: n_def packet_size_def)
    then have l: "unat (of_nat n :: u16) = n" by (simp add: unat_of_nat take_bit_nat_eq_self)
    moreover have "n \<noteq> 1460" using assms(2,4) by (simp add: n_def)
    ultimately have "(of_nat n :: u16) \<noteq> 1460" by auto
    note w = this
    have "user_esp_platform_recv_cb D (p1 @ p2) (of_nat n) st = (if length ([] @ p1 @ p2) < packet_size
        then map_option handled_packet (handle_message D (p1 @ p2) (holding ([] @ p1 @ p2)) ([] @ p1 @ p2) (with_text ([] @ p1 @ p2) st))
        else None)"
      by (rule recv_text) (use assms(1,3) w l n_def in \<open>simp_all add: holding_def packet_size_def\<close>)
    then show ?thesis using that by (simp only: append_Nil n_def [symmetric] if_True)
  qed
  then show ?thesis using one two same message_mem [OF assms(7), of D p2 _ _ "p1 @ p2"] by (intro exI [of _ st1]) simp
qed

theorem two_packets_like_one_witness:
  "\<exists>st1. user_esp_platform_recv_cb plain_pwm (replicate 1460 (CHR ''a'')) 1460 connected_example = Some st1 \<and>
    user_esp_platform_recv_cb plain_pwm ''xy'' 2 st1 =
      user_esp_platform_recv_cb plain_pwm (replicate 1460 (CHR ''a'') @ ''xy'') 1462 connected_example"
proof -
  have "pbuffer connected_example = replicate packet_size (CHR 0x00)" by (simp add: connected_example_def cloud_boot_def)
  moreover have "strstr_at (replicate 1460 (CHR ''a'') @ ''xy'') ''timers'' = None"
    by (rule strstr_at_none) simp_all
  ultimately show ?thesis
    using two_packets_like_one [of connected_example "replicate 1460 (CHR ''a'')" "''xy''" plain_pwm]
    by (simp add: packet_size_def)
qed

definition activation :: string where
  "activation = ''{'' @ quoted ''activate_status'' @ '': 1, '' @ quoted ''nonce'' @ '': 77, '' @ quoted ''status'' @ '': 200}''"

lemma activation_facts:
  "length activation = 50" "CHR 0x00 \<notin> set activation" "strstr_at activation ACTIVATE_LABEL = Some 1"
  "user_esp_platform_parse_nonce activation = Some 77" "starts_with (drop 20 activation) ''1''"
  by code_simp+

theorem active_only_by_nonce_witness:
  "\<exists>st st'. activeflag (esp_param st) = 0 \<and> cloud_step plain_pwm (Packet activation 50) st = Some st' \<and>
    activeflag (esp_param st') = 1"
proof -
  define st where "st = connected_example\<lparr>active_nonce := 77, esp_param := (esp_param connected_example)\<lparr>activeflag := 0\<rparr>\<rparr>"
  have p: "pbuffer st = holding []" by (simp add: st_def connected_example_def cloud_boot_def holding_def)
  have j: "joined_text activation 50 st = Some activation"
    using text_holding [of "[]"] text_holding [OF activation_facts(2)] copy_holding [of "[]" activation] activation_facts(1)
    by (simp add: joined_text_def p packet_size_def)
  then have "activates (Packet activation 50) st"
    using activation_facts by (simp add: activates_def st_def)
  moreover obtain st' where s: "cloud_step plain_pwm (Packet activation 50) st = Some st'"
    using recv_text [OF p, of activation 50 activation plain_pwm] activation_facts
      message_activates [OF _ activation_facts(3,4), of "holding activation" "with_text activation st" plain_pwm activation]
      text_holding [OF activation_facts(2)]
    by (simp add: packet_size_def with_text_def st_def)
  moreover have "activeflag (esp_param st) = 0" by (simp add: st_def)
  ultimately show ?thesis using active_only_by_nonce [OF s] by (intro exI conjI) auto
qed

section \<open>Looking for an access point\<close>

abbreviation ap_answers :: "'p cloud \<Rightarrow> u32 list" where
  "ap_answers st \<equiv> feed (esp st) (Sdk ''wifi_station_ap_change'')"

text \<open>Whether the library agrees to one of the requests to come.\<close>

definition ap_agrees :: "'p cloud \<Rightarrow> bool" where
  "ap_agrees st \<longleftrightarrow> list_ex (\<lambda>v. (ucast v :: u8) = 1)
    (if ap_answers st = [] then [cur (esp st) (Sdk ''wifi_station_ap_change'')] else ap_answers st)"

abbreviation ap_request :: "u8 \<Rightarrow> event" where
  "ap_request i \<equiv> Net ''wifi_station_ap_change'' [uint i] []"

lemma try_ap_step:
  assumes "try_ap i st = (v, s)"
  shows "trace (esp s) = trace (esp st) @ [ap_request i]"
    "ap_answers st = [] \<Longrightarrow> ap_answers s = [] \<and> v = ucast (cur (esp st) (Sdk ''wifi_station_ap_change''))"
    "ap_answers st = x # xs \<Longrightarrow> v = ucast x \<and> ap_answers s = xs \<and> cur (esp s) (Sdk ''wifi_station_ap_change'') = x"
  using assms by (auto simp: try_ap_def ask8_def ask_def tell_def sample_def emit_def split: list.splits)

lemma change_loop_tries:
  "change_loop i st = Some s \<Longrightarrow> \<exists>k. trace (esp s) = trace (esp st) @ map (\<lambda>j. ap_request ((next_ap ^^ j) i)) [0..<Suc k]"
proof (induction i st arbitrary: s rule: change_loop.induct)
  case (1 i st)
  obtain v t where t: "try_ap i st = (v, t)" by force
  show ?case
  proof (cases "v = 1")
    case True
    with "1.prems" t try_ap_step(1) [OF t] show ?thesis
      by (subst (asm) change_loop.simps) (auto intro!: exI [of _ 0])
  next
    case False
    with "1.prems" t have go: "\<not> still (Sdk ''wifi_station_ap_change'') (esp st)" "change_loop (next_ap i) t = Some s"
      by (auto simp: change_loop.simps [of i st] split: if_splits)
    from "1.IH" [OF t [symmetric] False go] obtain k where
      "trace (esp s) = trace (esp t) @ map (\<lambda>j. ap_request ((next_ap ^^ j) (next_ap i))) [0..<Suc k]" by blast
    then show ?thesis using try_ap_step(1) [OF t]
      by (intro exI [of _ "Suc k"]) (simp add: upt_conv_Cons map_Suc_upt [symmetric] funpow_swap1 del: upt_Suc)
  qed
qed

lemma change_loop_returns: "change_loop i st \<noteq> None \<longleftrightarrow> ap_agrees st"
proof (induction i st rule: change_loop.induct)
  case (1 i st)
  obtain v t where t: "try_ap i st = (v, t)" by force
  show ?case
  proof (cases "ap_answers st")
    case Nil
    then show ?thesis using try_ap_step(2) [OF t]
      by (subst change_loop.simps) (simp add: t ap_agrees_def still_def)
  next
    case (Cons x xs)
    then have x: "v = ucast x" "ap_answers t = xs" "cur (esp t) (Sdk ''wifi_station_ap_change'') = x"
      using try_ap_step(3) [OF t] by simp_all
    show ?thesis
    proof (cases "v = 1")
      case True
      then show ?thesis using x Cons by (subst change_loop.simps) (simp add: t ap_agrees_def)
    next
      case False
      then have "change_loop (next_ap i) t \<noteq> None \<longleftrightarrow> ap_agrees t"
        using "1.IH" [OF t [symmetric] False] Cons by (simp add: still_def)
      moreover have "ap_agrees t = ap_agrees st" using x Cons False by (auto simp: ap_agrees_def)
      ultimately show ?thesis using False Cons by (subst change_loop.simps) (simp add: t still_def)
    qed
  qed
qed

lemma next_ap_small: "i < 4 \<Longrightarrow> (next_ap ^^ j) i < 4"
proof (induction j)
  case (Suc j)
  moreover have "next_ap x < 4" if "x < 4" for x
    using that by (simp add: next_ap_def AP_CACHE_NUMBER_def) unat_arith
  ultimately show ?case by simp
qed simp

lemma next_ap_plain: "i + 1 \<noteq> 4 \<Longrightarrow> next_ap i = i + 1"
  by (simp add: next_ap_def AP_CACHE_NUMBER_def)

lemma next_ap_large: "j < 252 \<Longrightarrow> (next_ap ^^ j) 4 = of_nat (4 + j)"
proof (induction j)
  case (Suc j)
  then have "(next_ap ^^ j) 4 = of_nat (4 + j)" by simp
  moreover have "unat (of_nat (Suc j) :: u8) = Suc j"
    using Suc.prems by (simp only: unat_of_nat) (simp add: take_bit_nat_eq_self)
  then have "(of_nat (Suc j) :: u8) \<noteq> 0" by (metis nat.distinct(1) unat_0)
  then have "(of_nat (4 + j) + 1 :: u8) \<noteq> 4" by simp
  ultimately show ?case using next_ap_plain [of "of_nat (4 + j)"] by simp
qed simp

text \<open>
  C26. Cloud client, termination: the search for another access point returns exactly when the library
  agrees to one of its requests, and then looks for an address 100 ms later. The numbers it asks for
  are those of \<open>next_ap\<close>, from the one behind the current number on: of the five in the cache, 4
  is never asked for unless the current one is 3, and from 3 on 251 numbers that do not exist
  come next.
\<close>

theorem ap_change_tries:
  assumes "ask8 ''wifi_station_get_current_ap_id'' st = (c, st0)" "c < AP_CACHE_NUMBER"
  defines "first \<equiv> (if c = AP_CACHE_NUMBER - 1 then 0 else c + 1)"
  shows "(case user_esp_platform_ap_change st of
       None \<Rightarrow> \<not> ap_agrees st0
     | Some st' \<Rightarrow> ap_agrees st0 \<and> client_timer st' = \<lparr>timer_fn = Some (F_check_ip 0), delay = Some 100\<rparr> \<and>
         (\<exists>k. trace (esp st') = trace (esp st) @ map (\<lambda>j. ap_request ((next_ap ^^ j) first)) [0..<Suc k])) \<and>
    (c \<noteq> 3 \<longrightarrow> (\<forall>j. (next_ap ^^ j) first < 4)) \<and>
    (c = 3 \<longrightarrow> (\<forall>j<252. (next_ap ^^ j) first = of_nat (4 + j)))"
proof -
  have e: "user_esp_platform_ap_change st =
      map_option (\<lambda>st. st\<lparr>device_recon_count := 0, client_timer := restart_timer (F_check_ip 0) 100 (client_timer st)\<rparr>)
        (change_loop first st0)"
    by (simp add: user_esp_platform_ap_change_def assms(1) first_def Let_def)
  have tr: "trace (esp st0) = trace (esp st)"
    using assms(1) by (auto simp: ask8_def ask_def split: prod.splits dest: sample_trace)
  have "first < 4" if "c \<noteq> 3"
    using assms(2) that by (simp add: first_def AP_CACHE_NUMBER_def) unat_arith
  moreover have "first = 4" if "c = 3" using that by (simp add: first_def AP_CACHE_NUMBER_def)
  moreover have "change_loop first st0 = None \<longleftrightarrow> \<not> ap_agrees st0" using change_loop_returns [of first st0] by blast
  ultimately show ?thesis
    using next_ap_small [of first] next_ap_large
    by (auto simp: e tr restart_timer_def os_timer_arm_def os_timer_setfn_def os_timer_disarm_def
        intro!: change_loop_tries [of first st0, unfolded tr] simp del: upt_Suc split: option.split)
qed

definition aps_example :: "(u32 \<times> (u8 \<Rightarrow> u32)) cloud" where
  "aps_example = connected_example\<lparr>esp := mach0
    \<lparr>cur := (\<lambda>_. 0)(Sdk ''wifi_station_get_current_ap_id'' := 2),
     feed := (\<lambda>_. [])(Sdk ''wifi_station_ap_change'' := [0, 0, 1])\<rparr>\<rparr>"

theorem ap_change_tries_witness:
  "\<exists>st'. user_esp_platform_ap_change aps_example = Some st' \<and> delay (client_timer st') = Some 100 \<and> (\<forall>j. (next_ap ^^ j) 3 < 4)"
proof -
  have a: "ask8 ''wifi_station_get_current_ap_id'' aps_example = (2, aps_example)"
    by (simp add: ask8_def ask_def aps_example_def sample_def)
  have c: "(2 :: u8) < AP_CACHE_NUMBER" "\<not> (2 :: u8) = AP_CACHE_NUMBER - 1" "(2 :: u8) \<noteq> 3"
    by (simp_all add: AP_CACHE_NUMBER_def)
  have "ap_agrees aps_example" by (simp add: ap_agrees_def aps_example_def)
  with ap_change_tries [OF a c(1)] c(2,3) show ?thesis
    by (auto split: option.splits)
qed

section \<open>A silent server\<close>

lemma armed_by_reset: "delay (client_timer (snd (user_esp_platform_reset_mode st))) = Some 5000"
  by (simp add: user_esp_platform_reset_mode_def Let_def restart_timer_def os_timer_arm_def split: prod.split)

lemma check_ip_waits: "delay (client_timer (user_esp_platform_check_ip f st)) \<noteq> None"
  by (auto simp: user_esp_platform_check_ip_def Let_def armed_by_reset os_timer_arm_def user_esp_platform_start_dns_def
      restart_timer_def split: prod.split)



end
