(* ===== verification/CloudLamp.thy ===== *)
theory CloudLamp
  imports CloudRun
begin

text \<open>
  A request for the lamp, from the packet of the server to the end of the fade: IotCloud reads it,
  Light fades. The white channels are read only when something follows them in the message.
\<close>

section \<open>Reading the values\<close>

lemma not_in_digits: "\<not> is_digit c \<Longrightarrow> c \<notin> set (digits n)"
  using digits_are_digits by blast

lemma letters_not_digits [simp]:
  "CHR ''x'' \<notin> set (digits n)" "CHR ''y'' \<notin> set (digits n)" "CHR ''z'' \<notin> set (digits n)"
  "CHR ''k'' \<notin> set (digits n)" "CHR ''l'' \<notin> set (digits n)" "CHR '','' \<notin> set (digits n)"
  by (simp_all add: not_in_digits is_digit_def)

lemma read_value_digits:
  assumes "c \<notin> set p" "n < 10 ^ 9"
  shows "read_value c (p @ c # CHR 0x22 # CHR '':'' # CHR '' '' # digits n @ CHR '','' # r) = Some (Some (of_nat n))"
proof -
  let ?d = "p @ c # CHR 0x22 # CHR '':'' # CHR '' '' # digits n @ CHR '','' # r"
  have f: "strstr_at ?d [c] = Some (length p)" "strstr_at (digits n @ CHR '','' # r) '','' = Some (length (digits n))"
    using strstr_at_skip [of "[c]" p] strstr_at_skip [of "'',''" "digits n" r] assms(1) by simp_all
  have l: "length (digits n) \<le> 9" using length_digits [of n 8] assms(2) by simp
  then have "text_at (digits n @ replicate (10 - length (digits n)) (CHR 0x00)) = Some (digits n)"
    by (intro text_at_pad digits_no_zero) simp
  then show ?thesis
    using l f atoi_digits [of "[]" n] by (simp add: read_value_def memcpy_to_def)
qed

lemma read_value_last:
  assumes "c \<notin> set p" "CHR '','' \<notin> set r"
  shows "read_value c (p @ c # CHR 0x22 # CHR '':'' # CHR '' '' # r) = Some None"
  using assms strstr_at_skip [of "[c]" p] strstr_at_none [of "'',''" r] by (simp add: read_value_def)

text \<open>The datapoint as the server writes it, without or with a comma behind the last value.\<close>

definition datapoint_text :: "nat \<Rightarrow> nat \<Rightarrow> nat \<Rightarrow> nat \<Rightarrow> nat \<Rightarrow> bool \<Rightarrow> string" where
  "datapoint_text x y z k l comma =
    ''{'' @ quoted ''datapoint'' @ '': {'' @ quoted ''x'' @ '': '' @ digits x @ '','' @ quoted ''y'' @ '': '' @ digits y @ '','' @
    quoted ''z'' @ '': '' @ digits z @ '','' @ quoted ''k'' @ '': '' @ digits k @ '','' @ quoted ''l'' @ '': '' @ digits l @
    (if comma then '','' else []) @ ''}}''"

lemma read_datapoint_values:
  assumes "\<forall>v \<in> {x, y, z, k, l}. v < 10 ^ 9"
  shows "read_value (CHR ''x'') (datapoint_text x y z k l comma) = Some (Some (of_nat x))"
    "read_value (CHR ''y'') (datapoint_text x y z k l comma) = Some (Some (of_nat y))"
    "read_value (CHR ''z'') (datapoint_text x y z k l comma) = Some (Some (of_nat z))"
    "read_value (CHR ''k'') (datapoint_text x y z k l comma) = Some (Some (of_nat k))"
    "read_value (CHR ''l'') (datapoint_text x y z k l comma) = Some (if comma then Some (of_nat l) else None)"
proof -
  define px where "px = ''{'' @ quoted ''datapoint'' @ '': {'' @ [CHR 0x22]"
  define py where "py = px @ CHR ''x'' # CHR 0x22 # CHR '':'' # CHR '' '' # digits x @ [CHR '','', CHR 0x22]"
  define pz where "pz = py @ CHR ''y'' # CHR 0x22 # CHR '':'' # CHR '' '' # digits y @ [CHR '','', CHR 0x22]"
  define pk where "pk = pz @ CHR ''z'' # CHR 0x22 # CHR '':'' # CHR '' '' # digits z @ [CHR '','', CHR 0x22]"
  define pl where "pl = pk @ CHR ''k'' # CHR 0x22 # CHR '':'' # CHR '' '' # digits k @ [CHR '','', CHR 0x22]"
  note parts = px_def py_def pz_def pk_def pl_def quoted_def
  let ?d = "datapoint_text x y z k l comma"
  have "\<exists>r. ?d = px @ CHR ''x'' # CHR 0x22 # CHR '':'' # CHR '' '' # digits x @ CHR '','' # r"
    "\<exists>r. ?d = py @ CHR ''y'' # CHR 0x22 # CHR '':'' # CHR '' '' # digits y @ CHR '','' # r"
    "\<exists>r. ?d = pz @ CHR ''z'' # CHR 0x22 # CHR '':'' # CHR '' '' # digits z @ CHR '','' # r"
    "\<exists>r. ?d = pk @ CHR ''k'' # CHR 0x22 # CHR '':'' # CHR '' '' # digits k @ CHR '','' # r"
    by (simp_all add: datapoint_text_def parts)
  note split4 = this
  have l: "?d = pl @ CHR ''l'' # CHR 0x22 # CHR '':'' # CHR '' '' # digits l @ (if comma then '','' else []) @ ''}}''"
    by (simp add: datapoint_text_def parts)
  have no: "CHR ''x'' \<notin> set px" "CHR ''y'' \<notin> set py" "CHR ''z'' \<notin> set pz" "CHR ''k'' \<notin> set pk" "CHR ''l'' \<notin> set pl"
    by (simp_all add: parts)
  show "read_value (CHR ''x'') ?d = Some (Some (of_nat x))"
    using split4(1) assms no(1) by (auto simp: read_value_digits)
  show "read_value (CHR ''y'') ?d = Some (Some (of_nat y))"
    using split4(2) assms no(2) by (auto simp: read_value_digits)
  show "read_value (CHR ''z'') ?d = Some (Some (of_nat z))"
    using split4(3) assms no(3) by (auto simp: read_value_digits)
  show "read_value (CHR ''k'') ?d = Some (Some (of_nat k))"
    using split4(4) assms no(4) by (auto simp: read_value_digits)
  show "read_value (CHR ''l'') ?d = Some (if comma then Some (of_nat l) else None)"
    using assms no(5) read_value_digits [of "CHR ''l''" pl l "''}}''"] read_value_last [of "CHR ''l''" pl "digits l @ ''}}''"]
    unfolding l by (cases comma) simp_all
qed

lemma datapoint_read:
  assumes "\<forall>v \<in> {x, y, z, k, l}. v < 10 ^ 9"
  shows "read_datapoint (datapoint_text x y z k l comma) st =
    Some (st\<lparr>rr := of_nat y, gg := of_nat z, bb := of_nat k, cw := (if comma then of_nat l else cw st),
      ww := (if comma then of_nat l else ww st), light_period := of_nat x\<rparr>)"
  by (cases comma) (simp_all add: read_datapoint_def update_value_def read_datapoint_values [OF assms])

section \<open>From the packet to the lamp\<close>

text \<open>A message whose datapoint is the one given, and which is a POST for it and nothing else.\<close>

definition lamp_request :: "string \<Rightarrow> int \<Rightarrow> string \<Rightarrow> bool" where
  "lamp_request s nonce dp \<longleftrightarrow> CHR 0x00 \<notin> set s \<and> strstr_at s ACTIVATE_LABEL = None \<and>
    strstr_at s (quoted ''action'' @ '': '' @ quoted ''sys_upgrade'') = None \<and>
    strstr_at s (quoted ''action'' @ '': '' @ quoted ''sys_reboot'') = None \<and>
    strstr_at s ''/v1/device/timers/'' = None \<and>
    (case strstr_at s (quoted ''method'' @ '': '') of None \<Rightarrow> False | Some n \<Rightarrow> starts_with (drop (n + 11) s) ''POST'') \<and>
    strstr_at s (quoted ''path'' @ '': '' @ quoted ''/v1/datastreams/light/datapoint/'') \<noteq> None \<and>
    (case (strstr_at s (''{'' @ quoted ''datapoint'' @ '': ''), strstr_at s ''}}'') of
       (Some n, Some e) \<Rightarrow> n \<le> e \<and> take (e - n + 2) (drop n s) = dp
     | _ \<Rightarrow> False) \<and>
    user_esp_platform_parse_nonce s = Some nonce"

lemma datapoint_copied:
  assumes "CHR 0x00 \<notin> set s" "length s < packet_size" "strstr_at s ''}}'' = Some e" "n \<le> e"
  shows "copy_datapoint (holding s) s n = Some (take (e - n + 2) (drop n s))"
proof -
  have e: "e + 2 \<le> length s" using strstr_at_Some [OF assms(3)] by simp
  define len where "len = e - n + 2"
  have "(of_int (int e - int n) + 2 :: u16) = of_nat len" using assms(4) by (simp add: len_def of_nat_diff)
  moreover have "len < 65536" using e assms(2) by (simp add: len_def packet_size_def)
  then have "unat (of_nat len :: u16) = len" by (simp add: unat_of_nat take_bit_nat_eq_self)
  ultimately have l: "unat (of_int (int e - int n) + 2 :: u16) = len" by simp
  have "n + len \<le> length s" using e assms(4) by (simp add: len_def)
  moreover then have t: "take len (drop n (holding s)) = take len (drop n s)" by (simp add: holding_def)
  moreover have "CHR 0x00 \<notin> set (take len (drop n s))" using assms(1) by (auto dest: in_set_takeD in_set_dropD)
  then have "text_at (take len (drop n s) @ [CHR 0x00]) = Some (take len (drop n s))"
    using text_at_pad [of _ 1] by simp
  moreover have "length s \<le> length (holding s)" by (simp add: holding_def)
  ultimately show ?thesis
    unfolding len_def [symmetric] copy_datapoint_def assms(3) option.case l Let_def by simp
qed

text \<open>What the request makes of the lamp.\<close>

definition lamp_awake :: "'p light \<Rightarrow> 'p light" where
  "lamp_awake st = (if light_sleep_flg st = 1 then (say_l (SET_SLEEP_TYPE MODEM_SLEEP_T) st)\<lparr>light_sleep_flg := 0\<rparr> else st)"

lemma lamp_awake_inv: "light_inv D st \<Longrightarrow> light_inv D (lamp_awake st)"
  by (cases "change_finish st") (simp_all add: lamp_awake_def say_l_def light_inv_def ring_ok_def aims_ok_def at_aim_def lamp_coherent_def five_def got_def saved_duty_def)

lemma set_info_lamp:
  assumes "lamp_request s nonce (datapoint_text x y z k l comma)" "length s < packet_size" "\<forall>v \<in> {x, y, z, k, l}. v < 10 ^ 9"
  defines "white \<equiv> (if comma then of_nat l else 0 :: u32)"
  shows "\<exists>st'. user_esp_platform_set_info D (holding s) s st = Some st' \<and>
    (\<exists>la. lamp st' = light_set_aim D (of_nat y) (of_nat z) (of_nat k) white white (of_nat x) la \<and> la \<in> {lamp st, lamp_awake (lamp st)}) \<and>
    trace (esp st') = trace (esp st) @ [Net ''espconn_sent'' [] (RESPONSE_FRAME nonce (sint (user_light_get_period (lamp st')))
      (sint (user_light_get_duty LIGHT_RED (lamp st'))) (sint (user_light_get_duty LIGHT_GREEN (lamp st')))
      (sint (user_light_get_duty LIGHT_BLUE (lamp st'))) (sint (user_light_get_duty LIGHT_COLD_WHITE (lamp st'))))]"
proof -
  obtain n e where ne: "strstr_at s (''{'' @ quoted ''datapoint'' @ '': '') = Some n" "strstr_at s ''}}'' = Some e" "n \<le> e"
      "take (e - n + 2) (drop n s) = datapoint_text x y z k l comma"
    and s: "CHR 0x00 \<notin> set s" "strstr_at s (quoted ''path'' @ '': '' @ quoted ''/v1/datastreams/light/datapoint/'') \<noteq> None"
      "user_esp_platform_parse_nonce s = Some nonce"
    using assms(1) unfolding lamp_request_def by (auto simp only: prod.case split: option.split_asm)
  have dp: "copy_datapoint (holding s) s n = Some (datapoint_text x y z k l comma)"
    using datapoint_copied [OF s(1) assms(2) ne(2,3)] ne(4) by simp
  define st0 where "st0 = st\<lparr>ww := 0, cw := 0\<rparr>"
  define st1 where "st1 = st0\<lparr>rr := of_nat y, gg := of_nat z, bb := of_nat k, cw := white, ww := white, light_period := of_nat x\<rparr>"
  define la where "la = (if (rr st1 OR gg st1 OR bb st1 OR cw st1 OR ww st1) = 0 then lamp st else lamp_awake (lamp st))"
  have "read_datapoint (datapoint_text x y z k l comma) st0 = Some st1"
    using datapoint_read [OF assms(3), of comma st0] by (simp add: st1_def st0_def white_def)
  moreover have "(if (rr st1 OR gg st1 OR bb st1 OR cw st1 OR ww st1) = 0 then st1
      else if light_sleep_flg (lamp st1) = 1
           then st1\<lparr>lamp := (say_l (SET_SLEEP_TYPE MODEM_SLEEP_T) (lamp st1))\<lparr>light_sleep_flg := 0\<rparr>\<rparr> else st1) = st1\<lparr>lamp := la\<rparr>"
    by (simp add: la_def lamp_awake_def st1_def st0_def)
  ultimately have "user_esp_platform_set_info D (holding s) s st =
      user_esp_platform_get_info s (st1\<lparr>lamp := light_set_aim D (of_nat y) (of_nat z) (of_nat k) white white (of_nat x) la\<rparr>)"
    unfolding user_esp_platform_set_info_def st0_def [symmetric] Let_def
    by (simp only: s(2) if_False ne(1) option.case dp Option.bind.simps) (simp add: st1_def)
  moreover have "la \<in> {lamp st, lamp_awake (lamp st)}" by (simp add: la_def)
  ultimately show ?thesis
    by (auto simp: user_esp_platform_get_info_def s(3) Let_def espconn_sent_def tell_def emit_def st1_def st0_def
        PWM_CHANNEL_def LIGHT_COLD_WHITE_def)
qed

lemma request_served:
  assumes "lamp_request s nonce dp"
  shows "handle_message D mem buf s st =
    (case strstr_at s (quoted ''method'' @ '': '') of Some n \<Rightarrow>
       if stands_at buf (n + 11) ''GET'' then user_esp_platform_get_info s st
       else if stands_at buf (n + 11) ''POST'' then user_esp_platform_set_info D buf s st else Some st
     | None \<Rightarrow> None)"
proof -
  obtain n where "strstr_at s ACTIVATE_LABEL = None" "strstr_at s (quoted ''action'' @ '': '' @ quoted ''sys_upgrade'') = None"
    "strstr_at s (quoted ''action'' @ '': '' @ quoted ''sys_reboot'') = None" "strstr_at s ''/v1/device/timers/'' = None"
    "strstr_at s (quoted ''method'' @ '': '') = Some n"
    using assms unfolding lamp_request_def by (auto simp only: split: option.split_asm)
  note r = this
  show ?thesis
    unfolding handle_message_def serve_def ACTIVATE_LABEL_def [symmetric]
    by (simp only: r option.case simp_thms if_False)
qed

lemma post_not_get: "starts_with t ''POST'' \<Longrightarrow> \<not> starts_with t ''GET''"
  by (cases t) (auto simp: starts_with_def)

lemma post_stands:
  assumes "lamp_request s nonce dp" "length s < packet_size"
  obtains n where "strstr_at s (quoted ''method'' @ '': '') = Some n"
    "stands_at (holding s) (n + 11) ''POST''" "\<not> stands_at (holding s) (n + 11) ''GET''"
proof -
  obtain n where n: "strstr_at s (quoted ''method'' @ '': '') = Some n" "starts_with (drop (n + 11) s) ''POST''"
    "CHR 0x00 \<notin> set s"
    using assms(1) unfolding lamp_request_def by (auto simp only: split: option.split_asm)
  have "n + 11 \<le> length s"
  proof (rule ccontr)
    assume "\<not> n + 11 \<le> length s"
    then have "drop (n + 11) s = []" by simp
    with n(2) show False by (simp add: starts_with_def)
  qed
  moreover have "text_at (holding s) = Some s" using text_holding [OF n(3)] assms(2) by simp
  ultimately have "stands_at (holding s) (n + 11) ''POST'' = starts_with (drop (n + 11) s) ''POST''"
    "stands_at (holding s) (n + 11) ''GET'' = starts_with (drop (n + 11) s) ''GET''"
    by (intro stands_at_text; simp)+
  with n(2) post_not_get [OF n(2)] show ?thesis by (intro that [OF n(1)]) simp_all
qed


definition sample_request :: string where
  "sample_request = ''{'' @ quoted ''body'' @ '': '' @ datapoint_text 1000 500 0 7 9 False @ '', '' @ quoted ''nonce'' @ '': 12, '' @
    quoted ''path'' @ '': '' @ quoted ''/v1/datastreams/light/datapoint/'' @ '', '' @ quoted ''method'' @ '': '' @ quoted ''POST'' @ ''}''"

lemma sample_request_ok: "lamp_request sample_request 12 (datapoint_text 1000 500 0 7 9 False)" "length sample_request = 141"
  by code_simp+


section \<open>Where the code goes wrong\<close>

text \<open>A POST for something else, before any datapoint was read, asks the lamp for darkness and a period of 0.\<close>

lemma post_elsewhere_darkens:
  assumes "strstr_at s (quoted ''path'' @ '': '' @ quoted ''/v1/datastreams/light/datapoint/'') = None"
    and "user_esp_platform_parse_nonce s = Some nonce" "rr st = 0" "gg st = 0" "bb st = 0" "light_period st = 0"
  shows "\<exists>st'. user_esp_platform_set_info D buf s st = Some st' \<and> lamp st' = light_set_aim D 0 0 0 0 0 0 (lamp st)"
  unfolding user_esp_platform_set_info_def Let_def assms(1)
  using assms(2-) by (simp add: user_esp_platform_get_info_def Let_def espconn_sent_def tell_def)

text \<open>The name of the program to load has nine characters and a zero byte; its array has nine.\<close>

lemma upgrade_leaves_array:
  assumes "still (Sdk ''system_upgrade_userbin_check'') (esp st)" "cur (esp st) (Sdk ''system_upgrade_userbin_check'') \<in> {0, 1}"
  shows "user_esp_platform_upgrade_begin server st = None"
proof -
  have "ask8 ''system_upgrade_userbin_check'' st = (ucast (cur (esp st) (Sdk ''system_upgrade_userbin_check'')), st)"
    using assms(1) by (simp add: ask8_def ask_def)
  with assms(2) show ?thesis
    by (auto simp: user_esp_platform_upgrade_begin_def Let_def memcpy_to_def)
qed

end
