(* ===== verification/Spec2Isabelle.thy ===== *)
theory Spec2Isabelle
  imports Gpio16 HwTimer I2cMaster Key UartIsr Spi SpiInterface SpiOverlap SdioInv UserMain DhtSafe OraiMain IotWeb IotFind IotSensor CloudLamp
begin

text \<open>
  The program. The repository holds the firmware of an ESP8266 course: a sensor node built on the
  vendor's non-OS SDK. Its own code is the driver library (development/driver, copied unchanged
  to driver_lib and orai_munka/driver), a first application (development/user) that reads a DHT22
  and an HC-SR04 sensor, prints the readings and keeps a UDP heart beat and a TCP connection, and
  a second application (orai_munka/user) that measures when a daemon asks for it over TCP.
  Interrupt handlers, timer callbacks, network callbacks and a main task run to completion one
  after the other; they share static objects and the registers.

  The machine (Prelude, Machine: eagle_soc.h, gpio.h, ets_sys.h). A peripheral register and every
  call into the binary SDK is a source with a current value and a finite feed of values the
  environment will put there, or an event in a trace. Nothing is assumed of the hardware but what
  a theorem names. A loop that polls a register is \<open>None\<close> when no value of the feed and not the
  resting value ends it, so it needs no fuel. A fault (an access outside an array or through a null
  pointer) is \<open>None\<close> too. C integers are words of their width; a \<open>float\<close> or \<open>double\<close> is a rational and
  its operations round to nearest even (CFloat), without infinities, which the values here do not
  reach, and exactly as IEEE for numbers above \<open>2 ^ -100\<close>.

  The drivers. Gpio16 (gpio16.c), HwTimer (hw_timer.c), I2cMaster (i2c_master.c), Key (key.c).
  UartReg, Uart, UartBuf and UartIsr (uart.c, uart.h): registers and enumerations, line set-up and
  polled output, the ring buffers, the interrupt handler and its task. SpiReg, Spi (spi.c),
  SpiInterface (spi_interface.c) and SpiOverlap (spi_overlap.c). SlcReg, SdioSlv, SdioBufs and
  SdioInv (sdio_slv.c): the status word, the driver on an explicit heap of buffers, the lists as
  byte streams, the invariant and the properties.

  The applications. AppState holds the static objects of the first one and the C library it uses;
  Dht (dht.c), DhtSafe (its runs), Hcsr04 (hcsr04.c, uni-sensor.c), UserNet (utils.c,
  utils-heartbeat.c, daemon-handle.c), UserMain (user_main.c, tasktest.c, time_measure.c).
  OraiDht (dht.c, hcsr04.c, interrupts.c), OraiNet (daemon-handle.c, heartbeat.c) and OraiMain
  (utils.c, user_main.c) model orai_munka/user; a name both programs have carries the suffix \<open>_o\<close>
  there. A definition has the name of its C function and runs through its statements in order,
  the state of the file being a record that is passed along.

  The demonstration program of the SDK vendor (examples/IoT_Demo), in its build for the lamp. Light
  (user_light.c, user_light_adj.c) holds the lamp: stored parameters, the ring of settings, the fade
  and the start-up; LightFade one round of a fade, the distance to the aim and the invariant;
  LightRun the runs. IotCloud (user_esp_platform.c) is the client of the cloud server, with the lamp, the
  timers and the connection in one record, what the SDK returns coming from the machine; CloudRun
  has its runs, CloudLamp a request followed into the lamp. IotTimer
  (user_esp_platform_timer.c) is the list of timers the server sends, IotWeb (user_webserver.c) how a request
  packet is checked, saved and read, IotFind (user_devicefind.c) how the device is found in its network; they rest
  on CText, the C library on strings and memory. IotSensor (user_sensor.c) reads the humidity sensor of another
  build over the I2C driver. The PWM library is binary, so its functions are an argument of the lamp and
  \<open>pwm_laws\<close> states what pwm.h promises of them; as no source provides them this contract is a
  hypothesis and not a locale, and \<open>plain_pwm\<close> shows that it can hold. The fade and the handing
  over to the next setting call each other; each round takes a setting out of the ring, which is
  the measure. 154 expiries end a fade because a round takes a sixteenth off every distance and
  222222 is the largest duty.

  Interfaces, as locales with an interpretation on the code's own operations: \<open>byte_queue\<close> (UartBuf:
  the transmit and the receive ring), \<open>char_sink\<close> (Uart: the raw and the translating output of both
  ports), \<open>supervised_reading\<close> and its extension \<open>retried_reading\<close> (Supervise: the timer supervision
  of both DHT drivers and the retry of both main tasks), \<open>echo_sensor\<close> (Hcsr04: both ultrasonic
  drivers).

  What is shown. I2C: any sequence of operations refines the bus symbols of a specification, its
  levels are held long enough, writing and reading back is the identity. Keys: on every run the
  callbacks are accounted for by the presses, and no key becomes dead. UART: the rings are bounded
  queues through every wrap-around, the handler serves one cause, texts arrive translated, waits
  end, divisors are accurate. SPI: what a transfer loads and returns, set-up, the slave handler;
  device selection keeps an invariant over the shared controller; reading the flash tiles the range.
  SDIO: from every state of the invariant every run refines a byte queue and a transfer under way
  drains. Sensors: a frame is decoded, a silent sensor is given up after ten expiries and asked
  again, the array is never left, distances and printed values are within stated bounds. Second
  application: its byte-wide driver agrees with the first, the protocol with the daemon never sends
  an unasked reading, and (in this theory) a request is served from the network callback to the
  message sent. Lamp: from every reachable state a new aim is reached within 154 expiries, the
  ring never refuses one, and a lamp saved dim stays dark. Cloud client: on every run beacons and
  answers alternate and only the right nonce makes the device active; a message in two packets is
  handled like one; a silent server is dropped; the search for an access point returns when the
  library agrees; a request of the server reaches the lamp at the end of the fade. Timers: the
  waiting times end at the moments named, the nearest is waited for, splitting undoes joining. Finding the
  device: which packets are answered, and when the answer fits. Sensor: a reading on the bus and the
  values uploaded. Web: a
  whole packet is accepted and its parts are read, or written beyond their fields. The lemmas \<open>print_2_1\<close>, \<open>answer_overflow\<close>, \<open>reconnect_faults\<close>, \<open>second_request_blocks\<close>,
  \<open>key_init_output_mask\<close>, \<open>int_disable_keeps_enable_bit\<close>, \<open>cs_2_stays\<close>, \<open>hspi_flash_read_huge_length\<close>,
  \<open>sdio_load_stalls\<close>, \<open>sdio_init_twice\<close>, \<open>light_red_only_reported\<close>, \<open>web_split_body_lost\<close>, \<open>post_elsewhere_darkens\<close> and
  \<open>upgrade_leaves_array\<close> show where the code does not do what it means to.

  Abstractions. A message of \<open>os_printf\<close> is recorded without its line end. Callbacks that a driver
  calls through a pointer are recorded, not executed; registering one is an event. An interrupt
  does not interleave with the statements of the code it interrupts, except where a theory models
  the interruption point itself. Pointers into a buffer are offsets, objects at fixed addresses
  have a constant address.

  Not modelled. The SDK, boot ROM and espconn library are binary. lwIP, mbedTLS and the other
  examples are third-party code and demonstrations of the vendor that the course program does not
  build; of IoT_Demo the JSON tree and the answers of the web server are left out, and what is not
  compiled for the lamp: the plug, the key, LED and sleep of the sensor build, the current limit of the lamp;
  driver_lib and orai_munka/driver repeat development/driver. \<open>spi_test_init\<close> calls a function
  with too few arguments and \<open>dhtTest\<close> prints a float as an integer; both are undefined in C.
  Makefiles, the Arduino sketch and the daemon in Python are not C.
\<close>

section \<open>From the sensor to the console\<close>



section \<open>From the request of the daemon to the answer\<close>

text \<open>The state of the first driver that corresponds to a reading in progress of the second.\<close>

definition dev_view :: "orai \<Rightarrow> app" where
  "dev_view st = app0\<lparr>DhtHandle := (DhtHandle app0)\<lparr>state := dev_state (state_o (DhtHandle_o st))\<rparr>,
     DhtTimeOffset := DhtTimeOffset_o st, hw := hw_o st\<rparr>"

lemma view_alike:
  "DhtResultIdx_o st = 0 \<Longrightarrow> DhtResult_o st = replicate 42 0 \<Longrightarrow> alike st (dev_view st)"
  by (simp add: alike_def dev_view_def app0_def same_world_def)

lemma timer_ready:
  "DhtResultIdx_o (dhtTimerCbk st) = 0" "DhtResult_o (dhtTimerCbk st) = replicate 42 0"
  by (simp_all add: dhtTimerCbk_def dhtGpioCbkSetup_def Let_def split: prod.split)

text \<open>A frame that the second driver receives after the expiry of its timer.\<close>

lemma orai_frame:
  assumes "DhtResultIdx_o st = 0" "DhtResult_o st = replicate 42 0" "edge_pending (hw_o st)"
    "feed (hw_o st) (Reg WDEW_ADDR) = clock_reads ts" "length ts = 42" "frame_of bs (intervals (DhtTimeOffset_o st) ts)"
    "\<forall>x\<in>set (drop 2 (intervals (DhtTimeOffset_o st) ts)). x < 256"
  obtains st' where "orai_edges 42 st = Some st'" "state_o (DhtHandle_o st') = COMPL_o" "apart st st'"
    "DhtTemp_o (DhtHandle_o st') = dht_temp (raw16 (bs ! 2) (bs ! 3))" "DhtHum_o (DhtHandle_o st') = dht_hum (raw16 (bs ! 0) (bs ! 1))"
proof -
  have v: "hw (dev_view st) = hw_o st" "DhtTimeOffset (dev_view st) = DhtTimeOffset_o st"
    "DhtResultIdx (dev_view st) = 0" "length (DhtResult (dev_view st)) = 42"
    by (simp_all add: dev_view_def app0_def)
  from edges_decode [of "dev_view st" ts bs] assms(3-6) v obtain d' where
    d': "dht_edges 42 (dev_view st) = Some d'" "DhtResult d' = intervals (DhtTimeOffset_o st) ts" "DhtResultIdx d' = 42"
      "state (DhtHandle d') = COMPL" "DhtTemp (DhtHandle d') = dht_temp (raw16 (bs ! 2) (bs ! 3))"
      "DhtHum (DhtHandle d') = dht_hum (raw16 (bs ! 0) (bs ! 1))"
    by auto
  from edges_alike_values [OF view_alike [OF assms(1,2)] _ v(4) d'(1,3)] d' assms(7) v(3) obtain st' where
    "orai_edges 42 st = Some st'" "DhtTemp_o (DhtHandle_o st') = DhtTemp (DhtHandle d')"
    "DhtHum_o (DhtHandle_o st') = DhtHum (DhtHandle d')" "dev_state (state_o (DhtHandle_o st')) = state (DhtHandle d')"
    by auto
  then show ?thesis using d' edges_apart by (intro that) auto
qed


definition request_example :: orai where
  "request_example = orai0\<lparr>hw_o := mach0\<lparr>
     cur := (cur mach0)(Reg (GPIO_BASE + GPIO_STATUS_ADDRESS) := BIT DHT_PIN),
     feed := (feed mach0)(Reg WDEW_ADDR := 0 # clock_reads example_times)\<rparr>\<rparr>"


end
